(* ===== verification/Prelude.thy ===== *)
theory Prelude
  imports Main "HOL-Library.Word" "HOL-Library.AList"
begin

text \<open>
  Shared vocabulary of the development: the machine types of the Go sources, big-endian
  16-bit access to byte slices (\<open>encoding/binary\<close>), reading from a connection
  (\<open>io.ReadFull\<close>), and Go maps.

  \<^item> a Go \<open>byte\<close> is an \<open>8 word\<close>, \<open>uint16\<close>, \<open>uint32\<close>, \<open>uint64\<close> are words of that width;
  \<^item> a \<open>[]byte\<close> is a list of bytes, a Go \<open>string\<close> is a HOL \<open>string\<close> (a list of 8-bit
    characters, as Go strings are byte sequences);
  \<^item> \<open>time.Time\<close> and \<open>time.Duration\<close> are integers counting nanoseconds from Go's zero
    time, so \<open>IsZero\<close> is \<open>t = 0\<close> and \<open>a.Before(b)\<close> is \<open>a < b\<close>;
  \<^item> a Go map is an association list with distinct keys, with \<open>AList.update\<close> and
    \<open>AList.delete\<close> as assignment and \<open>delete\<close>.
\<close>

unbundle bit_operations_syntax

section \<open>Machine types\<close>

type_synonym byte = "8 word"
type_synonym u16 = "16 word"
type_synonym u32 = "32 word"
type_synonym u64 = "64 word"
type_synonym bytes = "byte list"
type_synonym time = int

type_synonym ip4 = "byte \<times> byte \<times> byte \<times> byte"

text \<open>Go's \<open>len\<close>, an \<open>int\<close>.\<close>

abbreviation len :: "'a list \<Rightarrow> int" where
  "len xs \<equiv> int (length xs)"

named_theorems byte_simps \<open>reading and writing big-endian fields\<close>
named_theorems table_simps \<open>reading and writing Go maps\<close>

abbreviation second :: time where
  "second \<equiv> 1000000000"

abbreviation minute :: time where
  "minute \<equiv> 60 * second"

section \<open>Big-endian fields\<close>

definition be16 :: "byte \<Rightarrow> byte \<Rightarrow> u16" where
  "be16 hi lo = push_bit 8 (ucast hi) OR ucast lo"

definition get16 :: "bytes \<Rightarrow> nat \<Rightarrow> u16" where
  "get16 b i = be16 (b ! i) (b ! Suc i)"

definition put16 :: "u16 \<Rightarrow> bytes" where
  "put16 w = [ucast (drop_bit 8 w), ucast w]"

text \<open>\<open>binary.BigEndian.PutUint16(b[i:], w)\<close>: the two bytes at \<open>i\<close> are overwritten.\<close>

definition set16 :: "bytes \<Rightarrow> nat \<Rightarrow> u16 \<Rightarrow> bytes" where
  "set16 b i w = b[i := ucast (drop_bit 8 w), Suc i := ucast w]"

definition get4 :: "bytes \<Rightarrow> nat \<Rightarrow> ip4" where
  "get4 b i = (b ! i, b ! (i + 1), b ! (i + 2), b ! (i + 3))"

definition ip4_bytes :: "ip4 \<Rightarrow> bytes" where
  "ip4_bytes a = (case a of (a0, a1, a2, a3) \<Rightarrow> [a0, a1, a2, a3])"

lemma unat_byte_less [simp]: "unat (b::byte) < 256"
  using unsigned_less [of b] by simp

lemma unat_u16_less [simp]: "unat (w::u16) < 65536"
  using unsigned_less [of w] by simp

lemma unat_ucast_u16_u32 [simp]: "unat (ucast (w::u16) :: u32) = unat w"
proof -
  have "unat w < 2 ^ 32"
    by (rule less_trans [OF unat_u16_less]) simp
  then show ?thesis
    by (simp add: unsigned_ucast_eq take_bit_nat_eq_self)
qed

lemma be16_arith: "be16 hi lo = word_of_nat (256 * unat hi + unat lo)"
proof -
  have "be16 hi lo = push_bit 8 (ucast hi) + ucast lo"
    unfolding be16_def
    by (rule disjunctive_add_eq_or [symmetric], rule bit_eqI)
       (auto simp: bit_simps dest: bit_imp_le_length)
  also have "\<dots> = word_of_nat (256 * unat hi + unat lo)"
    by (simp add: push_bit_eq_mult)
  finally show ?thesis .
qed

lemma unat_be16: "unat (be16 hi lo) = 256 * unat hi + unat lo"
proof -
  have "256 * unat hi + unat lo < 65536"
    using unat_byte_less [of hi] unat_byte_less [of lo] by linarith
  then have "unat (word_of_nat (256 * unat hi + unat lo) :: u16) = 256 * unat hi + unat lo"
    by (subst unat_of_nat) simp
  then show ?thesis
    by (simp only: be16_arith)
qed

lemma be16_split [byte_simps, simp]: "be16 (ucast (drop_bit 8 w)) (ucast w) = w"
  unfolding be16_def
  by (rule bit_eqI) (auto simp: bit_simps)

lemma be16_inj: "be16 a b = be16 c d \<longleftrightarrow> a = c \<and> b = d"
proof
  assume "be16 a b = be16 c d"
  then have eq: "256 * unat a + unat b = 256 * unat c + unat d"
    by (metis unat_be16)
  then have "unat a = unat c"
    using unat_byte_less [of b] unat_byte_less [of d] by linarith
  with eq show "a = c \<and> b = d" by (simp add: word_unat_eq_iff)
qed simp

lemma put16_length [simp]: "length (put16 w) = 2"
  by (simp add: put16_def)

lemma set16_length [simp]: "length (set16 b i w) = length b"
  by (simp add: set16_def)

lemma get16_put16 [byte_simps, simp]: "get16 (put16 w @ rest) 0 = w"
  by (simp add: get16_def put16_def)

lemma get16_set16_same [byte_simps, simp]:
  "Suc i < length b \<Longrightarrow> get16 (set16 b i w) i = w"
  by (simp add: get16_def set16_def)

lemma get16_set16_other [byte_simps, simp]:
  "j \<noteq> i \<Longrightarrow> j \<noteq> Suc i \<Longrightarrow> Suc j \<noteq> i \<Longrightarrow> get16 (set16 b i w) j = get16 b j"
  by (simp add: get16_def set16_def)

lemma set16_nth_other [byte_simps, simp]:
  "j \<noteq> i \<Longrightarrow> j \<noteq> Suc i \<Longrightarrow> set16 b i w ! j = b ! j"
  by (simp add: set16_def)

section \<open>Bytes and strings\<close>

text \<open>The conversions \<open>string(b)\<close> and \<open>[]byte(s)\<close>.\<close>

definition bytes_str :: "bytes \<Rightarrow> string" where
  "bytes_str = map (\<lambda>b. char_of (unat b))"

definition str_bytes :: "string \<Rightarrow> bytes" where
  "str_bytes = map (\<lambda>c. word_of_nat (of_char c))"

lemma str_bytes_inverse [simp]: "bytes_str (str_bytes s) = s"
proof -
  have "char_of (unat (word_of_nat (of_char c) :: byte)) = c" for c
    by (simp add: unat_of_nat)
  then show ?thesis by (simp add: bytes_str_def str_bytes_def comp_def)
qed

lemma bytes_str_inverse [simp]: "str_bytes (bytes_str b) = b"
proof -
  have "of_char (char_of (unat x)) = unat x" for x :: byte
    using unat_byte_less [of x] by (simp add: of_char_of)
  then show ?thesis by (simp add: bytes_str_def str_bytes_def comp_def)
qed

lemma str_bytes_length [simp]: "length (str_bytes s) = length s" "length (bytes_str b) = length b"
  by (simp_all add: str_bytes_def bytes_str_def)

section \<open>Reading from a connection\<close>

text \<open>
  A connection to read from is the list of bytes that are still to arrive before the end of
  the stream. \<open>io.ReadFull\<close> of \<open>n\<close> bytes takes them all or fails: with EOF when none came,
  with ErrUnexpectedEOF when some did.
\<close>

datatype io_error = EOF | UnexpectedEOF

definition read_full :: "nat \<Rightarrow> bytes \<Rightarrow> io_error + (bytes \<times> bytes)" where
  "read_full n s =
     (if n \<le> length s then Inr (take n s, drop n s)
      else if s = [] then Inl EOF else Inl UnexpectedEOF)"

lemma read_full_append [simp]: "length a = n \<Longrightarrow> read_full n (a @ s) = Inr (a, s)"
  by (simp add: read_full_def)

lemma read_full_Inr: "read_full n s = Inr (a, r) \<longleftrightarrow> length a = n \<and> s = a @ r"
  by (auto simp: read_full_def split: if_splits)

lemma read_full_Inl: "read_full n s = Inl e \<Longrightarrow> length s < n"
  by (auto simp: read_full_def split: if_splits)

section \<open>Go maps\<close>

type_synonym ('k, 'v) gomap = "('k \<times> 'v) list"

abbreviation keys :: "('k, 'v) gomap \<Rightarrow> 'k list" where
  "keys m \<equiv> map fst m"

abbreviation wf_map :: "('k, 'v) gomap \<Rightarrow> bool" where
  "wf_map m \<equiv> distinct (keys m)"

text \<open>
  The interface the components use of a Go map: lookup, assignment, \<open>delete\<close>, \<open>len\<close> and a
  conditional delete of every entry in a \<open>range\<close> loop.
\<close>

locale go_map =
  fixes lookup :: "'m \<Rightarrow> 'k \<Rightarrow> 'v option"
    and assign :: "'k \<Rightarrow> 'v \<Rightarrow> 'm \<Rightarrow> 'm"
    and remove :: "'k \<Rightarrow> 'm \<Rightarrow> 'm"
    and retain :: "('k \<times> 'v \<Rightarrow> bool) \<Rightarrow> 'm \<Rightarrow> 'm"
    and len :: "'m \<Rightarrow> nat"
    and wf :: "'m \<Rightarrow> bool"
  assumes lookup_assign: "lookup (assign k v m) = (lookup m)(k \<mapsto> v)"
    and lookup_remove: "lookup (remove k m) = (lookup m)(k := None)"
    and lookup_retain: "wf m \<Longrightarrow> lookup (retain P m) k =
          (case lookup m k of None \<Rightarrow> None | Some v \<Rightarrow> if P (k, v) then Some v else None)"
    and wf_assign: "wf m \<Longrightarrow> wf (assign k v m)"
    and wf_remove: "wf m \<Longrightarrow> wf (remove k m)"
    and wf_retain: "wf m \<Longrightarrow> wf (retain P m)"
    and len_assign_new: "lookup m k = None \<Longrightarrow> len (assign k v m) = Suc (len m)"
    and len_assign_old: "lookup m k \<noteq> None \<Longrightarrow> len (assign k v m) = len m"
    and len_remove: "len (remove k m) \<le> len m"
    and len_retain: "len (retain P m) \<le> len m"
begin

lemma len_assign: "len (assign k v m) \<le> Suc (len m)"
  by (cases "lookup m k = None") (simp_all add: len_assign_new len_assign_old)

lemma assign_bound: "len m < b \<Longrightarrow> len (assign k v m) \<le> b"
  using len_assign [of k v m] by simp

end

lemma update_length_new: "map_of m k = None \<Longrightarrow> length (AList.update k v m) = Suc (length m)"
  by (induction m) auto

lemma update_length_old: "map_of m k \<noteq> None \<Longrightarrow> length (AList.update k v m) = length m"
  by (induction m) auto

lemma map_of_filter_wf:
  "wf_map m \<Longrightarrow> map_of (filter P m) k =
     (case map_of m k of None \<Rightarrow> None | Some v \<Rightarrow> if P (k, v) then Some v else None)"
  by (induction m) (auto simp: map_of_eq_None_iff image_iff split: option.splits
      dest: map_of_SomeD)

lemma wf_map_filter [simp]: "wf_map m \<Longrightarrow> wf_map (filter P m)"
  by (induction m) auto

interpretation alist_map: go_map map_of AList.update AList.delete filter length wf_map
proof unfold_locales
  fix m :: "('k, 'v) gomap" and k v P
  show "map_of (AList.update k v m) = (map_of m)(k \<mapsto> v)"
    by (rule update_conv')
  show "map_of (AList.delete k m) = (map_of m)(k := None)"
    by (rule delete_conv')
  show "wf_map m \<Longrightarrow> map_of (filter P m) k =
     (case map_of m k of None \<Rightarrow> None | Some v \<Rightarrow> if P (k, v) then Some v else None)"
    by (rule map_of_filter_wf)
  show "wf_map m \<Longrightarrow> wf_map (AList.update k v m)"
    by (rule distinct_update)
  show "wf_map m \<Longrightarrow> wf_map (AList.delete k m)"
    by (rule distinct_delete)
  show "wf_map m \<Longrightarrow> wf_map (filter P m)"
    by simp
  show "map_of m k = None \<Longrightarrow> length (AList.update k v m) = Suc (length m)"
    by (rule update_length_new)
  show "map_of m k \<noteq> None \<Longrightarrow> length (AList.update k v m) = length m"
    by (rule update_length_old)
  show "length (AList.delete k m) \<le> length m"
    by (rule length_delete_le)
  show "length (filter P m) \<le> length m"
    by (rule length_filter_le)
qed

text \<open>Lookups stay lookups: they are not turned into membership in the association list.\<close>

declare map_of_eq_Some_iff [simp del] Some_eq_map_of_iff [simp del]

lemmas [table_simps] =
  alist_map.lookup_assign alist_map.lookup_remove alist_map.wf_assign
  alist_map.wf_remove alist_map.wf_retain

end
