(* ===== verification/Errors.thy ===== *)
theory Errors
  imports Prelude
begin

text \<open>
  The error values of the program: the classes of \<open>internal/ztna/errors.go\<close>, the sentinel
  errors of the packages, \<open>dial.Wrap\<close> (\<open>internal/dial/errors.go\<close>) and \<open>errors.Join\<close>, with
  \<open>errors.Is\<close> and \<open>errors.As\<close> as searches of the error chain.

  A \<open>ProtocolError\<close> carries a display text; each text of the sources is one constructor of
  \<open>protocol_what\<close>, named after what it reports.
\<close>

datatype protocol_what =
  \<comment> \<open>packet.go\<close>
    W_not_ipv4_header | W_ipv4_length | W_ipv4_reserved_flag | W_fragment_layout
  | W_tcp_header_short | W_tcp_header_length | W_udp_header_short | W_udp_length
  | W_icmp_header_short | W_ip_protocol
  \<comment> \<open>wire.go\<close>
  | W_vip_type | W_no_sid | W_sid_too_long | W_method_response | W_handshake_frames
  | W_handshake_rejected | W_envelope_no_code | W_handshake_rejected_code int
  | W_vip_failed | W_no_ipv4 | W_unknown_handshake_frame
  | W_token_length | W_packet_count | W_packet_length | W_auth_request_long
  | W_frame_version | W_unknown_frame | W_stream_not_ipv4 | W_stream_packet_length
  \<comment> \<open>tunnel.go\<close>
  | W_stream_buffer | W_auth_response_format | W_auth_response_fields | W_auth_response_token
  \<comment> \<open>resource.go, resource\_parse.go\<close>
  | W_target_port_zero | W_target_domain | W_resource_document | W_resource_count
  | W_resource_address | W_resource_ip_field | W_group_count | W_group_id | W_node_count
  | W_dns_field | W_dns_not_ipv4 | W_json_too_long | W_json_format | W_json_budget
  \<comment> \<open>tcp.go\<close>
  | W_tcp_target_zero | W_no_nodes | W_tcp_no_sid | W_tcp_auth_long | W_tcp_auth_header
  | W_tcp_no_code | W_tcp_reply | W_tcp_bound_domain | W_tcp_bound_type
  \<comment> \<open>control.go, trust.go\<close>
  | W_control_long | W_control_not_json | W_control_no_code | W_control_no_data | W_manifest | W_auth_config
  | W_password_response | W_no_ticket | W_auth_chain_response | W_phone_response | W_sms_response | W_sms_no_code
  | W_online_info | W_device_list
  \<comment> \<open>session.go, device.go\<close>
  | W_no_device_id | W_second_factor | W_auth_chain_long | W_no_code_expected | W_login_domain | W_no_password_method
  | W_no_tunnel_node | W_mtu_range | W_no_session | W_no_self_id | W_no_device_ids | W_still_trusted

text \<open>The operations named in \<open>dial.Wrap\<close> calls.\<close>

datatype dial_op =
    Op_read_method | Op_read_envelope_head | Op_read_envelope_body | Op_read_vip
  | Op_tunnel_write | Op_tunnel_write_deadline | Op_tunnel_read | Op_tunnel_read_deadline
  | Op_tcp_auth_head | Op_tcp_auth_body | Op_tcp_reply | Op_tcp_bound_addr
  | Op_tcp_bound_len | Op_tcp_bound_name | Op_tcp_bound_port
  | Op_control_request | Op_control_read | Op_probe
  | Op_other nat

datatype error =
    ProtocolError protocol_what
  | ErrAuthRequired string string
  | ErrCodeRejected int
  | ErrSessionGone int
  | TCPConnectError byte
  | ErrControlTLS | ErrNodeTLS | ErrNodeUntrusted
  | ErrFlowRejected | ErrPendingFull | ErrFlowTableFull
  | ErrFragmentMissing | ErrFragmentOrder | ErrFragmentFull
  | ErrResourceUnmatched | ErrPacketTooLarge | ErrTunnelClosed
  | ErrTCPAddressUnsupported | ErrTCPResourceUnmatched | ErrTCPAuthRejected
  | ErrResourcesUnavailable | ErrNoUplink
  | ErrNetClosed | ErrShortWrite | ErrHeartbeatLost
  | ContextCanceled | ContextDeadline
  | ErrConnRefused | ErrNetUnreach | ErrHostUnreach
  | NetError bool \<comment> \<open>another \<open>net.Error\<close>; whether \<open>Timeout()\<close> holds\<close>
  | IOError io_error
  | OtherError nat
  | WrapError dial_op error
  | JoinError error error

text \<open>\<open>dial.Wrap(op, err)\<close>: nil stays nil.\<close>

definition Wrap :: "dial_op \<Rightarrow> error option \<Rightarrow> error option" where
  "Wrap op err = map_option (WrapError op) err"

text \<open>The errors \<open>errors.Is\<close> and \<open>errors.As\<close> visit, depth first.\<close>

fun error_chain :: "error \<Rightarrow> error list" where
  "error_chain (WrapError op e) = WrapError op e # error_chain e"
| "error_chain (JoinError a b) = JoinError a b # error_chain a @ error_chain b"
| "error_chain e = [e]"

definition err_is :: "error \<Rightarrow> error \<Rightarrow> bool" where
  "err_is e target = (target \<in> set (error_chain e))"

fun is_protocol :: "error \<Rightarrow> bool" where
  "is_protocol (ProtocolError _) = True"
| "is_protocol _ = False"

fun is_rejected :: "error \<Rightarrow> bool" where
  "is_rejected (ErrCodeRejected _) = True"
| "is_rejected _ = False"

fun is_gone :: "error \<Rightarrow> bool" where
  "is_gone (ErrSessionGone _) = True"
| "is_gone _ = False"

fun is_dial :: "error \<Rightarrow> bool" where
  "is_dial (WrapError _ _) = True"
| "is_dial _ = False"

text \<open>\<open>errors.As(err, \&target)\<close> succeeds when some error of the chain has the target's type.\<close>

definition err_as :: "(error \<Rightarrow> bool) \<Rightarrow> error \<Rightarrow> error option" where
  "err_as T e = List.find T (error_chain e)"

lemma err_as_None: "err_as T e = None \<longleftrightarrow> (\<forall>x\<in>set (error_chain e). \<not> T x)"
  by (auto simp: err_as_def find_None_iff)

lemma error_chain_self [simp]: "e \<in> set (error_chain e)"
  by (cases e) auto

lemma err_is_refl [simp]: "err_is e e"
  by (simp add: err_is_def)

lemma err_is_Wrap [simp]: "err_is (WrapError op e) t \<longleftrightarrow> t = WrapError op e \<or> err_is e t"
  by (auto simp: err_is_def)

text \<open>A class no \<open>dial.Error\<close> belongs to is found through a wrapper exactly when it is found
  without it: wrapping never hides the classified cause.\<close>

lemma err_as_Wrap [simp]: "\<not> T (WrapError op e) \<Longrightarrow> err_as T (WrapError op e) = err_as T e"
  by (simp add: err_as_def)

end
