(* ===== verification/Packet.thy ===== *)
theory Packet
  imports Errors
begin

text \<open>
  \<open>internal/ztna/packet.go\<close>: the validating IPv4 parser in front of the flow table.
  \<open>parsePacket\<close> returns both values of the Go function: the partially filled
  \<open>packetInfo\<close> (its fragment identity is used even when the packet is refused) and the
  error, if any.
\<close>

section \<open>Data\<close>

abbreviation protoICMP :: byte where "protoICMP \<equiv> 1"
abbreviation protoTCP :: byte where "protoTCP \<equiv> 6"
abbreviation protoUDP :: byte where "protoUDP \<equiv> 17"
abbreviation ipv4MinHeader :: nat where "ipv4MinHeader \<equiv> 20"

record flowKey =
  fk_atype :: byte
  fk_proto :: byte
  fk_src :: ip4
  fk_sport :: u16
  fk_dst :: ip4
  fk_dport :: u16

record fragmentKey =
  fr_src :: ip4
  fr_dst :: ip4
  fr_proto :: byte
  fr_id :: u16

record packetInfo =
  key :: flowKey
  srcIP :: bytes
  dstIP :: bytes
  srcPort :: u16
  dstPort :: u16
  proto :: byte
  fragment :: fragmentKey
  offset :: u32
  payloadBytes :: u32
  moreFrag :: bool

definition zero_ip4 :: ip4 where
  "zero_ip4 = (0, 0, 0, 0)"

definition zero_flowKey :: flowKey where
  "zero_flowKey = \<lparr>fk_atype = 0, fk_proto = 0, fk_src = zero_ip4, fk_sport = 0,
     fk_dst = zero_ip4, fk_dport = 0\<rparr>"

definition zero_packetInfo :: packetInfo where
  "zero_packetInfo = \<lparr>key = zero_flowKey, srcIP = [], dstIP = [], srcPort = 0, dstPort = 0,
     proto = 0, fragment = \<lparr>fr_src = zero_ip4, fr_dst = zero_ip4, fr_proto = 0, fr_id = 0\<rparr>,
     offset = 0, payloadBytes = 0, moreFrag = False\<rparr>"

section \<open>Operations\<close>

definition fragmented :: "packetInfo \<Rightarrow> bool" where
  "fragmented p \<longleftrightarrow> moreFrag p \<or> offset p \<noteq> 0"

text \<open>The header fields, filled before the first length check (lines 54 to 64).\<close>

definition parseHeader :: "bytes \<Rightarrow> packetInfo" where
  "parseHeader pkt =
     (let flags = get16 pkt 6;
          proto' = pkt ! 9;
          src = get4 pkt 12;
          dst = get4 pkt 16
      in zero_packetInfo\<lparr>
           offset := ucast (flags AND 0x1fff) * 8,
           moreFrag := (flags AND 0x2000 \<noteq> 0),
           proto := proto',
           srcIP := take 4 (drop 12 pkt),
           dstIP := take 4 (drop 16 pkt),
           key := zero_flowKey\<lparr>fk_atype := 4, fk_proto := proto', fk_src := src, fk_dst := dst\<rparr>,
           fragment := \<lparr>fr_src = src, fr_dst = dst, fr_proto = proto', fr_id = get16 pkt 4\<rparr>\<rparr>)"

text \<open>The switch over the transport protocol and the ports (lines 82 to 111).\<close>

definition parseTransport :: "packetInfo \<Rightarrow> bytes \<Rightarrow> packetInfo \<times> error option" where
  "parseTransport p payload =
     (let reject = (\<lambda>what. (p, Some (ProtocolError what)));
          ports = (let sp = get16 payload 0; dp = get16 payload 2
                   in (p\<lparr>srcPort := sp, dstPort := dp,
                         key := (key p)\<lparr>fk_sport := sp, fk_dport := dp\<rparr>\<rparr>, None))
      in if proto p = protoTCP then
           (if length payload < 20 then reject W_tcp_header_short
            else let head = unat (drop_bit 4 (payload ! 12)) * 4
                 in if head < 20 \<or> head > length payload then reject W_tcp_header_length
                    else ports)
         else if proto p = protoUDP then
           (if length payload < 8 then reject W_udp_header_short
            else let n = unat (get16 payload 4)
                 in if n < 8 \<or> \<not> moreFrag p \<and> n \<noteq> length payload \<or> moreFrag p \<and> n < length payload
                    then reject W_udp_length else ports)
         else if proto p = protoICMP then
           (if length payload < 8 then reject W_icmp_header_short else (p, None))
         else reject W_ip_protocol)"

text \<open>The reserved flag and the fragment layout (lines 69 to 81), then the transport header.\<close>

definition parseFragment :: "bytes \<Rightarrow> nat \<Rightarrow> packetInfo \<Rightarrow> packetInfo \<times> error option" where
  "parseFragment pkt ihl p =
     (let flags = get16 pkt 6
      in if flags AND 0x8000 \<noteq> 0 then (p, Some (ProtocolError W_ipv4_reserved_flag))
         else if fragmented p \<and>
                 (ihl \<noteq> 20 \<or> flags AND 0x4000 \<noteq> 0 \<or> payloadBytes p = 0 \<or>
                  moreFrag p \<and> payloadBytes p mod 8 \<noteq> 0 \<or>
                  offset p + payloadBytes p > 65535 - 20 \<or>
                  proto p \<noteq> protoTCP \<and> proto p \<noteq> protoUDP)
         then (p, Some (ProtocolError W_fragment_layout))
         else if fragmented p \<and> offset p \<noteq> 0 then (p, None)
         else parseTransport p (drop ihl pkt))"

definition parsePacket :: "bytes \<Rightarrow> packetInfo \<times> error option" where
  "parsePacket pkt =
     (if length pkt < ipv4MinHeader \<or> drop_bit 4 (pkt ! 0) \<noteq> 4
      then (zero_packetInfo, Some (ProtocolError W_not_ipv4_header))
      else let ihl = unat (pkt ! 0 AND 15) * 4;
               total = unat (get16 pkt 2);
               p = parseHeader pkt
           in if ihl < 20 \<or> total \<noteq> length pkt \<or> total < ihl
              then (p, Some (ProtocolError W_ipv4_length))
              else parseFragment pkt ihl (p\<lparr>payloadBytes := word_of_nat (total - ihl)\<rparr>))"

definition protoName :: "byte \<Rightarrow> string" where
  "protoName p = (if p = protoTCP then ''tcp'' else if p = protoUDP then ''udp''
     else if p = protoICMP then ''icmp'' else ''ip'')"

section \<open>Lemmas\<close>

lemma not_fragmented: "\<not> fragmented p \<longleftrightarrow> \<not> moreFrag p \<and> offset p = 0"
  by (auto simp: fragmented_def)

lemma parseHeader_simps [simp]:
  "offset (parseHeader pkt) = ucast (get16 pkt 6 AND 0x1fff) * 8"
  "moreFrag (parseHeader pkt) = (get16 pkt 6 AND 0x2000 \<noteq> 0)"
  "proto (parseHeader pkt) = pkt ! 9"
  "fk_src (key (parseHeader pkt)) = get4 pkt 12"
  "fk_dst (key (parseHeader pkt)) = get4 pkt 16"
  "fk_proto (key (parseHeader pkt)) = pkt ! 9"
  "fk_sport (key (parseHeader pkt)) = 0"
  "fk_dport (key (parseHeader pkt)) = 0"
  "srcPort (parseHeader pkt) = 0"
  "dstPort (parseHeader pkt) = 0"
  "fragment (parseHeader pkt) = \<lparr>fr_src = get4 pkt 12, fr_dst = get4 pkt 16,
     fr_proto = pkt ! 9, fr_id = get16 pkt 4\<rparr>"
  by (simp_all add: parseHeader_def Let_def zero_flowKey_def zero_packetInfo_def)

text \<open>The offset field has 13 bits, so the byte offset fits \<open>uint32\<close> without wrapping.\<close>

lemma unat_offset: "unat (ucast (w AND 0x1fff :: u16) * 8 :: u32) = unat (w AND 0x1fff) * 8"
proof -
  have "w AND 0x1fff \<le> 0x1fff" by (rule word_and_le1)
  then have le: "unat (w AND 0x1fff) \<le> 8191"
    by (simp add: word_le_nat_alt)
  then show ?thesis
    by (simp add: unat_word_ariths)
qed

lemma parseTransport_frame:
  "parseTransport p payload = (q, e) \<Longrightarrow>
     offset q = offset p \<and> moreFrag q = moreFrag p \<and> proto q = proto p \<and> fragment q = fragment p \<and>
     payloadBytes q = payloadBytes p \<and> fk_src (key q) = fk_src (key p) \<and>
     fk_dst (key q) = fk_dst (key p) \<and> fk_proto (key q) = fk_proto (key p)"
  by (auto simp: parseTransport_def Let_def split: if_splits)

lemma parseTransport_ok:
  "parseTransport p payload = (q, None) \<Longrightarrow>
     proto p \<in> {protoTCP, protoUDP, protoICMP} \<and> 8 \<le> length payload \<and>
     (proto p = protoTCP \<longrightarrow> 20 \<le> unat (drop_bit 4 (payload ! 12)) * 4 \<and>
        unat (drop_bit 4 (payload ! 12)) * 4 \<le> length payload) \<and>
     (proto p = protoUDP \<and> \<not> moreFrag p \<longrightarrow> unat (get16 payload 4) = length payload) \<and>
     (proto p \<noteq> protoICMP \<longrightarrow> srcPort q = get16 payload 0 \<and> dstPort q = get16 payload 2 \<and>
        fk_sport (key q) = srcPort q \<and> fk_dport (key q) = dstPort q)"
  by (auto simp: parseTransport_def Let_def split: if_splits)

lemma parseFragment_ok:
  assumes "parseFragment pkt ihl q = (p, None)"
  shows "get16 pkt 6 AND 0x8000 = 0"
    and "fragmented q \<Longrightarrow> ihl = 20 \<and> payloadBytes q \<noteq> 0 \<and>
       (moreFrag q \<longrightarrow> payloadBytes q mod 8 = 0) \<and>
       offset q + payloadBytes q \<le> 65515 \<and> proto q \<in> {protoTCP, protoUDP}"
    and "offset q \<noteq> 0 \<Longrightarrow> p = q"
    and "offset q = 0 \<Longrightarrow> parseTransport q (drop ihl pkt) = (p, None)"
  using assms
  by (auto simp: parseFragment_def Let_def fragmented_def not_less
      split: if_splits)

text \<open>What the length checks establish before the fragment checks.\<close>

lemma parsePacket_length:
  assumes "parsePacket pkt = (p, None)"
  shows "20 \<le> unat (pkt ! 0 AND 15) * 4" and "unat (pkt ! 0 AND 15) * 4 \<le> length pkt"
    and "20 \<le> length pkt" and "drop_bit 4 (pkt ! 0) = 4" and "unat (get16 pkt 2) = length pkt"
    and "parseFragment pkt (unat (pkt ! 0 AND 15) * 4) ((parseHeader pkt)\<lparr>payloadBytes :=
           word_of_nat (length pkt - unat (pkt ! 0 AND 15) * 4)\<rparr>) = (p, None)"
  using assms by (auto simp: parsePacket_def Let_def not_less split: if_splits)

lemma unat_offset_le: "unat (offset (parseHeader pkt)) \<le> 65528"
proof -
  have "get16 pkt 6 AND 0x1fff \<le> 0x1fff" by (rule word_and_le1)
  then have "unat (get16 pkt 6 AND 0x1fff) \<le> 8191"
    by (simp add: word_le_nat_alt)
  then show ?thesis by (simp add: unat_offset)
qed

lemma unat_of_nat_u32: "n < 65536 \<Longrightarrow> unat (word_of_nat n :: u32) = n"
  by (simp add: unat_of_nat)

lemma fragment_end_nowrap:
  assumes "unat (a::u32) \<le> 65528" "unat (b::u32) < 65536" "a + b \<le> 65515"
  shows "unat a + unat b \<le> 65515"
proof -
  have "unat (a + b) = unat a + unat b"
    using assms(1,2) by (simp add: unat_word_ariths)
  with assms(3) show ?thesis by (simp add: word_le_nat_alt)
qed

section \<open>Properties\<close>

text \<open>A packet \<open>parsePacket\<close> accepts is exactly one complete IPv4 packet: its declared total
  length is its length, its header lies inside it, its protocol is TCP, UDP or ICMP, the
  recorded payload size and byte offset are the ones the header states, a fragment is an
  option-free TCP or UDP fragment that ends within the 65515 bytes an IPv4 datagram can carry
  (no wrap-around of the 32-bit sum), and all but the last fragment carry a multiple of 8 bytes.\<close>

theorem parsePacket_accepts:
  assumes "parsePacket pkt = (p, None)"
  shows "unat (get16 pkt 2) = length pkt
    \<and> 20 \<le> unat (pkt ! 0 AND 15) * 4 \<and> unat (pkt ! 0 AND 15) * 4 \<le> length pkt
    \<and> proto p = pkt ! 9 \<and> proto p \<in> {protoTCP, protoUDP, protoICMP}
    \<and> fk_src (key p) = get4 pkt 12 \<and> fk_dst (key p) = get4 pkt 16
    \<and> unat (payloadBytes p) = length pkt - unat (pkt ! 0 AND 15) * 4
    \<and> unat (offset p) = unat (get16 pkt 6 AND 0x1fff) * 8
    \<and> (fragmented p \<longrightarrow> unat (pkt ! 0 AND 15) * 4 = 20 \<and> proto p \<noteq> protoICMP
         \<and> unat (offset p) + unat (payloadBytes p) \<le> 65515
         \<and> (moreFrag p \<longrightarrow> unat (payloadBytes p) mod 8 = 0))"
proof -
  note len = parsePacket_length [OF assms]
  define ihl where "ihl = unat (pkt ! 0 AND 15) * 4"
  define q where "q = (parseHeader pkt)\<lparr>payloadBytes := word_of_nat (length pkt - ihl)\<rparr>"
  from len(6) have pf: "parseFragment pkt ihl q = (p, None)"
    by (simp add: ihl_def q_def)
  note frag = parseFragment_ok [OF pf]
  have same: "offset p = offset q \<and> moreFrag p = moreFrag q \<and> proto p = proto q \<and>
      payloadBytes p = payloadBytes q \<and> fk_src (key p) = fk_src (key q) \<and>
      fk_dst (key p) = fk_dst (key q)"
    using frag(3,4) parseTransport_frame by blast
  have pr: "proto q \<in> {protoTCP, protoUDP, protoICMP}"
    using frag(2,4) parseTransport_ok by (cases "offset q = 0") (auto simp: fragmented_def)
  have size: "length pkt < 65536"
    using len(5) unat_u16_less [of "get16 pkt 2"] by simp
  then have pb: "unat (payloadBytes q) = length pkt - ihl"
    by (simp add: q_def unat_of_nat_u32)
  have off: "unat (offset q) = unat (get16 pkt 6 AND 0x1fff) * 8"
    by (simp add: q_def unat_offset)
  have fr: "ihl = 20 \<and> proto q \<noteq> protoICMP \<and> unat (offset q) + unat (payloadBytes q) \<le> 65515
      \<and> (moreFrag q \<longrightarrow> unat (payloadBytes q) mod 8 = 0)" if "fragmented q"
  proof -
    from frag(2) [OF that] have "offset q + payloadBytes q \<le> 65515" by blast
    moreover have "unat (offset q) \<le> 65528"
      using unat_offset_le [of pkt] by (simp add: q_def)
    moreover have "unat (payloadBytes q) < 65536"
      using pb size by simp
    ultimately have "unat (offset q) + unat (payloadBytes q) \<le> 65515"
      by (rule fragment_end_nowrap [rotated 2])
    moreover have "unat (payloadBytes q) mod 8 = 0" if "moreFrag q"
    proof -
      have "payloadBytes q mod 8 = 0"
        using frag(2) \<open>fragmented q\<close> that by blast
      then have "unat (payloadBytes q mod 8) = 0" by simp
      then show ?thesis by (simp add: unat_mod_distrib)
    qed
    ultimately show ?thesis using frag(2) [OF that] by auto
  qed
  have "fk_src (key q) = get4 pkt 12" "fk_dst (key q) = get4 pkt 16" "proto q = pkt ! 9"
    by (simp_all add: q_def)
  note facts = this same len(1-5) pr pb off
  show ?thesis
  proof (cases "fragmented q")
    case True
    from fr [OF True] facts show ?thesis by (auto simp: ihl_def)
  next
    case False
    with facts have "\<not> fragmented p" by (simp add: not_fragmented)
    with facts show ?thesis by (auto simp: ihl_def)
  qed
qed

text \<open>A 28-byte UDP datagram 10.0.0.1:1 to 10.0.0.2:53 with an empty payload.\<close>

definition udp_example :: bytes where
  "udp_example = [0x45, 0, 0, 28, 0, 7, 0, 0, 64, 17, 0, 0, 10, 0, 0, 1, 10, 0, 0, 2,
     0, 1, 0, 53, 0, 8, 0, 0]"

lemma parsePacket_udp_example:
  "parsePacket udp_example = ((parseHeader udp_example)\<lparr>payloadBytes := 8, srcPort := 1,
     dstPort := 53, key := (key (parseHeader udp_example))\<lparr>fk_sport := 1, fk_dport := 53\<rparr>\<rparr>, None)"
  by (simp add: parsePacket_def parseFragment_def parseTransport_def udp_example_def Let_def
      get16_def be16_def fragmented_def)

theorem parsePacket_accepts_witness:
  "unat (get16 udp_example 2) = length udp_example \<and>
   unat (payloadBytes (fst (parsePacket udp_example))) = 8"
  using parsePacket_accepts [OF parsePacket_udp_example]
  by (simp add: parsePacket_udp_example)

text \<open>The tail fragments of a datagram are parsed from their IP header alone: two packets
  with the same header, the same length and a non-zero fragment offset get the same result, so
  no byte of a tail fragment's payload is ever taken for a port.\<close>

theorem tail_fragment_payload_ignored:
  assumes "length hdr = 20" "length a = length b" "get16 hdr 6 AND 0x1fff \<noteq> 0"
    "unat (hdr ! 0 AND 15) * 4 = 20"
  shows "parsePacket (hdr @ a) = parsePacket (hdr @ b) \<and>
    srcPort (fst (parsePacket (hdr @ a))) = 0 \<and> dstPort (fst (parsePacket (hdr @ a))) = 0"
proof -
  have g: "get16 (hdr @ x) i = get16 hdr i" if "i < 19" for x i
    using assms(1) that by (simp add: get16_def nth_append)
  have n: "(hdr @ x) ! i = hdr ! i" if "i < 20" for x i
    using assms(1) that by (simp add: nth_append)
  have h: "parseHeader (hdr @ x) = parseHeader hdr" for x
    using assms(1) by (simp add: parseHeader_def get4_def g n Let_def)
  have "unat (offset (parseHeader hdr)) \<noteq> 0"
    using assms(3) by (simp add: unat_offset unat_eq_zero)
  then have "offset (parseHeader hdr) \<noteq> 0" by auto
  then have nz: "ucast (get16 hdr 6 AND 0x1fff) * 8 \<noteq> (0::u32)" by simp
  then show ?thesis
    using assms by (simp add: parsePacket_def parseFragment_def Let_def g n h fragmented_def
        zero_packetInfo_def)
qed

definition tail_header :: bytes where
  "tail_header = [0x45, 0, 0, 24, 0, 7, 0, 1, 64, 17, 0, 0, 10, 0, 0, 1, 10, 0, 0, 2]"

theorem tail_fragment_payload_ignored_witness:
  "parsePacket (tail_header @ [1, 2, 3, 4]) = parsePacket (tail_header @ [9, 9, 9, 9])"
  by (rule tail_fragment_payload_ignored [THEN conjunct1])
     (simp_all add: tail_header_def get16_def be16_def)

end
