(* ===== verification/Conntrack.thy ===== *)
theory Conntrack
  imports Packet
begin

text \<open>
  \<open>internal/ztna/conntrack.go\<close>: the table of flows with their per-flow authentication, the
  cache of packets that wait for it, and the fragment associations.

  The Go table shares \<open>flow\<close> objects by pointer between three maps (by flow key, by
  authentication id, from fragment associations) and compares those pointers. The model keeps
  them in an explicit store: a \<open>flow_ref\<close> is the address of a \<open>flow\<close>, \<open>heap\<close> the object at an
  address, \<open>fresh\<close> the next address \<open>\&flow{...}\<close> returns. Every method runs under the table's
  mutex, so each is one atomic step; the clock reading \<open>t.now()\<close> is an argument. Go visits a
  map in an unspecified order: the methods whose result depends on it take the visiting order
  as an argument.
\<close>

section \<open>Data\<close>

datatype flowState = flowPending | flowReady | flowFailed

abbreviation flowIdleTTL :: time where "flowIdleTTL \<equiv> 2 * minute"
abbreviation flowAuthTimeout :: time where "flowAuthTimeout \<equiv> 8 * second"
abbreviation flowAuthRetryDelay :: time where "flowAuthRetryDelay \<equiv> 10 * second"
abbreviation maxPendingPerFlow :: nat where "maxPendingPerFlow \<equiv> 64"
abbreviation maxPendingPackets :: int where "maxPendingPackets \<equiv> 2048"
abbreviation maxPendingBytes :: int where "maxPendingBytes \<equiv> 2097152"
abbreviation maxFlows :: nat where "maxFlows \<equiv> 8192"
abbreviation maxFragments :: nat where "maxFragments \<equiv> 1024"
abbreviation fragmentTTL :: time where "fragmentTTL \<equiv> 5 * second"

record flow =
  f_key :: flowKey
  f_appID :: string
  f_authID :: u64
  f_token :: string
  f_state :: flowState
  f_pending :: "bytes list"
  f_authSent :: time
  f_authRetryAt :: time
  f_createdAt :: time
  f_updatedAt :: time

record authFlow =
  a_key :: flowKey
  a_appID :: string
  a_authID :: u64

type_synonym flow_ref = nat

record fragmentState =
  s_flow :: flow_ref
  s_expiresAt :: time
  s_nextOffset :: u32

record flowTable =
  heap :: "flow_ref \<Rightarrow> flow"
  fresh :: flow_ref
  flows :: "(flowKey, flow_ref) gomap"
  auth :: "(u64, flow_ref) gomap"
  fragments :: "(fragmentKey, fragmentState) gomap"
  next_id :: u64
  pendingPackets :: int
  pendingBytes :: int
  closed :: bool

definition zero_flow :: flow where
  "zero_flow = \<lparr>f_key = zero_flowKey, f_appID = [], f_authID = 0, f_token = [],
     f_state = flowPending, f_pending = [], f_authSent = 0, f_authRetryAt = 0,
     f_createdAt = 0, f_updatedAt = 0\<rparr>"

definition newFlowTable :: flowTable where
  "newFlowTable = \<lparr>heap = (\<lambda>_. zero_flow), fresh = 0, flows = [], auth = [], fragments = [],
     next_id = 0, pendingPackets = 0, pendingBytes = 0, closed = False\<rparr>"

section \<open>Helpers run under the lock\<close>

definition update_flow :: "flow_ref \<Rightarrow> (flow \<Rightarrow> flow) \<Rightarrow> flowTable \<Rightarrow> flowTable" where
  "update_flow a g t = t\<lparr>heap := (heap t)(a := g (heap t a))\<rparr>"

definition expired :: "flow \<Rightarrow> time \<Rightarrow> bool" where
  "expired f now =
     (if f_state f = flowPending then
        (let deadline = (if f_authRetryAt f \<noteq> 0 then f_authRetryAt f + flowAuthTimeout
                         else f_createdAt f + flowAuthTimeout)
         in \<not> now < deadline)
      else \<not> now < f_updatedAt f + flowIdleTTL)"

definition releasePendingLocked :: "flow_ref \<Rightarrow> flowTable \<Rightarrow> bytes list \<times> flowTable" where
  "releasePendingLocked a t =
     (let packets = f_pending (heap t a)
      in (packets,
          (update_flow a (\<lambda>f. f\<lparr>f_pending := []\<rparr>) t)
            \<lparr>pendingBytes := pendingBytes t - int (sum_list (map length packets)),
             pendingPackets := pendingPackets t - int (length packets)\<rparr>))"

definition removeFragmentsLocked :: "flow_ref \<Rightarrow> flowTable \<Rightarrow> flowTable" where
  "removeFragmentsLocked a t =
     t\<lparr>fragments := filter (\<lambda>(k, s). s_flow s \<noteq> a) (fragments t)\<rparr>"

text \<open>The two \<open>delete\<close> calls shared by \<open>removeLocked\<close> and \<open>expire\<close>, after the release.\<close>

definition unlinkLocked :: "flow_ref \<Rightarrow> flowTable \<Rightarrow> flowTable" where
  "unlinkLocked a t =
     (let t = snd (releasePendingLocked a t); f = heap t a
      in t\<lparr>flows := AList.delete (f_key f) (flows t),
           auth := AList.delete (f_authID f) (auth t)\<rparr>)"

definition removeLocked :: "flow_ref \<Rightarrow> flowTable \<Rightarrow> flowTable" where
  "removeLocked a t = removeFragmentsLocked a (unlinkLocked a t)"

definition expireFragmentsLocked :: "time \<Rightarrow> flowTable \<Rightarrow> flowTable" where
  "expireFragmentsLocked now t =
     t\<lparr>fragments := filter (\<lambda>(k, s). now < s_expiresAt s) (fragments t)\<rparr>"

definition rejectFragment :: "fragmentKey \<Rightarrow> flowTable \<Rightarrow> flowTable" where
  "rejectFragment k t = t\<lparr>fragments := AList.delete k (fragments t)\<rparr>"

section \<open>\<open>queuePacket\<close>\<close>

text \<open>A tail fragment (lines 92 to 104 of the method): find the flow of its datagram.\<close>

definition fragment_flow :: "packetInfo \<Rightarrow> time \<Rightarrow> flowTable \<Rightarrow> flowTable \<times> (error + flow_ref)" where
  "fragment_flow p now t =
     (case map_of (fragments t) (fragment p) of
        None \<Rightarrow> (t, Inl ErrFragmentMissing)
      | Some s \<Rightarrow>
          let f = heap t (s_flow s) in
          if \<not> now < s_expiresAt s \<or> map_of (flows t) (f_key f) \<noteq> Some (s_flow s) \<or>
             f_state f = flowFailed \<or> expired f now
          then (rejectFragment (fragment p) t, Inl ErrFragmentMissing)
          else if offset p \<noteq> s_nextOffset s
          then (rejectFragment (fragment p) t, Inl ErrFragmentOrder)
          else (t, Inr (s_flow s)))"

text \<open>A first fragment (lines 106 to 117): make room for its association.\<close>

definition first_fragment :: "packetInfo \<Rightarrow> time \<Rightarrow> flowTable \<Rightarrow> flowTable \<times> error option" where
  "first_fragment p now t =
     (if \<not> moreFrag p then (t, None)
      else let prev = map_of (fragments t) (fragment p);
               t = (if prev \<noteq> None then rejectFragment (fragment p) t else t)
           in if (\<exists>s \<in> set_option prev. now < s_expiresAt s) then (t, Some ErrFragmentOrder)
              else let t = expireFragmentsLocked now t
                   in if length (fragments t) \<ge> maxFragments then (t, Some ErrFragmentFull)
                      else (t, None))"

text \<open>An existing flow of the packet, or a new one (lines 118 to 133).\<close>

definition insert_flow :: "flowKey \<Rightarrow> string \<Rightarrow> time \<Rightarrow> flowTable \<Rightarrow> flowTable" where
  "insert_flow k appID now t =
     (let i = next_id t + 1;
          f = zero_flow\<lparr>f_key := k, f_appID := appID, f_authID := i, f_state := flowPending,
                f_createdAt := now, f_updatedAt := now\<rparr>
      in t\<lparr>heap := (heap t)(fresh t := f), fresh := Suc (fresh t), next_id := i,
           flows := AList.update k (fresh t) (flows t),
           auth := AList.update i (fresh t) (auth t)\<rparr>)"

definition flow_or_new ::
  "packetInfo \<Rightarrow> string \<Rightarrow> bytes \<Rightarrow> time \<Rightarrow> flowTable \<Rightarrow> flowTable \<times> (error + flow_ref)" where
  "flow_or_new p appID pkt now t =
     (let found = map_of (flows t) (key p);
          stale = (\<exists>a \<in> set_option found. expired (heap t a) now);
          t = (if stale then removeLocked (the found) t else t);
          found = (if stale then None else found)
      in case found of
           Some a \<Rightarrow> (t, Inr a)
         | None \<Rightarrow>
             if length (flows t) \<ge> maxFlows then (t, Inl ErrFlowTableFull)
             else if pendingPackets t \<ge> maxPendingPackets \<or>
                     pendingBytes t + int (length pkt) > maxPendingBytes
             then (t, Inl ErrPendingFull)
             else (insert_flow (key p) appID now t, Inr (fresh t)))"

definition find_flow ::
  "packetInfo \<Rightarrow> string \<Rightarrow> bytes \<Rightarrow> time \<Rightarrow> flowTable \<Rightarrow> flowTable \<times> (error + flow_ref)" where
  "find_flow p appID pkt now t =
     (if offset p \<noteq> 0 then fragment_flow p now t
      else case first_fragment p now t of
             (t, Some e) \<Rightarrow> (t, Inl e)
           | (t, None) \<Rightarrow> flow_or_new p appID pkt now t)"

text \<open>The switch over the flow's state (lines 135 to 154).\<close>

definition admit :: "packetInfo \<Rightarrow> bytes \<Rightarrow> time \<Rightarrow> flow_ref \<Rightarrow> flowTable \<Rightarrow>
    flowTable \<times> (error + (string \<times> bool))" where
  "admit p pkt now a t =
     (let t = update_flow a (\<lambda>f. f\<lparr>f_updatedAt := now\<rparr>) t; f = heap t a
      in case f_state f of
           flowFailed \<Rightarrow> (rejectFragment (fragment p) t, Inl ErrFlowRejected)
         | flowPending \<Rightarrow>
             if length (f_pending f) \<ge> maxPendingPerFlow \<or>
                pendingPackets t \<ge> maxPendingPackets \<or>
                pendingBytes t + int (length pkt) > maxPendingBytes
             then (rejectFragment (fragment p) t, Inl ErrPendingFull)
             else ((update_flow a (\<lambda>f. f\<lparr>f_pending := f_pending f @ [pkt]\<rparr>) t)
                     \<lparr>pendingBytes := pendingBytes t + int (length pkt),
                      pendingPackets := pendingPackets t + 1\<rparr>,
                   Inr ([], True))
         | flowReady \<Rightarrow> (t, Inr (f_token f, False)))"

text \<open>The fragment association after an accepted packet (lines 155 to 165).\<close>

definition track_fragment :: "packetInfo \<Rightarrow> time \<Rightarrow> flow_ref \<Rightarrow> flowTable \<Rightarrow> flowTable" where
  "track_fragment p now a t =
     (if moreFrag p then
        (if offset p = 0 then
           t\<lparr>fragments := AList.update (fragment p)
               \<lparr>s_flow = a, s_expiresAt = now + fragmentTTL, s_nextOffset = payloadBytes p\<rparr>
               (fragments t)\<rparr>
         else case map_of (fragments t) (fragment p) of
                None \<Rightarrow> t
              | Some s \<Rightarrow> t\<lparr>fragments := AList.update (fragment p)
                    (s\<lparr>s_nextOffset := offset p + payloadBytes p\<rparr>) (fragments t)\<rparr>)
      else if offset p \<noteq> 0 then rejectFragment (fragment p) t else t)"

definition queuePacket :: "packetInfo \<Rightarrow> string \<Rightarrow> bytes \<Rightarrow> time \<Rightarrow> flowTable \<Rightarrow>
    flowTable \<times> (error + (string \<times> bool))" where
  "queuePacket p appID pkt now t =
     (if closed t then (t, Inl ErrTunnelClosed)
      else case find_flow p appID pkt now t of
             (t, Inl e) \<Rightarrow> (t, Inl e)
           | (t, Inr a) \<Rightarrow>
               (case admit p pkt now a t of
                  (t, Inl e) \<Rightarrow> (t, Inl e)
                | (t, Inr r) \<Rightarrow> (track_fragment p now a t, Inr r)))"

section \<open>Authentication\<close>

definition due_auth :: "flow \<Rightarrow> time \<Rightarrow> bool" where
  "due_auth f now \<longleftrightarrow> f_state f = flowPending \<and> f_authSent f = 0 \<and>
     (f_authRetryAt f = 0 \<or> \<not> now < f_authRetryAt f)"

fun pendingAuth_loop ::
  "time \<Rightarrow> nat \<Rightarrow> flow_ref list \<Rightarrow> flowTable \<Rightarrow> authFlow list \<Rightarrow> flowTable \<times> authFlow list" where
  "pendingAuth_loop now limit [] t out = (t, out)"
| "pendingAuth_loop now limit (a # as) t out =
     (let f = heap t a in
      if expired f now then pendingAuth_loop now limit as (removeLocked a t) out
      else if due_auth f now then
        (let t = update_flow a (\<lambda>f. f\<lparr>f_authSent := now\<rparr>) t;
             out = out @ [\<lparr>a_key = f_key f, a_appID = f_appID f, a_authID = f_authID f\<rparr>]
         in if length out = limit then (t, out) else pendingAuth_loop now limit as t out)
      else pendingAuth_loop now limit as t out)"

text \<open>\<open>order\<close> is the order in which Go's \<open>range t.flows\<close> visits the flows.\<close>

definition pendingAuth ::
  "flow_ref list \<Rightarrow> nat \<Rightarrow> time \<Rightarrow> flowTable \<Rightarrow> flowTable \<times> authFlow list" where
  "pendingAuth order limit now t = pendingAuth_loop now limit order t []"

text \<open>The guard shared by \<open>retryAuth\<close> and \<open>completeAuth\<close>: the response belongs to a pending flow
  for which a request was sent.\<close>

definition awaiting :: "flow \<Rightarrow> bool" where
  "awaiting f \<longleftrightarrow> f_state f = flowPending \<and> \<not> (f_authSent f = 0 \<and> f_authRetryAt f = 0)"

definition retryAuth :: "u64 \<Rightarrow> time \<Rightarrow> flowTable \<Rightarrow> flowTable \<times> bool" where
  "retryAuth authID now t =
     (case map_of (auth t) authID of
        None \<Rightarrow> (t, False)
      | Some a \<Rightarrow>
          let f = heap t a in
          if \<not> awaiting f then (t, False)
          else if expired f now then (removeLocked a t, False)
          else if f_authRetryAt f \<noteq> 0 then (t, f_authSent f = 0)
          else (update_flow a (\<lambda>f. f\<lparr>f_authRetryAt := now + flowAuthRetryDelay, f_authSent := 0,
                  f_updatedAt := now\<rparr>) t, True))"

definition completeAuth :: "u64 \<Rightarrow> string \<Rightarrow> error option \<Rightarrow> time \<Rightarrow> flowTable \<Rightarrow>
    flowTable \<times> flowKey \<times> bytes list" where
  "completeAuth authID token authErr now t =
     (case map_of (auth t) authID of
        None \<Rightarrow> (t, zero_flowKey, [])
      | Some a \<Rightarrow>
          let f = heap t a in
          if \<not> awaiting f then (t, zero_flowKey, [])
          else if expired f now then (removeLocked a t, zero_flowKey, [])
          else let (packets, t) = releasePendingLocked a t in
            if authErr \<noteq> None \<or> length token = 0 \<or> length token > 255 then
              (removeFragmentsLocked a
                 (update_flow a (\<lambda>f. f\<lparr>f_updatedAt := now, f_state := flowFailed\<rparr>) t),
               f_key f, [])
            else (update_flow a (\<lambda>f. f\<lparr>f_updatedAt := now, f_state := flowReady,
                    f_token := token\<rparr>) t, f_key f, packets))"

section \<open>Expiry and shutdown\<close>

fun expire_loop :: "time \<Rightarrow> flow_ref list \<Rightarrow> flowTable \<Rightarrow> nat \<Rightarrow> flowTable \<times> nat" where
  "expire_loop now [] t count = (t, count)"
| "expire_loop now (a # as) t count =
     (if expired (heap t a) now then expire_loop now as (unlinkLocked a t) (Suc count)
      else expire_loop now as t count)"

definition expire :: "flow_ref list \<Rightarrow> time \<Rightarrow> flowTable \<Rightarrow> flowTable \<times> nat" where
  "expire order now t =
     (let (t, count) = expire_loop now order t 0
      in (t\<lparr>fragments := filter (\<lambda>(k, s). now < s_expiresAt s \<and>
             map_of (flows t) (f_key (heap t (s_flow s))) = Some (s_flow s)) (fragments t)\<rparr>, count))"

definition clear :: "flowTable \<Rightarrow> flowTable" where
  "clear t = t\<lparr>flows := [], auth := [], fragments := [], closed := True,
     pendingPackets := 0, pendingBytes := 0\<rparr>"

end
