(* ===== verification/Conntrack_Inv.thy ===== *)
theory Conntrack_Inv
  imports Conntrack
begin

text \<open>
  The invariant of the flow table and that every method keeps it. \<open>index_ok\<close>: the two indexes
  (by key and by authentication id) describe the same set of flows. \<open>frags_ok\<close>: a fragment
  association always points to a live flow that has not failed. \<open>counts_ok\<close>: the global counters
  are exactly the number and the size of the cached packets, and within their limits.
  \<open>flows_ok\<close>: the per-flow limits, that only pending flows cache packets, that a ready flow has a
  token a data frame can carry, and the deadline of a retry.
\<close>

section \<open>The invariant\<close>

definition refs :: "flowTable \<Rightarrow> flow_ref set" where
  "refs t = ran (map_of (flows t))"

definition cached_packets :: "flowTable \<Rightarrow> nat" where
  "cached_packets t = (\<Sum>a\<in>refs t. length (f_pending (heap t a)))"

definition cached_bytes :: "flowTable \<Rightarrow> nat" where
  "cached_bytes t = (\<Sum>a\<in>refs t. sum_list (map length (f_pending (heap t a))))"

definition flow_ok :: "flow \<Rightarrow> bool" where
  "flow_ok f \<longleftrightarrow> length (f_pending f) \<le> maxPendingPerFlow
     \<and> (f_state f \<noteq> flowPending \<longrightarrow> f_pending f = [])
     \<and> (f_state f = flowReady \<longrightarrow> 0 < length (f_token f) \<and> length (f_token f) \<le> 255)
     \<and> (f_authRetryAt f \<noteq> 0 \<longrightarrow> f_authRetryAt f < f_createdAt f + flowAuthTimeout + flowAuthRetryDelay)"

definition index_ok :: "flowTable \<Rightarrow> bool" where
  "index_ok t \<longleftrightarrow> wf_map (flows t) \<and> wf_map (auth t)
     \<and> (\<forall>k a. map_of (flows t) k = Some a \<longrightarrow>
          a < fresh t \<and> f_key (heap t a) = k \<and> map_of (auth t) (f_authID (heap t a)) = Some a)
     \<and> (\<forall>i a. map_of (auth t) i = Some a \<longrightarrow>
          f_authID (heap t a) = i \<and> map_of (flows t) (f_key (heap t a)) = Some a
          \<and> 0 < i \<and> i \<le> next_id t)"

definition frags_ok :: "flowTable \<Rightarrow> bool" where
  "frags_ok t \<longleftrightarrow> wf_map (fragments t) \<and> length (fragments t) \<le> maxFragments
     \<and> (\<forall>k s. map_of (fragments t) k = Some s \<longrightarrow>
          map_of (flows t) (f_key (heap t (s_flow s))) = Some (s_flow s)
          \<and> f_state (heap t (s_flow s)) \<noteq> flowFailed)"

definition counts_ok :: "flowTable \<Rightarrow> bool" where
  "counts_ok t \<longleftrightarrow> pendingPackets t = int (cached_packets t) \<and> pendingPackets t \<le> maxPendingPackets
     \<and> pendingBytes t = int (cached_bytes t) \<and> pendingBytes t \<le> maxPendingBytes"

definition flows_ok :: "flowTable \<Rightarrow> bool" where
  "flows_ok t \<longleftrightarrow> length (flows t) \<le> maxFlows \<and> (\<forall>a\<in>refs t. flow_ok (heap t a))
     \<and> (closed t \<longrightarrow> flows t = [])"

definition ft_inv :: "flowTable \<Rightarrow> bool" where
  "ft_inv t \<longleftrightarrow> index_ok t \<and> frags_ok t \<and> counts_ok t \<and> flows_ok t"

section \<open>Store lemmas\<close>

lemma finite_refs [simp]: "finite (refs t)"
  unfolding refs_def by (rule finite_ran) (rule finite_dom_map_of)

lemma refsI: "map_of (flows t) k = Some a \<Longrightarrow> a \<in> refs t"
  by (auto simp: refs_def ran_def)

lemma refs_lookup: "index_ok t \<Longrightarrow> a \<in> refs t \<Longrightarrow> map_of (flows t) (f_key (heap t a)) = Some a"
  by (auto simp: refs_def ran_def index_ok_def)

lemma refs_auth: "index_ok t \<Longrightarrow> a \<in> refs t \<Longrightarrow> map_of (auth t) (f_authID (heap t a)) = Some a"
  by (auto simp: refs_def ran_def index_ok_def)

lemma refs_fresh: "index_ok t \<Longrightarrow> a \<in> refs t \<Longrightarrow> a < fresh t"
  by (auto simp: refs_def ran_def index_ok_def)

lemma index_auth:
  "index_ok t \<Longrightarrow> map_of (auth t) i = Some a \<Longrightarrow>
     f_authID (heap t a) = i \<and> map_of (flows t) (f_key (heap t a)) = Some a \<and> 0 < i \<and> i \<le> next_id t"
  by (simp add: index_ok_def)

lemma index_flow:
  "index_ok t \<Longrightarrow> map_of (flows t) k = Some a \<Longrightarrow>
     a < fresh t \<and> f_key (heap t a) = k \<and> map_of (auth t) (f_authID (heap t a)) = Some a"
  by (simp add: index_ok_def)

lemma auth_refs: "index_ok t \<Longrightarrow> map_of (auth t) i = Some a \<Longrightarrow> a \<in> refs t"
  by (drule (1) index_auth) (blast intro: refsI)

lemma frag_flow:
  "frags_ok t \<Longrightarrow> map_of (fragments t) k = Some s \<Longrightarrow>
     map_of (flows t) (f_key (heap t (s_flow s))) = Some (s_flow s) \<and>
     f_state (heap t (s_flow s)) \<noteq> flowFailed"
  by (simp add: frags_ok_def)

lemma frag_refs: "frags_ok t \<Longrightarrow> map_of (fragments t) k = Some s \<Longrightarrow> s_flow s \<in> refs t"
  by (drule (1) frag_flow) (blast intro: refsI)

lemma sum_fun_upd:
  fixes F :: "'b \<Rightarrow> nat"
  assumes "finite A" "a \<in> A"
  shows "(\<Sum>x\<in>A. F ((h(a := v)) x)) + F (h a) = (\<Sum>x\<in>A. F (h x)) + F v"
  using assms by (simp add: sum.remove [of A a])

lemma update_flow_simps [simp]:
  "heap (update_flow a g t) = (heap t)(a := g (heap t a))"
  "flows (update_flow a g t) = flows t"
  "auth (update_flow a g t) = auth t"
  "fragments (update_flow a g t) = fragments t"
  "fresh (update_flow a g t) = fresh t"
  "next_id (update_flow a g t) = next_id t"
  "pendingPackets (update_flow a g t) = pendingPackets t"
  "pendingBytes (update_flow a g t) = pendingBytes t"
  "closed (update_flow a g t) = closed t"
  "refs (update_flow a g t) = refs t"
  by (simp_all add: update_flow_def refs_def)

lemma refs_frame [simp]:
  "refs (t\<lparr>fragments := fs\<rparr>) = refs t"
  "refs (t\<lparr>pendingBytes := b\<rparr>) = refs t"
  "refs (t\<lparr>pendingPackets := n\<rparr>) = refs t"
  by (simp_all add: refs_def)

section \<open>Changing one flow\<close>

text \<open>A change of one live flow that keeps its key and id keeps the indexes.\<close>

lemma index_ok_update:
  assumes "index_ok t" "f_key (g (heap t a)) = f_key (heap t a)"
    "f_authID (g (heap t a)) = f_authID (heap t a)"
  shows "index_ok (update_flow a g t)"
  using assms by (auto simp: index_ok_def)

lemma frags_ok_update:
  assumes "frags_ok t" "f_key (g (heap t a)) = f_key (heap t a)"
    "f_state (heap t a) \<noteq> flowFailed \<Longrightarrow> f_state (g (heap t a)) \<noteq> flowFailed"
  shows "frags_ok (update_flow a g t)"
  using assms by (auto simp: frags_ok_def)

lemma cached_update:
  assumes "a \<in> refs t"
  shows "cached_packets (update_flow a g t) + length (f_pending (heap t a)) =
           cached_packets t + length (f_pending (g (heap t a)))"
    and "cached_bytes (update_flow a g t) + sum_list (map length (f_pending (heap t a))) =
           cached_bytes t + sum_list (map length (f_pending (g (heap t a))))"
  unfolding cached_packets_def cached_bytes_def update_flow_simps
  by (rule sum_fun_upd [where F = "\<lambda>f. length (f_pending f)", OF finite_refs assms],
      rule sum_fun_upd [where F = "\<lambda>f. sum_list (map length (f_pending f))", OF finite_refs assms])

lemma flows_ok_update:
  "flows_ok t \<Longrightarrow> flow_ok (g (heap t a)) \<Longrightarrow> flows_ok (update_flow a g t)"
  by (auto simp: flows_ok_def)

text \<open>The common case: the cached packets stay, so all four parts do.\<close>

lemma ft_inv_update:
  assumes "ft_inv t" "a \<in> refs t" "f_key (g (heap t a)) = f_key (heap t a)"
    "f_authID (g (heap t a)) = f_authID (heap t a)"
    "f_pending (g (heap t a)) = f_pending (heap t a)"
    "f_state (heap t a) \<noteq> flowFailed \<Longrightarrow> f_state (g (heap t a)) \<noteq> flowFailed"
    "flow_ok (heap t a) \<Longrightarrow> flow_ok (g (heap t a))"
  shows "ft_inv (update_flow a g t)"
proof -
  have "flow_ok (heap t a)"
    using assms(1,2) by (auto simp: ft_inv_def flows_ok_def)
  then show ?thesis
    using assms cached_update [OF assms(2), of g]
    by (auto simp: ft_inv_def counts_ok_def intro: index_ok_update frags_ok_update flows_ok_update)
qed

section \<open>Dropping fragment associations\<close>

lemma fragments_frame [simp]:
  "index_ok (t\<lparr>fragments := fs\<rparr>) = index_ok t"
  "counts_ok (t\<lparr>fragments := fs\<rparr>) = counts_ok t"
  "flows_ok (t\<lparr>fragments := fs\<rparr>) = flows_ok t"
  by (simp_all add: index_ok_def counts_ok_def flows_ok_def cached_packets_def cached_bytes_def)

lemma ft_inv_drop_fragments:
  assumes "ft_inv t" "wf_map fs" "length fs \<le> length (fragments t)"
    "\<And>k s. map_of fs k = Some s \<Longrightarrow> map_of (fragments t) k = Some s"
  shows "ft_inv (t\<lparr>fragments := fs\<rparr>)"
proof -
  have "frags_ok t" using assms(1) by (simp add: ft_inv_def)
  then have "frags_ok (t\<lparr>fragments := fs\<rparr>)"
    using assms(2,3) frag_flow [OF \<open>frags_ok t\<close>] assms(4) by (simp add: frags_ok_def) blast
  with assms(1) show ?thesis by (simp add: ft_inv_def)
qed

lemma ft_inv_filter_fragments:
  assumes "ft_inv t"
  shows "ft_inv (t\<lparr>fragments := filter P (fragments t)\<rparr>)"
  using assms
  by (intro ft_inv_drop_fragments)
     (auto simp: ft_inv_def frags_ok_def map_of_filter_wf split: option.splits if_splits)

lemma ft_inv_rejectFragment: "ft_inv t \<Longrightarrow> ft_inv (rejectFragment k t)"
  unfolding rejectFragment_def
  by (intro ft_inv_drop_fragments)
     (auto simp: ft_inv_def frags_ok_def table_simps length_delete_le split: if_splits)

lemma ft_inv_expireFragmentsLocked: "ft_inv t \<Longrightarrow> ft_inv (expireFragmentsLocked now t)"
  unfolding expireFragmentsLocked_def by (rule ft_inv_filter_fragments)

section \<open>Changing the cache of a flow\<close>

lemma ft_inv_update_cache:
  assumes "ft_inv t" "a \<in> refs t" "f_key (g (heap t a)) = f_key (heap t a)"
    "f_authID (g (heap t a)) = f_authID (heap t a)"
    "f_state (heap t a) \<noteq> flowFailed \<Longrightarrow> f_state (g (heap t a)) \<noteq> flowFailed"
    "flow_ok (heap t a) \<Longrightarrow> flow_ok (g (heap t a))"
    "np + int (length (f_pending (heap t a))) =
       pendingPackets t + int (length (f_pending (g (heap t a))))"
    "nb + int (sum_list (map length (f_pending (heap t a)))) =
       pendingBytes t + int (sum_list (map length (f_pending (g (heap t a)))))"
    "np \<le> maxPendingPackets" "nb \<le> maxPendingBytes"
  shows "ft_inv ((update_flow a g t)\<lparr>pendingBytes := nb, pendingPackets := np\<rparr>)" (is "ft_inv ?t'")
proof -
  have inv: "index_ok t" "frags_ok t" "counts_ok t" "flows_ok t"
    using assms(1) by (auto simp: ft_inv_def)
  have "flow_ok (heap t a)"
    using inv(4) assms(2) by (auto simp: flows_ok_def)
  then have "flows_ok (update_flow a g t)"
    using assms(6) inv(4) by (blast intro: flows_ok_update)
  moreover have "index_ok (update_flow a g t)"
    using inv(1) assms(3,4) by (rule index_ok_update)
  moreover have "frags_ok (update_flow a g t)"
    using inv(2) assms(3,5) by (rule frags_ok_update)
  moreover have "counts_ok ?t'"
  proof -
    have "int (cached_packets (update_flow a g t)) = np"
      using cached_update(1) [OF assms(2), of g] assms(7) inv(3) by (simp add: counts_ok_def)
    moreover have "int (cached_bytes (update_flow a g t)) = nb"
      using cached_update(2) [OF assms(2), of g] assms(8) inv(3) by (simp add: counts_ok_def)
    ultimately show ?thesis
      using assms(9,10) by (simp add: counts_ok_def cached_packets_def cached_bytes_def)
  qed
  ultimately show ?thesis
    by (simp add: ft_inv_def index_ok_def frags_ok_def flows_ok_def)
qed

lemma cached_ge:
  assumes "a \<in> refs t"
  shows "length (f_pending (heap t a)) \<le> cached_packets t"
    and "sum_list (map length (f_pending (heap t a))) \<le> cached_bytes t"
  unfolding cached_packets_def cached_bytes_def
  using assms by (auto intro: member_le_sum)

lemma releasePendingLocked_simps [simp]:
  "fst (releasePendingLocked a t) = f_pending (heap t a)"
  "heap (snd (releasePendingLocked a t)) = (heap t)(a := (heap t a)\<lparr>f_pending := []\<rparr>)"
  "flows (snd (releasePendingLocked a t)) = flows t"
  "auth (snd (releasePendingLocked a t)) = auth t"
  "fragments (snd (releasePendingLocked a t)) = fragments t"
  "fresh (snd (releasePendingLocked a t)) = fresh t"
  "next_id (snd (releasePendingLocked a t)) = next_id t"
  "closed (snd (releasePendingLocked a t)) = closed t"
  "refs (snd (releasePendingLocked a t)) = refs t"
  by (simp_all add: releasePendingLocked_def Let_def refs_def)

lemma ft_inv_release:
  assumes "ft_inv t" "a \<in> refs t"
  shows "ft_inv (snd (releasePendingLocked a t))"
  unfolding releasePendingLocked_def Let_def snd_conv
  using assms cached_ge [OF assms(2)]
  by (intro ft_inv_update_cache) (auto simp: flow_ok_def ft_inv_def counts_ok_def)

section \<open>Removing a flow\<close>

definition frags_weak :: "flowTable \<Rightarrow> bool" where
  "frags_weak t \<longleftrightarrow> wf_map (fragments t) \<and> length (fragments t) \<le> maxFragments
     \<and> (\<forall>k s. map_of (fragments t) k = Some s \<longrightarrow> f_state (heap t (s_flow s)) \<noteq> flowFailed)"

definition core_inv :: "flowTable \<Rightarrow> bool" where
  "core_inv t \<longleftrightarrow> index_ok t \<and> frags_weak t \<and> counts_ok t \<and> flows_ok t"

lemma ft_inv_core: "ft_inv t \<Longrightarrow> core_inv t"
  by (auto simp: ft_inv_def core_inv_def frags_ok_def frags_weak_def)

lemma unlinkLocked_simps [simp]:
  "heap (unlinkLocked a t) = (heap t)(a := (heap t a)\<lparr>f_pending := []\<rparr>)"
  "flows (unlinkLocked a t) = AList.delete (f_key (heap t a)) (flows t)"
  "auth (unlinkLocked a t) = AList.delete (f_authID (heap t a)) (auth t)"
  "fragments (unlinkLocked a t) = fragments t"
  "fresh (unlinkLocked a t) = fresh t"
  "next_id (unlinkLocked a t) = next_id t"
  "closed (unlinkLocked a t) = closed t"
  "pendingPackets (unlinkLocked a t) = pendingPackets t - int (length (f_pending (heap t a)))"
  "pendingBytes (unlinkLocked a t) =
     pendingBytes t - int (sum_list (map length (f_pending (heap t a))))"
  by (simp_all add: unlinkLocked_def releasePendingLocked_def Let_def)

lemma refs_unlinkLocked:
  assumes "index_ok t" "a \<in> refs t"
  shows "refs (unlinkLocked a t) = refs t - {a}"
proof -
  have l: "map_of (flows t) (f_key (heap t a)) = Some a"
    using assms by (rule refs_lookup)
  show ?thesis
  proof (intro equalityI subsetI)
    fix b assume "b \<in> refs (unlinkLocked a t)"
    then obtain k where k: "k \<noteq> f_key (heap t a)" "map_of (flows t) k = Some b"
      by (auto simp: refs_def ran_def table_simps split: if_splits)
    then have "b \<noteq> a" using index_flow [OF assms(1) k(2)] by blast
    then show "b \<in> refs t - {a}" using refsI [OF k(2)] by blast
  next
    fix b assume "b \<in> refs t - {a}"
    then have "map_of (flows t) (f_key (heap t b)) = Some b" "b \<noteq> a"
      using refs_lookup [OF assms(1)] by auto
    with l have "map_of (flows (unlinkLocked a t)) (f_key (heap t b)) = Some b"
      by (auto simp: table_simps)
    then show "b \<in> refs (unlinkLocked a t)" by (rule refsI)
  qed
qed

lemma index_ok_unlink:
  assumes "index_ok t" "a \<in> refs t"
  shows "index_ok (unlinkLocked a t)"
proof -
  have lf: "map_of (flows t) (f_key (heap t a)) = Some a"
    using assms by (rule refs_lookup)
  have la: "map_of (auth t) (f_authID (heap t a)) = Some a"
    using assms by (rule refs_auth)
  have wf: "wf_map (flows (unlinkLocked a t))" "wf_map (auth (unlinkLocked a t))"
    using assms(1) by (simp_all add: index_ok_def table_simps)
  have 1: "b < fresh t \<and> f_key (heap (unlinkLocked a t) b) = k \<and>
      map_of (auth (unlinkLocked a t)) (f_authID (heap (unlinkLocked a t) b)) = Some b"
    if "map_of (flows (unlinkLocked a t)) k = Some b" for k b
  proof -
    from that have kb: "k \<noteq> f_key (heap t a)" "map_of (flows t) k = Some b"
      by (auto simp: table_simps split: if_splits)
    note b = index_flow [OF assms(1) kb(2)]
    then have "b \<noteq> a" using kb(1) by auto
    then have "f_authID (heap t b) \<noteq> f_authID (heap t a)" using b la by auto
    with b \<open>b \<noteq> a\<close> show ?thesis by (simp add: table_simps)
  qed
  have 2: "f_authID (heap (unlinkLocked a t) b) = i \<and>
      map_of (flows (unlinkLocked a t)) (f_key (heap (unlinkLocked a t) b)) = Some b \<and>
      0 < i \<and> i \<le> next_id t"
    if "map_of (auth (unlinkLocked a t)) i = Some b" for i b
  proof -
    from that have ib: "i \<noteq> f_authID (heap t a)" "map_of (auth t) i = Some b"
      by (auto simp: table_simps split: if_splits)
    note b = index_auth [OF assms(1) ib(2)]
    then have "b \<noteq> a" using ib(1) by auto
    then have "f_key (heap t b) \<noteq> f_key (heap t a)" using b lf by auto
    with b \<open>b \<noteq> a\<close> show ?thesis by (simp add: table_simps)
  qed
  from wf 1 2 show ?thesis unfolding index_ok_def by simp
qed

lemma counts_ok_unlink:
  assumes "counts_ok t" "index_ok t" "a \<in> refs t"
  shows "counts_ok (unlinkLocked a t)"
proof -
  have "cached_packets (unlinkLocked a t) + length (f_pending (heap t a)) = cached_packets t"
    unfolding cached_packets_def refs_unlinkLocked [OF assms(2,3)]
    by (simp add: sum.remove [OF finite_refs assms(3)])
  moreover have "cached_bytes (unlinkLocked a t) + sum_list (map length (f_pending (heap t a))) =
      cached_bytes t"
    unfolding cached_bytes_def refs_unlinkLocked [OF assms(2,3)]
    by (simp add: sum.remove [OF finite_refs assms(3)])
  ultimately show ?thesis
    using assms(1) by (simp add: counts_ok_def)
qed

lemma core_inv_unlink:
  assumes "core_inv t" "a \<in> refs t"
  shows "core_inv (unlinkLocked a t)"
proof -
  have inv: "index_ok t" "frags_weak t" "counts_ok t" "flows_ok t"
    using assms(1) by (auto simp: core_inv_def)
  have "flows_ok (unlinkLocked a t)"
    using inv(4) length_delete_le [of "f_key (heap t a)" "flows t"]
    by (auto simp: flows_ok_def refs_unlinkLocked [OF inv(1) assms(2)])
  moreover have "frags_weak (unlinkLocked a t)"
    using inv(2) by (auto simp: frags_weak_def)
  ultimately show ?thesis
    using inv assms(2) index_ok_unlink counts_ok_unlink by (simp add: core_inv_def)
qed

text \<open>Removing the associations of unlinked flows turns \<open>core_inv\<close> into the full invariant.\<close>

lemma core_inv_filter:
  assumes "core_inv t"
    "\<And>k s. map_of (fragments t) k = Some s \<Longrightarrow> P (k, s) \<Longrightarrow>
       map_of (flows t) (f_key (heap t (s_flow s))) = Some (s_flow s)"
  shows "ft_inv (t\<lparr>fragments := filter P (fragments t)\<rparr>)"
proof -
  have "frags_weak t" using assms(1) by (simp add: core_inv_def)
  then have "frags_ok (t\<lparr>fragments := filter P (fragments t)\<rparr>)"
    using assms(2) le_trans [OF length_filter_le]
    by (auto simp: frags_ok_def frags_weak_def map_of_filter_wf split: option.splits if_splits)
  with assms(1) show ?thesis by (simp add: ft_inv_def core_inv_def)
qed

lemma ft_inv_remove:
  assumes "ft_inv t" "a \<in> refs t"
  shows "ft_inv (removeLocked a t)"
  unfolding removeLocked_def removeFragmentsLocked_def
proof (rule core_inv_filter)
  show "core_inv (unlinkLocked a t)"
    using assms by (blast intro: core_inv_unlink ft_inv_core)
  fix k s
  assume s: "map_of (fragments (unlinkLocked a t)) k = Some s" "case (k, s) of (k, s) \<Rightarrow> s_flow s \<noteq> a"
  have inv: "index_ok t" "frags_ok t" using assms(1) by (auto simp: ft_inv_def)
  from s(1) have "map_of (fragments t) k = Some s" by simp
  then have "map_of (flows t) (f_key (heap t (s_flow s))) = Some (s_flow s)"
    using frag_flow [OF inv(2)] by blast
  moreover have "map_of (flows t) (f_key (heap t a)) = Some a"
    using inv(1) assms(2) by (rule refs_lookup)
  ultimately show "map_of (flows (unlinkLocked a t)) (f_key (heap (unlinkLocked a t) (s_flow s))) =
      Some (s_flow s)"
    using s(2) by (auto simp: table_simps)
qed

lemma removeLocked_simps [simp]:
  "heap (removeLocked a t) = (heap t)(a := (heap t a)\<lparr>f_pending := []\<rparr>)"
  "flows (removeLocked a t) = AList.delete (f_key (heap t a)) (flows t)"
  "auth (removeLocked a t) = AList.delete (f_authID (heap t a)) (auth t)"
  "fresh (removeLocked a t) = fresh t"
  "next_id (removeLocked a t) = next_id t"
  "closed (removeLocked a t) = closed t"
  by (simp_all add: removeLocked_def removeFragmentsLocked_def)

lemma refs_removeLocked:
  "index_ok t \<Longrightarrow> a \<in> refs t \<Longrightarrow> refs (removeLocked a t) = refs t - {a}"
  by (simp add: removeLocked_def removeFragmentsLocked_def refs_unlinkLocked)

end
