(* ===== verification/Conntrack_Ops.thy ===== *)
theory Conntrack_Ops
  imports Conntrack_Inv
begin

text \<open>
  Every method of the flow table keeps the invariant of \<open>Conntrack_Inv\<close>, from any table that
  satisfies it and for any packet, response, clock reading and map order.
\<close>

section \<open>\<open>queuePacket\<close>\<close>

lemma word_less_Suc: "(x::u64) \<noteq> - 1 \<Longrightarrow> x < x + 1"
  by (metis inc_less_eq_self_iff_eq not_le)

lemma fragment_drop_simps [simp]:
  "closed (rejectFragment k t) = closed t" "closed (expireFragmentsLocked now t) = closed t"
  "next_id (rejectFragment k t) = next_id t" "next_id (expireFragmentsLocked now t) = next_id t"
  "flows (rejectFragment k t) = flows t" "flows (expireFragmentsLocked now t) = flows t"
  "heap (rejectFragment k t) = heap t" "heap (expireFragmentsLocked now t) = heap t"
  by (simp_all add: rejectFragment_def expireFragmentsLocked_def)

lemma insert_flow_simps [simp]:
  "flows (insert_flow k appID now t) = AList.update k (fresh t) (flows t)"
  "auth (insert_flow k appID now t) = AList.update (next_id t + 1) (fresh t) (auth t)"
  "fragments (insert_flow k appID now t) = fragments t"
  "fresh (insert_flow k appID now t) = Suc (fresh t)"
  "next_id (insert_flow k appID now t) = next_id t + 1"
  "closed (insert_flow k appID now t) = closed t"
  "pendingPackets (insert_flow k appID now t) = pendingPackets t"
  "pendingBytes (insert_flow k appID now t) = pendingBytes t"
  "heap (insert_flow k appID now t) = (heap t)(fresh t := zero_flow\<lparr>f_key := k, f_appID := appID,
     f_authID := next_id t + 1, f_state := flowPending, f_createdAt := now, f_updatedAt := now\<rparr>)"
  by (simp_all add: insert_flow_def Let_def)

lemma refs_insert_flow:
  "map_of (flows t) k = None \<Longrightarrow> refs (insert_flow k appID now t) = insert (fresh t) (refs t)"
  by (simp add: refs_def table_simps ran_map_upd)

lemma next_id_fresh:
  assumes "index_ok t" "next_id t \<noteq> - 1"
  shows "map_of (auth t) (next_id t + 1) = None" and "0 < next_id t + 1" and "next_id t < next_id t + 1"
proof -
  show lt: "next_id t < next_id t + 1"
    using assms(2) by (rule word_less_Suc)
  then show "0 < next_id t + 1" by (metis le_less_trans word_zero_le)
  show "map_of (auth t) (next_id t + 1) = None"
  proof (cases "map_of (auth t) (next_id t + 1)")
    case (Some a)
    then have "next_id t + 1 \<le> next_id t"
      using index_auth [OF assms(1)] by blast
    with lt show ?thesis by (metis not_le)
  qed
qed

lemma index_ok_insert:
  assumes "index_ok t" "map_of (flows t) k = None" "next_id t \<noteq> - 1"
  shows "index_ok (insert_flow k appID now t)" (is "index_ok ?t'")
proof -
  note i = next_id_fresh [OF assms(1,3)]
  have wf: "wf_map (flows ?t')" "wf_map (auth ?t')"
    using assms(1) by (simp_all add: index_ok_def table_simps)
  have 1: "b < Suc (fresh t) \<and> f_key (heap ?t' b) = j \<and> map_of (auth ?t') (f_authID (heap ?t' b)) = Some b"
    if "map_of (flows ?t') j = Some b" for j b
  proof (cases "j = k")
    case True
    with that show ?thesis by (auto simp: table_simps)
  next
    case False
    with that have jb: "map_of (flows t) j = Some b" by (simp add: table_simps)
    note b = index_flow [OF assms(1) jb]
    then have "f_authID (heap t b) \<noteq> next_id t + 1" using i(1) by auto
    with b show ?thesis by (simp add: table_simps less_SucI)
  qed
  have 2: "f_authID (heap ?t' b) = j \<and> map_of (flows ?t') (f_key (heap ?t' b)) = Some b \<and>
      0 < j \<and> j \<le> next_id t + 1"
    if "map_of (auth ?t') j = Some b" for j b
  proof (cases "j = next_id t + 1")
    case True
    with that i show ?thesis by (auto simp: table_simps)
  next
    case False
    with that have jb: "map_of (auth t) j = Some b" by (simp add: table_simps)
    note b = index_auth [OF assms(1) jb]
    have "b < fresh t" using auth_refs [OF assms(1) jb] refs_fresh [OF assms(1)] by blast
    moreover have "f_key (heap t b) \<noteq> k" using b assms(2) by auto
    moreover have "j \<le> next_id t + 1" using b i(3) by (meson le_less_trans less_imp_le)
    ultimately show ?thesis using b by (simp add: table_simps)
  qed
  from wf 1 2 show ?thesis unfolding index_ok_def by simp
qed

lemma ft_inv_insert:
  assumes "ft_inv t" "map_of (flows t) k = None" "next_id t \<noteq> - 1" "length (flows t) < maxFlows"
    "\<not> closed t"
  shows "ft_inv (insert_flow k appID now t)" (is "ft_inv ?t'")
proof -
  have inv: "index_ok t" "frags_ok t" "counts_ok t" "flows_ok t"
    using assms(1) by (auto simp: ft_inv_def)
  have nf: "fresh t \<notin> refs t" using refs_fresh [OF inv(1)] by blast
  have live: "heap ?t' b = heap t b" if "b \<in> refs t" for b
    using that nf by auto
  have "(\<Sum>b\<in>refs t. F (heap ?t' b)) = (\<Sum>b\<in>refs t. F (heap t b))" for F :: "flow \<Rightarrow> nat"
    using live by (intro sum.cong) auto
  then have "cached_packets ?t' = cached_packets t" "cached_bytes ?t' = cached_bytes t"
    using nf unfolding cached_packets_def cached_bytes_def refs_insert_flow [OF assms(2)]
    by (simp_all add: zero_flow_def del: insert_flow_simps(9)) (simp_all add: zero_flow_def)
  then have "counts_ok ?t'" using inv(3) by (simp add: counts_ok_def)
  moreover have "flows_ok ?t'"
    using inv(4) assms nf
    by (auto simp: flows_ok_def refs_insert_flow update_length_new flow_ok_def zero_flow_def)
  moreover have "frags_ok ?t'"
    unfolding frags_ok_def
  proof (intro conjI allI impI)
    show "wf_map (fragments ?t')" "length (fragments ?t') \<le> maxFragments"
      using inv(2) by (simp_all add: frags_ok_def)
    fix j s assume "map_of (fragments ?t') j = Some s"
    then have s: "map_of (fragments t) j = Some s" by simp
    note fl = frag_flow [OF inv(2) s] and r = frag_refs [OF inv(2) s]
    show "f_state (heap ?t' (s_flow s)) \<noteq> flowFailed"
      using fl live [OF r] by simp
    show "map_of (flows ?t') (f_key (heap ?t' (s_flow s))) = Some (s_flow s)"
      unfolding live [OF r] using fl assms(2) by (auto simp: table_simps)
  qed
  ultimately show ?thesis
    using inv(1) assms(2,3) by (simp add: ft_inv_def index_ok_insert)
qed

lemma fragment_flow_inv:
  assumes "ft_inv t" "fragment_flow p now t = (t', r)"
  shows "ft_inv t' \<and> closed t' = closed t \<and> next_id t' = next_id t \<and>
    (\<forall>a. r = Inr a \<longrightarrow> t' = t \<and> a \<in> refs t \<and>
       (\<exists>s. map_of (fragments t) (fragment p) = Some s \<and> s_flow s = a))"
proof -
  have "frags_ok t" using assms(1) by (simp add: ft_inv_def)
  note frag_refs [OF this, of "fragment p"]
  then show ?thesis
    using assms
    by (auto simp: fragment_flow_def Let_def ft_inv_rejectFragment split: option.splits if_splits)
qed

lemma first_fragment_inv:
  assumes "ft_inv t" "first_fragment p now t = (t', r)"
  shows "ft_inv t' \<and> closed t' = closed t \<and> next_id t' = next_id t \<and>
    (r = None \<and> moreFrag p \<longrightarrow> length (fragments t') < maxFragments)"
  using assms
  by (auto simp: first_fragment_def Let_def ft_inv_expireFragmentsLocked ft_inv_rejectFragment
      not_le split: if_splits)

lemma flow_or_new_inv:
  assumes "ft_inv t" "flow_or_new p appID pkt now t = (t', r)" "next_id t \<noteq> - 1" "\<not> closed t"
  shows "ft_inv t' \<and> \<not> closed t' \<and> length (fragments t') \<le> length (fragments t) \<and>
    (\<forall>a. r = Inr a \<longrightarrow> a \<in> refs t')"
proof (cases "\<exists>a. map_of (flows t) (key p) = Some a \<and> expired (heap t a) now")
  case True
  then obtain a where a: "map_of (flows t) (key p) = Some a" "expired (heap t a) now" by blast
  define u where "u = removeLocked a t"
  have iok: "index_ok t" using assms(1) by (simp add: ft_inv_def)
  have "ft_inv u" using assms(1) refsI [OF a(1)] by (simp add: u_def ft_inv_remove)
  moreover have "map_of (flows u) (key p) = None"
    using index_flow [OF iok a(1)] by (simp add: u_def table_simps)
  moreover have "length (fragments u) \<le> length (fragments t)"
    by (simp add: u_def removeLocked_def removeFragmentsLocked_def)
  moreover have "next_id u = next_id t" "closed u = closed t" by (simp_all add: u_def)
  moreover have "flow_or_new p appID pkt now t =
      (if length (flows u) \<ge> maxFlows then (u, Inl ErrFlowTableFull)
       else if pendingPackets u \<ge> maxPendingPackets \<or> pendingBytes u + int (length pkt) > maxPendingBytes
       then (u, Inl ErrPendingFull) else (insert_flow (key p) appID now u, Inr (fresh u)))"
    using a by (simp add: flow_or_new_def u_def)
  ultimately show ?thesis
    using assms(2-4) by (auto simp: ft_inv_insert refs_insert_flow not_le split: if_splits)
next
  case False
  show ?thesis
  proof (cases "map_of (flows t) (key p)")
    case None
    with assms show ?thesis
      by (auto simp: flow_or_new_def ft_inv_insert refs_insert_flow not_le split: if_splits)
  next
    case (Some a)
    with False have ne: "\<not> expired (heap t a) now" by blast
    from Some ne assms show ?thesis
      by (auto simp: flow_or_new_def intro: refsI split: if_splits)
  qed
qed

lemma find_flow_inv:
  assumes "ft_inv t" "find_flow p appID pkt now t = (t', r)" "next_id t \<noteq> - 1" "\<not> closed t"
  shows "ft_inv t' \<and> \<not> closed t' \<and> (\<forall>a. r = Inr a \<longrightarrow> a \<in> refs t' \<and>
    (offset p = 0 \<and> moreFrag p \<longrightarrow> length (fragments t') < maxFragments) \<and>
    (offset p \<noteq> 0 \<longrightarrow> (\<exists>s. map_of (fragments t') (fragment p) = Some s \<and> s_flow s = a)))"
proof (cases "offset p = 0")
  case False
  with assms fragment_flow_inv [OF assms(1), of p now t' r] show ?thesis
    by (auto simp: find_flow_def)
next
  case True
  obtain u e where u: "first_fragment p now t = (u, e)" by fastforce
  note uinv = first_fragment_inv [OF assms(1) u]
  show ?thesis
  proof (cases e)
    case (Some x)
    with True u uinv assms show ?thesis by (auto simp: find_flow_def)
  next
    case None
    with True u assms(2) have "flow_or_new p appID pkt now u = (t', r)"
      by (simp add: find_flow_def)
    then have "ft_inv t' \<and> \<not> closed t' \<and> length (fragments t') \<le> length (fragments u) \<and>
        (\<forall>a. r = Inr a \<longrightarrow> a \<in> refs t')"
      using uinv assms(3,4) by (intro flow_or_new_inv) auto
    with uinv None True show ?thesis by auto
  qed
qed

lemma admit_inv:
  assumes "ft_inv t" "a \<in> refs t" "admit p pkt now a t = (t', r)"
  shows "ft_inv t' \<and> (\<forall>x. r = Inr x \<longrightarrow> fragments t' = fragments t \<and> flows t' = flows t \<and>
    f_key (heap t' a) = f_key (heap t a) \<and> f_state (heap t' a) \<noteq> flowFailed \<and> a \<in> refs t')"
proof -
  define u where "u = update_flow a (\<lambda>f. f\<lparr>f_updatedAt := now\<rparr>) t"
  have uinv: "ft_inv u"
    unfolding u_def using assms(1,2) by (rule ft_inv_update) (auto simp: flow_ok_def)
  have au: "a \<in> refs u" using assms(2) by (simp add: u_def)
  have uf: "fragments u = fragments t" "flows u = flows t" "f_key (heap u a) = f_key (heap t a)"
    by (simp_all add: u_def)
  show ?thesis
  proof (cases "f_state (heap u a)")
    case flowFailed
    with assms(3) uinv show ?thesis
      by (auto simp: admit_def Let_def u_def [symmetric] ft_inv_rejectFragment)
  next
    case flowReady
    with assms(3) uinv au uf show ?thesis
      by (auto simp: admit_def Let_def u_def [symmetric])
  next
    case flowPending
    show ?thesis
    proof (cases "length (f_pending (heap u a)) \<ge> maxPendingPerFlow \<or>
        pendingPackets u \<ge> maxPendingPackets \<or> pendingBytes u + int (length pkt) > maxPendingBytes")
      case True
      with assms(3) uinv flowPending show ?thesis
        by (auto simp: admit_def Let_def u_def [symmetric] ft_inv_rejectFragment)
    next
      case False
      let ?v = "(update_flow a (\<lambda>f. f\<lparr>f_pending := f_pending f @ [pkt]\<rparr>) u)
        \<lparr>pendingBytes := pendingBytes u + int (length pkt), pendingPackets := pendingPackets u + 1\<rparr>"
      have "ft_inv ?v"
        using uinv au False flowPending by (intro ft_inv_update_cache) (auto simp: flow_ok_def)
      moreover have "t' = ?v" "r = Inr ([], True)"
        using assms(3) False flowPending by (auto simp: admit_def Let_def u_def [symmetric])
      ultimately show ?thesis using uf au flowPending by simp
    qed
  qed
qed

lemma ft_inv_set_fragment:
  assumes "ft_inv t" "a \<in> refs t" "f_state (heap t a) \<noteq> flowFailed" "s_flow s = a"
    "length (fragments t) < maxFragments \<or> map_of (fragments t) k \<noteq> None"
  shows "ft_inv (t\<lparr>fragments := AList.update k s (fragments t)\<rparr>)"
proof -
  have inv: "index_ok t" "frags_ok t" using assms(1) by (auto simp: ft_inv_def)
  have len: "length (AList.update k s (fragments t)) \<le> maxFragments"
    using assms(5) inv(2)
    by (cases "map_of (fragments t) k = None") (auto simp: update_length_new update_length_old frags_ok_def)
  have "frags_ok (t\<lparr>fragments := AList.update k s (fragments t)\<rparr>)"
    using len inv(2) assms(3,4) refs_lookup [OF inv(1) assms(2)]
    by (auto simp: frags_ok_def table_simps)
  with assms(1) show ?thesis by (simp add: ft_inv_def)
qed

lemma track_fragment_inv:
  assumes "ft_inv t" "a \<in> refs t" "f_state (heap t a) \<noteq> flowFailed"
    "offset p = 0 \<and> moreFrag p \<longrightarrow> length (fragments t) < maxFragments"
    "offset p \<noteq> 0 \<longrightarrow> (\<exists>s. map_of (fragments t) (fragment p) = Some s \<and> s_flow s = a)"
  shows "ft_inv (track_fragment p now a t)"
  using assms
  by (auto simp: track_fragment_def ft_inv_set_fragment ft_inv_rejectFragment)

lemma queuePacket_inv:
  assumes "ft_inv t" "next_id t \<noteq> - 1"
  shows "ft_inv (fst (queuePacket p appID pkt now t))"
proof (cases "closed t")
  case True
  with assms show ?thesis by (simp add: queuePacket_def)
next
  case False
  obtain u r where u: "find_flow p appID pkt now t = (u, r)" by fastforce
  note uinv = find_flow_inv [OF assms(1) u assms(2) False]
  show ?thesis
  proof (cases r)
    case (Inl e)
    with False u uinv show ?thesis by (simp add: queuePacket_def)
  next
    case (Inr a)
    obtain v q where v: "admit p pkt now a u = (v, q)" by fastforce
    have "a \<in> refs u" "ft_inv u" using uinv Inr by auto
    note vinv = admit_inv [OF this(2,1) v]
    have "ft_inv (track_fragment p now a v)" if "q = Inr x" for x
      using vinv that uinv Inr by (intro track_fragment_inv) auto
    with False u v Inr vinv show ?thesis
      by (cases q) (auto simp: queuePacket_def)
  qed
qed

section \<open>Authentication\<close>

lemma pendingAuth_loop_inv:
  assumes "ft_inv t" "set as \<subseteq> refs t" "distinct as"
  shows "ft_inv (fst (pendingAuth_loop now limit as t out))"
  using assms
proof (induction now limit as t out rule: pendingAuth_loop.induct)
  case (1 now limit t out)
  then show ?case by simp
next
  case (2 now limit a as t out)
  have iok: "index_ok t" using "2.prems"(1) by (simp add: ft_inv_def)
  have a: "a \<in> refs t" using "2.prems"(2) by simp
  show ?case
  proof (cases "expired (heap t a) now")
    case True
    have "ft_inv (removeLocked a t)" using "2.prems"(1) a by (rule ft_inv_remove)
    moreover have "set as \<subseteq> refs (removeLocked a t)"
      using "2.prems"(2,3) refs_removeLocked [OF iok a] by auto
    ultimately show ?thesis using True "2.IH"(1) "2.prems"(3) by simp
  next
    case False
    show ?thesis
    proof (cases "due_auth (heap t a) now")
      case True
      let ?u = "update_flow a (\<lambda>f. f\<lparr>f_authSent := now\<rparr>) t"
      have "ft_inv ?u" using "2.prems"(1) a by (rule ft_inv_update) (auto simp: flow_ok_def)
      then show ?thesis
        using True False "2.prems" "2.IH"(2) by (simp add: Let_def)
    next
      case nd: False
      with False "2.IH"(3) "2.prems" show ?thesis by (simp add: Let_def)
    qed
  qed
qed

lemma retryAuth_inv:
  assumes "ft_inv t"
  shows "ft_inv (fst (retryAuth authID now t))"
proof (cases "map_of (auth t) authID")
  case None
  with assms show ?thesis by (simp add: retryAuth_def)
next
  case (Some a)
  have "index_ok t" using assms by (simp add: ft_inv_def)
  then have a: "a \<in> refs t" using Some by (rule auth_refs)
  have "ft_inv (update_flow a (\<lambda>f. f\<lparr>f_authRetryAt := now + flowAuthRetryDelay, f_authSent := 0,
      f_updatedAt := now\<rparr>) t)"
    if "awaiting (heap t a)" "\<not> expired (heap t a) now" "f_authRetryAt (heap t a) = 0"
    using assms a that
    by (intro ft_inv_update) (auto simp: flow_ok_def awaiting_def expired_def)
  with Some assms ft_inv_remove [OF assms a] show ?thesis
    by (simp add: retryAuth_def Let_def)
qed

lemma ft_inv_fail:
  assumes "ft_inv u" "a \<in> refs u" "f_pending (heap u a) = []"
  shows "ft_inv (removeFragmentsLocked a
    (update_flow a (\<lambda>f. f\<lparr>f_updatedAt := now, f_state := flowFailed\<rparr>) u))"
    (is "ft_inv (removeFragmentsLocked a (update_flow a ?g u))")
proof -
  have inv: "index_ok u" "frags_ok u" "counts_ok u" "flows_ok u"
    using assms(1) by (auto simp: ft_inv_def)
  have "index_ok (update_flow a ?g u)" using inv(1) by (rule index_ok_update) simp_all
  moreover have "flows_ok (update_flow a ?g u)"
    using inv(4) assms(2,3) by (intro flows_ok_update) (auto simp: flow_ok_def flows_ok_def)
  moreover have "counts_ok (update_flow a ?g u)"
    using inv(3) cached_update [OF assms(2), of ?g] by (simp add: counts_ok_def)
  moreover have "frags_ok (removeFragmentsLocked a (update_flow a ?g u))"
    using inv(2) le_trans [OF length_filter_le]
    by (auto simp: removeFragmentsLocked_def frags_ok_def map_of_filter_wf split: option.splits if_splits)
  ultimately show ?thesis by (simp add: ft_inv_def removeFragmentsLocked_def)
qed

lemma completeAuth_inv:
  assumes "ft_inv t"
  shows "ft_inv (fst (completeAuth authID token authErr now t))"
proof (cases "map_of (auth t) authID")
  case None
  with assms show ?thesis by (simp add: completeAuth_def)
next
  case (Some a)
  have iok: "index_ok t" using assms by (simp add: ft_inv_def)
  then have a: "a \<in> refs t" using Some by (rule auth_refs)
  define u where "u = snd (releasePendingLocked a t)"
  have u: "ft_inv u" "a \<in> refs u" "f_pending (heap u a) = []"
    using ft_inv_release [OF assms a] a by (simp_all add: u_def)
  have ready: "ft_inv (update_flow a (\<lambda>f. f\<lparr>f_updatedAt := now, f_state := flowReady, f_token := token\<rparr>) u)"
    if "0 < length token" "length token \<le> 255"
    using u that by (intro ft_inv_update) (auto simp: flow_ok_def)
  have "ft_inv (removeFragmentsLocked a
      (update_flow a (\<lambda>f. f\<lparr>f_updatedAt := now, f_state := flowFailed\<rparr>) u))"
    using u by (rule ft_inv_fail)
  with Some assms ft_inv_remove [OF assms a] ready show ?thesis
    by (simp add: completeAuth_def Let_def case_prod_beta u_def [symmetric] not_le not_less)
qed

section \<open>Expiry and shutdown\<close>

lemma expire_loop_inv:
  assumes "core_inv t" "set as \<subseteq> refs t" "distinct as"
  shows "core_inv (fst (expire_loop now as t n))"
  using assms
proof (induction now as t n rule: expire_loop.induct)
  case (1 now t count)
  then show ?case by simp
next
  case (2 now a as t count)
  have a: "a \<in> refs t" and "index_ok t" using "2.prems" by (auto simp: core_inv_def)
  then have "set as \<subseteq> refs (unlinkLocked a t)"
    using "2.prems"(2,3) refs_unlinkLocked by auto
  with "2.IH" "2.prems" core_inv_unlink [OF "2.prems"(1) a] show ?case by simp
qed

lemma expire_inv:
  assumes "ft_inv t" "set order \<subseteq> refs t" "distinct order"
  shows "ft_inv (fst (expire order now t))"
proof -
  obtain u n where u: "expire_loop now order t 0 = (u, n)" by fastforce
  have "core_inv u"
    using expire_loop_inv [OF ft_inv_core [OF assms(1)] assms(2,3), of now 0] u by simp
  then have "ft_inv (u\<lparr>fragments := filter (\<lambda>(k, s). now < s_expiresAt s \<and>
      map_of (flows u) (f_key (heap u (s_flow s))) = Some (s_flow s)) (fragments u)\<rparr>)"
    by (rule core_inv_filter) auto
  with u show ?thesis by (simp add: expire_def)
qed

lemma clear_inv: "ft_inv (clear t)"
  by (simp add: ft_inv_def index_ok_def frags_ok_def counts_ok_def flows_ok_def clear_def
      cached_packets_def cached_bytes_def refs_def)

lemma newFlowTable_inv: "ft_inv newFlowTable"
  by (simp add: ft_inv_def index_ok_def frags_ok_def counts_ok_def flows_ok_def newFlowTable_def
      cached_packets_def cached_bytes_def refs_def)

end
