(* ===== verification/Conntrack_Props.thy ===== *)
theory Conntrack_Props
  imports Conntrack_Ops
begin

text \<open>
  The flow table as a state machine: one labelled step per method call, runs from the empty
  table, and the properties that hold along every run. A step of \<open>pendingAuth\<close> or \<open>expire\<close> visits
  the flows in any order Go may choose. Two side conditions stand for the environment: the
  clock never reads Go's zero time, and fewer than \<open>2^64 - 1\<close> flows are created.
\<close>

section \<open>Steps and runs\<close>

datatype ft_event =
    EQueue packetInfo bytes "error + (string \<times> bool)"
  | EAuth "authFlow list"
  | ERetry u64 bool
  | EComplete u64 "bytes list"
  | EExpire nat
  | EReject fragmentKey
  | EClear

inductive ft_step :: "flowTable \<Rightarrow> ft_event \<Rightarrow> flowTable \<Rightarrow> bool" where
  queue: "0 < now \<Longrightarrow> next_id t \<noteq> - 1 \<Longrightarrow> queuePacket p appID pkt now t = (t', r) \<Longrightarrow>
     ft_step t (EQueue p pkt r) t'"
| auth_scan: "0 < now \<Longrightarrow> set order = refs t \<Longrightarrow> distinct order \<Longrightarrow>
     pendingAuth order limit now t = (t', out) \<Longrightarrow> ft_step t (EAuth out) t'"
| retry: "0 < now \<Longrightarrow> retryAuth i now t = (t', ok) \<Longrightarrow> ft_step t (ERetry i ok) t'"
| complete: "0 < now \<Longrightarrow> completeAuth i token err now t = (t', k, pkts) \<Longrightarrow>
     ft_step t (EComplete i pkts) t'"
| expire: "0 < now \<Longrightarrow> set order = refs t \<Longrightarrow> distinct order \<Longrightarrow>
     expire order now t = (t', n) \<Longrightarrow> ft_step t (EExpire n) t'"
| reject: "ft_step t (EReject k) (rejectFragment k t)"
| clear: "ft_step t EClear (clear t)"

inductive ft_run :: "ft_event list \<Rightarrow> flowTable \<Rightarrow> bool" where
  start: "ft_run [] newFlowTable"
| step: "ft_run es t \<Longrightarrow> ft_step t e t' \<Longrightarrow> ft_run (es @ [e]) t'"

inductive_simps ft_run_Nil: "ft_run [] t"

lemma ft_step_inv: "ft_step t e t' \<Longrightarrow> ft_inv t \<Longrightarrow> ft_inv t'"
proof (induction rule: ft_step.induct)
  case (queue now t p appID pkt t' r)
  then show ?case using queuePacket_inv [of t p appID pkt now] by simp
next
  case (auth_scan now order t limit t' out)
  then show ?case
    using pendingAuth_loop_inv [of t order now limit "[]"] by (simp add: pendingAuth_def)
next
  case (retry now i t t' ok)
  then show ?case using retryAuth_inv [of t i now] by simp
next
  case (complete now i token err t t' k pkts)
  then show ?case using completeAuth_inv [of t i token err now] by simp
next
  case (expire now order t t' n)
  then show ?case using expire_inv [of t order now] by simp
next
  case (reject t k)
  then show ?case by (rule ft_inv_rejectFragment)
next
  case (clear t)
  show ?case by (rule clear_inv)
qed

lemma ft_run_inv: "ft_run es t \<Longrightarrow> ft_inv t"
  by (induction rule: ft_run.induct) (auto intro: newFlowTable_inv ft_step_inv)

section \<open>A budget of authentication requests\<close>

text \<open>The requests a pending flow may still send: one now, if none is outstanding, and one after
  its only retry.\<close>

definition auth_budget :: "flow \<Rightarrow> nat" where
  "auth_budget f = (if f_state f = flowPending then
     (if f_authSent f = 0 then 1 else 0) + (if f_authRetryAt f = 0 then 1 else 0) else 0)"

fun sent_in :: "u64 \<Rightarrow> ft_event \<Rightarrow> nat" where
  "sent_in i (EAuth out) = count_list (map a_authID out) i"
| "sent_in i _ = 0"

definition requests_sent :: "u64 \<Rightarrow> ft_event list \<Rightarrow> nat" where
  "requests_sent i es = sum_list (map (sent_in i) es)"

definition budget_le :: "flowTable \<Rightarrow> flowTable \<Rightarrow> bool" where
  "budget_le t t' \<longleftrightarrow> next_id t \<le> next_id t' \<and>
     (\<forall>i a. map_of (auth t') i = Some a \<longrightarrow>
        next_id t < i \<or> map_of (auth t) i = Some a \<and> auth_budget (heap t' a) \<le> auth_budget (heap t a))"

lemma budget_le_refl: "budget_le t t"
  by (simp add: budget_le_def)

lemma budget_le_trans: "budget_le t u \<Longrightarrow> budget_le u v \<Longrightarrow> budget_le t v"
  unfolding budget_le_def by (meson le_less_trans order_trans)

lemma budget_le_same:
  "next_id t' = next_id t \<Longrightarrow> auth t' = auth t \<Longrightarrow> heap t' = heap t \<Longrightarrow> budget_le t t'"
  by (simp add: budget_le_def)

lemma budget_le_update:
  "auth_budget (g (heap t a)) \<le> auth_budget (heap t a) \<Longrightarrow> budget_le t (update_flow a g t)"
  by (simp add: budget_le_def)

lemma budget_le_remove: "budget_le t (removeLocked a t)"
  by (auto simp: budget_le_def table_simps auth_budget_def split: if_splits)

lemma budget_le_unlink: "budget_le t (unlinkLocked a t)"
  by (auto simp: budget_le_def table_simps auth_budget_def split: if_splits)

lemma budget_le_insert:
  assumes "index_ok t" "next_id t \<noteq> - 1"
  shows "budget_le t (insert_flow k appID now t)"
proof -
  have lt: "next_id t < next_id t + 1" using assms(2) by (rule word_less_Suc)
  have "b \<noteq> fresh t" if "map_of (auth t) i = Some b" for i b
    using refs_fresh [OF assms(1) auth_refs [OF assms(1) that]] by simp
  with lt show ?thesis by (auto simp: budget_le_def table_simps)
qed

lemma budget_le_find_flow:
  assumes "ft_inv t" "next_id t \<noteq> - 1" "find_flow p appID pkt now t = (t', r)"
  shows "budget_le t t'"
proof (cases "offset p = 0")
  case False
  with assms(3) show ?thesis
    by (auto simp: find_flow_def fragment_flow_def Let_def rejectFragment_def
        intro: budget_le_same split: option.splits if_splits)
next
  case True
  obtain u e where u: "first_fragment p now t = (u, e)" by fastforce
  have same: "next_id u = next_id t" "auth u = auth t" "heap u = heap t"
    using u by (auto simp: first_fragment_def Let_def rejectFragment_def expireFragmentsLocked_def
        split: if_splits)
  have uinv: "ft_inv u" using first_fragment_inv [OF assms(1) u] by simp
  have ins: "budget_le u (insert_flow (key p) appID now (removeLocked a u))" if "a \<in> refs u" for a
  proof (rule budget_le_trans [OF budget_le_remove budget_le_insert])
    show "index_ok (removeLocked a u)" using ft_inv_remove [OF uinv that] by (simp add: ft_inv_def)
    show "next_id (removeLocked a u) \<noteq> - 1" using assms(2) same by simp
  qed
  have "index_ok u" using uinv by (simp add: ft_inv_def)
  then have ins': "budget_le u (insert_flow (key p) appID now u)"
    using assms(2) same by (intro budget_le_insert) auto
  have "budget_le u v" if "flow_or_new p appID pkt now u = (v, r')" for v r'
  proof (cases "map_of (flows u) (key p)")
    case None
    with that ins' show ?thesis
      by (auto simp: flow_or_new_def Let_def intro: budget_le_refl split: if_splits)
  next
    case (Some a)
    with that ins [OF refsI [OF Some]] show ?thesis
      by (auto simp: flow_or_new_def Let_def intro: budget_le_refl budget_le_remove
          split: if_splits)
  qed
  with True u assms(3) have "budget_le u t'"
    by (auto simp: find_flow_def intro: budget_le_refl split: option.splits)
  with budget_le_same [OF same] show ?thesis by (rule budget_le_trans)
qed

lemma budget_le_admit:
  assumes "admit p pkt now a t = (t', r)"
  shows "budget_le t t'"
proof -
  define u where "u = update_flow a (\<lambda>f. f\<lparr>f_updatedAt := now\<rparr>) t"
  let ?v = "(update_flow a (\<lambda>f. f\<lparr>f_pending := f_pending f @ [pkt]\<rparr>) u)
    \<lparr>pendingBytes := pendingBytes u + int (length pkt), pendingPackets := pendingPackets u + 1\<rparr>"
  have tu: "budget_le t u"
    unfolding u_def by (rule budget_le_update) (simp add: auth_budget_def)
  have ur: "budget_le u (rejectFragment (fragment p) u)"
    by (rule budget_le_same) (simp_all add: rejectFragment_def)
  have uv: "budget_le u ?v"
    by (simp add: budget_le_def auth_budget_def)
  have "t' = u \<or> t' = rejectFragment (fragment p) u \<or> t' = ?v"
    using assms by (cases "f_state (heap u a)") (auto simp: admit_def Let_def u_def split: if_splits)
  then show ?thesis
    using tu ur uv budget_le_trans by blast
qed

lemma budget_le_queuePacket:
  assumes "ft_inv t" "next_id t \<noteq> - 1" "queuePacket p appID pkt now t = (t', r)"
  shows "budget_le t t'"
proof (cases "closed t")
  case True
  with assms(3) show ?thesis by (simp add: queuePacket_def budget_le_refl)
next
  case False
  obtain u q where u: "find_flow p appID pkt now t = (u, q)" by fastforce
  note le1 = budget_le_find_flow [OF assms(1,2) u]
  show ?thesis
  proof (cases q)
    case (Inl e)
    with False u assms(3) le1 show ?thesis by (simp add: queuePacket_def)
  next
    case (Inr a)
    obtain v x where v: "admit p pkt now a u = (v, x)" by fastforce
    have "budget_le t v" using le1 budget_le_admit [OF v] by (rule budget_le_trans)
    moreover have "budget_le v (track_fragment p now a v)"
      by (rule budget_le_same)
         (auto simp: track_fragment_def rejectFragment_def split: option.splits)
    ultimately show ?thesis
      using False u v Inr assms(3)
      by (cases x) (auto simp: queuePacket_def intro: budget_le_trans)
  qed
qed

lemma budget_le_retryAuth:
  assumes "0 < now" "retryAuth i now t = (t', ok)"
  shows "budget_le t t'"
proof (cases "map_of (auth t) i")
  case None
  with assms show ?thesis by (simp add: retryAuth_def budget_le_refl)
next
  case (Some a)
  let ?g = "\<lambda>f. f\<lparr>f_authRetryAt := now + flowAuthRetryDelay, f_authSent := 0, f_updatedAt := now\<rparr>"
  have "budget_le t (update_flow a ?g t)" if "awaiting (heap t a)" "f_authRetryAt (heap t a) = 0"
    using assms(1) that by (intro budget_le_update) (auto simp: auth_budget_def awaiting_def)
  with Some assms(2) show ?thesis
    by (auto simp: retryAuth_def Let_def intro: budget_le_refl budget_le_remove split: if_splits)
qed

lemma budget_le_completeAuth:
  assumes "completeAuth i token err now t = (t', k, pkts)"
  shows "budget_le t t'"
proof (cases "map_of (auth t) i")
  case None
  with assms show ?thesis by (simp add: completeAuth_def budget_le_refl)
next
  case (Some a)
  define u where "u = snd (releasePendingLocked a t)"
  have le: "budget_le t u" by (simp add: budget_le_def u_def auth_budget_def)
  have "budget_le u (update_flow a (\<lambda>f. f\<lparr>f_updatedAt := now, f_state := flowReady, f_token := token\<rparr>) u)"
    "budget_le u (removeFragmentsLocked a
       (update_flow a (\<lambda>f. f\<lparr>f_updatedAt := now, f_state := flowFailed\<rparr>) u))"
    by (auto simp: budget_le_def auth_budget_def removeFragmentsLocked_def)
  with Some assms le show ?thesis
    by (auto simp: completeAuth_def Let_def case_prod_beta u_def [symmetric]
        intro: budget_le_refl budget_le_remove budget_le_trans split: if_splits)
qed

lemma budget_le_expire_loop: "budget_le t (fst (expire_loop now as t n))"
proof (induction now as t n rule: expire_loop.induct)
  case (2 now a as t n)
  then show ?case using budget_le_unlink budget_le_trans by fastforce
qed (simp add: budget_le_refl)

lemma budget_le_expire:
  assumes "expire order now t = (t', n)"
  shows "budget_le t t'"
proof -
  obtain u m where u: "expire_loop now order t 0 = (u, m)" by fastforce
  have "budget_le t u" using budget_le_expire_loop [of t now order 0] u by simp
  moreover have "budget_le u t'" using assms u by (auto simp: expire_def intro!: budget_le_same)
  ultimately show ?thesis by (rule budget_le_trans)
qed

text \<open>One scan: what it sends for an id, and what remains, stays within any bound \<open>B\<close> that held
  before.\<close>

definition scan_bound :: "(u64 \<Rightarrow> nat) \<Rightarrow> authFlow list \<Rightarrow> flowTable \<Rightarrow> bool" where
  "scan_bound B out t \<longleftrightarrow> (\<forall>i. count_list (map a_authID out) i \<le> B i \<and>
     (\<forall>a. map_of (auth t) i = Some a \<longrightarrow>
        count_list (map a_authID out) i + auth_budget (heap t a) \<le> B i))"

lemma scan_bound_remove: "scan_bound B out t \<Longrightarrow> scan_bound B out (removeLocked a t)"
  by (auto simp: scan_bound_def table_simps auth_budget_def split: if_splits)

lemma scan_bound_send:
  assumes "scan_bound B out t" "index_ok t" "a \<in> refs t" "due_auth (heap t a) now" "0 < now"
    "f_authID x = f_authID (heap t a)"
  shows "scan_bound B (out @ [\<lparr>a_key = k, a_appID = ap, a_authID = f_authID x\<rparr>])
    (update_flow a (\<lambda>f. f\<lparr>f_authSent := now\<rparr>) t)"
proof -
  have la: "map_of (auth t) (f_authID (heap t a)) = Some a"
    using assms(2,3) by (rule refs_auth)
  have b: "auth_budget ((heap t a)\<lparr>f_authSent := now\<rparr>) + 1 \<le> auth_budget (heap t a)"
    using assms(4,5) by (auto simp: auth_budget_def due_auth_def)
  have ids: "j = f_authID (heap t a)" if "map_of (auth t) j = Some a" for j
    using index_auth [OF assms(2) that] by simp
  have main: "count_list (map a_authID out) j + auth_budget (heap t c) \<le> B j"
    if "map_of (auth t) j = Some c" for j c
    using assms(1) that by (simp add: scan_bound_def)
  have cnt: "count_list (map a_authID out) j \<le> B j" for j
    using assms(1) by (simp add: scan_bound_def)
  show ?thesis
    unfolding scan_bound_def
  proof (intro allI conjI impI)
    fix j
    show "count_list (map a_authID (out @ [\<lparr>a_key = k, a_appID = ap, a_authID = f_authID x\<rparr>])) j \<le> B j"
      using cnt [of j] main [OF la] b assms(6) by (cases "j = f_authID x") auto
    fix c assume "map_of (auth (update_flow a (\<lambda>f. f\<lparr>f_authSent := now\<rparr>) t)) j = Some c"
    then have jc: "map_of (auth t) j = Some c" by simp
    show "count_list (map a_authID (out @ [\<lparr>a_key = k, a_appID = ap, a_authID = f_authID x\<rparr>])) j +
        auth_budget (heap (update_flow a (\<lambda>f. f\<lparr>f_authSent := now\<rparr>) t) c) \<le> B j"
    proof (cases "c = a")
      case True
      then have "j = f_authID x" using ids jc assms(6) by simp
      with main [OF jc] b True show ?thesis by simp
    next
      case False
      then have "j \<noteq> f_authID x" using la jc assms(6) by auto
      with main [OF jc] False show ?thesis by simp
    qed
  qed
qed

lemma scan_bound_loop:
  assumes "scan_bound B out t" "ft_inv t" "set as \<subseteq> refs t" "distinct as" "0 < now"
  shows "scan_bound B (snd (pendingAuth_loop now limit as t out))
           (fst (pendingAuth_loop now limit as t out)) \<and>
         next_id (fst (pendingAuth_loop now limit as t out)) = next_id t"
  using assms
proof (induction now limit as t out rule: pendingAuth_loop.induct)
  case (1 now limit t out)
  then show ?case by simp
next
  case (2 now limit a as t out)
  have iok: "index_ok t" using "2.prems"(2) by (simp add: ft_inv_def)
  have a: "a \<in> refs t" using "2.prems"(3) by simp
  consider "expired (heap t a) now" | "\<not> expired (heap t a) now" "due_auth (heap t a) now"
    | "\<not> expired (heap t a) now" "\<not> due_auth (heap t a) now" by blast
  then show ?case
  proof cases
    case 1
    have "set as \<subseteq> refs (removeLocked a t)"
      using "2.prems"(3,4) refs_removeLocked [OF iok a] by auto
    with 1 "2.prems" "2.IH"(1) scan_bound_remove ft_inv_remove [OF _ a] show ?thesis by simp
  next
    case 2
    let ?u = "update_flow a (\<lambda>f. f\<lparr>f_authSent := now\<rparr>) t"
    have "ft_inv ?u" using "2.prems"(2) a by (rule ft_inv_update) (auto simp: flow_ok_def)
    moreover note scan_bound_send [OF "2.prems"(1) iok a 2(2) "2.prems"(5) refl]
    ultimately show ?thesis
      using 2 "2.prems" "2.IH"(2) by (simp add: Let_def)
  next
    case 3
    with "2.prems" "2.IH"(3) show ?thesis by (simp add: Let_def)
  qed
qed

definition auth_accounting :: "ft_event list \<Rightarrow> flowTable \<Rightarrow> bool" where
  "auth_accounting es t \<longleftrightarrow> (\<forall>i. requests_sent i es \<le> 2 \<and>
     (next_id t < i \<longrightarrow> requests_sent i es = 0) \<and>
     (\<forall>a. map_of (auth t) i = Some a \<longrightarrow> requests_sent i es + auth_budget (heap t a) \<le> 2))"

lemma requests_sent_snoc [simp]: "requests_sent i (es @ [e]) = requests_sent i es + sent_in i e"
  by (simp add: requests_sent_def)

lemma auth_budget_le2: "auth_budget f \<le> 2"
  by (simp add: auth_budget_def)

lemma accounting_budget_le:
  assumes "auth_accounting es t" "budget_le t t'" "\<And>i. sent_in i e = 0"
  shows "auth_accounting (es @ [e]) t'"
  unfolding auth_accounting_def
proof (intro allI conjI impI)
  fix i
  show "requests_sent i (es @ [e]) \<le> 2"
    using assms(1,3) by (simp add: auth_accounting_def)
  show "requests_sent i (es @ [e]) = 0" if "next_id t' < i"
  proof -
    have "next_id t < i" using that assms(2) by (auto simp: budget_le_def)
    with assms(1,3) show ?thesis by (simp add: auth_accounting_def)
  qed
  fix a assume "map_of (auth t') i = Some a"
  with assms(2) consider "next_id t < i"
    | "map_of (auth t) i = Some a" "auth_budget (heap t' a) \<le> auth_budget (heap t a)"
    by (auto simp: budget_le_def)
  then show "requests_sent i (es @ [e]) + auth_budget (heap t' a) \<le> 2"
  proof cases
    case 1
    with assms(1,3) auth_budget_le2 show ?thesis by (simp add: auth_accounting_def)
  next
    case 2
    from assms(1) 2(1) have "requests_sent i es + auth_budget (heap t a) \<le> 2"
      by (simp add: auth_accounting_def)
    with 2(2) assms(3) show ?thesis by simp
  qed
qed

lemma accounting_scan:
  assumes "auth_accounting es t" "ft_inv t" "set order = refs t" "distinct order" "0 < now"
    "pendingAuth order limit now t = (t', out)"
  shows "auth_accounting (es @ [EAuth out]) t'"
proof -
  define B where "B = (\<lambda>i. if next_id t < i then 0 else 2 - requests_sent i es)"
  have "index_ok t" using assms(2) by (simp add: ft_inv_def)
  then have le: "i \<le> next_id t" if "map_of (auth t) i = Some a" for i a
    using index_auth that by blast
  have "scan_bound B [] t"
    unfolding scan_bound_def
  proof (intro allI conjI impI)
    fix i a assume ia: "map_of (auth t) i = Some a"
    then have "requests_sent i es + auth_budget (heap t a) \<le> 2"
      using assms(1) by (simp add: auth_accounting_def)
    with le [OF ia] show "count_list (map a_authID []) i + auth_budget (heap t a) \<le> B i"
      by (simp add: B_def leD)
  qed simp
  from scan_bound_loop [OF this assms(2) _ assms(4,5), of limit] assms(3,6)
  have sb: "scan_bound B out t'" and nx: "next_id t' = next_id t"
    by (auto simp: pendingAuth_def)
  have sent: "requests_sent i es \<le> 2" "next_id t < i \<Longrightarrow> requests_sent i es = 0" for i
    using assms(1) by (auto simp: auth_accounting_def)
  show ?thesis
    unfolding auth_accounting_def
  proof (intro allI conjI impI)
    fix i
    have b: "B i + requests_sent i es \<le> 2" using sent by (simp add: B_def)
    show "requests_sent i (es @ [EAuth out]) \<le> 2"
      using sb b by (auto simp: scan_bound_def dest: spec [of _ i])
    show "requests_sent i (es @ [EAuth out]) = 0" if "next_id t' < i"
      using sb sent that nx by (auto simp: scan_bound_def B_def dest: spec [of _ i])
    fix a assume "map_of (auth t') i = Some a"
    with sb b show "requests_sent i (es @ [EAuth out]) + auth_budget (heap t' a) \<le> 2"
      by (fastforce simp: scan_bound_def)
  qed
qed

lemma auth_accounting_run: "ft_run es t \<Longrightarrow> auth_accounting es t"
proof (induction rule: ft_run.induct)
  case start
  then show ?case by (simp add: auth_accounting_def requests_sent_def newFlowTable_def)
next
  case (step es t e t')
  from step.hyps(1) have inv: "ft_inv t" by (rule ft_run_inv)
  from step.hyps(2) step.IH inv show ?case
  proof cases
    case (auth_scan now order limit out)
    with step.IH inv show ?thesis by (simp add: accounting_scan)
  qed (auto intro: accounting_budget_le budget_le_queuePacket budget_le_retryAuth
        budget_le_completeAuth budget_le_expire budget_le_same
        simp: rejectFragment_def clear_def budget_le_def)
qed

section \<open>Expiry\<close>

lemma expire_loop_refs:
  assumes "index_ok t" "set as \<subseteq> refs t" "distinct as" "expire_loop now as t n = (u, m)"
  shows "refs u = refs t - {a \<in> set as. expired (heap t a) now} \<and>
    (\<forall>a. f_state (heap u a) = f_state (heap t a) \<and> f_authRetryAt (heap u a) = f_authRetryAt (heap t a) \<and>
         f_createdAt (heap u a) = f_createdAt (heap t a) \<and> f_updatedAt (heap u a) = f_updatedAt (heap t a))"
  using assms
proof (induction now as t n rule: expire_loop.induct)
  case (1 now t n)
  then show ?case by simp
next
  case (2 now a as t n)
  have a: "a \<in> refs t" using "2.prems"(2) by simp
  show ?case
  proof (cases "expired (heap t a) now")
    case True
    have "set as \<subseteq> refs (unlinkLocked a t)"
      using "2.prems"(2,3) refs_unlinkLocked [OF "2.prems"(1) a] by auto
    with True "2.prems" "2.IH"(1) index_ok_unlink [OF "2.prems"(1) a]
    have IH: "refs u = refs (unlinkLocked a t) - {b \<in> set as. expired (heap (unlinkLocked a t) b) now} \<and>
        (\<forall>b. f_state (heap u b) = f_state (heap (unlinkLocked a t) b) \<and>
           f_authRetryAt (heap u b) = f_authRetryAt (heap (unlinkLocked a t) b) \<and>
           f_createdAt (heap u b) = f_createdAt (heap (unlinkLocked a t) b) \<and>
           f_updatedAt (heap u b) = f_updatedAt (heap (unlinkLocked a t) b))"
      by simp
    have "{b \<in> set as. expired (heap (unlinkLocked a t) b) now} = {b \<in> set as. expired (heap t b) now}"
      by (auto simp: expired_def)
    with IH True refs_unlinkLocked [OF "2.prems"(1) a] show ?thesis by auto
  next
    case False
    with "2.prems" "2.IH"(2) show ?thesis by auto
  qed
qed

lemma expire_leaves_none_expired:
  assumes "ft_inv t" "set order = refs t" "distinct order" "expire order now t = (t', n)" "a \<in> refs t'"
  shows "\<not> expired (heap t' a) now"
proof -
  obtain u m where u: "expire_loop now order t 0 = (u, m)" by fastforce
  have "index_ok t" using assms(1) by (simp add: ft_inv_def)
  note loop = expire_loop_refs [OF this _ assms(3) u]
  have same: "refs t' = refs u" "heap t' = heap u"
    using assms(4) u by (auto simp: expire_def refs_def)
  with loop assms(2,5) have "\<not> expired (heap t a) now" by auto
  with loop same assms(2) show ?thesis by (auto simp: expired_def)
qed

section \<open>A concrete run\<close>

definition demo_info :: packetInfo where
  "demo_info = fst (parsePacket udp_example)"

lemma demo_info_simps [simp]: "offset demo_info = 0" "moreFrag demo_info = False"
  unfolding demo_info_def parsePacket_udp_example
  by (simp_all add: udp_example_def get16_def be16_def)

definition demo_queued :: flowTable where
  "demo_queued = fst (queuePacket demo_info ''app'' udp_example second newFlowTable)"

definition demo_flow :: flow where
  "demo_flow = zero_flow\<lparr>f_key := key demo_info, f_appID := ''app'', f_authID := 1,
     f_pending := [udp_example], f_createdAt := second, f_updatedAt := second\<rparr>"

lemma queuePacket_demo:
  "queuePacket demo_info ''app'' udp_example second newFlowTable = (demo_queued, Inr ([], True))"
  and demo_queued_eq: "demo_queued = \<lparr>heap = (\<lambda>_. zero_flow)(0 := demo_flow), fresh = 1,
     flows = [(key demo_info, 0)], auth = [(1, 0)], fragments = [], next_id = 1,
     pendingPackets = 1, pendingBytes = 28, closed = False\<rparr>"
  by (simp_all add: demo_queued_def demo_flow_def queuePacket_def find_flow_def first_fragment_def
      flow_or_new_def insert_flow_def admit_def track_fragment_def newFlowTable_def update_flow_def
      zero_flow_def Let_def udp_example_def fun_eq_iff)

lemma demo_refs [simp]: "refs demo_queued = {0}"
  by (simp add: refs_def demo_queued_eq ran_def)

lemma demo_run: "ft_run [EQueue demo_info udp_example (Inr ([], True))] demo_queued"
  using ft_run.step [OF ft_run.start ft_step.queue [OF _ _ queuePacket_demo]]
  by (simp add: newFlowTable_def)

definition demo_sent :: flowTable where
  "demo_sent = demo_queued\<lparr>heap := (heap demo_queued)(0 := demo_flow\<lparr>f_authSent := 2 * second\<rparr>)\<rparr>"

abbreviation demo_request :: authFlow where
  "demo_request \<equiv> \<lparr>a_key = key demo_info, a_appID = ''app'', a_authID = 1\<rparr>"

lemma pendingAuth_demo:
  "pendingAuth [0] 32 (2 * second) demo_queued = (demo_sent, [demo_request])"
  by (simp add: pendingAuth_def demo_sent_def demo_queued_eq expired_def due_auth_def demo_flow_def
      zero_flow_def update_flow_def Let_def)

lemma demo_run_sent:
  "ft_run [EQueue demo_info udp_example (Inr ([], True)), EAuth [demo_request]] demo_sent"
  using ft_run.step [OF demo_run ft_step.auth_scan [OF _ _ _ pendingAuth_demo]] by simp

section \<open>Properties\<close>

text \<open>C1: Every table reachable from the empty one by the table's methods, in any order and under
  any iteration order of Go's maps, satisfies the invariant: both indexes agree, each fragment
  association points to a live flow that has not failed, the global counters are exactly the
  number and size of the cached packets, at most 2048 packets (2 MiB) are cached, at most 64
  per flow, at most 8192 flows and 1024 associations exist, only pending flows cache packets,
  and every ready flow has a token of 1 to 255 bytes.\<close>

theorem flow_table_invariant:
  assumes "ft_run es t"
  shows "ft_inv t"
  using assms by (rule ft_run_inv)

theorem flow_table_invariant_witness:
  "ft_run [EQueue demo_info udp_example (Inr ([], True))] demo_queued \<and> ft_inv demo_queued
   \<and> cached_packets demo_queued = 1"
  using demo_run flow_table_invariant [OF demo_run]
  by (simp add: cached_packets_def) (simp add: demo_queued_eq demo_flow_def)

text \<open>C4: In every run, at most two authentication requests are sent for one flow, however many
  temporary responses arrive and however the scans interleave with them: one retry is all a
  flow gets.\<close>

theorem auth_requests_bounded:
  assumes "ft_run es t"
  shows "requests_sent i es \<le> 2"
  using auth_accounting_run [OF assms] by (simp add: auth_accounting_def)

theorem auth_requests_bounded_witness:
  "requests_sent 1 [EQueue demo_info udp_example (Inr ([], True)), EAuth [demo_request]] = 1 \<and>
   requests_sent 1 [EQueue demo_info udp_example (Inr ([], True)), EAuth [demo_request]] \<le> 2"
  using auth_requests_bounded [OF demo_run_sent, of 1] by (simp add: requests_sent_def)

text \<open>C6: Right after a sweep of \<open>expire\<close> at time \<open>now\<close> (the only point at which this is claimed: between two sweeps a
  flow may stay longer), every flow still waiting for its authentication was created less than 26 seconds before (8 seconds for the first request, a delay of 10, 8 more
  for the retry), and every other flow was used within the last two minutes.\<close>

theorem pending_flow_deadline:
  assumes "ft_run es t" "set order = refs t" "distinct order" "expire order now t = (t', n)"
    "a \<in> refs t'"
  shows "(f_state (heap t' a) = flowPending \<longrightarrow> now < f_createdAt (heap t' a) + 26 * second) \<and>
    (f_state (heap t' a) \<noteq> flowPending \<longrightarrow> now < f_updatedAt (heap t' a) + 2 * minute)"
proof -
  have inv: "ft_inv t" using assms(1) by (rule ft_run_inv)
  have "ft_inv t'" using expire_inv [OF inv _ assms(3), of now] assms(2,4) by simp
  then have "flow_ok (heap t' a)" using assms(5) by (auto simp: ft_inv_def flows_ok_def)
  moreover have "\<not> expired (heap t' a) now"
    using expire_leaves_none_expired [OF inv assms(2-5)] .
  ultimately show ?thesis
    by (auto simp: flow_ok_def expired_def Let_def split: if_splits)
qed

theorem pending_flow_deadline_witness:
  "5 * second < f_createdAt (heap demo_queued 0) + 26 * second"
proof -
  have e: "expire [0] (5 * second) demo_queued = (demo_queued, 0)"
    by (simp add: expire_def demo_queued_eq expired_def demo_flow_def zero_flow_def)
  show ?thesis
    using pending_flow_deadline [OF demo_run _ _ e, of 0]
    by (simp add: demo_queued_eq demo_flow_def zero_flow_def)
qed

lemma admit_fragments:
  "admit p pkt now a t = (t', Inr r) \<Longrightarrow> fragments t' = fragments t"
  "admit p pkt now a t = (t', Inl e) \<Longrightarrow> map_of (fragments t') (fragment p) = None"
  by (cases "f_state (heap t a)";
      auto simp: admit_def Let_def rejectFragment_def table_simps split: if_splits)+

text \<open>A successful response for a flow that waits for it hands back exactly the packets cached
  for that flow, in the order they came, and empties its cache; from then on its packets are
  sent with the flow's token without being cached.\<close>

theorem completeAuth_releases_in_order:
  assumes "ft_inv t" "map_of (auth t) i = Some a" "awaiting (heap t a)" "\<not> expired (heap t a) now"
    "0 < length token" "length token \<le> 255"
    "completeAuth i token None now t = (t', k, pkts)"
  shows "pkts = f_pending (heap t a) \<and> k = f_key (heap t a) \<and> f_pending (heap t' a) = [] \<and>
    pendingPackets t' = pendingPackets t - int (length pkts) \<and>
    (\<forall>p appID pkt now'. key p = k \<and> offset p = 0 \<and> \<not> moreFrag p \<and> \<not> closed t' \<and>
       now' < now + flowIdleTTL \<longrightarrow> snd (queuePacket p appID pkt now' t') = Inr (token, False))"
proof -
  have iok: "index_ok t" using assms(1) by (simp add: ft_inv_def)
  have fl: "map_of (flows t) (f_key (heap t a)) = Some a"
    using index_auth [OF iok assms(2)] by blast
  define u where "u = snd (releasePendingLocked a t)"
  define g where "g = (\<lambda>f::flow. f\<lparr>f_updatedAt := now, f_state := flowReady, f_token := token\<rparr>)"
  have t': "t' = update_flow a g u" "k = f_key (heap t a)" "pkts = f_pending (heap t a)"
    using assms(2-7) by (auto simp: completeAuth_def Let_def case_prod_beta u_def g_def not_less)
  have h: "f_state (heap t' a) = flowReady" "f_token (heap t' a) = token"
    "f_updatedAt (heap t' a) = now" "f_pending (heap t' a) = []"
    by (simp_all add: t' g_def u_def)
  have fl': "map_of (flows t') (f_key (heap t a)) = Some a"
    using fl by (simp add: t' u_def)
  have "pendingPackets t' = pendingPackets t - int (length pkts)"
    by (simp add: t' u_def releasePendingLocked_def Let_def)
  moreover have "snd (queuePacket p appID pkt now' t') = Inr (token, False)"
    if "key p = k" "offset p = 0" "\<not> moreFrag p" "\<not> closed t'" "now' < now + flowIdleTTL"
    for p appID pkt now'
  proof -
    have "\<not> expired (heap t' a) now'" using h that by (simp add: expired_def)
    with that fl' h t'(2) show ?thesis
      by (simp add: queuePacket_def find_flow_def first_fragment_def flow_or_new_def admit_def Let_def)
  qed
  ultimately show ?thesis using t' h by blast
qed

theorem completeAuth_releases_in_order_witness:
  "fst (snd (completeAuth 1 ''T'' None (3 * second) demo_sent)) = key demo_info \<and>
   snd (snd (completeAuth 1 ''T'' None (3 * second) demo_sent)) = [udp_example]"
proof -
  have inv: "ft_inv demo_sent" using demo_run_sent by (rule ft_run_inv)
  have "awaiting (heap demo_sent 0)" "\<not> expired (heap demo_sent 0) (3 * second)"
    "map_of (auth demo_sent) 1 = Some 0" "f_pending (heap demo_sent 0) = [udp_example]"
    "f_key (heap demo_sent 0) = key demo_info"
    by (simp_all add: demo_sent_def demo_queued_eq demo_flow_def zero_flow_def awaiting_def expired_def)
  with completeAuth_releases_in_order [OF inv, of 1 0 "3 * second" "''T''"] show ?thesis
    by (cases "completeAuth 1 ''T'' None (3 * second) demo_sent") auto
qed

end
