(* ===== verification/Conntrack_Fragments.thy ===== *)
theory Conntrack_Fragments
  imports Conntrack_Props
begin

text \<open>
  Fragmented datagrams along the runs of the flow table: the history of the packets \<open>queuePacket\<close>
  accepted, with the time of each, and the association of a datagram as a summary of the accepted
  fragments since its last first fragment.
\<close>

section \<open>Operations that only drop associations\<close>

definition frags_kept :: "flowTable \<Rightarrow> flowTable \<Rightarrow> bool" where
  "frags_kept t t' \<longleftrightarrow> fresh t \<le> fresh t' \<and> (\<forall>a<fresh t. f_key (heap t' a) = f_key (heap t a)) \<and>
     set (fragments t') \<subseteq> set (fragments t)"

lemma frags_kept_refl: "frags_kept t t"
  by (simp add: frags_kept_def)

lemma frags_kept_trans: "frags_kept t u \<Longrightarrow> frags_kept u v \<Longrightarrow> frags_kept t v"
  by (auto simp: frags_kept_def)

lemma set_delete_subset: "set (AList.delete k al) \<subseteq> set al"
  by (auto simp: AList.delete_eq)

lemma frags_kept_update: "f_key (g (heap t a)) = f_key (heap t a) \<Longrightarrow> frags_kept t (update_flow a g t)"
  by (simp add: frags_kept_def)

lemma frags_kept_same:
  "fresh t' = fresh t \<Longrightarrow> heap t' = heap t \<Longrightarrow> fragments t' = fragments t \<Longrightarrow> frags_kept t t'"
  by (simp add: frags_kept_def)

lemma frags_kept_reject: "frags_kept t (rejectFragment k t)"
  using set_delete_subset by (fastforce simp: frags_kept_def rejectFragment_def)

lemma frags_kept_filter: "frags_kept t (t\<lparr>fragments := filter P (fragments t)\<rparr>)"
  by (auto simp: frags_kept_def)

lemma frags_kept_release: "frags_kept t (snd (releasePendingLocked a t))"
  by (simp add: frags_kept_def)

lemma frags_kept_unlink: "frags_kept t (unlinkLocked a t)"
  by (simp add: frags_kept_def)

lemma frags_kept_remove: "frags_kept t (removeLocked a t)"
  unfolding removeLocked_def removeFragmentsLocked_def
  by (rule frags_kept_trans [OF frags_kept_unlink frags_kept_filter])

lemma frags_kept_removeFragments: "frags_kept t (removeFragmentsLocked a t)"
  unfolding removeFragmentsLocked_def by (rule frags_kept_filter)

lemma frags_kept_insert: "frags_kept t (insert_flow k appID now t)"
  by (simp add: frags_kept_def)

lemmas frags_kept_intros = frags_kept_refl frags_kept_reject frags_kept_remove frags_kept_insert
  frags_kept_filter frags_kept_unlink

lemma frags_kept_first_fragment: "first_fragment p now t = (t', e) \<Longrightarrow> frags_kept t t'"
  by (auto simp: first_fragment_def Let_def expireFragmentsLocked_def
      intro: frags_kept_intros frags_kept_trans [OF frags_kept_reject frags_kept_filter] split: if_splits)

lemma frags_kept_flow_or_new: "flow_or_new p appID pkt now t = (t', e) \<Longrightarrow> frags_kept t t'"
  by (auto simp: flow_or_new_def Let_def intro: frags_kept_intros
      frags_kept_trans [OF frags_kept_remove frags_kept_insert] split: if_splits option.splits)

lemma frags_kept_find_flow:
  assumes "find_flow p appID pkt now t = (t', r)"
  shows "frags_kept t t'"
proof (cases "offset p = 0")
  case True
  obtain u e where u: "first_fragment p now t = (u, e)" by fastforce
  note le = frags_kept_first_fragment [OF u]
  show ?thesis
  proof (cases e)
    case None
    with True u assms have "flow_or_new p appID pkt now u = (t', r)" by (simp add: find_flow_def)
    with le show ?thesis by (blast intro: frags_kept_trans frags_kept_flow_or_new)
  qed (use True u assms le in \<open>simp add: find_flow_def\<close>)
qed (use assms in \<open>auto simp: find_flow_def fragment_flow_def Let_def intro: frags_kept_intros
       split: option.splits if_splits\<close>)

lemma frags_kept_admit:
  assumes "admit p pkt now a t = (t', r)"
  shows "frags_kept t t'"
proof -
  define u where "u = update_flow a (\<lambda>f. f\<lparr>f_updatedAt := now\<rparr>) t"
  have tu: "frags_kept t u" unfolding u_def by (rule frags_kept_update) simp
  have "frags_kept u t'"
    using assms by (cases "f_state (heap u a)")
      (auto simp: admit_def Let_def u_def [symmetric] frags_kept_def
        intro: frags_kept_intros split: if_splits dest: subsetD [OF set_delete_subset],
       auto simp: rejectFragment_def dest: subsetD [OF set_delete_subset])
  with tu show ?thesis by (rule frags_kept_trans)
qed

lemma frags_kept_retryAuth: "retryAuth i now t = (t', ok) \<Longrightarrow> frags_kept t t'"
  by (auto simp: retryAuth_def Let_def intro: frags_kept_intros frags_kept_update
      split: option.splits if_splits)

lemma frags_kept_completeAuth:
  assumes "completeAuth i token err now t = (t', k, pkts)"
  shows "frags_kept t t'"
proof (cases "map_of (auth t) i")
  case None
  with assms show ?thesis by (simp add: completeAuth_def frags_kept_refl)
next
  case (Some a)
  define u where "u = snd (releasePendingLocked a t)"
  have le: "frags_kept t u" unfolding u_def by (rule frags_kept_release)
  have "frags_kept u (update_flow a (\<lambda>f. f\<lparr>f_updatedAt := now, f_state := flowReady, f_token := token\<rparr>) u)"
    "frags_kept u (removeFragmentsLocked a
       (update_flow a (\<lambda>f. f\<lparr>f_updatedAt := now, f_state := flowFailed\<rparr>) u))"
    by (auto intro!: frags_kept_trans [OF frags_kept_update frags_kept_removeFragments] frags_kept_update)
  with Some assms le show ?thesis
    by (auto simp: completeAuth_def Let_def case_prod_beta u_def [symmetric]
        intro: frags_kept_intros frags_kept_trans split: if_splits)
qed

lemma frags_kept_pendingAuth_loop: "frags_kept t (fst (pendingAuth_loop now limit as t out))"
proof (induction as arbitrary: t out)
  case (Cons a as)
  have sent: "frags_kept t (update_flow a (\<lambda>f. f\<lparr>f_authSent := now\<rparr>) t)"
    by (rule frags_kept_update) simp
  show ?case
    using frags_kept_trans [OF frags_kept_remove Cons.IH] frags_kept_trans [OF sent Cons.IH] sent Cons.IH
    by (simp add: Let_def)
qed (simp add: frags_kept_refl)

lemma frags_kept_expire_loop: "frags_kept t (fst (expire_loop now as t n))"
proof (induction as arbitrary: t n)
  case (Cons a as)
  show ?case using frags_kept_trans [OF frags_kept_unlink Cons.IH] Cons.IH by simp
qed (simp add: frags_kept_refl)

lemma frags_kept_expire: "expire order now t = (t', n) \<Longrightarrow> frags_kept t t'"
  using frags_kept_expire_loop [of t now order 0]
  by (auto simp: expire_def case_prod_beta intro: frags_kept_trans frags_kept_filter)

lemma frags_kept_step:
  assumes "ft_step t e t'" "\<And>p pkt r. e \<noteq> EQueue p pkt r"
  shows "frags_kept t t'"
  using assms
proof (induction rule: ft_step.induct)
  case (auth_scan now order t limit t' out)
  then show ?case
    using frags_kept_pendingAuth_loop [of t now limit order "[]"] by (simp add: pendingAuth_def)
next
  case (clear t)
  then show ?case by (simp add: frags_kept_def clear_def)
qed (blast intro: frags_kept_reject frags_kept_retryAuth frags_kept_completeAuth frags_kept_expire)+

lemma frags_kept_lookup:
  assumes "frags_kept t t'" "ft_inv t" "map_of (fragments t') k = Some s"
  shows "map_of (fragments t) k = Some s" and "f_key (heap t' (s_flow s)) = f_key (heap t (s_flow s))"
proof -
  have inv: "index_ok t" "frags_ok t" using assms(2) by (auto simp: ft_inv_def)
  have "(k, s) \<in> set (fragments t)"
    using assms(1) map_of_SomeD [OF assms(3)] by (auto simp: frags_kept_def)
  then show l: "map_of (fragments t) k = Some s"
    using inv(2) by (auto simp: frags_ok_def)
  show "f_key (heap t' (s_flow s)) = f_key (heap t (s_flow s))"
    using assms(1) refs_fresh [OF inv(1) frag_refs [OF inv(2) l]] by (simp add: frags_kept_def)
qed

section \<open>The history of accepted packets\<close>

text \<open>\<open>accepted h t\<close>: \<open>t\<close> is reached from the empty table by calls of its methods, in any order, and
  \<open>h\<close> lists the packets \<open>queuePacket\<close> accepted on the way with the time of each call.\<close>

inductive accepted :: "(packetInfo \<times> time) list \<Rightarrow> flowTable \<Rightarrow> bool" where
  start: "accepted [] newFlowTable"
| accept: "accepted h t \<Longrightarrow> 0 < now \<Longrightarrow> next_id t \<noteq> - 1 \<Longrightarrow>
     queuePacket p appID pkt now t = (t', Inr r) \<Longrightarrow> accepted (h @ [(p, now)]) t'"
| refuse: "accepted h t \<Longrightarrow> 0 < now \<Longrightarrow> next_id t \<noteq> - 1 \<Longrightarrow>
     queuePacket p appID pkt now t = (t', Inl e) \<Longrightarrow> accepted h t'"
| other: "accepted h t \<Longrightarrow> ft_step t e t' \<Longrightarrow> (\<And>p pkt r. e \<noteq> EQueue p pkt r) \<Longrightarrow> accepted h t'"

lemma accepted_inv: "accepted h t \<Longrightarrow> ft_inv t"
  by (induction rule: accepted.induct)
     (auto intro: newFlowTable_inv ft_step_inv ft_step.queue)

text \<open>The fragments of one datagram in a history, and a sequence of them that starts with a first
  fragment and in which each one begins where the one before it ended.\<close>

definition datagram :: "fragmentKey \<Rightarrow> (packetInfo \<times> time) list \<Rightarrow> (packetInfo \<times> time) list" where
  "datagram k h = filter (\<lambda>(p, _). (moreFrag p \<or> offset p \<noteq> 0) \<and> fragment p = k) h"

abbreviation ends_at :: "packetInfo \<Rightarrow> u32" where
  "ends_at p \<equiv> offset p + payloadBytes p"

definition gapless :: "(packetInfo \<times> time) list \<Rightarrow> bool" where
  "gapless c \<longleftrightarrow> c \<noteq> [] \<and> offset (fst (c ! 0)) = 0 \<and> (\<forall>(p, _) \<in> set c. moreFrag p) \<and>
     (\<forall>i. Suc i < length c \<longrightarrow> offset (fst (c ! Suc i)) = ends_at (fst (c ! i)))"

definition follows :: "(packetInfo \<times> time) list \<Rightarrow> flowTable \<Rightarrow> fragmentState \<Rightarrow> bool" where
  "follows d t s \<longleftrightarrow> (\<exists>pre c. d = pre @ c \<and> gapless c \<and> s_nextOffset s = ends_at (fst (last c)) \<and>
     s_expiresAt s = snd (c ! 0) + fragmentTTL \<and> f_key (heap t (s_flow s)) = key (fst (c ! 0)))"

definition frags_follow :: "(packetInfo \<times> time) list \<Rightarrow> flowTable \<Rightarrow> bool" where
  "frags_follow h t \<longleftrightarrow> (\<forall>k s. map_of (fragments t) k = Some s \<longrightarrow> follows (datagram k h) t s)"

lemma gapless_single: "offset p = 0 \<Longrightarrow> moreFrag p \<Longrightarrow> gapless [(p, now)]"
  by (simp add: gapless_def)

lemma gapless_snoc:
  assumes "gapless c" "moreFrag p" "offset p = ends_at (fst (last c))"
  shows "gapless (c @ [(p, now)])"
proof -
  have ne: "c \<noteq> []" using assms(1) by (simp add: gapless_def)
  have "offset (fst ((c @ [(p, now)]) ! Suc i)) = ends_at (fst ((c @ [(p, now)]) ! i))"
    if "Suc i < length (c @ [(p, now)])" for i
  proof (cases "Suc i < length c")
    case True
    with assms(1) show ?thesis by (simp add: gapless_def nth_append)
  next
    case False
    with that have "i = length c - 1" "Suc i = length c" by simp_all
    with ne assms(3) show ?thesis by (simp add: nth_append last_conv_nth)
  qed
  with ne assms(1,2) show ?thesis by (auto simp: gapless_def nth_append)
qed

lemma follows_first:
  assumes "offset p = 0" "moreFrag p" "f_key (heap t (s_flow s)) = key p"
    "s_expiresAt s = now + fragmentTTL" "s_nextOffset s = payloadBytes p"
  shows "follows (d @ [(p, now)]) t s"
  unfolding follows_def using assms
  by (intro exI [of _ d] exI [of _ "[(p, now)]"]) (simp add: gapless_single)

lemma follows_next:
  assumes "follows d t s" "moreFrag p" "offset p = s_nextOffset s"
    "f_key (heap t' (s_flow s)) = f_key (heap t (s_flow s))"
  shows "follows (d @ [(p, now)]) t' (s\<lparr>s_nextOffset := ends_at p\<rparr>)"
proof -
  obtain pre c where c: "d = pre @ c" "gapless c" "s_nextOffset s = ends_at (fst (last c))"
    "s_expiresAt s = snd (c ! 0) + fragmentTTL" "f_key (heap t (s_flow s)) = key (fst (c ! 0))"
    using assms(1) by (auto simp: follows_def)
  then have "c \<noteq> []" by (simp add: gapless_def)
  with c assms(2-4) gapless_snoc [OF c(2), of p now] show ?thesis
    unfolding follows_def
    by (intro exI [of _ pre] exI [of _ "c @ [(p, now)]"]) (simp add: nth_append)
qed

lemma follows_kept:
  "follows d t s \<Longrightarrow> f_key (heap t' (s_flow s)) = f_key (heap t (s_flow s)) \<Longrightarrow> follows d t' s"
  by (simp add: follows_def)

lemma frags_follow_kept:
  assumes "frags_follow h t" "frags_kept t t'" "ft_inv t"
  shows "frags_follow h t'"
  using assms(1) frags_kept_lookup [OF assms(2,3)] follows_kept [of _ t _ t']
  by (simp add: frags_follow_def)

section \<open>What an accepted packet does to the associations\<close>

lemma index_key: "index_ok t \<Longrightarrow> map_of (flows t) k = Some a \<Longrightarrow> f_key (heap t a) = k"
  by (simp add: index_ok_def)

lemma flow_or_new_key:
  assumes "ft_inv t" "flow_or_new p appID pkt now t = (t', Inr a)"
  shows "f_key (heap t' a) = key p"
proof -
  have "index_ok t" using assms(1) by (simp add: ft_inv_def)
  with assms(2) show ?thesis
    by (auto simp: flow_or_new_def Let_def dest: index_key split: if_splits option.splits)
qed

lemma queuePacket_accepted:
  assumes "ft_inv t" "next_id t \<noteq> - 1" "queuePacket p appID pkt now t = (t', Inr r)"
  obtains u v a where "find_flow p appID pkt now t = (u, Inr a)" "admit p pkt now a u = (v, Inr r)"
    "t' = track_fragment p now a v" "fragments v = fragments u" "frags_kept t u" "frags_kept u v"
    "ft_inv u" "a \<in> refs u"
proof -
  have open_t: "\<not> closed t" using assms(3) by (auto simp: queuePacket_def)
  obtain u q where u: "find_flow p appID pkt now t = (u, q)" by fastforce
  with assms(3) open_t obtain a where q: "q = Inr a" by (cases q) (auto simp: queuePacket_def)
  obtain v x where v: "admit p pkt now a u = (v, x)" by fastforce
  with assms(3) open_t u q have x: "x = Inr r" "t' = track_fragment p now a v"
    by (cases x; simp add: queuePacket_def)+
  have "ft_inv u \<and> a \<in> refs u" using find_flow_inv [OF assms(1) u assms(2) open_t] q by blast
  with u q v x admit_fragments(1) [OF v [unfolded x(1)]] frags_kept_find_flow [OF u]
    frags_kept_admit [OF v] that show ?thesis by blast
qed

lemma fragment_flow_accepts:
  assumes "fragment_flow p now t = (t', Inr a)"
  shows "t' = t \<and> (\<exists>s. map_of (fragments t) (fragment p) = Some s \<and> s_flow s = a \<and>
    now < s_expiresAt s \<and> offset p = s_nextOffset s)"
  using assms by (auto simp: fragment_flow_def Let_def split: option.splits if_splits)

lemma heap_track_fragment [simp]: "heap (track_fragment p now a t) = heap t"
  by (auto simp: track_fragment_def split: option.splits)

text \<open>The associations after an accepted packet: those of other datagrams are old ones, that of
  the packet's own datagram follows the extended history.\<close>

lemma frags_follow_accept:
  assumes "frags_follow h t" "ft_inv t" "next_id t \<noteq> - 1"
    "queuePacket p appID pkt now t = (t', Inr r)"
  shows "frags_follow (h @ [(p, now)]) t'"
  unfolding frags_follow_def
proof (intro allI impI)
  fix k s
  assume s: "map_of (fragments t') k = Some s"
  obtain u v a where uv: "find_flow p appID pkt now t = (u, Inr a)" "admit p pkt now a u = (v, Inr r)"
    "t' = track_fragment p now a v" "fragments v = fragments u" "frags_kept t u" "frags_kept u v"
    "ft_inv u" "a \<in> refs u"
    using queuePacket_accepted [OF assms(2-4)] .
  note kept = frags_kept_trans [OF uv(5,6)]
  note fv = frags_follow_kept [OF assms(1) kept assms(2)]
  have old: "follows (datagram k h) t' s'" if "map_of (fragments v) k = Some s'" for s'
    using fv that uv(3) follows_kept [of _ v _ t'] by (simp add: frags_follow_def)
  have key_a: "f_key (heap v a) = f_key (heap u a)"
    using uv(6-8) refs_fresh [of u a] by (auto simp: frags_kept_def ft_inv_def)
  show "follows (datagram k (h @ [(p, now)])) t' s"
  proof (cases "moreFrag p \<and> fragment p = k")
    case False
    then have "map_of (fragments v) k = Some s" "\<not> (offset p \<noteq> 0 \<and> fragment p = k)"
      using s uv(3)
      by (auto simp: track_fragment_def rejectFragment_def table_simps split: if_splits option.splits)
    with old [of s] False show ?thesis by (auto simp: datagram_def)
  next
    case True
    then have d: "datagram k (h @ [(p, now)]) = datagram k h @ [(p, now)]" by (simp add: datagram_def)
    show ?thesis
    proof (cases "offset p = 0")
      case first: True
      obtain w e where w: "first_fragment p now t = (w, e)" by fastforce
      with first uv(1) have "flow_or_new p appID pkt now w = (u, Inr a)"
        by (cases e) (auto simp: find_flow_def)
      moreover have "ft_inv w" using first_fragment_inv [OF assms(2) w] by blast
      ultimately have "f_key (heap v a) = key p" using flow_or_new_key key_a by metis
      moreover have "s = \<lparr>s_flow = a, s_expiresAt = now + fragmentTTL, s_nextOffset = payloadBytes p\<rparr>"
        using s uv(3) True first by (simp add: track_fragment_def table_simps)
      ultimately show ?thesis
        unfolding d using True first uv(3) by (intro follows_first) simp_all
    next
      case tail: False
      with uv(1) have "fragment_flow p now t = (u, Inr a)" by (simp add: find_flow_def)
      from fragment_flow_accepts [OF this] obtain s0 where s0: "u = t"
        "map_of (fragments t) k = Some s0" "offset p = s_nextOffset s0"
        using True by auto
      then have new: "s = s0\<lparr>s_nextOffset := ends_at p\<rparr>"
        using s uv(3,4) True tail by (simp add: track_fragment_def table_simps)
      have "follows (datagram k h) t' s0" using old [of s0] s0 uv(4) by simp
      then show ?thesis unfolding d new
        by (rule follows_next) (use s0(3) True in simp_all)
    qed
  qed
qed

lemma frags_follow_refuse:
  assumes "frags_follow h t" "ft_inv t" "queuePacket p appID pkt now t = (t', Inl e)"
  shows "frags_follow h t'"
proof -
  have "frags_kept t t'"
  proof (cases "closed t")
    case False
    obtain u q where u: "find_flow p appID pkt now t = (u, q)" by fastforce
    show ?thesis
    proof (cases q)
      case (Inr a)
      obtain v x where v: "admit p pkt now a u = (v, x)" by fastforce
      with Inr False u assms(3) have "t' = v" by (cases x) (auto simp: queuePacket_def)
      with frags_kept_find_flow [OF u] frags_kept_admit [OF v] show ?thesis
        by (blast intro: frags_kept_trans)
    qed (use False u assms(3) frags_kept_find_flow [OF u] in \<open>simp add: queuePacket_def\<close>)
  qed (use assms(3) in \<open>simp add: queuePacket_def frags_kept_refl\<close>)
  with assms(1,2) show ?thesis by (blast intro: frags_follow_kept)
qed

lemma accepted_follow: "accepted h t \<Longrightarrow> frags_follow h t"
proof (induction rule: accepted.induct)
  case start
  show ?case by (simp add: frags_follow_def newFlowTable_def)
next
  case (accept h t now p appID pkt t' r)
  then show ?case by (blast intro: frags_follow_accept accepted_inv)
next
  case (refuse h t now p appID pkt t' e)
  then show ?case by (blast intro: frags_follow_refuse accepted_inv)
next
  case (other h t e t')
  then show ?case by (blast intro: frags_follow_kept frags_kept_step accepted_inv)
qed

section \<open>Tail fragments\<close>

lemma tail_fragment_refused:
  assumes "offset p \<noteq> 0" "\<not> closed t" "queuePacket p appID pkt now t = (t', Inl e)"
  shows "map_of (fragments t') (fragment p) = None \<and> \<not> closed t'"
proof -
  obtain u q where u: "fragment_flow p now t = (u, q)" by fastforce
  then have f: "find_flow p appID pkt now t = (u, q)"
    using assms(1) by (simp add: find_flow_def)
  show ?thesis
  proof (cases q)
    case (Inl e)
    with f u assms show ?thesis
      by (auto simp: queuePacket_def fragment_flow_def rejectFragment_def table_simps Let_def
          split: option.splits if_splits)
  next
    case (Inr a)
    then have "u = t" using u fragment_flow_accepts by blast
    obtain v x where v: "admit p pkt now a u = (v, x)" by fastforce
    with Inr f assms(2,3) have "x = Inl e" "t' = v" by (cases x; simp add: queuePacket_def)+
    with v admit_fragments(2) [of p pkt now a u v e] have "map_of (fragments t') (fragment p) = None"
      by simp
    moreover have "\<not> closed v"
      using v assms(2) \<open>u = t\<close>
      by (cases "f_state (heap t a)") (auto simp: admit_def Let_def split: if_splits)
    ultimately show ?thesis using \<open>t' = v\<close> by simp
  qed
qed

lemma tail_fragment_accepted:
  assumes "offset p \<noteq> 0" "queuePacket p appID pkt now t = (t', Inr (token, pend))"
  obtains s where "map_of (fragments t) (fragment p) = Some s" "now < s_expiresAt s"
    "offset p = s_nextOffset s" "\<not> closed t'"
    "if pend then f_state (heap t (s_flow s)) = flowPending \<and>
         f_pending (heap t' (s_flow s)) = f_pending (heap t (s_flow s)) @ [pkt]
       else f_state (heap t (s_flow s)) = flowReady \<and> token = f_token (heap t (s_flow s))"
    "\<not> moreFrag p \<longrightarrow> map_of (fragments t') (fragment p) = None"
proof -
  have open_t: "\<not> closed t" using assms(2) by (auto simp: queuePacket_def)
  obtain u q where u: "fragment_flow p now t = (u, q)" by fastforce
  then have f: "find_flow p appID pkt now t = (u, q)"
    using assms(1) by (simp add: find_flow_def)
  with assms(2) open_t obtain a where q: "q = Inr a" by (cases q) (auto simp: queuePacket_def)
  obtain v x where v: "admit p pkt now a u = (v, x)" by fastforce
  with assms(2) open_t f q have x: "x = Inr (token, pend)" "t' = track_fragment p now a v"
    by (cases x; simp add: queuePacket_def)+
  from fragment_flow_accepts [OF u [unfolded q]] obtain s where s: "u = t"
    "map_of (fragments t) (fragment p) = Some s" "s_flow s = a" "now < s_expiresAt s"
    "offset p = s_nextOffset s" by blast
  have vt: "if pend then f_state (heap t a) = flowPending \<and>
         f_pending (heap v a) = f_pending (heap t a) @ [pkt]
       else f_state (heap t a) = flowReady \<and> token = f_token (heap t a)" "\<not> closed v"
    using v x(1) s(1) open_t
    by (cases "f_state (heap t a)"; auto simp: admit_def Let_def split: if_splits)+
  have "\<not> closed t'" using vt(2) x(2) by (auto simp: track_fragment_def split: option.splits)
  moreover have "\<not> moreFrag p \<longrightarrow> map_of (fragments t') (fragment p) = None"
    using x(2) assms(1) by (simp add: track_fragment_def rejectFragment_def table_simps)
  ultimately show ?thesis using that [of s] s vt x(2) by simp
qed

lemma no_association_no_tail:
  "map_of (fragments t) (fragment p) = None \<Longrightarrow> offset p \<noteq> 0 \<Longrightarrow> \<not> closed t \<Longrightarrow>
     snd (queuePacket p appID pkt now t) = Inl ErrFragmentMissing"
  by (simp add: queuePacket_def find_flow_def fragment_flow_def)

text \<open>C5: In every run, a tail fragment is accepted only when the fragments of its datagram
  accepted so far end in a sequence that starts with a first fragment, in which each one begins
  where the one before ended, which this one continues where the last of them ended, and whose
  first fragment came less than five seconds ago; it is carried by the flow of that first
  fragment: cached behind that flow's packets while the flow waits, and sent with its token once
  it is ready. After a refusal, for whatever reason, and after the last fragment, nothing more of
  that datagram is accepted before a new first fragment.\<close>

theorem tail_fragments_contiguous:
  assumes "accepted h t" "\<not> closed t" "offset p \<noteq> 0" "queuePacket p appID pkt now t = (t', res)"
  shows "(\<forall>token pend. res = Inr (token, pend) \<longrightarrow> (\<exists>pre c a.
            datagram (fragment p) h = pre @ c \<and> gapless c \<and> offset p = ends_at (fst (last c)) \<and>
            now < snd (c ! 0) + 5 * second \<and> map_of (flows t) (key (fst (c ! 0))) = Some a \<and>
            (if pend then f_state (heap t a) = flowPending \<and>
               f_pending (heap t' a) = f_pending (heap t a) @ [pkt]
             else f_state (heap t a) = flowReady \<and> token = f_token (heap t a)))) \<and>
         ((\<exists>e. res = Inl e) \<or> \<not> moreFrag p \<longrightarrow> (\<forall>q app pkt' now'. offset q \<noteq> 0 \<and>
            fragment q = fragment p \<longrightarrow> snd (queuePacket q app pkt' now' t') = Inl ErrFragmentMissing))"
proof (cases res)
  case (Inl e)
  with tail_fragment_refused [of p t appID pkt now t' e] assms show ?thesis
    by (auto intro: no_association_no_tail)
next
  case (Inr r)
  obtain token pend where r: "r = (token, pend)" by (cases r)
  have "queuePacket p appID pkt now t = (t', Inr (token, pend))" using Inr r assms(4) by simp
  from tail_fragment_accepted [OF assms(3) this] obtain s where s:
    "map_of (fragments t) (fragment p) = Some s" "now < s_expiresAt s"
    "offset p = s_nextOffset s" "\<not> closed t'"
    "if pend then f_state (heap t (s_flow s)) = flowPending \<and>
         f_pending (heap t' (s_flow s)) = f_pending (heap t (s_flow s)) @ [pkt]
       else f_state (heap t (s_flow s)) = flowReady \<and> token = f_token (heap t (s_flow s))"
    "\<not> moreFrag p \<longrightarrow> map_of (fragments t') (fragment p) = None" by blast
  obtain pre c where c: "datagram (fragment p) h = pre @ c" "gapless c"
    "s_nextOffset s = ends_at (fst (last c))" "s_expiresAt s = snd (c ! 0) + fragmentTTL"
    "f_key (heap t (s_flow s)) = key (fst (c ! 0))"
    using accepted_follow [OF assms(1)] s(1) unfolding frags_follow_def follows_def by blast
  have "map_of (flows t) (key (fst (c ! 0))) = Some (s_flow s)"
    using frag_flow [OF _ s(1)] accepted_inv [OF assms(1)] c(5) by (simp add: ft_inv_def)
  with c s(2,3,5) have "datagram (fragment p) h = pre @ c \<and> gapless c \<and>
      offset p = ends_at (fst (last c)) \<and> now < snd (c ! 0) + 5 * second \<and>
      map_of (flows t) (key (fst (c ! 0))) = Some (s_flow s) \<and>
      (if pend then f_state (heap t (s_flow s)) = flowPending \<and>
         f_pending (heap t' (s_flow s)) = f_pending (heap t (s_flow s)) @ [pkt]
       else f_state (heap t (s_flow s)) = flowReady \<and> token = f_token (heap t (s_flow s)))"
    by simp
  then have "\<exists>pre c a. datagram (fragment p) h = pre @ c \<and> gapless c \<and>
      offset p = ends_at (fst (last c)) \<and> now < snd (c ! 0) + 5 * second \<and>
      map_of (flows t) (key (fst (c ! 0))) = Some a \<and>
      (if pend then f_state (heap t a) = flowPending \<and>
         f_pending (heap t' a) = f_pending (heap t a) @ [pkt]
       else f_state (heap t a) = flowReady \<and> token = f_token (heap t a))" by blast
  with s(4,6) Inr r show ?thesis by (auto intro: no_association_no_tail)
qed

text \<open>A datagram of the example flow in two fragments of eight bytes, one second apart.\<close>

definition demo_first :: packetInfo where
  "demo_first = demo_info\<lparr>payloadBytes := 8, moreFrag := True\<rparr>"

definition demo_tail :: packetInfo where
  "demo_tail = demo_info\<lparr>offset := 8, payloadBytes := 8\<rparr>"

definition demo_open :: flowTable where
  "demo_open = fst (queuePacket demo_first ''app'' udp_example second newFlowTable)"

lemma queuePacket_demo_first:
  "queuePacket demo_first ''app'' udp_example second newFlowTable = (demo_open, Inr ([], True))"
  and demo_open_eq: "demo_open = demo_queued\<lparr>
    fragments := [(fragment demo_info, \<lparr>s_flow = 0, s_expiresAt = 6 * second, s_nextOffset = 8\<rparr>)]\<rparr>"
  by (simp_all add: demo_open_def demo_first_def demo_queued_eq demo_flow_def queuePacket_def
      find_flow_def first_fragment_def flow_or_new_def insert_flow_def admit_def track_fragment_def
      newFlowTable_def update_flow_def zero_flow_def expireFragmentsLocked_def Let_def
      udp_example_def fun_eq_iff)

lemma queuePacket_demo_tail:
  "queuePacket demo_tail [] [0] (2 * second) demo_open =
     (fst (queuePacket demo_tail [] [0] (2 * second) demo_open), Inr ([], True))"
  by (simp add: queuePacket_def find_flow_def fragment_flow_def demo_tail_def demo_open_eq
      demo_queued_eq demo_flow_def zero_flow_def admit_def expired_def update_flow_def Let_def)

theorem tail_fragments_contiguous_witness:
  "(\<exists>pre c. datagram (fragment demo_tail) [(demo_first, second)] = pre @ c \<and> gapless c \<and>
      offset demo_tail = ends_at (fst (last c)) \<and> 2 * second < snd (c ! 0) + 5 * second) \<and>
   snd (queuePacket demo_tail [] [0] (3 * second) (fst (queuePacket demo_tail [] [0] (2 * second)
     demo_open))) = Inl ErrFragmentMissing"
proof -
  have "accepted [(demo_first, second)] demo_open"
    using accepted.accept [OF accepted.start _ _ queuePacket_demo_first]
    by (simp add: newFlowTable_def)
  note run = tail_fragments_contiguous [OF this _ _ queuePacket_demo_tail]
  have "\<not> closed demo_open" "offset demo_tail \<noteq> 0" "\<not> moreFrag demo_tail"
    by (simp_all add: demo_open_eq demo_queued_eq demo_tail_def)
  with run show ?thesis by blast
qed

end
