(* ===== verification/Checksum.thy ===== *)
theory Checksum
  imports Prelude
begin

text \<open>
  The Internet checksum of \<open>internal/wireguard/mapping.go\<close>: \<open>checksum16\<close>, the full computation
  over a byte range, and \<open>updateChecksum\<close>, the incremental update of RFC 1624, both with the
  32-bit accumulator and the carry-folding loop of the source. The lemmas relate them to the
  sum of 16-bit words modulo 65535.
\<close>

section \<open>Definitions\<close>

lemma u32_and_ffff: "unat (s AND 0xffff :: u32) = unat s mod 65536"
proof -
  have "s AND 0xffff = take_bit 16 s"
    by (simp add: take_bit_eq_mask mask_eq_exp_minus_1)
  then show ?thesis
    by (simp add: take_bit_eq_mod unat_mod_distrib)
qed

lemma u32_drop16: "unat (drop_bit 16 s :: u32) = unat s div 65536"
  by (simp add: drop_bit_eq_div unat_div_distrib)

lemma fold_step: "unat ((s AND 0xffff) + drop_bit 16 s :: u32) = unat s mod 65536 + unat s div 65536"
proof -
  have "unat s < 4294967296" using unsigned_less [of s] by simp
  then have "unat s div 65536 < 65536" by (simp add: div_less_iff_less_mult)
  moreover have "unat s mod 65536 < 65536" by simp
  ultimately have "unat s mod 65536 + unat s div 65536 < 4294967296" by linarith
  then show ?thesis by (simp add: unat_word_ariths u32_and_ffff u32_drop16)
qed

lemma fold_decreases:
  assumes "drop_bit 16 s \<noteq> (0::u32)"
  shows "unat ((s AND 0xffff) + drop_bit 16 s) < unat s"
proof -
  have "0 < unat s div 65536"
    using assms u32_drop16 [of s] by (metis gr0I unat_eq_zero)
  moreover have "unat s = 65536 * (unat s div 65536) + unat s mod 65536" by simp
  ultimately show ?thesis unfolding fold_step by linarith
qed

text \<open>\<open>for sum>>16 != 0 { sum = (sum \& 0xffff) + (sum >> 16) }\<close>\<close>

function fold_carry :: "u32 \<Rightarrow> u32" where
  "fold_carry s = (if drop_bit 16 s \<noteq> 0 then fold_carry ((s AND 0xffff) + drop_bit 16 s) else s)"
  by pat_completeness auto
termination
  by (relation "measure unat") (auto simp: fold_decreases)

declare fold_carry.simps [simp del]

fun sum_words :: "u32 \<Rightarrow> bytes \<Rightarrow> u32" where
  "sum_words s (a # b # r) = sum_words (s + ucast (be16 a b)) r"
| "sum_words s [a] = s + push_bit 8 (ucast a)"
| "sum_words s [] = s"

definition checksum16 :: "bytes \<Rightarrow> u16" where
  "checksum16 b = NOT (ucast (fold_carry (sum_words 0 b)))"

definition updateChecksum :: "u16 \<Rightarrow> u16 \<Rightarrow> u16 \<Rightarrow> u16" where
  "updateChecksum checksum old new =
     (let sum = (ucast (NOT checksum AND 0xffff) + ucast (NOT old AND 0xffff) + ucast new :: u32)
      in NOT (ucast (fold_carry sum)))"

section \<open>The sum of 16-bit words\<close>

fun nsum :: "bytes \<Rightarrow> nat" where
  "nsum (a # b # r) = unat (be16 a b) + nsum r"
| "nsum [a] = 256 * unat a"
| "nsum [] = 0"

lemma nsum_le: "nsum b \<le> 65535 * ((length b + 1) div 2)"
proof (induction b rule: nsum.induct)
  case (1 a b r)
  have "unat (be16 a b) \<le> 65535" using unat_u16_less [of "be16 a b"] by linarith
  with 1 show ?case by simp
next
  case (2 a)
  have "unat a \<le> 255" using unat_byte_less [of a] by linarith
  then show ?case by simp
qed simp

lemma unat_add_small:
  fixes x y :: u32
  assumes "unat x + unat y < 4294967296"
  shows "unat (x + y) = unat x + unat y"
  using assms by (simp add: unat_word_ariths)

lemma unat_ucast_byte_u32: "unat (push_bit 8 (ucast (a::byte)) :: u32) = 256 * unat a"
proof -
  have lt: "256 * unat a < 4294967296" using unat_byte_less [of a] by linarith
  have "unat a < 2 ^ 32" by (rule less_trans [OF unat_byte_less]) simp
  then have "unat (ucast a :: u32) = unat a"
    by (simp add: unsigned_ucast_eq take_bit_nat_eq_self)
  with lt show ?thesis
    by (simp add: push_bit_eq_mult unat_word_ariths mult.commute)
qed

lemma sum_words_nsum:
  "unat s + nsum b < 4294967296 \<Longrightarrow> unat (sum_words s b) = unat s + nsum b"
proof (induction s b rule: sum_words.induct)
  case (1 s a b r)
  then have "unat (s + ucast (be16 a b)) = unat s + unat (be16 a b)"
    by (simp add: unat_add_small)
  with 1 show ?case by simp
next
  case (2 s a)
  then show ?case by (simp add: unat_add_small unat_ucast_byte_u32)
qed simp

lemma fold_carry_mod: "unat (fold_carry s) mod 65535 = unat s mod 65535"
proof (induction s rule: fold_carry.induct)
  case (1 s)
  show ?case
  proof (cases "drop_bit 16 s = 0")
    case True
    then show ?thesis by (subst fold_carry.simps) simp
  next
    case False
    have "unat s = 65535 * (unat s div 65536) + (unat s mod 65536 + unat s div 65536)"
      using div_mult_mod_eq [of "unat s" 65536] by linarith
    then have "(unat s mod 65536 + unat s div 65536) mod 65535 = unat s mod 65535"
      by (metis mod_mult_self4)
    with False 1 show ?thesis by (subst fold_carry.simps) (simp add: fold_step)
  qed
qed

lemma fold_carry_less: "unat (fold_carry s) < 65536"
proof (induction s rule: fold_carry.induct)
  case (1 s)
  show ?case
  proof (cases "drop_bit 16 s = 0")
    case True
    then have "unat s div 65536 = 0" using u32_drop16 [of s] by simp
    then have "unat s < 65536" by (simp add: div_eq_0_iff)
    with True show ?thesis by (subst fold_carry.simps) simp
  next
    case False
    with 1 show ?thesis by (subst fold_carry.simps) simp
  qed
qed

lemma fold_carry_zero: "fold_carry s = 0 \<longleftrightarrow> s = 0"
proof (induction s rule: fold_carry.induct)
  case (1 s)
  show ?case
  proof (cases "drop_bit 16 s = 0")
    case True
    then show ?thesis by (subst fold_carry.simps) simp
  next
    case False
    have "(s AND 0xffff) + drop_bit 16 s \<noteq> 0"
    proof
      assume "(s AND 0xffff) + drop_bit 16 s = 0"
      then have "unat s mod 65536 + unat s div 65536 = 0"
        using fold_step [of s] by simp
      with False u32_drop16 [of s] show False by (simp add: unat_eq_zero)
    qed
    moreover have "s \<noteq> 0" using False by auto
    ultimately show ?thesis using False 1 by (subst fold_carry.simps) simp
  qed
qed

lemma unat_not_u16: "unat (NOT (w::u16)) = 65535 - unat w"
proof -
  have "NOT w = 65535 - w" by (simp add: not_eq_complement)
  moreover have "unat w \<le> 65535" using unat_u16_less [of w] by linarith
  then have "w \<le> 65535" by (simp add: word_le_nat_alt)
  ultimately show ?thesis by (simp add: unat_sub)
qed

lemma unat_ucast_fold: "unat (ucast (fold_carry s) :: u16) = unat (fold_carry s)"
  using fold_carry_less [of s] by (simp add: unsigned_ucast_eq take_bit_nat_eq_self)

section \<open>Verification and incremental update\<close>

lemma mod_65535_top: "(x::nat) < 65536 \<Longrightarrow> x \<noteq> 0 \<Longrightarrow> x mod 65535 = 0 \<longleftrightarrow> x = 65535"
proof (cases "x < 65535")
  case False
  moreover assume "x < 65536"
  ultimately have "x = 65535" by linarith
  then show ?thesis by simp
qed simp

text \<open>A range verifies (its checksum over everything, the checksum field included, is 0) exactly
  when its words sum to a non-zero multiple of 65535.\<close>

lemma checksum16_valid:
  assumes "length b \<le> 131072"
  shows "checksum16 b = 0 \<longleftrightarrow> nsum b \<noteq> 0 \<and> nsum b mod 65535 = 0"
proof -
  have "(length b + 1) div 2 \<le> 65536" using assms by simp
  then have "65535 * ((length b + 1) div 2) \<le> 65535 * 65536" by (rule mult_left_mono) simp
  then have lt: "nsum b < 4294967296" using nsum_le [of b] by linarith
  let ?f = "fold_carry (sum_words 0 b)"
  have s: "unat (sum_words 0 b) = nsum b" using sum_words_nsum [of 0 b] lt by simp
  have c: "unat (checksum16 b) = 65535 - unat ?f"
    by (simp add: checksum16_def unat_not_u16 unat_ucast_fold)
  have "checksum16 b = 0 \<longleftrightarrow> unat ?f = 65535"
    using c fold_carry_less [of "sum_words 0 b"] by (auto simp: unat_eq_zero [symmetric])
  also have "\<dots> \<longleftrightarrow> unat ?f \<noteq> 0 \<and> unat ?f mod 65535 = 0"
    using mod_65535_top [OF fold_carry_less [of "sum_words 0 b"]] by auto
  also have "unat ?f = 0 \<longleftrightarrow> nsum b = 0"
    using fold_carry_zero [of "sum_words 0 b"] s by (metis unat_eq_zero)
  finally show ?thesis using fold_carry_mod [of "sum_words 0 b"] s by simp
qed

text \<open>Writing the computed checksum into a zero field makes the range verify.\<close>

lemma checksum16_completes:
  assumes "length b \<le> 131072" "nsum b \<noteq> 0"
  shows "(nsum b + unat (checksum16 b)) mod 65535 = 0"
proof -
  have "(length b + 1) div 2 \<le> 65536" using assms by simp
  then have "65535 * ((length b + 1) div 2) \<le> 65535 * 65536" by (rule mult_left_mono) simp
  then have lt: "nsum b < 4294967296" using nsum_le [of b] by linarith
  let ?f = "fold_carry (sum_words 0 b)"
  have s: "unat (sum_words 0 b) = nsum b" using sum_words_nsum [of 0 b] lt by simp
  have c: "unat (checksum16 b) + unat ?f = 65535"
    using fold_carry_less [of "sum_words 0 b"]
    by (simp add: checksum16_def unat_not_u16 unat_ucast_fold)
  have "nsum b mod 65535 = unat ?f mod 65535"
    using fold_carry_mod [of "sum_words 0 b"] s by simp
  then have "(nsum b + unat (checksum16 b)) mod 65535 = (unat ?f + unat (checksum16 b)) mod 65535"
    by (rule mod_add_cong) simp
  with c show ?thesis by (simp add: add.commute)
qed

lemma mod_shift:
  fixes A A' :: nat
  assumes "A' + x = A + y" "x mod m = y mod m"
  shows "A' mod m = A mod m"
proof -
  have "int A' - int A = int y - int x" using assms(1) by linarith
  moreover have "int m dvd int y - int x"
    using assms(2) by (metis mod_eq_dvd_iff of_nat_mod)
  ultimately show ?thesis
    by (metis mod_eq_dvd_iff of_nat_eq_iff of_nat_mod)
qed

text \<open>RFC 1624: after the update the checksum accounts for the new word instead of the old.\<close>

lemma updateChecksum_mod:
  "(unat (updateChecksum c old new) + unat new) mod 65535 = (unat c + unat old) mod 65535"
proof -
  have m: "w AND 0xffff = w" for w :: u16
  proof -
    have "(0xffff :: u16) = - 1" by simp
    then show ?thesis by (simp only: and.right_neutral)
  qed
  define s :: u32 where "s = ucast (NOT c AND 0xffff) + ucast (NOT old AND 0xffff) + ucast new"
  have sv: "unat s = (65535 - unat c) + (65535 - unat old) + unat new"
  proof -
    have "unat (ucast (NOT c) + ucast (NOT old) :: u32) = (65535 - unat c) + (65535 - unat old)"
      by (simp add: unat_add_small unat_not_u16)
    moreover have "(65535 - unat c) + (65535 - unat old) + unat new < 4294967296"
      using unat_u16_less [of new] by linarith
    ultimately show ?thesis by (simp only: s_def m) (simp add: unat_add_small)
  qed
  have r: "unat (updateChecksum c old new) + unat (fold_carry s) = 65535"
    using fold_carry_less [of s]
    by (simp add: updateChecksum_def Let_def s_def [symmetric] unat_not_u16 unat_ucast_fold)
  have "(unat (updateChecksum c old new) + unat new) mod 65535 =
      (unat (updateChecksum c old new) + unat s + unat c + unat old) mod 65535"
  proof -
    have "unat s + unat c + unat old = unat new + 65535 * 2"
      using sv unat_u16_less [of c] unat_u16_less [of old] by linarith
    then have "unat (updateChecksum c old new) + unat s + unat c + unat old =
        unat (updateChecksum c old new) + unat new + 65535 * 2" by linarith
    then show ?thesis by (metis mod_mult_self2)
  qed
  also have "\<dots> = (unat (updateChecksum c old new) + unat (fold_carry s) + (unat c + unat old)) mod 65535"
    by (rule mod_shift [OF _ fold_carry_mod [of s]]) linarith
  also have "\<dots> = (unat c + unat old) mod 65535"
    unfolding r by (simp add: mod_add_self1)
  finally show ?thesis .
qed

section \<open>Editing a range\<close>

lemma nsum_append: "even (length a) \<Longrightarrow> nsum (a @ b) = nsum a + nsum b"
  by (induction a rule: nsum.induct) auto

lemma nsum_split: "even n \<Longrightarrow> n \<le> length b \<Longrightarrow> nsum b = nsum (take n b) + nsum (drop n b)"
  using nsum_append [of "take n b" "drop n b"] by simp

lemma set16_Cons2: "set16 (x # y # r) (Suc (Suc i)) w = x # y # set16 r i w"
  by (simp add: set16_def)

lemma nsum_set16:
  "even i \<Longrightarrow> Suc i < length b \<Longrightarrow> nsum (set16 b i w) + unat (get16 b i) = nsum b + unat w"
proof (induction b arbitrary: i rule: nsum.induct)
  case (1 x y r)
  show ?case
  proof (cases "i = 0")
    case True
    then show ?thesis by (simp add: set16_def get16_def)
  next
    case False
    with 1 obtain j where j: "i = Suc (Suc j)" by (auto elim!: evenE) (metis Suc_pred' gr0I mult_Suc_right numeral_2_eq_2 add_2_eq_Suc)
    with 1 show ?thesis by (simp add: set16_Cons2 get16_def)
  qed
qed auto

lemma nsum_pos: "b \<noteq> [] \<Longrightarrow> b ! 0 \<noteq> 0 \<Longrightarrow> nsum b \<noteq> 0"
  by (cases b rule: nsum.cases) (auto simp: unat_be16 unat_eq_zero)

definition set4 :: "bytes \<Rightarrow> nat \<Rightarrow> ip4 \<Rightarrow> bytes" where
  "set4 b i a = (case a of (a0, a1, a2, a3) \<Rightarrow> b[i := a0, i + 1 := a1, i + 2 := a2, i + 3 := a3])"

definition addr_hi :: "ip4 \<Rightarrow> u16" where
  "addr_hi a = (case a of (a0, a1, a2, a3) \<Rightarrow> be16 a0 a1)"

definition addr_lo :: "ip4 \<Rightarrow> u16" where
  "addr_lo a = (case a of (a0, a1, a2, a3) \<Rightarrow> be16 a2 a3)"

abbreviation addr_sum :: "ip4 \<Rightarrow> nat" where
  "addr_sum a \<equiv> unat (addr_hi a) + unat (addr_lo a)"

lemma set4_length [simp]: "length (set4 b i a) = length b"
  by (simp add: set4_def split: prod.splits)

lemma be16_hi_lo: "ucast (drop_bit 8 (be16 a b)) = a \<and> ucast (be16 a b) = b"
  using be16_inj [of "ucast (drop_bit 8 (be16 a b))" "ucast (be16 a b)" a b] by simp

lemma set4_set16: "set4 b i a = set16 (set16 b i (addr_hi a)) (i + 2) (addr_lo a)"
  by (cases a) (simp add: set4_def set16_def addr_hi_def addr_lo_def be16_hi_lo numeral_3_eq_3)

lemma addr_get4: "addr_hi (get4 b i) = get16 b i" "addr_lo (get4 b i) = get16 b (i + 2)"
  by (simp_all add: addr_hi_def addr_lo_def get4_def get16_def numeral_3_eq_3)

lemma get4_set4 [simp]: "i + 3 < length b \<Longrightarrow> get4 (set4 b i a) i = a"
  by (cases a) (simp add: get4_def set4_def)

lemma nsum_set4:
  assumes "even i" "i + 3 < length b"
  shows "nsum (set4 b i a) + addr_sum (get4 b i) = nsum b + addr_sum a"
proof -
  have "nsum (set16 b i (addr_hi a)) + unat (get16 b i) = nsum b + unat (addr_hi a)"
    using assms by (intro nsum_set16) auto
  moreover have "nsum (set4 b i a) + unat (get16 (set16 b i (addr_hi a)) (i + 2)) =
      nsum (set16 b i (addr_hi a)) + unat (addr_lo a)"
    unfolding set4_set16 using assms by (intro nsum_set16) auto
  ultimately show ?thesis by (simp add: addr_get4)
qed

lemma set16_take: "Suc i < n \<Longrightarrow> take n (set16 b i w) = set16 (take n b) i w"
  by (simp add: set16_def take_update_swap)

lemma set16_take_beyond: "n \<le> i \<Longrightarrow> take n (set16 b i w) = take n b"
  by (simp add: set16_def)

lemma set16_drop_before: "Suc i < n \<Longrightarrow> drop n (set16 b i w) = drop n b"
  by (simp add: set16_def)

lemma set16_drop: "n \<le> i \<Longrightarrow> drop n (set16 b i w) = set16 (drop n b) (i - n) w"
  by (simp add: set16_def drop_update_swap Suc_diff_le)

lemma get16_take: "Suc i < n \<Longrightarrow> get16 (take n b) i = get16 b i"
  by (simp add: get16_def)

lemma get16_drop: "n + Suc i < length b \<Longrightarrow> get16 (drop n b) i = get16 b (n + i)"
  by (simp add: get16_def)

end
