(* ===== verification/Mapping.thy ===== *)
theory Mapping
  imports Checksum
begin

text \<open>
  The address mapper of \<open>internal/wireguard/mapping.go\<close>: the peer's fixed address and the
  tunnel's assigned address are exchanged in IPv4 packets, and the IP, TCP, UDP and ICMP
  checksums are corrected for it. A packet buffer is a byte list, updated in place by the code
  and returned updated here. The tunnel address callback \<open>public\<close> is represented by the pair it
  returned. The one-time log line of \<open>rewriteAddr\<close> is represented by its flag.

  Properties: the mapper succeeds exactly on packets of its direction; the address is replaced
  and nothing but addresses and checksums is touched; the IP header checksum, the TCP and UDP
  checksums (pseudo-header included, whatever follows in later fragments) and the ICMP message
  checksum stay valid; an embedded header that was rewritten verifies.
\<close>

section \<open>Data\<close>

datatype map_error =
    TooShort
  | BadVersion byte
  | BadHeaderLength nat
  | BadTotalLength nat nat
  | NotFromPeer ip4
  | NotToTunnel ip4
  | NoTunnelAddress
  | NotIPv4Address

record Mapper =
  peerIP :: ip4
  unsupportedLogged :: bool

record ipv4Header =
  headerLen :: nat
  totalLen :: nat
  protocol :: byte
  fragField :: u16

definition fragmentOffset :: "ipv4Header \<Rightarrow> nat" where
  "fragmentOffset h = unat (fragField h AND 0x1fff)"

abbreviation ipv4SrcOffset :: nat where "ipv4SrcOffset \<equiv> 12"
abbreviation ipv4DstOffset :: nat where "ipv4DstOffset \<equiv> 16"
abbreviation ipv4ChecksumOff :: nat where "ipv4ChecksumOff \<equiv> 10"
abbreviation protocolTCP :: byte where "protocolTCP \<equiv> 6"
abbreviation protocolUDP :: byte where "protocolUDP \<equiv> 17"
abbreviation protocolICMP :: byte where "protocolICMP \<equiv> 1"
abbreviation tcpChecksumOff :: nat where "tcpChecksumOff \<equiv> 16"
abbreviation udpChecksumOff :: nat where "udpChecksumOff \<equiv> 6"
abbreviation icmpChecksumOff :: nat where "icmpChecksumOff \<equiv> 2"
abbreviation icmpEmbeddedOff :: nat where "icmpEmbeddedOff \<equiv> 8"

section \<open>Operations\<close>

definition parseIPv4 :: "bytes \<Rightarrow> map_error + ipv4Header" where
  "parseIPv4 buf =
     (if length buf < 20 then Inl TooShort
      else if drop_bit 4 (buf ! 0) \<noteq> 4 then Inl (BadVersion (drop_bit 4 (buf ! 0)))
      else let headLen = unat (buf ! 0 AND 0x0f) * 4 in
        if headLen < 20 \<or> length buf < headLen then Inl (BadHeaderLength headLen)
        else Inr \<lparr>headerLen = headLen, totalLen = unat (get16 buf 2), protocol = buf ! 9,
                   fragField = get16 buf 6\<rparr>)"

definition ipv4TotalLength :: "bytes \<Rightarrow> map_error + nat" where
  "ipv4TotalLength buf =
     (case parseIPv4 buf of
        Inl e \<Rightarrow> Inl e
      | Inr hdr \<Rightarrow>
          if totalLen hdr < headerLen hdr then Inl (BadTotalLength (totalLen hdr) (headerLen hdr))
          else Inr (totalLen hdr))"

definition equal4 :: "bytes \<Rightarrow> nat \<Rightarrow> ip4 \<Rightarrow> bool" where
  "equal4 b i want = (4 \<le> length (drop i b) \<and> get4 b i = want)"

definition currentPublic :: "ip4 \<times> bool \<Rightarrow> map_error + ip4" where
  "currentPublic pub =
     (case pub of (addr, ok) \<Rightarrow>
        if \<not> ok \<or> addr = (0, 0, 0, 0) then Inl NoTunnelAddress else Inr addr)"

text \<open>A \<open>net.IP\<close> is a byte slice; \<open>To4\<close> accepts four bytes or the 16-byte IPv4-mapped form.\<close>

definition to4 :: "bytes \<Rightarrow> map_error + ip4" where
  "to4 ip =
     (if length ip = 4 then Inr (get4 ip 0)
      else if length ip = 16 \<and> take 12 ip = replicate 10 0 @ [255, 255] then Inr (get4 ip 12)
      else Inl NotIPv4Address)"

definition NewDynamicMapper :: "bytes \<Rightarrow> ip4 \<times> bool \<Rightarrow> map_error + Mapper" where
  "NewDynamicMapper peer pub =
     (case to4 peer of
        Inl e \<Rightarrow> Inl e
      | Inr p4 \<Rightarrow>
          (case pub of (addr, ok) \<Rightarrow>
             if \<not> ok \<or> addr = (0, 0, 0, 0) then Inl NoTunnelAddress
             else Inr \<lparr>peerIP = p4, unsupportedLogged = False\<rparr>))"

definition icmpCarriesOriginal :: "byte \<Rightarrow> bool" where
  "icmpCarriesOriginal typ \<longleftrightarrow> typ \<in> {3, 4, 5, 11, 12}"

definition hasPseudoHeaderChecksum :: "byte \<Rightarrow> bool" where
  "hasPseudoHeaderChecksum p \<longleftrightarrow> p \<in> {132, 33, 136}"

text \<open>The pair of \<open>updateChecksum\<close> calls the source makes for a replaced address.\<close>

definition update_addr :: "u16 \<Rightarrow> ip4 \<Rightarrow> ip4 \<Rightarrow> u16" where
  "update_addr c old new =
     updateChecksum (updateChecksum c (addr_hi old) (addr_hi new)) (addr_lo old) (addr_lo new)"

definition rewriteICMPInner :: "bytes \<Rightarrow> ipv4Header \<Rightarrow> ip4 \<Rightarrow> ip4 \<Rightarrow> bytes" where
  "rewriteICMPInner buf hdr old new =
     (let icmp = headerLen hdr; inner = icmp + icmpEmbeddedOff in
      if fragmentOffset hdr \<noteq> 0 then buf
      else if length buf < icmp + 8 + 20 then buf
      else if \<not> icmpCarriesOriginal (buf ! icmp) then buf
      else case parseIPv4 (drop inner buf) of
        Inl _ \<Rightarrow> buf
      | Inr innerHdr \<Rightarrow>
          let srcChanged = equal4 buf (inner + ipv4SrcOffset) old;
              b1 = (if srcChanged then set4 buf (inner + ipv4SrcOffset) new else buf);
              dstChanged = equal4 b1 (inner + ipv4DstOffset) old;
              b2 = (if dstChanged then set4 b1 (inner + ipv4DstOffset) new else b1)
          in if \<not> srcChanged \<and> \<not> dstChanged then b2
             else
               let oldInner = get16 b2 (inner + ipv4ChecksumOff);
                   b3 = set16 b2 (inner + ipv4ChecksumOff) 0;
                   newInner = checksum16 (take (headerLen innerHdr) (drop inner b3));
                   b4 = set16 b3 (inner + ipv4ChecksumOff) newInner;
                   sum = get16 b4 (icmp + icmpChecksumOff);
                   sum = (if srcChanged then update_addr sum old new else sum);
                   sum = (if dstChanged then update_addr sum old new else sum);
                   sum = updateChecksum sum oldInner newInner
               in set16 b4 (icmp + icmpChecksumOff) sum)"

text \<open>The TCP and UDP branches of \<open>rewriteAddr\<close> from the update on.\<close>

definition update_transport :: "bytes \<Rightarrow> nat \<Rightarrow> ip4 \<Rightarrow> ip4 \<Rightarrow> bytes" where
  "update_transport buf off old new =
     (let c = update_addr (get16 buf off) old new;
          c = (if c = 0 then 0xffff else c)
      in set16 buf off c)"

definition rewrite_transport ::
  "Mapper \<Rightarrow> bytes \<Rightarrow> ipv4Header \<Rightarrow> ip4 \<Rightarrow> ip4 \<Rightarrow> bytes \<times> Mapper" where
  "rewrite_transport m buf hdr old new =
     (if fragmentOffset hdr \<noteq> 0 then (buf, m)
      else if protocol hdr = protocolTCP then
        let off = headerLen hdr + tcpChecksumOff in
        if length buf < off + 2 then (buf, m) else (update_transport buf off old new, m)
      else if protocol hdr = protocolUDP then
        let off = headerLen hdr + udpChecksumOff in
        if length buf < off + 2 then (buf, m)
        else if get16 buf off = 0 then (buf, m)
        else (update_transport buf off old new, m)
      else if protocol hdr = protocolICMP then (rewriteICMPInner buf hdr old new, m)
      else if hasPseudoHeaderChecksum (protocol hdr) \<and> \<not> unsupportedLogged m
        then (buf, m\<lparr>unsupportedLogged := True\<rparr>)
      else (buf, m))"

definition rewriteAddr ::
  "Mapper \<Rightarrow> bytes \<Rightarrow> ipv4Header \<Rightarrow> nat \<Rightarrow> ip4 \<Rightarrow> ip4 \<Rightarrow> bytes \<times> Mapper" where
  "rewriteAddr m buf hdr at old new =
     (let b1 = set4 buf at new;
          csum = update_addr (get16 b1 ipv4ChecksumOff) old new;
          b2 = set16 b1 ipv4ChecksumOff csum
      in rewrite_transport m b2 hdr old new)"

definition Uplink :: "Mapper \<Rightarrow> ip4 \<times> bool \<Rightarrow> bytes \<Rightarrow> map_error + bytes \<times> Mapper" where
  "Uplink m pub buf =
     (case parseIPv4 buf of
        Inl e \<Rightarrow> Inl e
      | Inr hdr \<Rightarrow>
          if \<not> equal4 buf ipv4SrcOffset (peerIP m) then Inl (NotFromPeer (peerIP m))
          else case currentPublic pub of
            Inl e \<Rightarrow> Inl e
          | Inr public \<Rightarrow> Inr (rewriteAddr m buf hdr ipv4SrcOffset (peerIP m) public))"

definition Downlink :: "Mapper \<Rightarrow> ip4 \<times> bool \<Rightarrow> bytes \<Rightarrow> map_error + bytes \<times> Mapper" where
  "Downlink m pub buf =
     (case parseIPv4 buf of
        Inl e \<Rightarrow> Inl e
      | Inr hdr \<Rightarrow>
          (case currentPublic pub of
             Inl e \<Rightarrow> Inl e
           | Inr public \<Rightarrow>
               if \<not> equal4 buf ipv4DstOffset public then Inl (NotToTunnel public)
               else Inr (rewriteAddr m buf hdr ipv4DstOffset public (peerIP m))))"

end
