(* ===== verification/Mapping_Props.thy ===== *)
theory Mapping_Props
  imports Mapping
begin

text \<open>
  Correctness of the address mapper. A direction names the operation (\<open>Uplink\<close>, \<open>Downlink\<close>), the
  offset of the address it replaces and the two addresses; the lemmas are proved once for both.
\<close>

datatype direction = Up | Down

definition translate :: "direction \<Rightarrow> Mapper \<Rightarrow> ip4 \<times> bool \<Rightarrow> bytes \<Rightarrow> map_error + bytes \<times> Mapper" where
  "translate d = (case d of Up \<Rightarrow> Uplink | Down \<Rightarrow> Downlink)"

definition addr_at :: "direction \<Rightarrow> nat" where
  "addr_at d = (case d of Up \<Rightarrow> 12 | Down \<Rightarrow> 16)"

definition old_addr :: "direction \<Rightarrow> Mapper \<Rightarrow> ip4 \<times> bool \<Rightarrow> ip4" where
  "old_addr d m pub = (case d of Up \<Rightarrow> peerIP m | Down \<Rightarrow> fst pub)"

definition new_addr :: "direction \<Rightarrow> Mapper \<Rightarrow> ip4 \<times> bool \<Rightarrow> ip4" where
  "new_addr d m pub = (case d of Up \<Rightarrow> fst pub | Down \<Rightarrow> peerIP m)"

text \<open>The header length a packet declares, and the bytes a TCP or UDP checksum covers: the
  pseudo-header, the visible part of the segment and whatever later fragments carry.\<close>

definition ihl :: "bytes \<Rightarrow> nat" where
  "ihl buf = unat (buf ! 0 AND 0x0f) * 4"

definition covered :: "bytes \<Rightarrow> bytes \<Rightarrow> bytes" where
  "covered buf rest =
     ip4_bytes (get4 buf 12) @ ip4_bytes (get4 buf 16) @ [0, buf ! 9] @
     put16 (of_nat (length (drop (ihl buf) buf @ rest))) @ drop (ihl buf) buf @ rest"

section \<open>Header parsing\<close>

lemma parseIPv4_ok:
  assumes "parseIPv4 buf = Inr hdr"
  shows "20 \<le> length buf" "20 \<le> headerLen hdr" "headerLen hdr \<le> length buf"
    "headerLen hdr = ihl buf" "headerLen hdr \<le> 60" "even (headerLen hdr)" "buf ! 0 \<noteq> 0"
    "protocol hdr = buf ! 9" "fragField hdr = get16 buf 6" "totalLen hdr = unat (get16 buf 2)"
proof -
  have "unat (buf ! 0 AND 0x0f) \<le> 15"
  proof -
    have "buf ! 0 AND 0x0f = take_bit 4 (buf ! 0)" by (simp add: take_bit_eq_mask mask_eq_exp_minus_1)
    then have "buf ! 0 AND 0x0f < 16" by (simp add: take_bit_eq_mod word_mod_less_divisor)
    then show ?thesis by (simp add: word_less_nat_alt)
  qed
  then show "headerLen hdr \<le> 60"
    using assms by (auto simp: parseIPv4_def Let_def split: if_splits)
  show "buf ! 0 \<noteq> 0"
    using assms by (auto simp: parseIPv4_def Let_def split: if_splits)
  show "20 \<le> length buf" "20 \<le> headerLen hdr" "headerLen hdr \<le> length buf"
    "headerLen hdr = ihl buf" "even (headerLen hdr)"
    "protocol hdr = buf ! 9" "fragField hdr = get16 buf 6" "totalLen hdr = unat (get16 buf 2)"
    using assms by (auto simp: parseIPv4_def Let_def ihl_def split: if_splits)
qed

lemma equal4_header: "20 \<le> length buf \<Longrightarrow> i \<le> 16 \<Longrightarrow> equal4 buf i a \<longleftrightarrow> get4 buf i = a"
  by (auto simp: equal4_def)

lemma translate_Inr:
  "translate d m pub buf = Inr r \<longleftrightarrow>
     (\<exists>hdr. parseIPv4 buf = Inr hdr \<and> snd pub \<and> fst pub \<noteq> (0, 0, 0, 0) \<and>
        get4 buf (addr_at d) = old_addr d m pub \<and>
        r = rewriteAddr m buf hdr (addr_at d) (old_addr d m pub) (new_addr d m pub))"
  by (cases d; cases pub)
     (auto simp: translate_def Uplink_def Downlink_def currentPublic_def addr_at_def old_addr_def
        new_addr_def equal4_header parseIPv4_ok(1) split: sum.splits if_splits)

section \<open>Checksum arithmetic of the edits\<close>

lemma update_addr_mod:
  "(unat (update_addr c old new) + addr_sum new) mod 65535 = (unat c + addr_sum old) mod 65535"
proof -
  let ?u = "updateChecksum c (addr_hi old) (addr_hi new)"
  have "(unat (update_addr c old new) + unat (addr_lo new)) mod 65535 =
      (unat ?u + unat (addr_lo old)) mod 65535"
    unfolding update_addr_def by (rule updateChecksum_mod)
  then have "(unat (update_addr c old new) + unat (addr_lo new) + unat (addr_hi new)) mod 65535 =
      (unat ?u + unat (addr_lo old) + unat (addr_hi new)) mod 65535"
    by (rule mod_add_cong) simp
  moreover have "(unat ?u + unat (addr_hi new) + unat (addr_lo old)) mod 65535 =
      (unat c + unat (addr_hi old) + unat (addr_lo old)) mod 65535"
    by (rule mod_add_cong [OF updateChecksum_mod]) simp
  ultimately show ?thesis by (simp add: ac_simps)
qed

lemma get4_set16_other: "i + 3 < j \<or> Suc j < i \<Longrightarrow> get4 (set16 b j w) i = get4 b i"
  by (auto simp: get4_def)

lemma set4_nth: "j < i \<or> i + 3 < j \<Longrightarrow> set4 b i a ! j = b ! j"
  by (auto simp: set4_def split: prod.splits)

lemma get4_set4_other: "i + 3 < j \<or> j + 3 < i \<Longrightarrow> get4 (set4 b i a) j = get4 b j"
  by (auto simp: get4_def set4_nth)

lemma get16_set4_other: "i + 3 < j \<or> Suc j < i \<Longrightarrow> get16 (set4 b i a) j = get16 b j"
  by (auto simp: get16_def set4_nth)

lemma set4_take: "i + 3 < n \<Longrightarrow> take n (set4 b i a) = set4 (take n b) i a"
  by (simp add: set4_set16 set16_take)

lemma set4_drop_before: "i + 3 < n \<Longrightarrow> drop n (set4 b i a) = drop n b"
  by (simp add: set4_set16 set16_drop_before)

lemma take_nth_eq: "take n b = take n b' \<Longrightarrow> i < n \<Longrightarrow> b ! i = b' ! i"
  by (metis nth_take)


section \<open>ICMP errors\<close>

text \<open>The rewrite of an ICMP message at fixed offsets of the message: the embedded header starts
  at 8, its addresses at 20 and 24, its checksum at 18; the message checksum is at 2.\<close>

definition icmp_addrs :: "bytes \<Rightarrow> ip4 \<Rightarrow> ip4 \<Rightarrow> bytes" where
  "icmp_addrs b old new =
     (let b1 = (if get4 b 20 = old then set4 b 20 new else b)
      in if get4 b 24 = old then set4 b1 24 new else b1)"

definition icmp_fixed :: "bytes \<Rightarrow> nat \<Rightarrow> ip4 \<Rightarrow> ip4 \<Rightarrow> bytes" where
  "icmp_fixed b hl old new =
     (let b2 = icmp_addrs b old new;
          b3 = set16 b2 18 0;
          newInner = checksum16 (take hl (drop 8 b3));
          sum = get16 b 2;
          sum = (if get4 b 20 = old then update_addr sum old new else sum);
          sum = (if get4 b 24 = old then update_addr sum old new else sum)
      in set16 (set16 b3 18 newInner) 2 (updateChecksum sum (get16 b 18) newInner))"

lemma set4_append: "set4 (x @ y) (length x + k) a = x @ set4 y k a"
  by (simp add: set4_def list_update_append add.assoc split: prod.splits)

lemma set16_append: "set16 (x @ y) (length x + k) a = x @ set16 y k a"
  by (simp add: set16_def list_update_append)

lemma get4_append: "get4 (x @ y) (length x + k) = get4 y k"
  by (simp add: get4_def nth_append add.assoc)

lemma get16_append: "get16 (x @ y) (length x + k) = get16 y k"
  by (simp add: get16_def nth_append)

lemma set16_append2: "set16 (x @ y) (Suc (Suc (length x))) a = x @ set16 y 2 a"
  using set16_append [of x y 2 a] by (simp add: add_2_eq_Suc')

lemma get16_append2: "get16 (x @ y) (Suc (Suc (length x))) = get16 y 2"
  using get16_append [of x y 2] by (simp add: add_2_eq_Suc')

lemma equal4_append: "k + 3 < length y \<Longrightarrow> equal4 (x @ y) (length x + k) a \<longleftrightarrow> get4 y k = a"
  by (auto simp: equal4_def get4_append)

lemma set16_set16: "set16 (set16 b i v) i w = set16 b i w"
  by (simp add: set16_def list_update_swap)

lemma icmp_addrs_length [simp]: "length (icmp_addrs b old new) = length b"
  by (simp add: icmp_addrs_def Let_def)

lemma icmp_addrs_nth: "j < 20 \<Longrightarrow> icmp_addrs b old new ! j = b ! j"
  by (simp add: icmp_addrs_def Let_def set4_nth)

lemma icmp_addrs_get16: "Suc j < 20 \<Longrightarrow> get16 (icmp_addrs b old new) j = get16 b j"
  by (simp add: get16_def icmp_addrs_nth)

lemma rewriteICMPInner_message:
  assumes "headerLen hdr = length x" "fragmentOffset hdr = 0" "28 \<le> length y"
    "icmpCarriesOriginal (y ! 0)" "parseIPv4 (drop 8 y) = Inr ih"
    "get4 y 20 = old \<or> get4 y 24 = old"
  shows "rewriteICMPInner (x @ y) hdr old new = x @ icmp_fixed y (headerLen ih) old new"
proof -
  have e20: "equal4 (x @ y) (length x + 20) old \<longleftrightarrow> get4 y 20 = old"
    using equal4_append [of 20 y x old] assms by (simp add: add.assoc)
  have e24: "equal4 (x @ y) (length x + 24) old \<longleftrightarrow> get4 y 24 = old"
    using equal4_append [of 24 y x old] assms by (simp add: add.assoc)
  have e24': "equal4 (x @ set4 y 20 new) (length x + 24) old \<longleftrightarrow> get4 y 24 = old"
    using equal4_append [of 24 "set4 y 20 new" x old] assms by (simp add: get4_set4_other)
  show ?thesis
    using assms
    by (auto simp: rewriteICMPInner_def icmp_fixed_def icmp_addrs_def Let_def e20 e24 e24' add.assoc
        set4_append set16_append set16_append2 get16_append get16_append2 set16_set16 get16_set4_other nth_append)
qed

lemma rewriteICMPInner_cases:
  assumes "headerLen hdr = length x"
  obtains "rewriteICMPInner (x @ y) hdr old new = x @ y"
  | ih where "28 \<le> length y" "icmpCarriesOriginal (y ! 0)" "parseIPv4 (drop 8 y) = Inr ih"
      "get4 y 20 = old \<or> get4 y 24 = old"
      "rewriteICMPInner (x @ y) hdr old new = x @ icmp_fixed y (headerLen ih) old new"
proof (cases "fragmentOffset hdr = 0 \<and> 28 \<le> length y \<and> icmpCarriesOriginal (y ! 0) \<and>
    (\<exists>ih. parseIPv4 (drop 8 y) = Inr ih) \<and> (get4 y 20 = old \<or> get4 y 24 = old)")
  case True
  then show ?thesis using that(2) rewriteICMPInner_message [OF assms] by blast
next
  case False
  have e20: "28 \<le> length y \<Longrightarrow> equal4 (x @ y) (length x + 20) old \<longleftrightarrow> get4 y 20 = old"
    using equal4_append [of 20 y x old] by (simp add: add.assoc)
  have e24: "28 \<le> length y \<Longrightarrow> equal4 (x @ y) (length x + 24) old \<longleftrightarrow> get4 y 24 = old"
    using equal4_append [of 24 y x old] by (simp add: add.assoc)
  have "rewriteICMPInner (x @ y) hdr old new = x @ y"
    using False assms e20 e24
    by (auto simp: rewriteICMPInner_def Let_def nth_append add.assoc split: sum.splits)
  then show ?thesis by (rule that(1))
qed

lemma nsum_icmp_addrs:
  assumes "28 \<le> length b"
  shows "nsum (icmp_addrs b old new) +
      ((if get4 b 20 = old then addr_sum old else 0) + (if get4 b 24 = old then addr_sum old else 0)) =
    nsum b + ((if get4 b 20 = old then addr_sum new else 0) + (if get4 b 24 = old then addr_sum new else 0))"
proof -
  define b1 where "b1 = (if get4 b 20 = old then set4 b 20 new else b)"
  have len: "length b1 = length b" and g: "get4 b1 24 = get4 b 24"
    by (simp_all add: b1_def get4_set4_other)
  have 1: "nsum b1 + (if get4 b 20 = old then addr_sum old else 0) =
      nsum b + (if get4 b 20 = old then addr_sum new else 0)"
    using nsum_set4 [of 20 b new] assms by (auto simp: b1_def)
  have "nsum (icmp_addrs b old new) + (if get4 b 24 = old then addr_sum old else 0) =
      nsum b1 + (if get4 b 24 = old then addr_sum new else 0)"
    using nsum_set4 [of 24 b1 new] assms len g by (auto simp: icmp_addrs_def b1_def [symmetric] Let_def)
  with 1 show ?thesis by linarith
qed


text \<open>What the rewrite does to the message, followed by any bytes of later fragments.\<close>

lemma set16_app: "Suc i < length b \<Longrightarrow> set16 b i w @ r = set16 (b @ r) i w"
  by (simp add: set16_def list_update_append)

lemma set4_app: "i + 3 < length b \<Longrightarrow> set4 b i w @ r = set4 (b @ r) i w"
  by (simp add: set4_def list_update_append split: prod.splits)

lemma get4_app: "i + 3 < length b \<Longrightarrow> get4 (b @ r) i = get4 b i"
  by (simp add: get4_def nth_append)

lemma get16_app: "Suc i < length b \<Longrightarrow> get16 (b @ r) i = get16 b i"
  by (simp add: get16_def nth_append)

lemma icmp_addrs_app:
  assumes "28 \<le> length b"
  shows "icmp_addrs b old new @ r = icmp_addrs (b @ r) old new"
  using assms by (simp add: icmp_addrs_def Let_def set4_app get4_app)

lemma icmp_fixed_length [simp]: "length (icmp_fixed b hl old new) = length b"
  by (simp add: icmp_fixed_def Let_def)

lemma icmp_fixed_nth0: "icmp_fixed b hl old new ! 0 = b ! 0"
  by (simp add: icmp_fixed_def Let_def icmp_addrs_nth)

lemma icmp_fixed_mod:
  assumes "28 \<le> length b"
  shows "nsum (icmp_fixed b hl old new @ r) mod 65535 = nsum (b @ r) mod 65535"
proof -
  define B where "B = b @ r"
  have lB: "28 \<le> length B" using assms by (simp add: B_def)
  have g: "get4 b 20 = get4 B 20" "get4 b 24 = get4 B 24" "get16 b 2 = get16 B 2" "get16 b 18 = get16 B 18"
    using assms by (simp_all add: B_def get4_app get16_app)
  define os where "os = (if get4 B 20 = old then addr_sum old else 0)"
  define od where "od = (if get4 B 24 = old then addr_sum old else 0)"
  define ns where "ns = (if get4 B 20 = old then addr_sum new else 0)"
  define nd where "nd = (if get4 B 24 = old then addr_sum new else 0)"
  define w where "w = checksum16 (take hl (drop 8 (set16 (icmp_addrs b old new) 18 0)))"
  define s1 where "s1 = (if get4 B 20 = old then update_addr (get16 B 2) old new else get16 B 2)"
  define s2 where "s2 = (if get4 B 24 = old then update_addr s1 old new else s1)"
  define s3 where "s3 = updateChecksum s2 (get16 B 18) w"
  have "icmp_fixed b hl old new = set16 (set16 (icmp_addrs b old new) 18 w) 2 s3"
    by (simp add: icmp_fixed_def Let_def w_def s3_def s2_def s1_def set16_set16 g)
  then have F: "icmp_fixed b hl old new @ r = set16 (set16 (icmp_addrs B old new) 18 w) 2 s3"
    using assms by (simp add: set16_app icmp_addrs_app B_def)
  have n1: "nsum (icmp_addrs B old new) + (os + od) = nsum B + (ns + nd)"
    unfolding os_def od_def ns_def nd_def by (rule nsum_icmp_addrs [OF lB])
  have n2: "nsum (set16 (icmp_addrs B old new) 18 w) + unat (get16 B 18) =
      nsum (icmp_addrs B old new) + unat w"
    using nsum_set16 [of 18 "icmp_addrs B old new" w] lB by (simp add: icmp_addrs_get16)
  have n3: "nsum (icmp_fixed b hl old new @ r) + unat (get16 B 2) =
      nsum (set16 (icmp_addrs B old new) 18 w) + unat s3"
    unfolding F using nsum_set16 [of 2 "set16 (icmp_addrs B old new) 18 w" s3] lB
    by (simp add: icmp_addrs_get16)
  have m1: "(unat s1 + ns) mod 65535 = (unat (get16 B 2) + os) mod 65535"
    by (simp add: s1_def ns_def os_def update_addr_mod)
  have m2: "(unat s2 + nd) mod 65535 = (unat s1 + od) mod 65535"
    by (simp add: s2_def nd_def od_def update_addr_mod)
  have m3: "(unat s3 + unat w) mod 65535 = (unat s2 + unat (get16 B 18)) mod 65535"
    unfolding s3_def by (rule updateChecksum_mod)
  have "(unat s3 + unat w + nd + ns) mod 65535 = (unat s2 + unat (get16 B 18) + nd + ns) mod 65535"
    by (intro mod_add_cong m3 refl)
  also have "\<dots> = (unat s2 + nd + (unat (get16 B 18) + ns)) mod 65535" by (simp add: ac_simps)
  also have "\<dots> = (unat s1 + od + (unat (get16 B 18) + ns)) mod 65535" by (intro mod_add_cong m2 refl)
  also have "\<dots> = (unat s1 + ns + (unat (get16 B 18) + od)) mod 65535" by (simp add: ac_simps)
  also have "\<dots> = (unat (get16 B 2) + os + (unat (get16 B 18) + od)) mod 65535" by (intro mod_add_cong m1 refl)
  finally have "(unat (get16 B 2) + os + (unat (get16 B 18) + od)) mod 65535 =
      (unat s3 + unat w + nd + ns) mod 65535" ..
  then show ?thesis
    unfolding B_def [symmetric] by (rule mod_shift [rotated]) (use n1 n2 n3 in linarith)
qed

lemma icmp_fixed_checksum:
  assumes "28 \<le> length b" "length (b @ r) \<le> 65535" "b ! 0 \<noteq> 0" "checksum16 (b @ r) = 0"
  shows "checksum16 (icmp_fixed b hl old new @ r) = 0"
proof -
  have "nsum (icmp_fixed b hl old new @ r) \<noteq> 0"
  proof (rule nsum_pos)
    show "icmp_fixed b hl old new @ r \<noteq> []"
      using assms(1) icmp_fixed_length [of b hl old new] by (auto simp del: icmp_fixed_length)
    show "(icmp_fixed b hl old new @ r) ! 0 \<noteq> 0"
      using assms by (auto simp: nth_append icmp_fixed_nth0)
  qed
  then show ?thesis
    using assms icmp_fixed_mod [OF assms(1), of hl old new r] by (simp add: checksum16_valid)
qed

text \<open>The embedded header verifies afterwards, whether or not it did before.\<close>

lemma icmp_fixed_inner:
  assumes "28 \<le> length b" "parseIPv4 (drop 8 b) = Inr ih"
  shows "checksum16 (take (headerLen ih) (drop 8 (icmp_fixed b (headerLen ih) old new))) = 0"
proof -
  note ok = parseIPv4_ok [OF assms(2)]
  define b3 where "b3 = set16 (icmp_addrs b old new) 18 0"
  define h where "h = take (headerLen ih) (drop 8 b3)"
  have b0: "b ! 8 \<noteq> 0" using ok(7) assms by simp
  have len: "length h = headerLen ih" using ok(3) by (simp add: h_def b3_def)
  have h0: "h ! 0 \<noteq> 0" using b0 ok(2) assms(1) by (simp add: h_def b3_def icmp_addrs_nth)
  have g: "get16 h 10 = 0"
    using ok(2) assms(1) by (simp add: h_def b3_def get16_take get16_drop)
  have eq: "take (headerLen ih) (drop 8 (icmp_fixed b (headerLen ih) old new)) = set16 h 10 (checksum16 h)"
  proof -
    have "icmp_fixed b (headerLen ih) old new =
        set16 (set16 b3 18 (checksum16 h)) 2
          (updateChecksum (let sum = get16 b 2;
             sum = (if get4 b 20 = old then update_addr sum old new else sum)
           in if get4 b 24 = old then update_addr sum old new else sum) (get16 b 18) (checksum16 h))"
      by (simp only: icmp_fixed_def Let_def b3_def h_def)
    then show ?thesis
      using ok(2) by (simp add: set16_drop_before set16_drop set16_take h_def)
  qed
  have n: "nsum (set16 h 10 (checksum16 h)) = nsum h + unat (checksum16 h)"
    using nsum_set16 [of 10 h "checksum16 h"] g len ok(2) by simp
  have nz: "nsum h \<noteq> 0" using h0 len ok(2) by (intro nsum_pos) auto
  have "(nsum h + unat (checksum16 h)) mod 65535 = 0"
    using checksum16_completes [of h] nz len ok(5) by simp
  then show ?thesis
    unfolding eq using n nz len ok(5) by (subst checksum16_valid) auto
qed


section \<open>The IP header and the transport checksum\<close>

definition header_edit :: "bytes \<Rightarrow> nat \<Rightarrow> ip4 \<Rightarrow> ip4 \<Rightarrow> bytes" where
  "header_edit buf at old new =
     set16 (set4 buf at new) 10 (update_addr (get16 buf 10) old new)"

lemma header_edit_length [simp]: "length (header_edit buf at old new) = length buf"
  by (simp add: header_edit_def)

lemma header_edit_Nil [simp]: "header_edit buf at old new = [] \<longleftrightarrow> buf = []"
  by (metis header_edit_length length_0_conv)

lemma rewriteAddr_header_edit:
  "12 \<le> at \<Longrightarrow> rewriteAddr m buf hdr at old new = rewrite_transport m (header_edit buf at old new) hdr old new"
  by (simp add: rewriteAddr_def header_edit_def Let_def get16_set4_other)

lemma header_edit_nth:
  "i \<noteq> 10 \<Longrightarrow> i \<noteq> 11 \<Longrightarrow> i < at \<or> at + 3 < i \<Longrightarrow> header_edit buf at old new ! i = buf ! i"
  by (auto simp: header_edit_def set4_nth)

lemma header_edit_drop: "at + 3 < n \<Longrightarrow> 12 \<le> at \<Longrightarrow> drop n (header_edit buf at old new) = drop n buf"
  by (simp add: header_edit_def set16_drop_before set4_drop_before)

lemma header_edit_mod:
  assumes "at = 12 \<or> at = 16" "get4 buf at = old" "20 \<le> hl" "hl \<le> length buf"
  shows "nsum (take hl (header_edit buf at old new)) mod 65535 = nsum (take hl buf) mod 65535"
proof -
  let ?h = "take hl buf" and ?c = "update_addr (get16 buf 10) old new"
  have g: "get4 ?h at = old" "get16 ?h 10 = get16 buf 10"
    using assms by (auto simp: get4_def get16_def)
  have eq: "take hl (header_edit buf at old new) = set16 (set4 ?h at new) 10 ?c"
    using assms by (auto simp: header_edit_def set16_take set4_take)
  have ev: "even at" "at + 3 < length ?h" using assms by auto
  have n1: "nsum (set4 ?h at new) + addr_sum old = nsum ?h + addr_sum new"
    using nsum_set4 [OF ev, of new] g by simp
  have "get16 (set4 ?h at new) 10 = get16 buf 10"
    using assms(1) g by (subst get16_set4_other) auto
  then have n2: "nsum (set16 (set4 ?h at new) 10 ?c) + unat (get16 buf 10) =
      nsum (set4 ?h at new) + unat ?c"
    using nsum_set16 [of 10 "set4 ?h at new" ?c] assms by simp
  have "(unat (get16 buf 10) + addr_sum old) mod 65535 = (unat ?c + addr_sum new) mod 65535"
    by (rule update_addr_mod [symmetric])
  then show ?thesis
    unfolding eq by (rule mod_shift [rotated]) (use n1 n2 in linarith)
qed

lemma rewriteICMPInner_keeps:
  assumes "headerLen hdr \<le> length b"
  shows "length (rewriteICMPInner b hdr old new) = length b"
    "take (headerLen hdr) (rewriteICMPInner b hdr old new) = take (headerLen hdr) b"
proof -
  let ?x = "take (headerLen hdr) b" and ?y = "drop (headerLen hdr) b"
  have "headerLen hdr = length ?x" using assms by simp
  then have "length (rewriteICMPInner (?x @ ?y) hdr old new) = length (?x @ ?y) \<and>
      take (headerLen hdr) (rewriteICMPInner (?x @ ?y) hdr old new) = ?x"
    by (rule rewriteICMPInner_cases [of hdr ?x ?y old new]) (auto simp: assms)
  then show "length (rewriteICMPInner b hdr old new) = length b"
    "take (headerLen hdr) (rewriteICMPInner b hdr old new) = ?x"
    by simp_all
qed

lemma rewrite_transport_keeps:
  assumes "headerLen hdr \<le> length b"
  shows "length (fst (rewrite_transport m b hdr old new)) = length b"
    "take (headerLen hdr) (fst (rewrite_transport m b hdr old new)) = take (headerLen hdr) b"
  using rewriteICMPInner_keeps [OF assms]
  by (simp_all add: rewrite_transport_def Let_def update_transport_def set16_take_beyond)

text \<open>The facts shared by the properties below, for a successful mapping in either direction.\<close>

lemma translate_facts:
  assumes "translate d m pub buf = Inr (buf', m')"
  obtains hdr where "parseIPv4 buf = Inr hdr" "headerLen hdr = ihl buf"
    "20 \<le> ihl buf" "ihl buf \<le> length buf" "ihl buf \<le> 60" "buf ! 0 \<noteq> 0"
    "addr_at d = 12 \<or> addr_at d = 16" "get4 buf (addr_at d) = old_addr d m pub"
    "(buf', m') = rewrite_transport m (header_edit buf (addr_at d) (old_addr d m pub) (new_addr d m pub))
       hdr (old_addr d m pub) (new_addr d m pub)"
    "length buf' = length buf"
    "take (ihl buf) buf' = take (ihl buf) (header_edit buf (addr_at d) (old_addr d m pub) (new_addr d m pub))"
proof -
  from assms obtain hdr where h: "parseIPv4 buf = Inr hdr" "get4 buf (addr_at d) = old_addr d m pub"
      and r: "(buf', m') = rewriteAddr m buf hdr (addr_at d) (old_addr d m pub) (new_addr d m pub)"
    unfolding translate_Inr by blast
  note ok = parseIPv4_ok [OF h(1)]
  have at: "addr_at d = 12 \<or> addr_at d = 16" by (cases d) (auto simp: addr_at_def)
  then have "12 \<le> addr_at d" by auto
  note r' = r [unfolded rewriteAddr_header_edit [OF this]]
  let ?e = "header_edit buf (addr_at d) (old_addr d m pub) (new_addr d m pub)"
  have le: "headerLen hdr \<le> length ?e" using ok(3) by simp
  have "length buf' = length buf" "take (headerLen hdr) buf' = take (headerLen hdr) ?e"
    using rewrite_transport_keeps [OF le, of m "old_addr d m pub" "new_addr d m pub"] r'
    by (metis fst_conv header_edit_length)+
  with that [OF h(1) ok(4)] ok at h(2) r' show ?thesis by simp
qed


section \<open>Properties\<close>

lemma translate_ihl:
  assumes "translate d m pub buf = Inr (buf', m')"
  shows "ihl buf' = ihl buf" "buf' ! 9 = buf ! 9" "get4 buf' (addr_at d) = new_addr d m pub"
    "get4 buf' (28 - addr_at d) = get4 buf (28 - addr_at d)"
proof -
  let ?e = "header_edit buf (addr_at d) (old_addr d m pub) (new_addr d m pub)"
  from assms obtain hdr where f: "20 \<le> ihl buf" "ihl buf \<le> length buf" "addr_at d = 12 \<or> addr_at d = 16"
      "take (ihl buf) buf' = take (ihl buf) ?e" by (rule translate_facts)
  have n: "buf' ! i = ?e ! i" if "i < 20" for i
    using f(1) that by (intro take_nth_eq [OF f(4)]) simp
  have g4: "get4 buf' i = get4 ?e i" if "i \<le> 16" for i
    using that by (simp add: get4_def n)
  have "?e ! 0 = buf ! 0" using f(3) by (intro header_edit_nth) auto
  then show "ihl buf' = ihl buf" by (simp add: ihl_def n)
  have "?e ! 9 = buf ! 9" using f(3) by (intro header_edit_nth) auto
  then show "buf' ! 9 = buf ! 9" by (simp add: n)
  show "get4 buf' (addr_at d) = new_addr d m pub"
    using f by (auto simp: g4 header_edit_def get4_set16_other)
  show "get4 buf' (28 - addr_at d) = get4 buf (28 - addr_at d)"
    using f(3) by (auto simp: g4 header_edit_def get4_set16_other get4_set4_other)
qed

text \<open>After a successful \<open>Uplink\<close> or \<open>Downlink\<close> an IP header that verified before verifies
  again, for every header length and every address pair.\<close>

theorem ip_header_checksum_kept:
  assumes "translate d m pub buf = Inr (buf', m')" "checksum16 (take (ihl buf) buf) = 0"
  shows "checksum16 (take (ihl buf') buf') = 0"
proof -
  let ?e = "header_edit buf (addr_at d) (old_addr d m pub) (new_addr d m pub)"
  from assms(1) obtain hdr where f: "20 \<le> ihl buf" "ihl buf \<le> length buf" "ihl buf \<le> 60"
      "buf ! 0 \<noteq> 0" "addr_at d = 12 \<or> addr_at d = 16" "get4 buf (addr_at d) = old_addr d m pub"
      "take (ihl buf) buf' = take (ihl buf) ?e" by (rule translate_facts)
  have len: "length (take (ihl buf) b) \<le> 131072" for b using f(3) by simp
  have "nsum (take (ihl buf) ?e) mod 65535 = nsum (take (ihl buf) buf) mod 65535"
    by (rule header_edit_mod [OF f(5,6,1,2)])
  moreover have "?e ! 0 = buf ! 0" using f(5) by (intro header_edit_nth) auto
  then have "nsum (take (ihl buf) ?e) \<noteq> 0"
    using f(1,2,4) by (intro nsum_pos) auto
  ultimately show ?thesis
    using assms(2) f(7) by (simp add: translate_ihl(1) [OF assms(1)] checksum16_valid [OF len])
qed

lemma nsum_ip4_bytes: "nsum (ip4_bytes a @ x) = addr_sum a + nsum x"
  by (cases a) (simp add: ip4_bytes_def addr_hi_def addr_lo_def)

lemma nsum_put16: "nsum (put16 w @ x) = unat w + nsum x"
  by (simp add: put16_def)

lemma nsum_covered:
  assumes "at = 12 \<or> at = 16"
  shows "nsum (covered buf rest) = addr_sum (get4 buf at) + addr_sum (get4 buf (28 - at)) +
     unat (be16 0 (buf ! 9)) + unat (of_nat (length (drop (ihl buf) buf @ rest)) :: u16) +
     nsum (drop (ihl buf) buf @ rest)"
  using assms by (auto simp: covered_def nsum_ip4_bytes nsum_put16)

lemma covered_length: "length (covered buf rest) = 12 + (length (drop (ihl buf) buf) + length rest)"
  by (auto simp: covered_def ip4_bytes_def split: prod.splits)

text \<open>The segment part: the checksum word at \<open>off\<close> absorbs the change of address.\<close>

lemma update_transport_segment:
  assumes "length x = hl" "even off" "Suc off < length y"
  obtains c where "update_transport (x @ y) (hl + off) old new = x @ set16 y off c" "c \<noteq> 0"
    "nsum (set16 y off c @ r) + unat (get16 y off) = nsum (y @ r) + unat c"
    "(unat c + addr_sum new) mod 65535 = (unat (get16 y off) + addr_sum old) mod 65535"
proof -
  let ?u = "update_addr (get16 y off) old new"
  define c where "c = (if ?u = 0 then 0xffff else ?u)"
  have 1: "update_transport (x @ y) (hl + off) old new = x @ set16 y off c"
    using assms(1) by (auto simp: update_transport_def Let_def c_def get16_append set16_append)
  have 2: "c \<noteq> 0" by (simp add: c_def)
  have "nsum (set16 (y @ r) off c) + unat (get16 (y @ r) off) = nsum (y @ r) + unat c"
    using assms by (intro nsum_set16) auto
  then have 3: "nsum (set16 y off c @ r) + unat (get16 y off) = nsum (y @ r) + unat c"
    using assms by (simp add: set16_app get16_app)
  have "unat c mod 65535 = unat ?u mod 65535" by (simp add: c_def)
  then have "(unat c + addr_sum new) mod 65535 = (unat ?u + addr_sum new) mod 65535"
    by (rule mod_add_cong) simp
  then have 4: "(unat c + addr_sum new) mod 65535 = (unat (get16 y off) + addr_sum old) mod 65535"
    by (simp only: update_addr_mod)
  show ?thesis using that [OF 1 2 3 4] .
qed

lemma get16_nsum_pos:
  assumes "Suc off < length b" "get16 b off \<noteq> 0" "even off"
  shows "nsum b \<noteq> 0"
proof -
  have "unat (get16 b off) \<noteq> 0" using assms(2) by (simp add: unat_eq_zero)
  then show ?thesis using nsum_set16 [OF assms(3,1), of 0] by auto
qed


text \<open>When the transport checksum of the first fragment is updated, and what the buffer is then.\<close>

definition checksum_off :: "byte \<Rightarrow> nat" where
  "checksum_off proto = (if proto = protocolTCP then tcpChecksumOff else udpChecksumOff)"

definition has_checksum :: "bytes \<Rightarrow> bool" where
  "has_checksum buf \<longleftrightarrow>
     (buf ! 9 = protocolTCP \<or> buf ! 9 = protocolUDP) \<and> get16 buf 6 AND 0x1fff = 0 \<and>
     ihl buf + checksum_off (buf ! 9) + 2 \<le> length buf \<and>
     (buf ! 9 = protocolUDP \<longrightarrow> get16 buf (ihl buf + udpChecksumOff) \<noteq> 0)"

lemma translate_transport:
  assumes "translate d m pub buf = Inr (buf', m')" "has_checksum buf"
  shows "drop (ihl buf) buf' = drop (ihl buf) (update_transport
      (header_edit buf (addr_at d) (old_addr d m pub) (new_addr d m pub))
      (ihl buf + checksum_off (buf ! 9)) (old_addr d m pub) (new_addr d m pub))"
proof -
  let ?e = "header_edit buf (addr_at d) (old_addr d m pub) (new_addr d m pub)"
  from assms(1) obtain hdr where f: "parseIPv4 buf = Inr hdr" "headerLen hdr = ihl buf"
      "20 \<le> ihl buf" "ihl buf \<le> length buf" "addr_at d = 12 \<or> addr_at d = 16"
      "(buf', m') = rewrite_transport m ?e hdr (old_addr d m pub) (new_addr d m pub)"
    by (rule translate_facts)
  note ok = parseIPv4_ok [OF f(1)]
  have "drop (ihl buf) ?e = drop (ihl buf) buf" using f(3,5) by (intro header_edit_drop) auto
  then have "get16 ?e (ihl buf + 6) = get16 buf (ihl buf + 6)" if "ihl buf + 8 \<le> length buf"
    using that get16_drop [of "ihl buf" 6 ?e] get16_drop [of "ihl buf" 6 buf] by simp
  then have "fst (rewrite_transport m ?e hdr (old_addr d m pub) (new_addr d m pub)) =
      update_transport ?e (ihl buf + checksum_off (buf ! 9)) (old_addr d m pub) (new_addr d m pub)"
    using assms(2) ok(8,9) f(2)
    by (auto simp: rewrite_transport_def Let_def has_checksum_def checksum_off_def fragmentOffset_def)
  then show ?thesis using f(6) by (metis fst_conv)
qed

text \<open>C2: the TCP or UDP checksum of a mapped packet stays valid: over the pseudo-header with the
  new addresses, the segment in the packet and any continuation \<open>rest\<close> carried by later
  fragments. A UDP checksum that was present never becomes the all-zero \<open>absent\<close> mark.\<close>

theorem transport_checksum_kept:
  assumes "translate d m pub buf = Inr (buf', m')" "has_checksum buf"
    "length (buf @ rest) \<le> 65535" "checksum16 (covered buf rest) = 0"
  shows "checksum16 (covered buf' rest) = 0 \<and> get16 buf' (ihl buf' + checksum_off (buf' ! 9)) \<noteq> 0"
proof -
  let ?e = "header_edit buf (addr_at d) (old_addr d m pub) (new_addr d m pub)"
  let ?o = "old_addr d m pub" and ?n = "new_addr d m pub" and ?off = "checksum_off (buf ! 9)"
  have f: "20 \<le> ihl buf" "ihl buf \<le> length buf" "addr_at d = 12 \<or> addr_at d = 16"
      "get4 buf (addr_at d) = ?o" "length buf' = length buf"
    by (rule translate_facts [OF assms(1)], simp)+
  note same = translate_ihl [OF assms(1)]
  define y where "y = drop (ihl buf) buf"
  have ye: "drop (ihl buf) ?e = y" using f(1,3) unfolding y_def by (intro header_edit_drop) auto
  have off: "even ?off" "Suc ?off < length y"
    using assms(2) by (auto simp: checksum_off_def has_checksum_def y_def)
  have lx: "length (take (ihl buf) ?e) = ihl buf" using f(2) by simp
  obtain c where c: "update_transport (take (ihl buf) ?e @ y) (ihl buf + ?off) ?o ?n =
        take (ihl buf) ?e @ set16 y ?off c" "c \<noteq> 0"
      and cs: "nsum (set16 y ?off c @ rest) + unat (get16 y ?off) = nsum (y @ rest) + unat c"
      and cm: "(unat c + addr_sum ?n) mod 65535 = (unat (get16 y ?off) + addr_sum ?o) mod 65535"
    by (rule update_transport_segment [OF lx off])
  have y': "drop (ihl buf) buf' = set16 y ?off c"
    using translate_transport [OF assms(1,2)] c(1) lx
    by (metis append_eq_conv_conj append_take_drop_id ye)
  have g: "get16 buf' (ihl buf' + checksum_off (buf' ! 9)) = c"
    using get16_drop [of "ihl buf" ?off buf'] y' off f(5)
    by (simp add: same y_def)
  have ly: "length (drop (ihl buf) buf') = length y" by (simp add: y')
  have s: "nsum (covered buf' rest) + (unat (get16 y ?off) + addr_sum ?o) =
      nsum (covered buf rest) + (unat c + addr_sum ?n)"
    using cs by (simp add: nsum_covered [OF f(3)] same f(4) y' ly y_def [symmetric])
  then have "nsum (covered buf' rest) mod 65535 = nsum (covered buf rest) mod 65535"
    by (rule mod_shift) (rule cm [symmetric])
  moreover have "nsum (set16 y ?off c @ rest) \<noteq> 0"
    using get16_nsum_pos [of ?off "set16 y ?off c @ rest"] off c(2) by (simp add: get16_app)
  then have "nsum (covered buf' rest) \<noteq> 0"
    by (simp add: nsum_covered [OF f(3)] same y')
  moreover have "length (covered b rest) \<le> 131072" if "length b = length buf" for b
    using assms(3) that by (simp add: covered_length)
  ultimately show ?thesis using assms(4) g c(2) f(5) by (simp add: checksum16_valid)
qed


lemma translate_icmp:
  assumes "translate d m pub buf = Inr (buf', m')" "buf ! 9 = protocolICMP" "get16 buf 6 AND 0x1fff = 0"
  obtains hdr x where "headerLen hdr = length x" "fragmentOffset hdr = 0" "length x = ihl buf"
    "buf' = rewriteICMPInner (x @ drop (ihl buf) buf) hdr (old_addr d m pub) (new_addr d m pub)"
proof -
  let ?e = "header_edit buf (addr_at d) (old_addr d m pub) (new_addr d m pub)"
  from assms(1) obtain hdr where f: "parseIPv4 buf = Inr hdr" "headerLen hdr = ihl buf"
      "20 \<le> ihl buf" "ihl buf \<le> length buf" "addr_at d = 12 \<or> addr_at d = 16"
      "(buf', m') = rewrite_transport m ?e hdr (old_addr d m pub) (new_addr d m pub)"
    by (rule translate_facts)
  note ok = parseIPv4_ok [OF f(1)]
  have "drop (ihl buf) ?e = drop (ihl buf) buf" using f(3,5) by (intro header_edit_drop) auto
  then have e: "take (ihl buf) ?e @ drop (ihl buf) buf = ?e" by (metis append_take_drop_id)
  have z: "fragmentOffset hdr = 0" using assms(3) ok(9) by (simp add: fragmentOffset_def)
  then have "buf' = rewriteICMPInner ?e hdr (old_addr d m pub) (new_addr d m pub)"
    using f(6) ok(8) assms(2) by (simp add: rewrite_transport_def)
  with that [of hdr "take (ihl buf) ?e"] z f(2,4) e show ?thesis by simp
qed

text \<open>An ICMP message that verified before the mapping verifies after it, also when only its
  first fragment is seen (\<open>rest\<close> is what the other fragments carry).\<close>

theorem icmp_checksum_kept:
  assumes "translate d m pub buf = Inr (buf', m')" "buf ! 9 = protocolICMP" "get16 buf 6 AND 0x1fff = 0"
    "length (buf @ rest) \<le> 65535" "checksum16 (drop (ihl buf) buf @ rest) = 0"
  shows "checksum16 (drop (ihl buf') buf' @ rest) = 0"
proof -
  from assms(1-3) obtain hdr x where h: "headerLen hdr = length x" "fragmentOffset hdr = 0"
      "length x = ihl buf"
      "buf' = rewriteICMPInner (x @ drop (ihl buf) buf) hdr (old_addr d m pub) (new_addr d m pub)"
    by (rule translate_icmp)
  note same = translate_ihl(1) [OF assms(1)]
  show ?thesis
  proof (rule rewriteICMPInner_cases [OF h(1)])
    assume "rewriteICMPInner (x @ drop (ihl buf) buf) hdr (old_addr d m pub) (new_addr d m pub) =
      x @ drop (ihl buf) buf"
    then show ?thesis using h(3,4) assms(5) same by simp
  next
    fix ih
    assume i: "28 \<le> length (drop (ihl buf) buf)" "icmpCarriesOriginal (drop (ihl buf) buf ! 0)"
      "rewriteICMPInner (x @ drop (ihl buf) buf) hdr (old_addr d m pub) (new_addr d m pub) =
       x @ icmp_fixed (drop (ihl buf) buf) (headerLen ih) (old_addr d m pub) (new_addr d m pub)"
    have "drop (ihl buf) buf ! 0 \<noteq> 0" using i(2) by (auto simp: icmpCarriesOriginal_def)
    then have "checksum16 (icmp_fixed (drop (ihl buf) buf) (headerLen ih) (old_addr d m pub)
        (new_addr d m pub) @ rest) = 0"
      using i(1) assms(4,5) by (intro icmp_fixed_checksum) auto
    then show ?thesis using h(3,4) i(3) same by simp
  qed
qed

lemma icmp_fixed_addrs:
  assumes "28 \<le> length y"
  shows "get4 (icmp_fixed y hl old new) 20 = (if get4 y 20 = old then new else get4 y 20)"
    "get4 (icmp_fixed y hl old new) 24 = (if get4 y 24 = old then new else get4 y 24)"
  using assms
  by (simp_all add: icmp_fixed_def Let_def get4_set16_other icmp_addrs_def get4_set4_other)

text \<open>An ICMP error that quotes a packet of the mapped address reaches the other side quoting
  it with the new address, under an embedded IP header checksum that verifies; the receiver can
  therefore match the error to its socket.\<close>

theorem icmp_error_quotes_mapped_packet:
  assumes "translate d m pub buf = Inr (buf', m')" "buf ! 9 = protocolICMP" "get16 buf 6 AND 0x1fff = 0"
    "y = drop (ihl buf) buf" "28 \<le> length y" "icmpCarriesOriginal (y ! 0)"
    "parseIPv4 (drop 8 y) = Inr ih"
    "get4 y 20 = old_addr d m pub \<or> get4 y 24 = old_addr d m pub"
  shows "let y' = drop (ihl buf) buf' in
    get4 y' 20 = (if get4 y 20 = old_addr d m pub then new_addr d m pub else get4 y 20) \<and>
    get4 y' 24 = (if get4 y 24 = old_addr d m pub then new_addr d m pub else get4 y 24) \<and>
    checksum16 (take (headerLen ih) (drop 8 y')) = 0"
proof -
  from assms(1-3) obtain hdr x where h: "headerLen hdr = length x" "fragmentOffset hdr = 0"
      "length x = ihl buf"
      "buf' = rewriteICMPInner (x @ drop (ihl buf) buf) hdr (old_addr d m pub) (new_addr d m pub)"
    by (rule translate_icmp)
  have "buf' = x @ icmp_fixed y (headerLen ih) (old_addr d m pub) (new_addr d m pub)"
    using rewriteICMPInner_message [OF h(1,2) assms(5-8)] h(4) assms(4) by simp
  then have "drop (ihl buf) buf' = icmp_fixed y (headerLen ih) (old_addr d m pub) (new_addr d m pub)"
    using h(3) by simp
  then show ?thesis
    using icmp_fixed_addrs [OF assms(5)] icmp_fixed_inner [OF assms(5,7)] by (simp add: Let_def)
qed

text \<open>Besides the replaced address, the header checksum and the transport checksum, no byte of
  a TCP, UDP or other non-ICMP packet is touched, and the packet keeps its length.\<close>

theorem mapping_frame:
  assumes "translate d m pub buf = Inr (buf', m')" "buf ! 9 \<noteq> protocolICMP"
    "i \<notin> {10, 11} \<union> {addr_at d..<addr_at d + 4}"
    "has_checksum buf \<longrightarrow>
       i \<notin> {ihl buf + checksum_off (buf ! 9), ihl buf + checksum_off (buf ! 9) + 1}"
  shows "length buf' = length buf \<and> get4 buf' (addr_at d) = new_addr d m pub \<and> buf' ! i = buf ! i"
proof -
  let ?e = "header_edit buf (addr_at d) (old_addr d m pub) (new_addr d m pub)"
  from assms(1) obtain hdr where f: "parseIPv4 buf = Inr hdr" "headerLen hdr = ihl buf"
      "20 \<le> ihl buf" "ihl buf \<le> length buf" "addr_at d = 12 \<or> addr_at d = 16"
      "(buf', m') = rewrite_transport m ?e hdr (old_addr d m pub) (new_addr d m pub)"
      "length buf' = length buf"
    by (rule translate_facts)
  note ok = parseIPv4_ok [OF f(1)]
  have "drop (ihl buf) ?e = drop (ihl buf) buf" using f(3,5) by (intro header_edit_drop) auto
  then have g: "get16 ?e (ihl buf + 6) = get16 buf (ihl buf + 6)" if "ihl buf + 8 \<le> length buf"
    using that get16_drop [of "ihl buf" 6 ?e] get16_drop [of "ihl buf" 6 buf] by simp
  have e: "?e ! i = buf ! i" using assms(3) by (intro header_edit_nth) auto
  have "fst (rewrite_transport m ?e hdr (old_addr d m pub) (new_addr d m pub)) ! i = buf ! i"
    using assms(2,4) ok(8,9) f(2) g e
    by (auto simp: rewrite_transport_def Let_def update_transport_def has_checksum_def
        checksum_off_def fragmentOffset_def unat_eq_zero)
  then have "buf' ! i = buf ! i" using f(6) by (metis fst_conv)
  then show ?thesis using f(7) translate_ihl(3) [OF assms(1)] by simp
qed

section \<open>Examples\<close>

definition sample_mapper :: Mapper where
  "sample_mapper = \<lparr>peerIP = (10, 66, 66, 2), unsupportedLogged = False\<rparr>"

definition sample_udp :: bytes where
  "sample_udp = [69, 0, 0, 32, 0, 1, 0, 0, 64, 17, 130, 111, 10, 66, 66, 2, 172, 16, 0, 9,
     0, 53, 0, 53, 0, 12, 3, 9, 1, 2, 3, 4]"

definition sample_icmp :: bytes where
  "sample_icmp = [69, 0, 0, 56, 0, 1, 0, 0, 64, 1, 234, 123, 172, 16, 0, 9, 172, 29, 56, 18,
     3, 4, 247, 133, 0, 0, 5, 0, 69, 0, 0, 28, 0, 1, 0, 0, 64, 17, 234, 135,
     172, 29, 56, 18, 172, 16, 0, 9, 0, 53, 0, 53, 0, 12, 0, 0]"

lemma sample_udp_maps: "isl (translate Up sample_mapper ((172, 29, 56, 18), True) sample_udp) = False"
  by code_simp

lemma sample_icmp_maps: "isl (translate Down sample_mapper ((172, 29, 56, 18), True) sample_icmp) = False"
  by code_simp

lemma sample_udp_ip: "checksum16 (take (ihl sample_udp) sample_udp) = 0"
  by code_simp

lemma sample_udp_covered: "checksum16 (covered sample_udp []) = 0"
  by code_simp

lemma sample_udp_has: "has_checksum sample_udp"
  by code_simp

lemma sample_icmp_valid:
  "checksum16 (drop (ihl sample_icmp) sample_icmp @ []) = 0" "sample_icmp ! 9 = 1"
  "get16 sample_icmp 6 AND 0x1fff = 0"
  by code_simp+

lemma sample_icmp_error: "icmpCarriesOriginal (drop (ihl sample_icmp) sample_icmp ! 0)"
  by code_simp

lemma sample_icmp_quoted:
  "isl (parseIPv4 (drop 8 (drop (ihl sample_icmp) sample_icmp))) = False"
  "get4 (drop (ihl sample_icmp) sample_icmp) 20 = (172, 29, 56, 18)"
  by code_simp+

lemma sample_icmp_length: "28 \<le> length (drop (ihl sample_icmp) sample_icmp)"
  by code_simp

lemma not_isl_Inr: "isl r = False \<Longrightarrow> \<exists>a b. r = Inr (a, b)"
  by (cases r) auto

theorem ip_header_checksum_kept_witness:
  "\<exists>buf' m'. translate Up sample_mapper ((172, 29, 56, 18), True) sample_udp = Inr (buf', m') \<and>
     checksum16 (take (ihl buf') buf') = 0"
  using not_isl_Inr [OF sample_udp_maps] ip_header_checksum_kept [OF _ sample_udp_ip] by blast

theorem transport_checksum_kept_witness:
  "\<exists>buf' m'. translate Up sample_mapper ((172, 29, 56, 18), True) sample_udp = Inr (buf', m') \<and>
     checksum16 (covered buf' []) = 0 \<and> get16 buf' (ihl buf' + checksum_off (buf' ! 9)) \<noteq> 0"
proof -
  obtain b m' where t: "translate Up sample_mapper ((172, 29, 56, 18), True) sample_udp = Inr (b, m')"
    using not_isl_Inr [OF sample_udp_maps] by blast
  have "length (sample_udp @ []) \<le> 65535" by (simp add: sample_udp_def)
  from transport_checksum_kept [OF t sample_udp_has this sample_udp_covered] t show ?thesis by blast
qed

theorem icmp_checksum_kept_witness:
  "\<exists>buf' m'. translate Down sample_mapper ((172, 29, 56, 18), True) sample_icmp = Inr (buf', m') \<and>
     checksum16 (drop (ihl buf') buf' @ []) = 0"
proof -
  obtain b m' where t: "translate Down sample_mapper ((172, 29, 56, 18), True) sample_icmp = Inr (b, m')"
    using not_isl_Inr [OF sample_icmp_maps] by blast
  have "length (sample_icmp @ []) \<le> 65535" by (simp add: sample_icmp_def)
  from icmp_checksum_kept [OF t sample_icmp_valid(2,3) this sample_icmp_valid(1)] t show ?thesis by blast
qed

theorem icmp_error_quotes_mapped_packet_witness:
  "\<exists>buf' m'. translate Down sample_mapper ((172, 29, 56, 18), True) sample_icmp = Inr (buf', m') \<and>
     get4 (drop (ihl sample_icmp) buf') 20 = (10, 66, 66, 2)"
proof -
  let ?pub = "((172, 29, 56, 18), True) :: ip4 \<times> bool"
  obtain b m' where t: "translate Down sample_mapper ?pub sample_icmp = Inr (b, m')"
    using not_isl_Inr [OF sample_icmp_maps] by blast
  obtain ih where p: "parseIPv4 (drop 8 (drop (ihl sample_icmp) sample_icmp)) = Inr ih"
    using sample_icmp_quoted(1) by (cases "parseIPv4 (drop 8 (drop (ihl sample_icmp) sample_icmp))") auto
  have o: "old_addr Down sample_mapper ?pub = (172, 29, 56, 18)" by (simp add: old_addr_def)
  have n: "new_addr Down sample_mapper ?pub = (10, 66, 66, 2)" by (simp add: new_addr_def sample_mapper_def)
  have "get4 (drop (ihl sample_icmp) sample_icmp) 20 = old_addr Down sample_mapper ?pub \<or>
      get4 (drop (ihl sample_icmp) sample_icmp) 24 = old_addr Down sample_mapper ?pub"
    using sample_icmp_quoted(2) o by simp
  note q = icmp_error_quotes_mapped_packet
    [OF t sample_icmp_valid(2,3) refl sample_icmp_length sample_icmp_error p this]
  then have "get4 (drop (ihl sample_icmp) b) 20 = (10, 66, 66, 2)"
    unfolding Let_def o n using sample_icmp_quoted(2) by simp
  with t show ?thesis by blast
qed

theorem mapping_frame_witness:
  "\<exists>buf' m'. translate Up sample_mapper ((172, 29, 56, 18), True) sample_udp = Inr (buf', m') \<and>
     get4 buf' 12 = (172, 29, 56, 18) \<and> buf' ! 28 = 1"
proof -
  let ?pub = "((172, 29, 56, 18), True) :: ip4 \<times> bool"
  obtain b m' where t: "translate Up sample_mapper ?pub sample_udp = Inr (b, m')"
    using not_isl_Inr [OF sample_udp_maps] by blast
  have "length b = length sample_udp \<and> get4 b (addr_at Up) = new_addr Up sample_mapper ?pub \<and>
      b ! 28 = sample_udp ! 28"
    by (rule mapping_frame [OF t])
       (simp_all add: sample_udp_def addr_at_def ihl_def checksum_off_def)
  with t show ?thesis by (simp add: addr_at_def new_addr_def sample_udp_def)
qed

end
