(* ===== verification/Json.thy ===== *)
theory Json
  imports Prelude
begin

text \<open>
  The part of \<open>encoding/json\<close> the sources use: a value, \<open>Unmarshal\<close>'s reading of a text (a
  recursive descent over the grammar its scanner accepts, with its nesting limit and its
  treatment of escapes and of invalid UTF-8), the decoding of a value into a struct field, and
  \<open>Marshal\<close>'s writing. \<open>internal/ztna/json.go\<close> is the client of it modelled here.

  The parser takes fuel. A text of length \<open>n\<close> is read with fuel \<open>2 * n + 2\<close>: every second
  recursive call consumes a character.
\<close>

datatype json =
    JNull
  | JBool bool
  | JNum string
  | JStr string
  | JArr "json list"
  | JObj "(string \<times> json) list"

section \<open>Strings\<close>

definition code_in :: "int \<Rightarrow> int \<Rightarrow> char \<Rightarrow> bool" where
  "code_in lo hi c = (lo \<le> of_char c \<and> of_char c \<le> (hi :: int))"

abbreviation cont_byte :: "char \<Rightarrow> bool" where
  "cont_byte \<equiv> code_in 0x80 0xBF"

definition is_digit :: "char \<Rightarrow> bool" where
  "is_digit = code_in 0x30 0x39"

text \<open>\<open>utf8.DecodeRune\<close>: the length of the valid sequence a text starts with, 0 when it is
  not valid.\<close>

fun utf8_len :: "string \<Rightarrow> nat" where
  "utf8_len (a # b # c # d # _) =
     (if code_in 0 0x7F a then 1
      else if code_in 0xC2 0xDF a \<and> cont_byte b then 2
      else if (code_in 0xE0 0xE0 a \<and> code_in 0xA0 0xBF b \<or> code_in 0xE1 0xEC a \<and> cont_byte b \<or>
               code_in 0xED 0xED a \<and> code_in 0x80 0x9F b \<or> code_in 0xEE 0xEF a \<and> cont_byte b)
              \<and> cont_byte c then 3
      else if (code_in 0xF0 0xF0 a \<and> code_in 0x90 0xBF b \<or> code_in 0xF1 0xF3 a \<and> cont_byte b \<or>
               code_in 0xF4 0xF4 a \<and> code_in 0x80 0x8F b) \<and> cont_byte c \<and> cont_byte d then 4
      else 0)"
| "utf8_len [a, b, c] =
     (if code_in 0 0x7F a then 1
      else if code_in 0xC2 0xDF a \<and> cont_byte b then 2
      else if (code_in 0xE0 0xE0 a \<and> code_in 0xA0 0xBF b \<or> code_in 0xE1 0xEC a \<and> cont_byte b \<or>
               code_in 0xED 0xED a \<and> code_in 0x80 0x9F b \<or> code_in 0xEE 0xEF a \<and> cont_byte b)
              \<and> cont_byte c then 3
      else 0)"
| "utf8_len [a, b] =
     (if code_in 0 0x7F a then 1 else if code_in 0xC2 0xDF a \<and> cont_byte b then 2 else 0)"
| "utf8_len [a] = (if code_in 0 0x7F a then 1 else 0)"
| "utf8_len [] = 0"

definition chr :: "int \<Rightarrow> char" where
  "chr n = char_of n"

text \<open>\<open>utf8.AppendRune\<close>, and the replacement character U+FFFD.\<close>

definition utf8_enc :: "int \<Rightarrow> string" where
  "utf8_enc r =
     (if r < 0x80 then [chr r]
      else if r < 0x800 then [chr (0xC0 + r div 64), chr (0x80 + r mod 64)]
      else if r < 0x10000 then
        [chr (0xE0 + r div 4096), chr (0x80 + r div 64 mod 64), chr (0x80 + r mod 64)]
      else [chr (0xF0 + r div 262144), chr (0x80 + r div 4096 mod 64), chr (0x80 + r div 64 mod 64),
            chr (0x80 + r mod 64)])"

definition replacement :: string where
  "replacement = utf8_enc 0xFFFD"

definition hex_val :: "char \<Rightarrow> int option" where
  "hex_val c =
     (let n = of_char c in
      if 0x30 \<le> n \<and> n \<le> 0x39 then Some (n - 0x30)
      else if 0x61 \<le> n \<and> n \<le> 0x66 then Some (n - 0x61 + 10)
      else if 0x41 \<le> n \<and> n \<le> 0x46 then Some (n - 0x41 + 10)
      else None)"

definition hex4 :: "char \<Rightarrow> char \<Rightarrow> char \<Rightarrow> char \<Rightarrow> int option" where
  "hex4 a b c d =
     (case (hex_val a, hex_val b, hex_val c, hex_val d) of
        (Some w, Some x, Some y, Some z) \<Rightarrow> Some (((w * 16 + x) * 16 + y) * 16 + z)
      | _ \<Rightarrow> None)"

text \<open>The second half of a surrogate pair, when the text goes on with one.\<close>

definition low_surrogate :: "string \<Rightarrow> int option" where
  "low_surrogate s =
     (if 6 \<le> length s \<and> s ! 0 = CHR 0x5C \<and> s ! 1 = CHR ''u'' then
        (case hex4 (s ! 2) (s ! 3) (s ! 4) (s ! 5) of
           Some r \<Rightarrow> if 0xDC00 \<le> r \<and> r < 0xE000 then Some r else None
         | None \<Rightarrow> None)
      else None)"

definition escape :: "char \<Rightarrow> char option" where
  "escape c =
     (if c = CHR ''\"'' then Some c else if c = CHR 0x5C then Some c else if c = CHR ''/'' then Some c
      else if c = CHR ''b'' then Some (CHR 0x08) else if c = CHR ''f'' then Some (CHR 0x0C)
      else if c = CHR ''n'' then Some (CHR 0x0A) else if c = CHR ''r'' then Some (CHR 0x0D)
      else if c = CHR ''t'' then Some (CHR 0x09) else None)"

text \<open>The characters of a string literal after its opening quote, up to and including the
  closing one.\<close>

abbreviation consume :: "string \<Rightarrow> (string \<times> string) option \<Rightarrow> (string \<times> string) option" where
  "consume p r \<equiv> map_option (\<lambda>(s, rest). (p @ s, rest)) r"

fun parse_chars :: "string \<Rightarrow> (string \<times> string) option" where
  "parse_chars [] = None"
| "parse_chars (c # r) =
     (if c = CHR ''\"'' then Some ([], r)
      else if c = CHR 0x5C then
        (case r of
           [] \<Rightarrow> None
         | e # r1 \<Rightarrow>
             if e = CHR ''u'' then
               (case r1 of
                  w # x # y # z # r2 \<Rightarrow>
                    (case hex4 w x y z of
                       None \<Rightarrow> None
                     | Some n \<Rightarrow>
                         if 0xD800 \<le> n \<and> n < 0xE000 then
                           (case (if n < 0xDC00 then low_surrogate r2 else None) of
                              Some m \<Rightarrow> consume (utf8_enc ((n - 0xD800) * 1024 + (m - 0xDC00) + 0x10000))
                                          (parse_chars (drop 6 r2))
                            | None \<Rightarrow> consume replacement (parse_chars r2))
                         else consume (utf8_enc n) (parse_chars r2))
                | _ \<Rightarrow> None)
             else (case escape e of None \<Rightarrow> None | Some k \<Rightarrow> consume [k] (parse_chars r1)))
      else if code_in 0 0x1F c then None
      else if code_in 0 0x7F c then consume [c] (parse_chars r)
      else (let n = utf8_len (c # r) in
        if n = 0 then consume replacement (parse_chars r)
        else consume (take n (c # r)) (parse_chars (drop (n - 1) r))))"

section \<open>Values\<close>

definition is_space :: "char \<Rightarrow> bool" where
  "is_space c = (c = CHR '' '' \<or> c = CHR 0x09 \<or> c = CHR 0x0A \<or> c = CHR 0x0D)"

abbreviation skip_ws :: "string \<Rightarrow> string" where
  "skip_ws \<equiv> dropWhile is_space"

fun parse_intpart :: "string \<Rightarrow> (string \<times> string) option" where
  "parse_intpart [] = None"
| "parse_intpart (c # r) =
     (if c = CHR ''0'' then Some ([c], r)
      else if is_digit c then Some (c # takeWhile is_digit r, dropWhile is_digit r)
      else None)"

fun parse_frac :: "string \<Rightarrow> (string \<times> string) option" where
  "parse_frac [] = Some ([], [])"
| "parse_frac (c # r) =
     (if c = CHR ''.'' then
        (if takeWhile is_digit r = [] then None
         else Some (c # takeWhile is_digit r, dropWhile is_digit r))
      else Some ([], c # r))"

fun parse_exp :: "string \<Rightarrow> (string \<times> string) option" where
  "parse_exp [] = Some ([], [])"
| "parse_exp (c # r) =
     (if c = CHR ''e'' \<or> c = CHR ''E'' then
        (let sign = takeWhile (\<lambda>x. x = CHR ''+'' \<or> x = CHR ''-'') (take 1 r);
             r' = drop (length sign) r
         in if takeWhile is_digit r' = [] then None
            else Some (c # sign @ takeWhile is_digit r', dropWhile is_digit r'))
      else Some ([], c # r))"

definition parse_number :: "string \<Rightarrow> (string \<times> string) option" where
  "parse_number s =
     (let (sign, s1) = (if take 1 s = ''-'' then (''-'', drop 1 s) else ([], s)) in
      case parse_intpart s1 of
        None \<Rightarrow> None
      | Some (i, s2) \<Rightarrow>
          (case parse_frac s2 of
             None \<Rightarrow> None
           | Some (f, s3) \<Rightarrow>
               (case parse_exp s3 of
                  None \<Rightarrow> None
                | Some (e, s4) \<Rightarrow> Some (sign @ i @ f @ e, s4))))"

definition expect :: "string \<Rightarrow> 'a \<Rightarrow> string \<Rightarrow> ('a \<times> string) option" where
  "expect w v s = (if take (length w) s = w then Some (v, drop (length w) s) else None)"

definition maxNestingDepth :: int where
  "maxNestingDepth = 10000"

fun parse_value :: "nat \<Rightarrow> int \<Rightarrow> string \<Rightarrow> (json \<times> string) option"
  and parse_elems :: "nat \<Rightarrow> int \<Rightarrow> string \<Rightarrow> (json list \<times> string) option"
  and parse_members :: "nat \<Rightarrow> int \<Rightarrow> string \<Rightarrow> ((string \<times> json) list \<times> string) option" where
  "parse_value 0 _ _ = None"
| "parse_value (Suc n) d s =
     (case skip_ws s of
        [] \<Rightarrow> None
      | c # r \<Rightarrow>
          if c = CHR ''{'' then
            (if maxNestingDepth \<le> d then None
             else (case skip_ws r of
                     [] \<Rightarrow> None
                   | c' # r' \<Rightarrow>
                       if c' = CHR ''}'' then Some (JObj [], r')
                       else map_option (apfst JObj) (parse_members n (d + 1) (c' # r'))))
          else if c = CHR ''['' then
            (if maxNestingDepth \<le> d then None
             else (case skip_ws r of
                     [] \<Rightarrow> None
                   | c' # r' \<Rightarrow>
                       if c' = CHR '']'' then Some (JArr [], r')
                       else map_option (apfst JArr) (parse_elems n (d + 1) (c' # r'))))
          else if c = CHR ''\"'' then map_option (apfst JStr) (parse_chars r)
          else if c = CHR ''t'' then expect ''true'' (JBool True) (c # r)
          else if c = CHR ''f'' then expect ''false'' (JBool False) (c # r)
          else if c = CHR ''n'' then expect ''null'' JNull (c # r)
          else map_option (apfst JNum) (parse_number (c # r)))"
| "parse_elems 0 _ _ = None"
| "parse_elems (Suc n) d s =
     (case parse_value n d s of
        None \<Rightarrow> None
      | Some (v, s1) \<Rightarrow>
          (case skip_ws s1 of
             [] \<Rightarrow> None
           | c # r \<Rightarrow>
               if c = CHR '']'' then Some ([v], r)
               else if c = CHR '','' then map_option (apfst (Cons v)) (parse_elems n d r)
               else None))"
| "parse_members 0 _ _ = None"
| "parse_members (Suc n) d s =
     (case skip_ws s of
        [] \<Rightarrow> None
      | q # r0 \<Rightarrow>
          if q \<noteq> CHR ''\"'' then None
          else case parse_chars r0 of
            None \<Rightarrow> None
          | Some (k, s1) \<Rightarrow>
              (case skip_ws s1 of
                 [] \<Rightarrow> None
               | c # r \<Rightarrow>
                   if c \<noteq> CHR '':'' then None
                   else case parse_value n d r of
                     None \<Rightarrow> None
                   | Some (v, s2) \<Rightarrow>
                       (case skip_ws s2 of
                          [] \<Rightarrow> None
                        | c' # r' \<Rightarrow>
                            if c' = CHR ''}'' then Some ([(k, v)], r')
                            else if c' = CHR '','' then map_option (apfst (Cons (k, v))) (parse_members n d r')
                            else None)))"

text \<open>A text holds exactly one value, with white space around it.\<close>

definition parse_json :: "string \<Rightarrow> json option" where
  "parse_json s =
     (case parse_value (2 * length s + 2) 0 s of
        Some (v, rest) \<Rightarrow> if skip_ws rest = [] then Some v else None
      | None \<Rightarrow> None)"


section \<open>Decoding into struct fields\<close>

text \<open>Field names are matched up to case: ASCII letters, and the two runes that fold to an ASCII
  letter (the Kelvin sign and the long s).\<close>

fun fold_name :: "string \<Rightarrow> string" where
  "fold_name [] = []"
| "fold_name (c # r) =
     (if code_in 0x61 0x7A c then chr (of_char c - 32) # fold_name r
      else if c = CHR 0xE2 \<and> take 2 r = [CHR 0x84, CHR 0xAA] then CHR ''K'' # fold_name (drop 2 r)
      else if c = CHR 0xC5 \<and> take 1 r = [CHR 0xBF] then CHR ''S'' # fold_name (drop 1 r)
      else c # fold_name r)"

definition is_field :: "string \<Rightarrow> string \<Rightarrow> bool" where
  "is_field name k = (fold_name k = fold_name name)"

text \<open>A decoder updates a target and says whether it saved an \<open>UnmarshalTypeError\<close>; decoding
  goes on after one, and \<open>Unmarshal\<close> reports it at the end.\<close>

type_synonym 'a decoder = "json \<Rightarrow> 'a \<Rightarrow> 'a \<times> bool"

fun dec_members :: "(string \<Rightarrow> 'a decoder) \<Rightarrow> (string \<times> json) list \<Rightarrow> 'a \<Rightarrow> 'a \<times> bool" where
  "dec_members f [] a = (a, False)"
| "dec_members f ((k, v) # ms) a =
     (let (a1, e1) = f k v a; (a2, e2) = dec_members f ms a1 in (a2, e1 \<or> e2))"

fun dec_struct :: "(string \<Rightarrow> 'a decoder) \<Rightarrow> 'a decoder" where
  "dec_struct f JNull a = (a, False)"
| "dec_struct f (JObj ms) a = dec_members f ms a"
| "dec_struct f _ a = (a, True)"

fun dec_string :: "string decoder" where
  "dec_string JNull a = (a, False)"
| "dec_string (JStr s) a = (s, False)"
| "dec_string _ a = (a, True)"

definition digits_val :: "string \<Rightarrow> int" where
  "digits_val = foldl (\<lambda>n c. n * 10 + (of_char c - 0x30)) 0"

definition parse_uint64 :: "string \<Rightarrow> u64 option" where
  "parse_uint64 l =
     (if l \<noteq> [] \<and> list_all is_digit l \<and> digits_val l < 2 ^ 64 then Some (of_int (digits_val l)) else None)"

definition parse_int64 :: "string \<Rightarrow> int option" where
  "parse_int64 l =
     (let neg = (take 1 l = ''-''); d = (if neg then drop 1 l else l) in
      if d \<noteq> [] \<and> list_all is_digit d \<and> digits_val d < (if neg then 2 ^ 63 + 1 else 2 ^ 63)
      then Some (if neg then - digits_val d else digits_val d) else None)"

text \<open>Targets of type \<open>*int\<close> and \<open>*uint64\<close>: null makes the pointer nil.\<close>

fun dec_int_ptr :: "int option decoder" where
  "dec_int_ptr JNull a = (None, False)"
| "dec_int_ptr (JNum l) a = (case parse_int64 l of Some n \<Rightarrow> (Some n, False) | None \<Rightarrow> (Some 0, True))"
| "dec_int_ptr _ a = (Some (case a of Some n \<Rightarrow> n | None \<Rightarrow> 0), True)"

fun dec_uint64_ptr :: "u64 option decoder" where
  "dec_uint64_ptr JNull a = (None, False)"
| "dec_uint64_ptr (JNum l) a = (case parse_uint64 l of Some n \<Rightarrow> (Some n, False) | None \<Rightarrow> (Some 0, True))"
| "dec_uint64_ptr _ a = (Some (case a of Some n \<Rightarrow> n | None \<Rightarrow> 0), True)"

text \<open>A target of type \<open>[]string\<close>: an array element that is null is the empty string.\<close>

fun dec_strings :: "string list decoder" where
  "dec_strings JNull a = ([], False)"
| "dec_strings (JArr vs) a = (let rs = map (\<lambda>v. dec_string v []) vs in (map fst rs, list_ex snd rs))"
| "dec_strings _ a = (a, True)"

text \<open>A \<open>json.RawMessage\<close> keeps the text of the value; the model keeps the value.\<close>

fun dec_raw :: "json option decoder" where
  "dec_raw v a = (Some v, False)"

text \<open>\<open>json.Unmarshal(text, \&target)\<close>: None when it reports an error.\<close>

definition unmarshal_value :: "'a decoder \<Rightarrow> 'a \<Rightarrow> json \<Rightarrow> 'a option" where
  "unmarshal_value d a v = (case d v a of (r, err) \<Rightarrow> if err then None else Some r)"

definition unmarshal :: "'a decoder \<Rightarrow> 'a \<Rightarrow> string \<Rightarrow> 'a option" where
  "unmarshal d a text = (case parse_json text of None \<Rightarrow> None | Some v \<Rightarrow> unmarshal_value d a v)"

section \<open>Response envelopes\<close>

record envelope =
  env_code :: "int option"
  env_data :: "json option"

definition dec_envelope :: "string \<Rightarrow> envelope decoder" where
  "dec_envelope k v e =
     (if is_field ''code'' k then (let (c, b) = dec_int_ptr v (env_code e) in (e\<lparr>env_code := c\<rparr>, b))
      else if is_field ''data'' k then (let (d, b) = dec_raw v (env_data e) in (e\<lparr>env_data := d\<rparr>, b))
      else (e, False))"

definition parseEnvelopeCode :: "string \<Rightarrow> int option" where
  "parseEnvelopeCode payload =
     (case unmarshal (dec_struct dec_envelope) \<lparr>env_code = None, env_data = None\<rparr> payload of
        None \<Rightarrow> None
      | Some e \<Rightarrow> env_code e)"

section \<open>Writing\<close>

definition digit_char :: "nat \<Rightarrow> char" where
  "digit_char d = chr (0x30 + int d)"

fun nat_str :: "nat \<Rightarrow> string" where
  "nat_str n = (if n < 10 then [digit_char n] else nat_str (n div 10) @ [digit_char (n mod 10)])"

declare nat_str.simps [simp del]

definition int_str :: "int \<Rightarrow> string" where
  "int_str i = (if i < 0 then CHR ''-'' # nat_str (nat (- i)) else nat_str (nat i))"

definition hex_digit :: "int \<Rightarrow> char" where
  "hex_digit d = (if d < 10 then chr (0x30 + d) else chr (0x61 + (d - 10)))"

definition u_escape :: "int \<Rightarrow> string" where
  "u_escape r = [CHR 0x5C, CHR ''u'', hex_digit (r div 4096 mod 16), hex_digit (r div 256 mod 16),
     hex_digit (r div 16 mod 16), hex_digit (r mod 16)]"

text \<open>\<open>appendString\<close> with HTML escaping: one ASCII character.\<close>

definition quote_char :: "char \<Rightarrow> string" where
  "quote_char c =
     (if c = CHR ''\"'' \<or> c = CHR 0x5C then [CHR 0x5C, c]
      else if c = CHR 0x08 then [CHR 0x5C, CHR ''b'']
      else if c = CHR 0x0C then [CHR 0x5C, CHR ''f'']
      else if c = CHR 0x0A then [CHR 0x5C, CHR ''n'']
      else if c = CHR 0x0D then [CHR 0x5C, CHR ''r'']
      else if c = CHR 0x09 then [CHR 0x5C, CHR ''t'']
      else if code_in 0 0x1F c \<or> c = CHR ''<'' \<or> c = CHR ''>'' \<or> c = CHR ''&'' then u_escape (of_char c)
      else [c])"

fun quote_chars :: "string \<Rightarrow> string" where
  "quote_chars [] = []"
| "quote_chars (c # r) =
     (if code_in 0 0x7F c then quote_char c @ quote_chars r
      else let n = utf8_len (c # r) in
        if n = 0 then u_escape 0xFFFD @ quote_chars r
        else if take n (c # r) = utf8_enc 0x2028 then u_escape 0x2028 @ quote_chars (drop (n - 1) r)
        else if take n (c # r) = utf8_enc 0x2029 then u_escape 0x2029 @ quote_chars (drop (n - 1) r)
        else take n (c # r) @ quote_chars (drop (n - 1) r))"

definition quote :: "string \<Rightarrow> string" where
  "quote s = CHR ''\"'' # quote_chars s @ ''\"''"

fun join :: "string \<Rightarrow> string list \<Rightarrow> string" where
  "join sep [] = []"
| "join sep [s] = s"
| "join sep (s # t # r) = s @ sep @ join sep (t # r)"

fun print_json :: "json \<Rightarrow> string" where
  "print_json JNull = ''null''"
| "print_json (JBool b) = (if b then ''true'' else ''false'')"
| "print_json (JNum l) = l"
| "print_json (JStr s) = quote s"
| "print_json (JArr vs) = ''['' @ join '','' (map print_json vs) @ '']''"
| "print_json (JObj ms) = ''{'' @ join '','' (map (\<lambda>(k, v). quote k @ '':'' @ print_json v) ms) @ ''}''"

end
