(* ===== verification/Json_Props.thy ===== *)
theory Json_Props
  imports Json
begin

text \<open>
  Writing and reading JSON: \<open>Unmarshal\<close>'s reader recovers every value \<open>Marshal\<close>'s writer prints,
  for values whose strings are ASCII and whose numbers are integers, up to the nesting limit.
\<close>

section \<open>String literals\<close>

abbreviation ascii :: "string \<Rightarrow> bool" where
  "ascii \<equiv> list_all (code_in 0 0x7F)"

lemma chr_of_char [simp]: "chr (of_char c) = c"
  by (simp add: chr_def)

lemma of_chr: "0 \<le> n \<Longrightarrow> n < 256 \<Longrightarrow> of_char (chr n) = n"
  by (simp add: chr_def of_char_of)

lemma hex_val_digit:
  assumes "0 \<le> d" "d < 16"
  shows "hex_val (hex_digit d) = Some d"
  using assms by (cases "d < 10") (simp_all add: hex_val_def hex_digit_def of_chr Let_def)

lemma hex4_u:
  assumes "0 \<le> r" "r < 65536"
  shows "hex4 (hex_digit (r div 4096 mod 16)) (hex_digit (r div 256 mod 16)) (hex_digit (r div 16 mod 16))
    (hex_digit (r mod 16)) = Some r"
proof -
  let ?a = "r div 16" and ?b = "r div 256" and ?c = "r div 4096"
  have "?b = ?a div 16" "?c = ?b div 16" using zdiv_zmult2_eq [of 16 r 16] zdiv_zmult2_eq [of 16 r 256]
    by simp_all
  then have "?c * 16 + ?b mod 16 = ?b" "?b * 16 + ?a mod 16 = ?a" "?a * 16 + r mod 16 = r"
    by simp_all
  moreover have "?c mod 16 = ?c" using assms by simp
  ultimately have "((?c mod 16 * 16 + ?b mod 16) * 16 + ?a mod 16) * 16 + r mod 16 = r"
    by (simp only:)
  moreover have "hex_val (hex_digit (x mod 16)) = Some (x mod 16)" for x
    by (intro hex_val_digit) simp_all
  ultimately show ?thesis by (simp only: hex4_def prod.case option.case)
qed

lemma parse_chars_u_escape:
  assumes "0 \<le> r" "r < 0xD800"
  shows "parse_chars (u_escape r @ rest) = consume (utf8_enc r) (parse_chars rest)"
  using assms hex4_u [of r] by (simp add: u_escape_def)

lemma parse_chars_escape:
  assumes "escape e = Some k" "e \<noteq> CHR ''u''"
  shows "parse_chars (CHR 0x5C # e # rest) = consume [k] (parse_chars rest)"
  using assms by simp

lemma parse_chars_plain:
  assumes "code_in 0 0x7F c" "\<not> code_in 0 0x1F c" "c \<noteq> CHR ''\"''" "c \<noteq> CHR 0x5C"
  shows "parse_chars (c # rest) = consume [c] (parse_chars rest)"
  using assms by simp

lemma parse_chars_quote_char:
  assumes "code_in 0 0x7F c"
  shows "parse_chars (quote_char c @ rest) = consume [c] (parse_chars rest)"
proof -
  have "utf8_enc (of_char c) = [c]" using assms by (simp add: utf8_enc_def code_in_def)
  then have u: "parse_chars (u_escape (of_char c) @ rest) = consume [c] (parse_chars rest)"
    using assms parse_chars_u_escape [of "of_char c" rest] by (simp add: code_in_def)
  show ?thesis
    unfolding quote_char_def
    by (simp add: u parse_chars_escape parse_chars_plain escape_def assms del: parse_chars.simps)
qed

lemma parse_chars_quote:
  "ascii s \<Longrightarrow> parse_chars (quote_chars s @ CHR ''\"'' # rest) = Some (s, rest)"
  by (induction s) (simp_all add: parse_chars_quote_char del: parse_chars.simps(2), simp)


section \<open>Numbers\<close>

text \<open>What may follow a value inside a document.\<close>

definition stop :: "string \<Rightarrow> bool" where
  "stop rest \<longleftrightarrow> rest = [] \<or> hd rest \<in> {CHR '','', CHR '']'', CHR ''}''}"

lemma stopE:
  assumes "stop rest"
  obtains "rest = []" | c r where "rest = c # r" "c = CHR '','' \<or> c = CHR '']'' \<or> c = CHR ''}''"
  using assms by (cases rest) (auto simp: stop_def)

lemma stop_Cons [simp]: "stop (CHR '','' # r)" "stop (CHR '']'' # r)" "stop (CHR ''}'' # r)"
  by (simp_all add: stop_def)

lemma of_digit_char: "d < 10 \<Longrightarrow> of_char (digit_char d) = 0x30 + int d"
  by (simp add: digit_char_def of_chr)

lemma digit_char_digit: "d < 10 \<Longrightarrow> is_digit (digit_char d)"
  by (simp add: is_digit_def code_in_def of_digit_char)

lemma digit_char_zero:
  assumes "d < 10"
  shows "digit_char d = CHR ''0'' \<longleftrightarrow> d = 0"
proof -
  have "digit_char d = CHR ''0'' \<longleftrightarrow> (of_char (digit_char d) :: int) = of_char (CHR ''0'')"
    by (simp only: of_char_eq_iff)
  then show ?thesis using assms by (simp add: of_digit_char)
qed

lemma nat_str_digits: "list_all is_digit (nat_str n)"
  by (induction n rule: nat_str.induct) (subst nat_str.simps, simp add: digit_char_digit)

lemma nat_str_shape: "nat_str n = ''0'' \<or> (\<exists>c r. nat_str n = c # r \<and> c \<noteq> CHR ''0'')"
proof (induction n rule: nat_str.induct)
  case (1 n)
  show ?case
  proof (cases "n < 10")
    case True
    then show ?thesis
      using digit_char_zero [of n] by (subst (1 2) nat_str.simps) auto
  next
    case False
    have "nat_str (n div 10) \<noteq> ''0''"
    proof
      assume "nat_str (n div 10) = ''0''"
      then have "n div 10 < 10 \<and> digit_char (n div 10) = CHR ''0''"
        by (subst (asm) nat_str.simps) (auto split: if_splits simp: nat_str.simps)
      with False show False by (auto simp: digit_char_zero)
    qed
    with 1 [OF False] False show ?thesis by (subst (2) nat_str.simps, subst (1) nat_str.simps) auto
  qed
qed

lemma is_digit_stop: "stop rest \<Longrightarrow> takeWhile is_digit rest = [] \<and> dropWhile is_digit rest = rest"
  by (erule stopE) (auto simp: is_digit_def code_in_def)

lemma parse_intpart_nat_str:
  assumes "stop rest"
  shows "parse_intpart (nat_str n @ rest) = Some (nat_str n, rest)"
proof -
  consider "nat_str n = ''0''" | c r where "nat_str n = c # r" "c \<noteq> CHR ''0''"
    using nat_str_shape by blast
  then show ?thesis
  proof cases
    case 2
    then have "is_digit c" "list_all is_digit r" using nat_str_digits [of n] by simp_all
    then have "takeWhile is_digit (r @ rest) = r" "dropWhile is_digit (r @ rest) = rest"
      using is_digit_stop [OF assms]
      by (simp_all add: list_all_iff takeWhile_append dropWhile_append)
    with 2 \<open>is_digit c\<close> show ?thesis by simp
  qed simp
qed

lemma parse_tail_stop: "stop rest \<Longrightarrow> parse_frac rest = Some ([], rest) \<and> parse_exp rest = Some ([], rest)"
  by (erule stopE) auto

lemma parse_number_int_str:
  assumes "stop rest"
  shows "parse_number (int_str i @ rest) = Some (int_str i, rest)"
proof (cases "i < 0")
  case True
  then show ?thesis
    using assms by (simp add: parse_number_def int_str_def parse_intpart_nat_str parse_tail_stop)
next
  case False
  have "take 1 (nat_str m @ rest) \<noteq> ''-''" for m
    using nat_str_digits [of m] nat_str_shape [of m] by (auto simp: is_digit_def code_in_def)
  with False assms show ?thesis
    by (simp add: parse_number_def int_str_def parse_intpart_nat_str parse_tail_stop)
qed

lemma int_str_start:
  obtains c r where "int_str i = c # r" "c = CHR ''-'' \<or> is_digit c"
proof -
  have "\<exists>c r. nat_str m = c # r \<and> is_digit c" for m
    using nat_str_digits [of m] nat_str_shape [of m] by auto
  then show ?thesis using that by (cases "i < 0") (auto simp: int_str_def)
qed


section \<open>Documents\<close>

text \<open>The values covered: integer numbers and ASCII strings and keys.\<close>

fun plain :: "json \<Rightarrow> bool" where
  "plain (JNum l) = (\<exists>i. l = int_str i)"
| "plain (JStr s) = ascii s"
| "plain (JArr vs) = list_all plain vs"
| "plain (JObj ms) = list_all (\<lambda>(k, v). ascii k \<and> plain v) ms"
| "plain _ = True"

fun json_depth :: "json \<Rightarrow> int" where
  "json_depth (JArr vs) = 1 + foldr (\<lambda>v m. max (json_depth v) m) vs 0"
| "json_depth (JObj ms) = 1 + foldr (\<lambda>(k, v) m. max (json_depth v) m) ms 0"
| "json_depth _ = 0"

text \<open>Fuel the parser needs for a printed value.\<close>

fun need :: "json \<Rightarrow> nat" where
  "need (JArr vs) = 1 + foldr (\<lambda>v m. Suc (max (need v) m)) vs 0"
| "need (JObj ms) = 1 + foldr (\<lambda>(k, v) m. Suc (max (need v) m)) ms 0"
| "need JNull = 1"
| "need (JBool b) = 1"
| "need (JNum l) = 1"
| "need (JStr s) = 1"

lemma quote_length: "2 \<le> length (quote s)"
  by (simp add: quote_def)

lemma join_Cons_length: "length s + length (join sep ss) \<le> length (join sep (s # ss))"
  by (cases ss) auto

lemma join_Cons: "ss \<noteq> [] \<Longrightarrow> join sep (s # ss) = s @ sep @ join sep ss"
  by (cases ss) auto

lemma need_elems_le:
  assumes "\<And>x. x \<in> set xs \<Longrightarrow> f x + 1 \<le> 2 * length (pr x)"
  shows "foldr (\<lambda>x m. Suc (max (f x) m)) xs 0 \<le> 2 * length (join '','' (map pr xs))"
  using assms
proof (induction xs)
  case (Cons x xs)
  have x: "f x + 1 \<le> 2 * length (pr x)" using Cons.prems by simp
  have ih: "foldr (\<lambda>x m. Suc (max (f x) m)) xs 0 \<le> 2 * length (join '','' (map pr xs))"
    using Cons.prems by (intro Cons.IH) simp
  show ?case using x ih by (cases xs) (auto simp: max_def)
qed simp

lemma need_le: "plain v \<Longrightarrow> need v + 1 \<le> 2 * length (print_json v)"
proof (induction v rule: need.induct)
  case (1 vs)
  then have "foldr (\<lambda>v m. Suc (max (need v) m)) vs 0 \<le> 2 * length (join '','' (map print_json vs))"
    by (intro need_elems_le) (auto simp: list_all_iff)
  then show ?case by simp
next
  case (2 ms)
  have "foldr (\<lambda>x m. Suc (max (need (snd x)) m)) ms 0 \<le>
      2 * length (join '','' (map (\<lambda>(k, v). quote k @ '':'' @ print_json v) ms))"
  proof (rule need_elems_le)
    fix x
    assume x: "x \<in> set ms"
    obtain k v where kv: "x = (k, v)" by force
    have "plain v" using 2(2) x kv by (auto simp: list_all_iff)
    with 2(1) [OF x] kv have "need (snd x) + 1 \<le> 2 * length (print_json (snd x))" by simp
    then show "need (snd x) + 1 \<le> 2 * length ((\<lambda>(k, v). quote k @ '':'' @ print_json v) x)"
      by (cases x) simp
  qed
  then show ?case by (simp add: case_prod_unfold)
next
  case (5 l)
  then obtain i where i: "l = int_str i" by auto
  obtain c r where "int_str i = c # r" by (rule int_str_start)
  with i show ?case by simp
qed (auto simp: quote_def)


lemma skip_ws_id: "\<not> is_space c \<Longrightarrow> skip_ws (c # r) = c # r"
  by simp

lemma quote_parse:
  "ascii k \<Longrightarrow> parse_chars (quote_chars k @ CHR ''\"'' # rest) = Some (k, rest)"
  by (rule parse_chars_quote)

text \<open>Printing a non-empty list of elements, or of members, and reading it back.\<close>

lemma parse_elems_print:
  assumes "\<And>v m r. v \<in> set vs \<Longrightarrow> need v \<le> m \<Longrightarrow> stop r \<Longrightarrow>
      parse_value m d (print_json v @ r) = Some (v, r)"
    and "vs \<noteq> []" "foldr (\<lambda>v m. Suc (max (need v) m)) vs 0 \<le> n"
  shows "parse_elems n d (join '','' (map print_json vs) @ CHR '']'' # rest) = Some (vs, rest)"
  using assms
proof (induction vs arbitrary: n)
  case (Cons v vs)
  from Cons.prems(3) obtain k where n: "n = Suc k" and k: "need v \<le> k"
      "foldr (\<lambda>v m. Suc (max (need v) m)) vs 0 \<le> k" by (cases n) auto
  show ?case
  proof (cases "vs = []")
    case True
    then show ?thesis using Cons.prems(1) [of v k "CHR '']'' # rest"] k
      by (simp add: n is_space_def)
  next
    case False
    let ?t = "join '','' (map print_json vs) @ CHR '']'' # rest"
    have "parse_value k d (print_json v @ CHR '','' # ?t) = Some (v, CHR '','' # ?t)"
      using Cons.prems(1) k by simp
    moreover have "parse_elems k d ?t = Some (vs, rest)"
      using Cons.prems(1) False k(2) by (intro Cons.IH) auto
    ultimately show ?thesis using False by (simp add: n is_space_def join_Cons)
  qed
qed simp

lemma parse_members_print:
  assumes "\<And>k v m r. (k, v) \<in> set ms \<Longrightarrow> need v \<le> m \<Longrightarrow> stop r \<Longrightarrow>
      parse_value m d (print_json v @ r) = Some (v, r)"
    and "\<And>k v. (k, v) \<in> set ms \<Longrightarrow> ascii k"
    and "ms \<noteq> []" "foldr (\<lambda>x m. Suc (max (need (snd x)) m)) ms 0 \<le> n"
  shows "parse_members n d (join '','' (map (\<lambda>(k, v). quote k @ '':'' @ print_json v) ms) @ CHR ''}'' # rest) =
    Some (ms, rest)"
  using assms
proof (induction ms arbitrary: n)
  case (Cons x ms)
  obtain k v where x: "x = (k, v)" by force
  from Cons.prems(4) obtain j where n: "n = Suc j" and j: "need v \<le> j"
      "foldr (\<lambda>x m. Suc (max (need (snd x)) m)) ms 0 \<le> j" by (cases n) (auto simp: x)
  have k: "parse_chars (quote_chars k @ CHR ''\"'' # r) = Some (k, r)" for r
    using Cons.prems(2) by (intro parse_chars_quote) (auto simp: x)
  let ?pr = "\<lambda>(k, v). quote k @ '':'' @ print_json v"
  show ?case
  proof (cases "ms = []")
    case True
    then show ?thesis using Cons.prems(1) [of k v j "CHR ''}'' # rest"] j k
      by (simp add: n x is_space_def quote_def)
  next
    case False
    let ?t = "join '','' (map ?pr ms) @ CHR ''}'' # rest"
    have "parse_value j d (print_json v @ CHR '','' # ?t) = Some (v, CHR '','' # ?t)"
      using j by (intro Cons.prems(1) [of k]) (auto simp: x)
    moreover have "parse_members j d ?t = Some (ms, rest)"
    proof (rule Cons.IH [OF _ _ False j(2)])
      show "ascii k" if "(k, v) \<in> set ms" for k v using Cons.prems(2) [of k v] that by simp
      show "parse_value m d (print_json v @ r) = Some (v, r)"
        if "(k, v) \<in> set ms" "need v \<le> m" "stop r" for k v m r
        using Cons.prems(1) [of k v m r] that by simp
    qed
    ultimately show ?thesis using False k by (simp add: n x is_space_def quote_def join_Cons)
  qed
qed simp

lemma depth_elem:
  "v \<in> set vs \<Longrightarrow> json_depth v \<le> foldr (\<lambda>v m. max (json_depth v) m) vs 0"
  by (induction vs) auto

lemma depth_member:
  "(k, v) \<in> set ms \<Longrightarrow> json_depth v \<le> foldr (\<lambda>(k, v) m. max (json_depth v) m) ms 0"
  by (induction ms) auto

lemma join_start:
  assumes "xs \<noteq> []" "pr (hd xs) = c # r"
  obtains r' where "join '','' (map pr xs) = c # r'"
  using assms by (cases xs rule: remdups_adj.cases) auto


lemma is_digit_other:
  assumes "is_digit c"
  shows "c \<noteq> CHR '']''" "c \<noteq> CHR ''{''" "c \<noteq> CHR ''[''" "c \<noteq> CHR ''\"''" "c \<noteq> CHR ''t''"
    "c \<noteq> CHR ''f''" "c \<noteq> CHR ''n''" "\<not> is_space c"
  using assms by (auto simp: is_digit_def code_in_def is_space_def)

lemma print_start:
  assumes "plain v"
  obtains c r where "print_json v = c # r" "c \<noteq> CHR '']''" "\<not> is_space c"
proof (cases v)
  case (JNum l)
  then obtain i where "l = int_str i" using assms by auto
  moreover obtain c r where "int_str i = c # r" "c = CHR ''-'' \<or> is_digit c" by (rule int_str_start)
  ultimately show ?thesis using that [of c r] JNum
    by (auto simp: is_digit_other) (simp_all add: is_space_def)
next
  case (JBool b)
  then show ?thesis using that by (cases b) (auto simp: is_space_def)
qed (use that in \<open>auto simp: is_space_def quote_def\<close>)

lemma parse_number_start:
  assumes "c = CHR ''-'' \<or> is_digit c"
  shows "parse_value (Suc n) d (c # r) = map_option (apfst JNum) (parse_number (c # r))"
  using assms
proof
  assume "is_digit c"
  then show ?thesis by (simp add: is_digit_other)
qed (simp add: is_space_def)

lemma depth_nonneg: "0 \<le> foldr (\<lambda>v m. max (json_depth v) m) vs 0"
  "0 \<le> foldr (\<lambda>(k, v) m. max (json_depth v) m) ms 0"
  by (induction vs; auto) (induction ms; auto)

lemma parse_value_print:
  "plain v \<Longrightarrow> need v \<le> n \<Longrightarrow> d + json_depth v \<le> maxNestingDepth \<Longrightarrow> stop rest \<Longrightarrow>
     parse_value n d (print_json v @ rest) = Some (v, rest)"
proof (induction v arbitrary: n d rest rule: need.induct)
  case (1 vs)
  obtain k where n: "n = Suc k" and k: "foldr (\<lambda>v m. Suc (max (need v) m)) vs 0 \<le> k"
    using 1(3) by (cases n) auto
  have d: "d < maxNestingDepth"
    using 1(4) depth_nonneg(1) [of vs] by simp
  show ?case
  proof (cases "vs = []")
    case True
    then show ?thesis using d by (simp add: n is_space_def)
  next
    case False
    then have "plain (hd vs)" using 1(2) by (cases vs) auto
    then obtain c r where c: "print_json (hd vs) = c # r" "c \<noteq> CHR '']''" "\<not> is_space c"
      by (rule print_start)
    obtain r' where r': "join '','' (map print_json vs) = c # r'"
      using False c(1) by (rule join_start)
    have "parse_elems k (d + 1) (join '','' (map print_json vs) @ CHR '']'' # rest) = Some (vs, rest)"
    proof (rule parse_elems_print [OF _ False k])
      fix v m r
      assume v: "v \<in> set vs" "need v \<le> m" "stop r"
      have "plain v" using 1(2) v(1) by (auto simp: list_all_iff)
      moreover have "d + 1 + json_depth v \<le> maxNestingDepth"
        using 1(4) depth_elem [OF v(1)] by simp
      ultimately show "parse_value m (d + 1) (print_json v @ r) = Some (v, r)"
        using 1(1) [OF v(1)] v by simp
    qed
    then show ?thesis using d c r' by (simp add: n is_space_def)
  qed
next
  case (2 ms)
  obtain k where n: "n = Suc k" and k: "foldr (\<lambda>x m. Suc (max (need (snd x)) m)) ms 0 \<le> k"
    using 2(3) by (cases n) (auto simp: case_prod_unfold)
  have d: "d < maxNestingDepth"
    using 2(4) depth_nonneg(2) [of ms] by simp
  let ?pr = "\<lambda>(k, v). quote k @ '':'' @ print_json v"
  show ?case
  proof (cases "ms = []")
    case True
    then show ?thesis using d by (simp add: n is_space_def)
  next
    case False
    obtain r where "?pr (hd ms) = CHR ''\"'' # r" by (cases "hd ms") (simp add: quote_def)
    with False obtain r' where r': "join '','' (map ?pr ms) = CHR ''\"'' # r'" by (rule join_start)
    have "parse_members k (d + 1) (join '','' (map ?pr ms) @ CHR ''}'' # rest) = Some (ms, rest)"
    proof (rule parse_members_print [OF _ _ False k])
      fix key v m r
      assume v: "(key, v) \<in> set ms" "need v \<le> m" "stop r"
      have "plain v" using 2(2) v(1) by (auto simp: list_all_iff)
      moreover have "d + 1 + json_depth v \<le> maxNestingDepth"
        using 2(4) depth_member [OF v(1)] by simp
      ultimately show "parse_value m (d + 1) (print_json v @ r) = Some (v, r)"
        using 2(1) [OF v(1) refl] v by simp
    qed (use 2(2) in \<open>auto simp: list_all_iff\<close>)
    then show ?thesis using d r' by (simp add: n is_space_def)
  qed
next
  case (5 l)
  then obtain i where i: "l = int_str i" by auto
  obtain c r where c: "int_str i = c # r" "c = CHR ''-'' \<or> is_digit c" by (rule int_str_start)
  obtain k where "n = Suc k" using 5(2) by (cases n) auto
  then show ?case
    using c parse_number_start [of c k d "r @ rest"] parse_number_int_str [OF 5(4), of i]
    by (simp add: i del: parse_value.simps)
next
  case (6 s)
  then obtain k where "n = Suc k" by (cases n) auto
  with 6 show ?case by (simp add: quote_def is_space_def parse_chars_quote)
next
  case 3
  then obtain k where "n = Suc k" by (cases n) auto
  then show ?case by (simp add: is_space_def expect_def)
next
  case (4 b)
  then obtain k where "n = Suc k" by (cases n) auto
  then show ?case by (simp add: is_space_def expect_def)
qed

text \<open>A document \<open>Marshal\<close> printed is read back by \<open>Unmarshal\<close> as the same value.\<close>

lemma parse_print_json:
  assumes "plain v" "json_depth v \<le> maxNestingDepth"
  shows "parse_json (print_json v) = Some v"
proof -
  have "parse_value (2 * length (print_json v) + 2) 0 (print_json v @ []) = Some (v, [])"
    using assms need_le [OF assms(1)] by (intro parse_value_print) (auto simp: stop_def)
  then show ?thesis by (simp add: parse_json_def del: parse_value.simps)
qed

section \<open>Numbers\<close>

lemma ascii_nat_str: "ascii (nat_str n)"
  using nat_str_digits [of n] by (auto simp: list_all_iff is_digit_def code_in_def)

lemma ascii_int_str: "ascii (int_str i)"
  using ascii_nat_str by (simp add: int_str_def code_in_def)

lemma digits_val_snoc: "digits_val (s @ [c]) = digits_val s * 10 + (of_char c - 0x30)"
  by (simp add: digits_val_def)

lemma digits_val_nat_str: "digits_val (nat_str n) = int n"
proof (induction n rule: nat_str.induct)
  case (1 n)
  have "digits_val [digit_char d] = int d" if "d < 10" for d
    using that by (simp add: digits_val_def of_digit_char)
  moreover have "int (n div 10) * 10 + int (n mod 10) = int n" by presburger
  ultimately show ?case
    using 1 by (subst nat_str.simps) (simp add: digits_val_snoc of_digit_char)
qed

lemma parse_uint64_nat_str: "parse_uint64 (nat_str (unat n)) = Some n"
proof -
  have "nat_str (unat n) \<noteq> []" by (subst nat_str.simps) simp
  moreover have "int (unat n) < 2 ^ 64" using unsigned_less [of n] by simp
  ultimately show ?thesis
    by (simp add: parse_uint64_def digits_val_nat_str nat_str_digits)
qed

lemma nat_str_length: "0 < k \<Longrightarrow> n < 10 ^ k \<Longrightarrow> length (nat_str n) \<le> k"
proof (induction k arbitrary: n)
  case (Suc k)
  show ?case
  proof (cases "n < 10")
    case False
    then have "0 < k" using Suc.prems by (cases k) auto
    then have "length (nat_str (n div 10)) \<le> k" using Suc by (intro Suc.IH) auto
    then show ?thesis using False by (subst nat_str.simps) simp
  qed (subst nat_str.simps, simp)
qed simp

end
