(* ===== verification/NetAddr.thy ===== *)
theory NetAddr
  imports Json_Props
begin

text \<open>
  IP addresses of \<open>net\<close> and \<open>net/netip\<close> as far as the sources use them: \<open>netip.ParseAddr\<close> with
  its IPv4 and IPv6 grammars, the dotted decimal form, \<open>net.ParseIP\<close> and \<open>net.IP.To4\<close>.
\<close>

datatype addr = Addr4 ip4 | Addr6 bytes string

fun Is4 :: "addr \<Rightarrow> bool" where
  "Is4 (Addr4 _) = True"
| "Is4 (Addr6 _ _) = False"

section \<open>IPv4\<close>

text \<open>\<open>parseIPv4Fields\<close>: \<open>dot\<close> holds at the start and after a dot; \<open>dl\<close> and \<open>v\<close> are the number of
  digits and the value of the field being read.\<close>

fun v4_fields :: "string \<Rightarrow> bool \<Rightarrow> nat \<Rightarrow> int \<Rightarrow> bytes \<Rightarrow> bytes option" where
  "v4_fields [] dot dl v fs = (if length fs < 3 then None else Some (fs @ [of_int v]))"
| "v4_fields (c # r) dot dl v fs =
     (if is_digit c then
        (if dl = 1 \<and> v = 0 then None
         else let v' = v * 10 + (of_char c - 0x30) in
           if v' > 255 then None else v4_fields r False (Suc dl) v' fs)
      else if c = CHR ''.'' then
        (if dot \<or> r = [] then None
         else if length fs = 3 then None
         else v4_fields r True 0 0 (fs @ [of_int v]))
      else None)"

definition parse_v4 :: "string \<Rightarrow> ip4 option" where
  "parse_v4 s =
     (case v4_fields s True 0 0 [] of
        Some [a, b, c, d] \<Rightarrow> Some (a, b, c, d)
      | _ \<Rightarrow> None)"

definition byte_str :: "byte \<Rightarrow> string" where
  "byte_str b = nat_str (unat b)"

text \<open>\<open>netip.Addr.String\<close> of an IPv4 address, also written \<open>addrString\<close>, \<open>dstString\<close>,
  \<open>srcString\<close> in the sources.\<close>

definition ip4_str :: "ip4 \<Rightarrow> string" where
  "ip4_str a = (case a of (a0, a1, a2, a3) \<Rightarrow>
     byte_str a0 @ ''.'' @ byte_str a1 @ ''.'' @ byte_str a2 @ ''.'' @ byte_str a3)"

section \<open>IPv6\<close>

text \<open>One group: its hexadecimal digits (at most four) and the rest.\<close>

fun hex_group :: "string \<Rightarrow> nat \<Rightarrow> int \<Rightarrow> (nat \<times> int \<times> string) option" where
  "hex_group [] off acc = Some (off, acc, [])"
| "hex_group (c # r) off acc =
     (case hex_val c of
        None \<Rightarrow> Some (off, acc, c # r)
      | Some d \<Rightarrow> if off > 3 then None else hex_group r (Suc off) (acc * 16 + d))"

text \<open>The loop of \<open>parseIPv6\<close>: \<open>ip\<close> are the bytes read so far (\<open>i\<close> of them), \<open>ell\<close> where the
  ellipsis was. The result is the bytes, the ellipsis and the unread text. Every round adds a
  group, so eight rounds are enough.\<close>

fun v6_loop :: "nat \<Rightarrow> string \<Rightarrow> bytes \<Rightarrow> nat option \<Rightarrow> (bytes \<times> nat option \<times> string) option" where
  "v6_loop 0 s ip ell = Some (ip, ell, s)"
| "v6_loop (Suc n) s ip ell =
     (case hex_group s 0 0 of
        None \<Rightarrow> None
      | Some (off, acc, r) \<Rightarrow>
          if off = 0 then None
          else if r \<noteq> [] \<and> hd r = CHR ''.'' then
            (if ell = None \<and> length ip \<noteq> 12 then None
             else if length ip + 4 > 16 then None
             else case v4_fields s True 0 0 [] of
               None \<Rightarrow> None
             | Some fs \<Rightarrow> Some (ip @ fs, ell, []))
          else
            (let ip' = ip @ [of_int (acc div 256), of_int (acc mod 256)] in
             case r of
               [] \<Rightarrow> Some (ip', ell, [])
             | c # r1 \<Rightarrow>
                 if c \<noteq> CHR '':'' then None
                 else case r1 of
                   [] \<Rightarrow> None
                 | c1 # r2 \<Rightarrow>
                     if c1 = CHR '':'' then
                       (if ell \<noteq> None then None
                        else if r2 = [] then Some (ip', Some (length ip'), [])
                        else v6_loop n r2 ip' (Some (length ip')))
                     else v6_loop n r1 ip' ell))"

definition parse_v6 :: "string \<Rightarrow> addr option" where
  "parse_v6 text =
     (let s0 = takeWhile (\<lambda>c. c \<noteq> CHR ''%'') text;
          zoned = (length s0 < length text);
          zone = drop (Suc (length s0)) text
      in if zoned \<and> zone = [] then None
         else
           let lead = (take 2 s0 = ''::'');
               s = (if lead then drop 2 s0 else s0)
           in if lead \<and> s = [] then Some (Addr6 (replicate 16 0) zone)
              else case v6_loop 8 s [] (if lead then Some 0 else None) of
                None \<Rightarrow> None
              | Some (ip, ell, rest) \<Rightarrow>
                  if rest \<noteq> [] then None
                  else if length ip < 16 then
                    (case ell of
                       None \<Rightarrow> None
                     | Some e \<Rightarrow> Some (Addr6 (take e ip @ replicate (16 - length ip) 0 @ drop e ip) zone))
                  else if ell \<noteq> None then None
                  else Some (Addr6 ip zone))"

fun first_delim :: "string \<Rightarrow> char option" where
  "first_delim [] = None"
| "first_delim (c # r) =
     (if c = CHR ''.'' \<or> c = CHR '':'' \<or> c = CHR ''%'' then Some c else first_delim r)"

definition ParseAddr :: "string \<Rightarrow> addr option" where
  "ParseAddr s =
     (case first_delim s of
        Some d \<Rightarrow>
          if d = CHR ''.'' then map_option Addr4 (parse_v4 s)
          else if d = CHR '':'' then parse_v6 s
          else None
      | None \<Rightarrow> None)"

text \<open>\<open>net.ParseIP\<close> (no zone allowed; an IPv4 address is kept in its 16-byte form) and
  \<open>net.IP.To4\<close>.\<close>

definition v4_mapped :: "ip4 \<Rightarrow> bytes" where
  "v4_mapped a = replicate 10 0 @ [255, 255] @ ip4_bytes a"

definition ParseIP :: "string \<Rightarrow> bytes option" where
  "ParseIP s =
     (case ParseAddr s of
        Some (Addr4 a) \<Rightarrow> Some (v4_mapped a)
      | Some (Addr6 b z) \<Rightarrow> if z = [] then Some b else None
      | None \<Rightarrow> None)"

definition To4 :: "bytes \<Rightarrow> ip4 option" where
  "To4 ip =
     (if length ip = 4 then Some (get4 ip 0)
      else if length ip = 16 \<and> take 12 ip = replicate 10 0 @ [255, 255] then Some (get4 ip 12)
      else None)"

section \<open>Prefixes\<close>

definition ip4_u32 :: "ip4 \<Rightarrow> u32" where
  "ip4_u32 a = (case a of (a0, a1, a2, a3) \<Rightarrow>
     push_bit 24 (ucast a0) OR push_bit 16 (ucast a1) OR push_bit 8 (ucast a2) OR ucast a3)"

definition u32_ip4 :: "u32 \<Rightarrow> ip4" where
  "u32_ip4 w = (ucast (drop_bit 24 w), ucast (drop_bit 16 w), ucast (drop_bit 8 w), ucast w)"

record prefix4 =
  pf_addr :: ip4
  pf_bits :: nat

text \<open>\<open>netip.Prefix.Contains\<close> and \<open>Masked\<close> for IPv4.\<close>

definition Contains :: "prefix4 \<Rightarrow> ip4 \<Rightarrow> bool" where
  "Contains p a = (drop_bit (32 - pf_bits p) (ip4_u32 a XOR ip4_u32 (pf_addr p)) = 0)"

definition Masked :: "prefix4 \<Rightarrow> prefix4" where
  "Masked p = p\<lparr>pf_addr := u32_ip4 (push_bit (32 - pf_bits p) (drop_bit (32 - pf_bits p) (ip4_u32 (pf_addr p))))\<rparr>"

definition all_digits :: "string \<Rightarrow> bool" where
  "all_digits s \<longleftrightarrow> s \<noteq> [] \<and> list_all is_digit s"

text \<open>\<open>netip.ParsePrefix\<close>, reduced to IPv4 results: an IPv6 prefix is refused by the callers.\<close>

definition ParsePrefix4 :: "string \<Rightarrow> prefix4 option" where
  "ParsePrefix4 s =
     (let bits = rev (takeWhile (\<lambda>c. c \<noteq> CHR ''/'') (rev s));
          host = take (length s - length bits - 1) s
      in if CHR ''/'' \<notin> set s then None
         else case ParseAddr host of
           Some (Addr4 a) \<Rightarrow>
             if length bits > 1 \<and> hd bits = CHR ''0'' then None
             else if \<not> all_digits bits \<or> digits_val bits > 32 then None
             else Some \<lparr>pf_addr = a, pf_bits = nat (digits_val bits)\<rparr>
         | _ \<Rightarrow> None)"

section \<open>Host and port\<close>

text \<open>\<open>strconv.Atoi\<close>\<close>

definition Atoi :: "string \<Rightarrow> int option" where
  "Atoi s =
     (let neg = (take 1 s = ''-''); signed = (neg \<or> take 1 s = ''+'');
          d = (if signed then drop 1 s else s)
      in if \<not> all_digits d \<or> (if neg then 2 ^ 63 else 2 ^ 63 - 1) < digits_val d then None
         else Some (if neg then - digits_val d else digits_val d))"

definition JoinHostPort :: "string \<Rightarrow> string \<Rightarrow> string" where
  "JoinHostPort host port =
     (if CHR '':'' \<in> set host then ''['' @ host @ '']:'' @ port else host @ '':'' @ port)"

definition SplitHostPort :: "string \<Rightarrow> (string \<times> string) option" where
  "SplitHostPort hp =
     (let port = rev (takeWhile (\<lambda>c. c \<noteq> CHR '':'') (rev hp)); i = length hp - length port - 1 in
      if CHR '':'' \<notin> set hp then None
      else if hd hp = CHR ''['' then
        (let e = length (takeWhile (\<lambda>c. c \<noteq> CHR '']'') hp) in
         if CHR '']'' \<notin> set hp \<or> e + 1 \<noteq> i then None
         else if CHR ''['' \<in> set (drop 1 hp) \<or> CHR '']'' \<in> set (drop (e + 1) hp) then None
         else Some (take (e - 1) (drop 1 hp), port))
      else
        (let host = take i hp in
         if CHR '':'' \<in> set host then None
         else if CHR ''['' \<in> set hp \<or> CHR '']'' \<in> set hp then None
         else Some (host, port)))"

definition host_char :: "char \<Rightarrow> bool" where
  "host_char c \<longleftrightarrow> code_in 0x61 0x7A c \<or> code_in 0x41 0x5A c \<or> is_digit c \<or> c = CHR ''.'' \<or> c = CHR ''-''"

definition ValidHostPort :: "string \<Rightarrow> bool" where
  "ValidHostPort addr =
     (case SplitHostPort addr of
        None \<Rightarrow> False
      | Some (host, portText) \<Rightarrow>
          if host = [] then False
          else case Atoi portText of
            None \<Rightarrow> False
          | Some port \<Rightarrow>
              if port < 1 \<or> port > 65535 then False
              else if ParseIP host \<noteq> None then True
              else list_all host_char host)"

text \<open>\<open>netip.Addr.String\<close> of an IPv6 address: the leftmost longest run of at least two zero
  groups is written \<open>::\<close>.\<close>

fun groups16 :: "bytes \<Rightarrow> int list" where
  "groups16 (a # b # r) = (uint a * 256 + uint b) # groups16 r"
| "groups16 _ = []"

definition zero_run :: "int list \<Rightarrow> nat \<Rightarrow> nat" where
  "zero_run gs i = length (takeWhile (\<lambda>g. g = 0) (drop i gs))"

definition best_run :: "int list \<Rightarrow> nat \<times> nat" where
  "best_run gs = foldl (\<lambda>(s, l) i. if 2 \<le> zero_run gs i \<and> l < zero_run gs i then (i, zero_run gs i) else (s, l))
     (0, 0) [0..<8]"

fun hex_str :: "nat \<Rightarrow> int \<Rightarrow> string" where
  "hex_str 0 n = []"
| "hex_str (Suc k) n = (if n < 16 then [hex_digit n] else hex_str k (n div 16) @ [hex_digit (n mod 16)])"

definition ip6_str :: "bytes \<Rightarrow> string \<Rightarrow> string" where
  "ip6_str b zone =
     (let gs = groups16 b; (s, l) = best_run gs; hx = map (hex_str 4) gs;
          body = (case To4 b of
             Some a \<Rightarrow> ''::ffff:'' @ ip4_str a
           | None \<Rightarrow>
               if l = 0 then join '':'' hx
               else join '':'' (take s hx) @ ''::'' @ join '':'' (drop (s + l) hx))
      in if zone = [] then body else body @ ''%'' @ zone)"

fun addr_str :: "addr \<Rightarrow> string" where
  "addr_str (Addr4 a) = ip4_str a"
| "addr_str (Addr6 b z) = ip6_str b z"

section \<open>Printing and parsing\<close>

lemma To4_mapped [simp]: "To4 (v4_mapped a) = Some a"
  by (cases a) (simp add: To4_def v4_mapped_def ip4_bytes_def get4_def nth_append)

text \<open>Reading a decimal number below 256 written without leading zeros.\<close>

lemma int_div_mod10: "int (n div 10) * 10 + int (n mod 10) = int n"
  by (metis div_mult_mod_eq of_nat_add of_nat_mult of_nat_numeral)

lemma v4_fields_nat_str:
  "n < 256 \<Longrightarrow> v4_fields (nat_str n @ r) True 0 0 fs = v4_fields r False (length (nat_str n)) (int n) fs"
proof (induction n arbitrary: r rule: nat_str.induct)
  case (1 n)
  show ?case
  proof (cases "n < 10")
    case True
    then show ?thesis
      by (simp add: nat_str.simps [of n] digit_char_digit of_digit_char Let_def)
  next
    case False
    let ?d = "digit_char (n mod 10)"
    have d: "is_digit ?d" "of_char ?d = 0x30 + int (n mod 10)"
      by (simp_all add: digit_char_digit of_digit_char)
    have n: "nat_str n = nat_str (n div 10) @ [?d]" using False by (simp add: nat_str.simps [of n])
    have pos: "int (n div 10) \<noteq> 0" using False by simp
    have "v4_fields (nat_str n @ r) True 0 0 fs = v4_fields (nat_str (n div 10) @ ?d # r) True 0 0 fs"
      by (simp add: n)
    also have "\<dots> = v4_fields (?d # r) False (length (nat_str (n div 10))) (int (n div 10)) fs"
      using 1 False by simp
    also have "\<dots> = v4_fields r False (length (nat_str n)) (int n) fs"
      using d pos 1(2) int_div_mod10 [of n] by (simp add: n Let_def del: of_nat_mod)
    finally show ?thesis .
  qed
qed

lemma v4_fields_byte:
  "v4_fields (byte_str b @ r) True 0 0 fs = v4_fields r False (length (byte_str b)) (int (unat b)) fs"
  by (simp add: byte_str_def v4_fields_nat_str)

lemma is_digit_dot [simp]: "\<not> is_digit (CHR ''.'')"
  by (simp add: is_digit_def code_in_def)

lemma byte_str_not_Nil [simp]: "byte_str b \<noteq> []"
  using nat_str_shape [of "unat b"] by (auto simp: byte_str_def)

lemma parse_ip4_str: "parse_v4 (ip4_str a) = Some a"
proof -
  obtain a0 a1 a2 a3 where a: "a = (a0, a1, a2, a3)" by (cases a) auto
  have "v4_fields (byte_str a3 @ []) True 0 0 [a0, a1, a2] = Some [a0, a1, a2, a3]"
    unfolding v4_fields_byte by simp
  then show ?thesis
    by (simp add: parse_v4_def ip4_str_def a v4_fields_byte)
qed

lemma first_delim_append: "list_all is_digit s \<Longrightarrow> first_delim (s @ r) = first_delim r"
  by (induction s) (auto simp: is_digit_def code_in_def)

lemma ParseAddr_ip4_str: "ParseAddr (ip4_str a) = Some (Addr4 a)"
proof -
  obtain a0 a1 a2 a3 where a: "a = (a0, a1, a2, a3)" by (cases a) auto
  have "first_delim (ip4_str a) = Some (CHR ''.'')"
    by (simp add: a ip4_str_def byte_str_def first_delim_append nat_str_digits)
  then show ?thesis by (simp add: ParseAddr_def parse_ip4_str)
qed

lemma ascii_ip4_str: "ascii (ip4_str a)"
  by (cases a) (simp add: ip4_str_def byte_str_def ascii_nat_str code_in_def)

end
