(* ===== verification/Domain_Name.thy ===== *)
theory Domain_Name
  imports Json_Props
begin

text \<open>
  \<open>internal/domain/name.go\<close>: the ASCII domain syntax shared by campus resources and the IPC
  layer. \<open>Normalize\<close> walks the name once, keeping the label it is in and the stars seen.
\<close>

definition to_lower_char :: "char \<Rightarrow> char" where
  "to_lower_char c = (if code_in 0x41 0x5A c then chr (of_char c + 32) else c)"

abbreviation to_lower :: "string \<Rightarrow> string" where
  "to_lower \<equiv> map to_lower_char"

definition name_char :: "char \<Rightarrow> bool" where
  "name_char c \<longleftrightarrow> code_in 0x61 0x7A c \<or> code_in 0x41 0x5A c \<or> code_in 0x30 0x39 c \<or> c = CHR ''-''"

definition label_ok :: "string \<Rightarrow> bool" where
  "label_ok l \<longleftrightarrow> l \<noteq> [] \<and> length l \<le> 63 \<and> hd l \<noteq> CHR ''-'' \<and> last l \<noteq> CHR ''-''"

fun name_loop :: "bool \<Rightarrow> string \<Rightarrow> string \<Rightarrow> nat \<Rightarrow> bool" where
  "name_loop pattern [] label stars = label_ok label"
| "name_loop pattern (c # r) label stars =
     (if c = CHR ''.'' then label_ok label \<and> name_loop pattern r [] stars
      else if c = CHR ''*'' \<and> pattern then
        (if Suc stars > 8 then False else name_loop pattern r (label @ [c]) (Suc stars))
      else if name_char c then name_loop pattern r (label @ [c]) stars
      else False)"

definition trim_dot :: "string \<Rightarrow> string" where
  "trim_dot v = (if v \<noteq> [] \<and> last v = CHR ''.'' then butlast v else v)"

definition Normalize :: "string \<Rightarrow> bool \<Rightarrow> string option" where
  "Normalize value pattern =
     (let v = trim_dot value in
      if length v = 0 \<or> length v > 253 then None
      else if name_loop pattern v [] 0 then Some (to_lower v) else None)"

section \<open>Lemmas\<close>

lemma to_lower_char_cases:
  "to_lower_char c = c \<or> (code_in 0x41 0x5A c \<and> code_in 0x61 0x7A (to_lower_char c))"
  by (auto simp: to_lower_char_def code_in_def of_chr)

lemma to_lower_char_idem [simp]: "to_lower_char (to_lower_char c) = to_lower_char c"
proof -
  have "\<not> code_in 0x41 0x5A (to_lower_char c)"
    by (auto simp: to_lower_char_def code_in_def of_chr)
  then show ?thesis by (simp add: to_lower_char_def)
qed

lemma to_lower_char_special [simp]:
  "to_lower_char c = CHR ''.'' \<longleftrightarrow> c = CHR ''.''" "to_lower_char c = CHR ''*'' \<longleftrightarrow> c = CHR ''*''"
  "to_lower_char c = CHR ''-'' \<longleftrightarrow> c = CHR ''-''"
  using to_lower_char_cases [of c] by (auto simp: code_in_def to_lower_char_def)

lemma name_char_lower: "name_char (to_lower_char c) \<longleftrightarrow> name_char c"
  using to_lower_char_cases [of c] by (auto simp: name_char_def)

lemma label_ok_lower: "label_ok (to_lower l) \<longleftrightarrow> label_ok l"
  by (auto simp: label_ok_def hd_map last_map)

lemma name_loop_lower: "name_loop p (to_lower v) (to_lower l) s \<longleftrightarrow> name_loop p v l s"
proof (induction p v l s rule: name_loop.induct)
  case (2 p c r l s)
  then show ?case by (auto simp: label_ok_lower name_char_lower)
qed (simp add: label_ok_lower)

lemma name_loop_last: "name_loop p v l s \<Longrightarrow> v \<noteq> [] \<Longrightarrow> last v \<noteq> CHR ''.''"
  by (induction p v l s rule: name_loop.induct) (auto simp: label_ok_def split: if_splits)

lemma name_loop_chars:
  "name_loop p v l s \<Longrightarrow> c \<in> set v \<Longrightarrow> name_char c \<or> c = CHR ''.'' \<or> (p \<and> c = CHR ''*'')"
  by (induction p v l s rule: name_loop.induct) (auto split: if_splits)

lemma name_loop_stars:
  "name_loop p v l s \<Longrightarrow> s \<le> 8 \<Longrightarrow> s + length (filter (\<lambda>c. c = CHR ''*'') v) \<le> 8"
proof (induction p v l s rule: name_loop.induct)
  case (2 p c r l s)
  then show ?case by (auto split: if_splits simp: name_char_def code_in_def)
qed simp

lemma Normalize_Some:
  assumes "Normalize v p = Some w"
  shows "w = to_lower (trim_dot v)" "name_loop p w [] 0" "0 < length w" "length w \<le> 253"
    "last w \<noteq> CHR ''.''" "to_lower w = w"
proof -
  from assms show w: "w = to_lower (trim_dot v)" and l: "0 < length w" "length w \<le> 253"
    and n: "name_loop p w [] 0"
    using name_loop_lower [of p "trim_dot v" "[]" 0] by (auto simp: Normalize_def Let_def split: if_splits)
  show "last w \<noteq> CHR ''.''" using name_loop_last [OF n] l by auto
  show "to_lower w = w" by (simp add: w)
qed

lemma Normalize_fixed:
  assumes "name_loop p w [] 0" "0 < length w" "length w \<le> 253" "to_lower w = w"
  shows "Normalize w p = Some w"
  using assms name_loop_last [OF assms(1)] by (auto simp: Normalize_def trim_dot_def)

section \<open>Properties\<close>

text \<open>Normalisation is idempotent: a normalised name is accepted again, unchanged, so a stored
  pattern is exactly what a later comparison computes.\<close>

theorem Normalize_idempotent:
  assumes "Normalize v p = Some w"
  shows "Normalize w p = Some w"
  using Normalize_Some [OF assms] by (intro Normalize_fixed) auto

theorem Normalize_idempotent_witness:
  "Normalize ''Www.NJU.edu.cn.'' False = Some ''www.nju.edu.cn'' \<and>
   Normalize ''www.nju.edu.cn'' False = Some ''www.nju.edu.cn''"
proof -
  have n: "Normalize ''Www.NJU.edu.cn.'' False = Some ''www.nju.edu.cn''" by code_simp
  from n Normalize_idempotent [OF n] show ?thesis by blast
qed

end
