(* ===== verification/Resource.thy ===== *)
theory Resource
  imports NetAddr Domain_Name Errors "HOL-Library.List_Lexorder" "HOL-Library.Char_ord"
    "HOL-Library.Sublist"
begin

text \<open>
  The resource table of \<open>internal/ztna/resource.go\<close> and its view (\<open>resource_view.go\<close>): which
  destinations a session may reach. IP rules are shared by the tunnel and the TCP path, domain
  rules serve the TCP path only.

  \<open>netip.Addr\<close> values of a table are IPv4; the zero \<open>Addr\<close> of the DNS array is None. Node groups
  are a Go map.
\<close>

section \<open>Data\<close>

type_synonym ResourceProtocol = int

abbreviation ResourceProtocolAll :: ResourceProtocol where "ResourceProtocolAll \<equiv> - 1"
abbreviation ResourceProtocolTCP :: ResourceProtocol where "ResourceProtocolTCP \<equiv> 6"
abbreviation ResourceProtocolUDP :: ResourceProtocol where "ResourceProtocolUDP \<equiv> 17"

definition protocol_String :: "ResourceProtocol \<Rightarrow> string" where
  "protocol_String p =
     (if p = ResourceProtocolAll then ''all'' else if p = ResourceProtocolTCP then ''tcp''
      else if p = ResourceProtocolUDP then ''udp'' else ''unknown'')"

record resourceGrant =
  g_appID :: string
  g_nodeGroupID :: string

record portRange =
  first :: u16
  last_port :: u16

record ipv4Rule =
  r_prefix :: prefix4
  r_grant :: resourceGrant
  r_ports :: portRange
  r_protocol :: ResourceProtocol

record tcpDomainRule =
  d_pattern :: string
  d_grant :: resourceGrant
  d_ports :: portRange
  d_dialIPs :: "ip4 list"

record resourceTable =
  ipRules :: "ipv4Rule list"
  domainRules :: "tcpDomainRule list"
  dns :: "ip4 option \<times> ip4 option"
  nodeGroups :: "(string, string list) gomap"
  majorGroup :: string

record TCPTarget =
  t_host :: string
  t_port :: u16

record tcpRoute =
  route_grant :: resourceGrant
  route_target :: TCPTarget
  route_dialIPs :: "ip4 list"

definition emptyTable :: resourceTable where
  "emptyTable = \<lparr>ipRules = [], domainRules = [], dns = (None, None), nodeGroups = [], majorGroup = []\<rparr>"

section \<open>Targets\<close>

definition NewTCPTarget :: "string \<Rightarrow> u16 \<Rightarrow> error + TCPTarget" where
  "NewTCPTarget host port =
     (if port = 0 then Inl (ProtocolError W_target_port_zero)
      else case ParseAddr host of
        Some ip \<Rightarrow>
          (case ip of
             Addr4 a \<Rightarrow> Inr \<lparr>t_host = ip4_str a, t_port = port\<rparr>
           | Addr6 _ _ \<Rightarrow> Inl ErrTCPAddressUnsupported)
      | None \<Rightarrow>
          (case Normalize host False of
             None \<Rightarrow> Inl (ProtocolError W_target_domain)
           | Some d \<Rightarrow> Inr \<lparr>t_host = d, t_port = port\<rparr>))"

text \<open>The allocation-free IPv4 reader: \<open>n\<close> is \<open>i - start\<close>, \<open>lead\<close> is \<open>host[start]\<close>, \<open>octets\<close> are the
  parts read.\<close>

definition part_ok :: "nat \<Rightarrow> char \<Rightarrow> bytes \<Rightarrow> bool" where
  "part_ok n lead octets \<longleftrightarrow> \<not> (4 \<le> length octets \<or> n = 0 \<or> 3 < n \<or> 1 < n \<and> lead = CHR ''0'')"

fun target_loop :: "string \<Rightarrow> nat \<Rightarrow> char \<Rightarrow> int \<Rightarrow> bytes \<Rightarrow> bytes option" where
  "target_loop [] n lead value octets =
     (if part_ok n lead octets then Some (octets @ [of_int value]) else None)"
| "target_loop (c # r) n lead value octets =
     (if c = CHR ''.'' then
        (if part_ok n lead octets then target_loop r 0 CHR 0x00 0 (octets @ [of_int value]) else None)
      else if \<not> is_digit c then None
      else let v = value * 10 + (of_char c - 0x30) in
        if v > 255 then None else target_loop r (Suc n) (if n = 0 then c else lead) v octets)"

definition targetIPv4 :: "string \<Rightarrow> ip4 option" where
  "targetIPv4 host =
     (case target_loop host 0 CHR 0x00 0 [] of
        Some [a, b, c, d] \<Rightarrow> Some (a, b, c, d)
      | _ \<Rightarrow> None)"

section \<open>Domain patterns\<close>

text \<open>\<open>strings.Cut(s, "*")\<close>, \<open>strings.Index\<close>\<close>

definition cut_star :: "string \<Rightarrow> string \<times> string \<times> bool" where
  "cut_star s =
     (let a = takeWhile (\<lambda>c. c \<noteq> CHR ''*'') s
      in (a, drop (Suc (length a)) s, length a < length s))"

fun index_of :: "string \<Rightarrow> string \<Rightarrow> nat option" where
  "index_of s sub =
     (if prefix sub s then Some 0
      else case s of [] \<Rightarrow> None | _ # r \<Rightarrow> map_option Suc (index_of r sub))"

declare index_of.simps [simp del]

function match_tail :: "string \<Rightarrow> string \<Rightarrow> bool" where
  "match_tail tail host =
     (case cut_star tail of (segment, rest, found) \<Rightarrow>
        if \<not> found then suffix segment host
        else case index_of host segment of
          None \<Rightarrow> False
        | Some pos \<Rightarrow> match_tail rest (drop (pos + length segment) host))"
  by pat_completeness auto
termination
  by (relation "measure (length \<circ> fst)") (auto simp: cut_star_def Let_def)

declare match_tail.simps [simp del]

definition pattern_matches :: "string \<Rightarrow> string \<Rightarrow> bool" where
  "pattern_matches pattern host =
     (case cut_star pattern of (pre, tail, wildcard) \<Rightarrow>
        if \<not> wildcard then pattern = host
        else if \<not> prefix pre host then False
        else match_tail tail (drop (length pre) host))"

section \<open>Matching\<close>

definition port_in :: "u16 \<Rightarrow> portRange \<Rightarrow> bool" where
  "port_in p r \<longleftrightarrow> \<not> (p < first r \<or> p > last_port r)"

definition ip_rule_matches :: "ip4 \<Rightarrow> byte \<Rightarrow> u16 \<Rightarrow> ipv4Rule \<Rightarrow> bool" where
  "ip_rule_matches dst proto port rule \<longleftrightarrow>
     \<not> (\<not> Contains (r_prefix rule) dst \<or>
        r_protocol rule \<noteq> ResourceProtocolAll \<and> r_protocol rule \<noteq> uint proto) \<and>
     \<not> (proto \<noteq> 1 \<and> \<not> port_in port (r_ports rule))"

fun match_ip_rules :: "ipv4Rule list \<Rightarrow> ip4 \<Rightarrow> byte \<Rightarrow> u16 \<Rightarrow> resourceGrant option" where
  "match_ip_rules [] dst proto port = None"
| "match_ip_rules (rule # rs) dst proto port =
     (if ip_rule_matches dst proto port rule then Some (r_grant rule)
      else match_ip_rules rs dst proto port)"

definition matchIP :: "resourceTable \<Rightarrow> ip4 \<Rightarrow> byte \<Rightarrow> u16 \<Rightarrow> resourceGrant option" where
  "matchIP t dst proto port = match_ip_rules (ipRules t) dst proto port"

fun match_domain_rules :: "tcpDomainRule list \<Rightarrow> TCPTarget \<Rightarrow> tcpRoute option" where
  "match_domain_rules [] target = None"
| "match_domain_rules (rule # rs) target =
     (if \<not> port_in (t_port target) (d_ports rule) \<or> \<not> pattern_matches (d_pattern rule) (t_host target)
      then match_domain_rules rs target
      else Some \<lparr>route_grant = d_grant rule, route_target = target, route_dialIPs = d_dialIPs rule\<rparr>)"

definition matchTCP :: "resourceTable \<Rightarrow> TCPTarget \<Rightarrow> tcpRoute option" where
  "matchTCP t target =
     (case targetIPv4 (t_host target) of
        Some ip \<Rightarrow>
          map_option (\<lambda>g. \<lparr>route_grant = g, route_target = target, route_dialIPs = []\<rparr>)
            (matchIP t ip 6 (t_port target))
      | None \<Rightarrow> match_domain_rules (domainRules t) target)"

section \<open>Candidate nodes and view\<close>

fun add_nodes :: "string list \<Rightarrow> string list \<Rightarrow> string list" where
  "add_nodes out [] = out"
| "add_nodes out (a # as) = add_nodes (if a \<in> set out then out else out @ [a]) as"

definition group_nodes :: "resourceTable \<Rightarrow> string \<Rightarrow> string list" where
  "group_nodes t g = (case map_of (nodeGroups t) g of Some ns \<Rightarrow> ns | None \<Rightarrow> [])"

definition candidateNodes :: "resourceTable \<Rightarrow> string \<Rightarrow> string list" where
  "candidateNodes t preferred =
     (let groups = sort (map fst (nodeGroups t))
      in foldl (\<lambda>out g. add_nodes out (group_nodes t g)) [] (preferred # majorGroup t # groups))"

record IPResourceView =
  iv_prefix :: prefix4
  iv_protocol :: ResourceProtocol
  iv_ports :: "u16 \<times> u16"

record TCPDomainView =
  dv_pattern :: string
  dv_ports :: "u16 \<times> u16"

record ResourceView =
  rv_ip :: "IPResourceView list"
  rv_domains :: "TCPDomainView list"
  rv_dns :: "ip4 option \<times> ip4 option"

definition view :: "resourceTable \<Rightarrow> ResourceView" where
  "view t =
     \<lparr>rv_ip = map (\<lambda>r. \<lparr>iv_prefix = r_prefix r, iv_protocol = r_protocol r,
                          iv_ports = (first (r_ports r), last_port (r_ports r))\<rparr>) (ipRules t),
      rv_domains = map (\<lambda>r. \<lparr>dv_pattern = d_pattern r,
                               dv_ports = (first (d_ports r), last_port (d_ports r))\<rparr>) (domainRules t),
      rv_dns = dns t\<rparr>"

end
