(* ===== verification/Resource_Props.thy ===== *)
theory Resource_Props
  imports Resource
begin

text \<open>
  Correctness of resource matching: the forward-only wildcard matcher decides the glob relation,
  the allocation-free IPv4 reader agrees with \<open>netip.ParseAddr\<close>, and the candidate node list
  holds every known node once, the preferred group first.
\<close>

section \<open>Wildcards\<close>

text \<open>The glob relation: \<open>*\<close> stands for any text, every other character for itself.\<close>

fun glob :: "string \<Rightarrow> string \<Rightarrow> bool" where
  "glob [] s = (s = [])"
| "glob (c # p) s =
     (if c = CHR ''*'' then list_ex (\<lambda>k. glob p (drop k s)) [0..<Suc (length s)]
      else case s of [] \<Rightarrow> False | d # r \<Rightarrow> d = c \<and> glob p r)"

abbreviation star :: char where "star \<equiv> CHR ''*''"

lemma glob_star: "glob (star # p) s \<longleftrightarrow> (\<exists>k\<le>length s. glob p (drop k s))"
proof -
  have "glob (star # p) s \<longleftrightarrow> (\<exists>k\<in>set [0..<Suc (length s)]. glob p (drop k s))"
    by (simp only: glob.simps list_ex_iff simp_thms if_True)
  also have "\<dots> \<longleftrightarrow> (\<exists>k\<le>length s. glob p (drop k s))"
    by (auto simp only: set_upt atLeastLessThan_iff less_Suc_eq_le)
  finally show ?thesis .
qed

lemma glob_star_drop:
  assumes "glob (star # p) (drop m s)"
  shows "glob (star # p) s"
proof (cases "m \<le> length s")
  case True
  then show ?thesis
    using assms unfolding glob_star
    by (metis add.commute drop_drop length_drop nat_add_left_cancel_le le_add_diff_inverse)
next
  case False
  then have "drop m s = drop (length s) s" by simp
  then have "glob (star # p) (drop (length s) s)" using assms by simp
  then show ?thesis unfolding glob_star by fastforce
qed

lemma glob_lit:
  "star \<notin> set seg \<Longrightarrow> glob (seg @ p) s \<longleftrightarrow> prefix seg s \<and> glob p (drop (length seg) s)"
proof (induction seg arbitrary: s)
  case (Cons c seg)
  then show ?case by (cases s) auto
qed simp

lemma index_of_Some: "index_of s sub = Some k \<Longrightarrow> k \<le> length s \<and> prefix sub (drop k s) \<and>
    (\<forall>j<k. \<not> prefix sub (drop j s))"
proof (induction s arbitrary: k)
  case Nil
  then show ?case by (auto simp: index_of.simps split: if_splits)
next
  case (Cons a s)
  show ?case
  proof (cases "prefix sub (a # s)")
    case True
    then show ?thesis using Cons.prems by (simp add: index_of.simps)
  next
    case False
    then obtain j where j: "index_of s sub = Some j" "k = Suc j"
      using Cons.prems by (auto simp: index_of.simps [of "a # s"])
    with Cons.IH [OF j(1)] False show ?thesis by (auto simp: less_Suc_eq_0_disj)
  qed
qed

lemma index_of_None: "index_of s sub = None \<Longrightarrow> \<not> prefix sub (drop k s)"
proof (induction s arbitrary: k)
  case Nil
  then show ?case by (auto simp: index_of.simps split: if_splits)
next
  case (Cons a s)
  then show ?case by (cases k) (auto simp: index_of.simps [of "a # s"] split: if_splits)
qed

lemma cut_star_cases:
  obtains "cut_star s = (s, [], False)" "star \<notin> set s"
  | seg rest where "cut_star s = (seg, rest, True)" "s = seg @ star # rest" "star \<notin> set seg"
proof (cases "star \<in> set s")
  case True
  then obtain seg rest where s: "s = seg @ star # rest" "star \<notin> set seg"
    by (metis split_list_first)
  then have "takeWhile (\<lambda>c. c \<noteq> star) s = seg" by (simp add: takeWhile_append)
  with s that(2) [of seg rest] show ?thesis by (simp add: cut_star_def Let_def)
next
  case False
  then have "takeWhile (\<lambda>c. c \<noteq> star) s = s" by (induction s) auto
  with False that(1) show ?thesis by (simp add: cut_star_def)
qed

lemma suffix_drop_iff: "suffix seg host \<longleftrightarrow> (\<exists>k\<le>length host. drop k host = seg)"
  by (metis drop_all linorder_linear suffix_drop suffix_def append_eq_conv_conj length_append le_add1)

text \<open>The leftmost occurrence of a segment is as good as any: what the rest of the pattern can
  match after a later one, the star before it can still reach.\<close>

lemma match_tail_glob: "match_tail tail host \<longleftrightarrow> glob (star # tail) host"
proof (induction tail host rule: match_tail.induct)
  case (1 tail host)
  show ?case
  proof (rule cut_star_cases [of tail])
    assume c: "cut_star tail = (tail, [], False)" "star \<notin> set tail"
    have "glob tail s \<longleftrightarrow> s = tail" for s
      using glob_lit [OF c(2), of "[]" s] by (auto simp: prefix_def)
    then show ?thesis
      using c by (subst match_tail.simps) (simp only: glob_star suffix_drop_iff prod.case simp_thms if_True)
  next
    fix seg rest
    assume c: "cut_star tail = (seg, rest, True)" "tail = seg @ star # rest" "star \<notin> set seg"
    have g: "glob (star # tail) host \<longleftrightarrow>
        (\<exists>k\<le>length host. prefix seg (drop k host) \<and> glob (star # rest) (drop (k + length seg) host))"
      unfolding c(2) glob_star [of "seg @ star # rest"] glob_lit [OF c(3)]
      by (simp add: add.commute del: glob.simps)
    show ?thesis
    proof (cases "index_of host seg")
      case None
      then show ?thesis
        using g index_of_None [OF None] c(1) by (subst match_tail.simps) (simp del: glob.simps)
    next
      case (Some pos)
      note p = index_of_Some [OF Some]
      have ih: "match_tail rest (drop (pos + length seg) host) \<longleftrightarrow>
          glob (star # rest) (drop (pos + length seg) host)"
        using 1 [OF c(1) [symmetric] refl _ Some] by simp
      have "glob (star # rest) (drop (pos + length seg) host)"
        if k: "prefix seg (drop k host)" "glob (star # rest) (drop (k + length seg) host)" for k
      proof -
        have "pos \<le> k" using p k(1) by (metis not_le)
        then have "drop (k + length seg) host = drop (k - pos) (drop (pos + length seg) host)"
          by (simp add: add.commute)
        then show ?thesis using k(2) glob_star_drop by metis
      qed
      then have "glob (star # tail) host \<longleftrightarrow> glob (star # rest) (drop (pos + length seg) host)"
        using p unfolding g by blast
      then show ?thesis using ih c(1) Some by (subst match_tail.simps) (simp del: glob.simps)
    qed
  qed
qed

text \<open>C3: the resource pattern matcher, which only moves forward and never backtracks, accepts
  exactly the host names the glob pattern denotes, for every pattern and every host.\<close>

theorem pattern_matches_glob: "pattern_matches pattern host = glob pattern host"
proof (rule cut_star_cases [of pattern])
  assume c: "cut_star pattern = (pattern, [], False)" "star \<notin> set pattern"
  then show ?thesis
    using glob_lit [OF c(2), of "[]" host] by (auto simp: pattern_matches_def prefix_def)
next
  fix pre tail
  assume c: "cut_star pattern = (pre, tail, True)" "pattern = pre @ star # tail" "star \<notin> set pre"
  then show ?thesis
    using glob_lit [OF c(3), of "star # tail" host]
    by (simp add: pattern_matches_def match_tail_glob del: glob.simps)
qed


section \<open>Reading an IPv4 target\<close>

abbreviation quad :: "bytes option \<Rightarrow> ip4 option" where
  "quad r \<equiv> (case r of Some [a, b, c, d] \<Rightarrow> Some (a, b, c, d) | _ \<Rightarrow> None)"

lemma target_leading_zero: "2 \<le> n \<Longrightarrow> target_loop s n (CHR ''0'') v fs = None"
  by (induction s arbitrary: n v) (auto simp: part_ok_def Let_def)

lemma target_too_many: "4 \<le> length fs \<Longrightarrow> target_loop s n lead v fs = None"
  by (induction s arbitrary: n lead v) (auto simp: part_ok_def Let_def)

text \<open>The states of the two readers that correspond: neither has seen an error yet.\<close>

definition reading :: "nat \<Rightarrow> char \<Rightarrow> int \<Rightarrow> bool" where
  "reading n lead v \<longleftrightarrow> n \<le> 3 \<and> 0 \<le> v \<and> v \<le> 255 \<and> (n = 0 \<longrightarrow> v = 0) \<and>
     (n = 1 \<longrightarrow> (lead = CHR ''0'' \<longleftrightarrow> v = 0)) \<and>
     (2 \<le> n \<longrightarrow> lead \<noteq> CHR ''0'') \<and> (n = 2 \<longrightarrow> 10 \<le> v) \<and> (n = 3 \<longrightarrow> 100 \<le> v)"

lemma is_digit_bounds: "is_digit c \<Longrightarrow> 0 \<le> of_char c - (0x30 :: int) \<and> of_char c - (0x30 :: int) \<le> 9"
  by (simp add: is_digit_def code_in_def)

lemma digit_zero_iff: "c = CHR ''0'' \<longleftrightarrow> of_char c - (0x30 :: int) = 0"
proof
  assume "of_char c - (0x30 :: int) = 0"
  then have "(of_char c :: int) = of_char (CHR ''0'')" by simp
  then show "c = CHR ''0''" by (simp only: of_char_eq_iff)
qed simp

lemma reading_step:
  assumes "reading n lead v" "is_digit c" "\<not> (n = 1 \<and> v = 0)" "v * 10 + (of_char c - 0x30) \<le> 255"
  shows "reading (Suc n) (if n = 0 then c else lead) (v * 10 + (of_char c - 0x30))"
proof -
  note d = is_digit_bounds [OF assms(2)]
  have "n \<noteq> 3" using assms(1,4) d by (auto simp: reading_def)
  moreover have "n \<le> 3" using assms(1) by (simp add: reading_def)
  ultimately consider "n = 0" | "n = 1" | "n = 2" by linarith
  then show ?thesis
    using assms d digit_zero_iff [of c] by cases (auto simp: reading_def)
qed

lemma target_loop_v4_fields:
  "reading n lead v \<Longrightarrow> length fs \<le> 3 \<Longrightarrow> s \<noteq> [] \<or> 0 < n \<Longrightarrow>
     quad (target_loop s n lead v fs) = quad (v4_fields s (n = 0) n v fs)"
proof (induction s arbitrary: n lead v fs)
  case Nil
  have "part_ok n lead fs" using Nil by (auto simp: part_ok_def reading_def)
  then show ?case using Nil by (auto split: list.splits)
next
  case (Cons c s)
  consider "is_digit c" "n = 1" "v = 0" | "is_digit c" "\<not> (n = 1 \<and> v = 0)" | "c = CHR ''.''"
    | "\<not> is_digit c" "c \<noteq> CHR ''.''" by blast
  then show ?case
  proof cases
    case 1
    then have "lead = CHR ''0''" using Cons.prems(1) by (simp add: reading_def)
    with 1 show ?thesis by (auto simp: target_leading_zero Let_def)
  next
    case 2
    let ?v = "v * 10 + (of_char c - 0x30)"
    have nd: "c \<noteq> CHR ''.''" using 2 by auto
    show ?thesis
    proof (cases "?v \<le> 255")
      case True
      have "quad (target_loop s (Suc n) (if n = 0 then c else lead) ?v fs) =
          quad (v4_fields s (Suc n = 0) (Suc n) ?v fs)"
        using reading_step [OF Cons.prems(1) 2 True] Cons.prems by (intro Cons.IH) auto
      with True 2 nd show ?thesis by (auto simp: Let_def simp del: of_nat_Suc)
    qed (use 2 nd in \<open>auto simp: Let_def\<close>)
  next
    case 3
    show ?thesis
    proof (cases "n = 0 \<or> s = [] \<or> length fs = 3")
      case True
      then show ?thesis using 3 Cons.prems
        by (auto simp: part_ok_def target_too_many)
    next
      case False
      then have "part_ok n lead fs" using Cons.prems by (auto simp: part_ok_def reading_def)
      moreover have "quad (target_loop s 0 CHR 0x00 0 (fs @ [of_int v])) =
          quad (v4_fields s (0 = (0::nat)) 0 0 (fs @ [of_int v]))"
        using False Cons.prems by (intro Cons.IH) (auto simp: reading_def)
      ultimately show ?thesis using 3 False by simp
    qed
  qed simp
qed

lemma target_loop_no_dot:
  "target_loop s n lead v fs = Some r \<Longrightarrow> CHR ''.'' \<notin> set s \<Longrightarrow> length r = Suc (length fs)"
  by (induction s arbitrary: n lead v) (auto simp: Let_def split: if_splits)

lemma target_loop_chars:
  "target_loop s n lead v fs = Some r \<Longrightarrow> c \<in> set s \<Longrightarrow> is_digit c \<or> c = CHR ''.''"
  by (induction s arbitrary: n lead v fs) (auto simp: Let_def split: if_splits)

lemma first_delim_None: "first_delim s = None \<Longrightarrow> CHR ''.'' \<notin> set s"
  by (induction s) (auto split: if_splits)

lemma first_delim_Some: "first_delim s = Some d \<Longrightarrow> d \<in> set s \<and> (d = CHR ''.'' \<or> d = CHR '':'' \<or> d = CHR ''%'')"
  by (induction s) (auto split: if_splits)

text \<open>The hand-written IPv4 reader of the TCP path recognises exactly the texts \<open>netip.ParseAddr\<close>
  reads as IPv4 addresses, with the same value; every other text stays a domain name.\<close>

theorem targetIPv4_ParseAddr:
  "targetIPv4 host = (case ParseAddr host of Some (Addr4 a) \<Rightarrow> Some a | _ \<Rightarrow> None)"
proof (cases "first_delim host = Some (CHR ''.'')")
  case True
  then have "host \<noteq> []" by auto
  then have "targetIPv4 host = parse_v4 host"
    unfolding targetIPv4_def parse_v4_def
    using target_loop_v4_fields [of 0 "CHR 0x00" 0 "[]" host] by (simp add: reading_def)
  then show ?thesis using True by (simp add: ParseAddr_def split: option.splits)
next
  case False
  have no4: "ParseAddr host \<noteq> Some (Addr4 a)" for a
    using False by (auto simp: ParseAddr_def parse_v6_def Let_def split: option.splits if_splits prod.splits)
  have "targetIPv4 host = None"
  proof (cases "target_loop host 0 CHR 0x00 0 []")
    case (Some r)
    show ?thesis
    proof (cases "first_delim host")
      case None
      then have "length r = 1" using target_loop_no_dot [OF Some] first_delim_None by simp
      then show ?thesis using Some by (auto simp: targetIPv4_def split: list.splits)
    next
      case (Some d)
      then have "d \<in> set host" "d = CHR '':'' \<or> d = CHR ''%''"
        using first_delim_Some [OF Some] False by auto
      moreover have "is_digit d \<or> d = CHR ''.''"
        using target_loop_chars [OF \<open>target_loop host 0 CHR 0x00 0 [] = Some r\<close>] calculation(1) .
      ultimately show ?thesis by (auto simp: is_digit_def code_in_def)
    qed
  qed (simp add: targetIPv4_def)
  then show ?thesis using no4 by (auto split: option.splits addr.splits)
qed


section \<open>Candidate nodes\<close>

lemma add_nodes_props:
  "distinct out \<Longrightarrow> distinct (add_nodes out as) \<and> set (add_nodes out as) = set out \<union> set as \<and>
     prefix out (add_nodes out as)"
proof (induction as arbitrary: out)
  case (Cons a as)
  show ?case
  proof (cases "a \<in> set out")
    case True
    then show ?thesis using Cons by auto
  next
    case False
    then have "distinct (out @ [a])" using Cons.prems by simp
    from Cons.IH [OF this] False show ?thesis
      by (auto intro: prefix_order.trans [OF prefixI])
  qed
qed simp

lemma add_groups_props:
  "distinct out \<Longrightarrow>
     distinct (foldl (\<lambda>out g. add_nodes out (f g)) out gs) \<and>
     set (foldl (\<lambda>out g. add_nodes out (f g)) out gs) = set out \<union> (\<Union>g\<in>set gs. set (f g)) \<and>
     prefix out (foldl (\<lambda>out g. add_nodes out (f g)) out gs)"
proof (induction gs arbitrary: out)
  case (Cons g gs)
  note a = add_nodes_props [OF Cons.prems, of "f g"]
  with Cons.IH [of "add_nodes out (f g)"] show ?case by (auto intro: prefix_order.trans)
qed simp

text \<open>The candidate list names every node of every group exactly once, and starts with the nodes
  of the preferred group in their order.\<close>

theorem candidateNodes_complete:
  "distinct (candidateNodes t preferred) \<and>
   set (candidateNodes t preferred) = (\<Union>g\<in>set (map fst (nodeGroups t)). set (group_nodes t g)) \<and>
   prefix (add_nodes [] (group_nodes t preferred)) (candidateNodes t preferred)"
proof -
  define gs where "gs = majorGroup t # sort (map fst (nodeGroups t))"
  have c: "candidateNodes t preferred =
      foldl (\<lambda>out g. add_nodes out (group_nodes t g)) (add_nodes [] (group_nodes t preferred)) gs"
    by (simp add: candidateNodes_def gs_def)
  have a: "distinct (add_nodes [] (group_nodes t preferred))"
    "set (add_nodes [] (group_nodes t preferred)) = set (group_nodes t preferred)"
    using add_nodes_props [of "[]" "group_nodes t preferred"] by auto
  have out: "group_nodes t g = []" if "g \<notin> set (map fst (nodeGroups t))" for g
  proof -
    have "map_of (nodeGroups t) g = None" using that by (simp add: map_of_eq_None_iff)
    then show ?thesis by (simp add: group_nodes_def)
  qed
  have "set (group_nodes t preferred) \<union> (\<Union>g\<in>set gs. set (group_nodes t g)) =
      (\<Union>g\<in>set (map fst (nodeGroups t)). set (group_nodes t g))"
  proof (rule set_eqI)
    fix x
    have "x \<in> set (group_nodes t g) \<Longrightarrow> g \<in> set (map fst (nodeGroups t))" for g
      using out [of g] by (cases "g \<in> set (map fst (nodeGroups t))") auto
    then show "x \<in> set (group_nodes t preferred) \<union> (\<Union>g\<in>set gs. set (group_nodes t g)) \<longleftrightarrow>
        x \<in> (\<Union>g\<in>set (map fst (nodeGroups t)). set (group_nodes t g))"
      unfolding gs_def by (auto simp del: set_map)
  qed
  then show ?thesis
    using add_groups_props [OF a(1), of "group_nodes t" gs] a(2) unfolding c by simp
qed

end
