(* ===== verification/Go_Strings.thy ===== *)
theory Go_Strings
  imports NetAddr "HOL-Library.Sublist"
begin

text \<open>
  The functions of Go's \<open>strings\<close> package that several components share, on texts of UTF-8 bytes.
\<close>

text \<open>\<open>strings.TrimSpace\<close>: the white-space runes in UTF-8.\<close>

definition space_runes :: "string list" where
  "space_runes =
     [[CHR 0x09], [CHR 0x0A], [CHR 0x0B], [CHR 0x0C], [CHR 0x0D], [CHR 0x20],
      [CHR 0xC2, CHR 0x85], [CHR 0xC2, CHR 0xA0], [CHR 0xE1, CHR 0x9A, CHR 0x80],
      [CHR 0xE2, CHR 0x80, CHR 0x80], [CHR 0xE2, CHR 0x80, CHR 0x81], [CHR 0xE2, CHR 0x80, CHR 0x82],
      [CHR 0xE2, CHR 0x80, CHR 0x83], [CHR 0xE2, CHR 0x80, CHR 0x84], [CHR 0xE2, CHR 0x80, CHR 0x85],
      [CHR 0xE2, CHR 0x80, CHR 0x86], [CHR 0xE2, CHR 0x80, CHR 0x87], [CHR 0xE2, CHR 0x80, CHR 0x88],
      [CHR 0xE2, CHR 0x80, CHR 0x89], [CHR 0xE2, CHR 0x80, CHR 0x8A], [CHR 0xE2, CHR 0x80, CHR 0xA8],
      [CHR 0xE2, CHR 0x80, CHR 0xA9], [CHR 0xE2, CHR 0x80, CHR 0xAF], [CHR 0xE2, CHR 0x81, CHR 0x9F],
      [CHR 0xE3, CHR 0x80, CHR 0x80]]"

fun trim_by :: "nat \<Rightarrow> string list \<Rightarrow> string \<Rightarrow> string" where
  "trim_by 0 runes s = s"
| "trim_by (Suc n) runes s =
     (case List.find (\<lambda>p. prefix p s) runes of
        Some p \<Rightarrow> trim_by n runes (drop (length p) s)
      | None \<Rightarrow> s)"

definition TrimSpace :: "string \<Rightarrow> string" where
  "TrimSpace s =
     (let l = trim_by (length s) space_runes s
      in rev (trim_by (length l) (map rev space_runes) (rev l)))"

text \<open>\<open>strings.Fields\<close>: the length of the white space character a text starts with; an invalid byte counts as one
  character that is no space.\<close>

definition space_len :: "string \<Rightarrow> nat" where
  "space_len s = (let n = utf8_len s in if n \<noteq> 0 \<and> take n s \<in> set space_runes then n else 0)"

function fields_loop :: "string \<Rightarrow> string \<Rightarrow> string list" where
  "fields_loop cur s =
     (if s = [] then (if cur = [] then [] else [cur])
      else let n = space_len s; w = max 1 (utf8_len s) in
        if n = 0 then fields_loop (cur @ take w s) (drop w s)
        else (if cur = [] then [] else [cur]) @ fields_loop [] (drop n s))"
  by pat_completeness auto
termination
  by (relation "measure (length \<circ> snd)") (auto simp: space_len_def Let_def)

declare fields_loop.simps [simp del]

definition Fields :: "string \<Rightarrow> string list" where
  "Fields s = fields_loop [] s"

end
