(* ===== verification/Resource_Parse.thy ===== *)
theory Resource_Parse
  imports Resource_Props Go_Strings
begin

text \<open>
  \<open>internal/ztna/resource_parse.go\<close>: from the decoded resource document to the resource table,
  with every limit, every counter of skipped entries and the two stable sorts. The document is
  taken after \<open>validateJSON\<close> and \<open>json.Unmarshal\<close>, as the record \<open>resourceDocument\<close>.
\<close>

section \<open>The document\<close>

record rawAddress =
  host :: string
  protocol_text :: string
  port_text :: string
  ip_list :: "string list"

record rawResourceApp =
  app_ID :: string
  app_NodeGroupID :: string
  app_AccessModel :: string
  app_AddrPretend :: bool
  app_AddressList :: "rawAddress list"

record rawResourceNode =
  node_Address :: string
  node_Type :: string

record resourceDocument =
  doc_AppInfo :: "rawResourceApp list list"
  doc_MajorNodeGroup :: string
  doc_NodeGroupList :: "(string \<times> rawResourceNode list) list"
  doc_FirstDNS :: string
  doc_SecondDNS :: string

record resourceParseStats =
  skippedApps :: nat
  emptyAppID :: nat
  unsupportedProtocol :: nat
  unsupportedAddress :: nat
  badPorts :: nat
  badIPs :: nat
  unsupportedIPs :: nat
  missingDialIPs :: nat
  badNodes :: nat

definition noStats :: resourceParseStats where
  "noStats = \<lparr>skippedApps = 0, emptyAppID = 0, unsupportedProtocol = 0, unsupportedAddress = 0,
     badPorts = 0, badIPs = 0, unsupportedIPs = 0, missingDialIPs = 0, badNodes = 0\<rparr>"

section \<open>Ports and hosts\<close>

text \<open>\<open>strconv.ParseUint(s, 10, 16)\<close>\<close>

definition ParseUint16 :: "string \<Rightarrow> u16 option" where
  "ParseUint16 s = (if all_digits s \<and> digits_val s < 65536 then Some (of_int (digits_val s)) else None)"

definition parsePortRange :: "string \<Rightarrow> portRange option" where
  "parsePortRange text =
     (let spec = TrimSpace text in
      if spec = [] \<or> spec = ''0'' then Some \<lparr>first = 1, last_port = 65535\<rparr>
      else
        let loText = takeWhile (\<lambda>c. c \<noteq> CHR ''-'') spec;
            hiText = drop (Suc (length loText)) spec;
            rangeSpec = (length loText < length spec)
        in case ParseUint16 loText of
          None \<Rightarrow> None
        | Some lo \<Rightarrow>
            if lo = 0 then None
            else if rangeSpec then
              (case ParseUint16 hiText of
                 None \<Rightarrow> None
               | Some hi \<Rightarrow> if hi < lo then None else Some \<lparr>first = lo, last_port = hi\<rparr>)
            else Some \<lparr>first = lo, last_port = lo\<rparr>)"

definition parseIPv4ResourceHost :: "string \<Rightarrow> prefix4 option" where
  "parseIPv4ResourceHost h =
     (case ParseAddr h of
        Some (Addr4 a) \<Rightarrow> Some \<lparr>pf_addr = a, pf_bits = 32\<rparr>
      | _ \<Rightarrow> map_option Masked (ParsePrefix4 h))"

section \<open>Applications\<close>

record parseState =
  ps_apps :: int
  ps_addresses :: int
  ps_ips :: int
  ps_stats :: resourceParseStats
  ps_ipRules :: "ipv4Rule list"
  ps_domainRules :: "tcpDomainRule list"

definition resource_protocol :: "string \<Rightarrow> ResourceProtocol option" where
  "resource_protocol text =
     (let p = to_lower text in
      if p = ''tcp'' then Some ResourceProtocolTCP
      else if p = ''udp'' then Some ResourceProtocolUDP
      else if p = ''all'' then Some ResourceProtocolAll
      else None)"

fun dial_ips :: "string list \<Rightarrow> ip4 list \<Rightarrow> resourceParseStats \<Rightarrow> ip4 list \<times> resourceParseStats" where
  "dial_ips [] ips st = (ips, st)"
| "dial_ips (value # vs) ips st =
     (case ParseAddr value of
        None \<Rightarrow> dial_ips vs ips (st\<lparr>badIPs := badIPs st + 1\<rparr>)
      | Some (Addr6 _ _) \<Rightarrow> dial_ips vs ips (st\<lparr>unsupportedIPs := unsupportedIPs st + 1\<rparr>)
      | Some (Addr4 a) \<Rightarrow> dial_ips vs (if a \<in> set ips then ips else ips @ [a]) st)"

text \<open>One accepted address (lines 131 to 184).\<close>

definition accept_address :: "rawResourceApp \<Rightarrow> rawAddress \<Rightarrow> parseState \<Rightarrow> parseState" where
  "accept_address app a s =
     (let st = ps_stats s in
      case resource_protocol (protocol_text a) of
        None \<Rightarrow> s\<lparr>ps_stats := st\<lparr>unsupportedProtocol := unsupportedProtocol st + 1\<rparr>\<rparr>
      | Some protocol \<Rightarrow>
          (case parsePortRange (port_text a) of
             None \<Rightarrow> s\<lparr>ps_stats := st\<lparr>badPorts := badPorts st + 1\<rparr>\<rparr>
           | Some ports \<Rightarrow>
               let grant = \<lparr>g_appID = app_ID app, g_nodeGroupID = app_NodeGroupID app\<rparr>;
                   unsupported = s\<lparr>ps_stats := st\<lparr>unsupportedAddress := unsupportedAddress st + 1\<rparr>\<rparr>
               in case parseIPv4ResourceHost (host a) of
                 Some p \<Rightarrow> s\<lparr>ps_ipRules := ps_ipRules s @
                     [\<lparr>r_prefix = p, r_grant = grant, r_ports = ports, r_protocol = protocol\<rparr>]\<rparr>
               | None \<Rightarrow>
                   if ParseAddr (host a) \<noteq> None \<or> CHR ''/'' \<in> set (host a) \<or> CHR '':'' \<in> set (host a)
                   then unsupported
                   else case Normalize (host a) True of
                     None \<Rightarrow> unsupported
                   | Some d \<Rightarrow>
                       if protocol = ResourceProtocolUDP then unsupported
                       else if app_AddrPretend app then
                         s\<lparr>ps_domainRules := ps_domainRules s @
                           [\<lparr>d_pattern = d, d_grant = grant, d_ports = ports, d_dialIPs = []\<rparr>]\<rparr>
                       else
                         (case dial_ips (ip_list a) [] st of (ips, st') \<Rightarrow>
                            if ips = [] then s\<lparr>ps_stats := st'\<lparr>missingDialIPs := missingDialIPs st' + 1\<rparr>\<rparr>
                            else s\<lparr>ps_stats := st', ps_domainRules := ps_domainRules s @
                              [\<lparr>d_pattern = d, d_grant = grant, d_ports = ports, d_dialIPs = ips\<rparr>]\<rparr>)))"

fun parse_addresses :: "rawResourceApp \<Rightarrow> bool \<Rightarrow> rawAddress list \<Rightarrow> parseState \<Rightarrow> error + parseState" where
  "parse_addresses app accepted [] s = Inr s"
| "parse_addresses app accepted (a # as) s =
     (let s1 = s\<lparr>ps_ips := ps_ips s + len (ip_list a)\<rparr> in
      if len (host a) > 1024 \<or> len (protocol_text a) > 64 \<or> len (port_text a) > 256 \<or>
         len (ip_list a) > 64 \<or> ps_ips s1 > 65536
      then Inl (ProtocolError W_resource_address)
      else if list_ex (\<lambda>ip. len ip > 64) (ip_list a) then Inl (ProtocolError W_resource_ip_field)
      else parse_addresses app accepted as (if accepted then accept_address app a s1 else s1))"

fun parse_apps :: "rawResourceApp list \<Rightarrow> parseState \<Rightarrow> error + parseState" where
  "parse_apps [] s = Inr s"
| "parse_apps (app # apps) s =
     (let s1 = s\<lparr>ps_apps := ps_apps s + 1, ps_addresses := ps_addresses s + len (app_AddressList app)\<rparr> in
      if ps_apps s1 > 4096 \<or> ps_addresses s1 > 16384 \<or> len (app_ID app) > 128 \<or>
         len (app_NodeGroupID app) > 128 \<or> len (app_AccessModel app) > 64
      then Inl (ProtocolError W_resource_count)
      else
        let accepted = (app_AccessModel app = ''L3VPN'' \<and> app_ID app \<noteq> []);
            st = ps_stats s1;
            st' = (if app_AccessModel app \<noteq> ''L3VPN'' then st\<lparr>skippedApps := skippedApps st + 1\<rparr>
                   else if app_ID app = [] then st\<lparr>emptyAppID := emptyAppID st + 1\<rparr> else st)
        in case parse_addresses app accepted (app_AddressList app) (s1\<lparr>ps_stats := st'\<rparr>) of
          Inl e \<Rightarrow> Inl e
        | Inr s2 \<Rightarrow> parse_apps apps s2)"

section \<open>Sorting\<close>

text \<open>\<open>slices.SortStableFunc\<close>: insertion behind every element that is not larger.\<close>

fun insert_by :: "('a \<Rightarrow> 'a \<Rightarrow> int) \<Rightarrow> 'a \<Rightarrow> 'a list \<Rightarrow> 'a list" where
  "insert_by cmp x [] = [x]"
| "insert_by cmp x (y # ys) = (if cmp x y < 0 then x # y # ys else y # insert_by cmp x ys)"

definition stable_sort :: "('a \<Rightarrow> 'a \<Rightarrow> int) \<Rightarrow> 'a list \<Rightarrow> 'a list" where
  "stable_sort cmp xs = foldl (\<lambda>acc x. insert_by cmp x acc) [] xs"

definition compare_int :: "int \<Rightarrow> int \<Rightarrow> int" where
  "compare_int a b = (if a < b then - 1 else if b < a then 1 else 0)"

definition compare_ip_rules :: "ipv4Rule \<Rightarrow> ipv4Rule \<Rightarrow> int" where
  "compare_ip_rules a b =
     (let n = compare_int (int (pf_bits (r_prefix b))) (int (pf_bits (r_prefix a))) in
      if n \<noteq> 0 then n
      else
        let m = compare_int (uint (ip4_u32 (pf_addr (r_prefix a)))) (uint (ip4_u32 (pf_addr (r_prefix b)))) in
        if m \<noteq> 0 then m
        else if r_protocol a \<noteq> r_protocol b then
          (if r_protocol a = ResourceProtocolAll then 1
           else if r_protocol b = ResourceProtocolAll then - 1 else 0)
        else 0)"

definition count_stars :: "string \<Rightarrow> nat" where
  "count_stars s = length (filter (\<lambda>c. c = CHR ''*'') s)"

definition compare_domain_rules :: "tcpDomainRule \<Rightarrow> tcpDomainRule \<Rightarrow> int" where
  "compare_domain_rules a b =
     (let as = count_stars (d_pattern a); bs = count_stars (d_pattern b) in
      if as = 0 \<and> bs \<noteq> 0 then - 1
      else if bs = 0 \<and> as \<noteq> 0 then 1
      else if as = 0 then 0
      else compare_int (int (length (d_pattern b)) - int bs) (int (length (d_pattern a)) - int as))"

section \<open>Nodes and DNS\<close>

definition compare_nodes :: "rawResourceNode \<Rightarrow> rawResourceNode \<Rightarrow> int" where
  "compare_nodes a b =
     (if node_Type a = node_Type b then 0 else if node_Type a = ''wan'' then - 1 else 1)"

definition normalize_address :: "string \<Rightarrow> string \<Rightarrow> string" where
  "normalize_address serverHost addr =
     (let a = (if addr = ''{{sdpcHost}}'' then serverHost else addr)
      in if CHR '':'' \<notin> set a then JoinHostPort a ''441'' else a)"

definition canonical_address :: "string \<Rightarrow> string" where
  "canonical_address a =
     (case SplitHostPort a of
        None \<Rightarrow> a
      | Some (h, port) \<Rightarrow>
          let h' = (case ParseAddr h of Some ip \<Rightarrow> addr_str ip | None \<Rightarrow> to_lower h);
              p = (case Atoi port of Some n \<Rightarrow> n | None \<Rightarrow> 0)
          in JoinHostPort h' (int_str p))"

type_synonym node_map = "(string, rawResourceNode list) gomap"

definition append_node :: "node_map \<Rightarrow> string \<Rightarrow> rawResourceNode \<Rightarrow> node_map" where
  "append_node m g n = AList.update g ((case map_of m g of Some ns \<Rightarrow> ns | None \<Rightarrow> []) @ [n]) m"

fun parse_nodes :: "string \<Rightarrow> string \<Rightarrow> rawResourceNode list \<Rightarrow> int \<times> node_map \<times> resourceParseStats \<Rightarrow>
    error + int \<times> node_map \<times> resourceParseStats" where
  "parse_nodes serverHost g [] s = Inr s"
| "parse_nodes serverHost g (node # ns) s =
     (case s of (count, m, st) \<Rightarrow>
        if count + 1 > 256 \<or> len (node_Address node) > 1024 \<or> len (node_Type node) > 64
        then Inl (ProtocolError W_node_count)
        else
          let a = normalize_address serverHost (node_Address node);
              ty = to_lower (node_Type node)
          in if \<not> ValidHostPort a \<or> ty \<noteq> ''wan'' \<and> ty \<noteq> ''lan''
             then parse_nodes serverHost g ns (count + 1, m, st\<lparr>badNodes := badNodes st + 1\<rparr>)
             else parse_nodes serverHost g ns
               (count + 1, append_node m g \<lparr>node_Address = canonical_address a, node_Type = ty\<rparr>, st))"

fun parse_groups :: "string \<Rightarrow> (string \<times> rawResourceNode list) list \<Rightarrow> int \<times> node_map \<times> resourceParseStats \<Rightarrow>
    error + int \<times> node_map \<times> resourceParseStats" where
  "parse_groups serverHost [] s = Inr s"
| "parse_groups serverHost ((g, ns) # gs) s =
     (if len g > 128 then Inl (ProtocolError W_group_id)
      else case parse_nodes serverHost g ns s of
        Inl e \<Rightarrow> Inl e
      | Inr s' \<Rightarrow> parse_groups serverHost gs s')"

definition group_addresses :: "rawResourceNode list \<Rightarrow> string list" where
  "group_addresses ns = add_nodes [] (map node_Address (stable_sort compare_nodes ns))"

definition parse_dns :: "string \<Rightarrow> error + ip4 option" where
  "parse_dns value =
     (if len value > 64 then Inl (ProtocolError W_dns_field)
      else if value = [] then Inr None
      else case ParseAddr value of
        Some (Addr4 a) \<Rightarrow> Inr (Some a)
      | _ \<Rightarrow> Inl (ProtocolError W_dns_not_ipv4))"

section \<open>The table\<close>

definition parseResourceTable :: "resourceDocument \<Rightarrow> string \<Rightarrow> error + resourceTable \<times> resourceParseStats" where
  "parseResourceTable doc serverHost =
     (case parse_apps (concat (doc_AppInfo doc))
             \<lparr>ps_apps = 0, ps_addresses = 0, ps_ips = 0, ps_stats = noStats, ps_ipRules = [],
               ps_domainRules = []\<rparr> of
        Inl e \<Rightarrow> Inl e
      | Inr s \<Rightarrow>
          if len (doc_NodeGroupList doc) > 256 \<or> len (doc_MajorNodeGroup doc) > 128
          then Inl (ProtocolError W_group_count)
          else case parse_groups serverHost (doc_NodeGroupList doc) (0, [], ps_stats s) of
            Inl e \<Rightarrow> Inl e
          | Inr (_, m, st) \<Rightarrow>
              (case parse_dns (doc_FirstDNS doc) of
                 Inl e \<Rightarrow> Inl e
               | Inr d1 \<Rightarrow>
                   (case parse_dns (doc_SecondDNS doc) of
                      Inl e \<Rightarrow> Inl e
                    | Inr d2 \<Rightarrow>
                        Inr (\<lparr>ipRules = stable_sort compare_ip_rules (ps_ipRules s),
                              domainRules = stable_sort compare_domain_rules (ps_domainRules s),
                              dns = (d1, d2),
                              nodeGroups = map (\<lambda>(g, ns). (g, group_addresses ns)) m,
                              majorGroup = doc_MajorNodeGroup doc\<rparr>, st))))"

end
