(* ===== verification/Resource_Table.thy ===== *)
theory Resource_Table
  imports Resource_Parse "HOL-Library.Multiset"
begin

text \<open>
  What a parsed resource table guarantees. The comparators of the three sorts satisfy the
  contract of a stable sort on the values the parser builds; every rule is well formed; the
  first match is the most specific one.
\<close>

section \<open>Comparators\<close>

text \<open>The contract \<open>slices.SortStableFunc\<close> asks of a comparison function, on a set of values.\<close>

locale comparator =
  fixes D :: "'a set" and cmp :: "'a \<Rightarrow> 'a \<Rightarrow> int"
  assumes cmp_total: "a \<in> D \<Longrightarrow> b \<in> D \<Longrightarrow> \<not> cmp a b < 0 \<Longrightarrow> cmp b a \<le> 0"
    and cmp_trans: "a \<in> D \<Longrightarrow> b \<in> D \<Longrightarrow> c \<in> D \<Longrightarrow> cmp a b \<le> 0 \<Longrightarrow> cmp b c \<le> 0 \<Longrightarrow> cmp a c \<le> 0"
begin

abbreviation ordered :: "'a list \<Rightarrow> bool" where
  "ordered \<equiv> sorted_wrt (\<lambda>a b. cmp a b \<le> 0)"

lemma set_insert_by [simp]: "set (insert_by cmp x ys) = insert x (set ys)"
  by (induction ys) auto

lemma insert_by_ordered:
  "x \<in> D \<Longrightarrow> set ys \<subseteq> D \<Longrightarrow> ordered ys \<Longrightarrow> ordered (insert_by cmp x ys)"
proof (induction ys)
  case (Cons y ys)
  show ?case
  proof (cases "cmp x y < 0")
    case True
    have "cmp x z \<le> 0" if "z \<in> set ys" for z
      using Cons.prems True that cmp_trans [of x y z] by auto
    with True Cons.prems show ?thesis by auto
  next
    case False
    then have "cmp y x \<le> 0" using Cons.prems cmp_total [of x y] by auto
    with False Cons show ?thesis by auto
  qed
qed simp

lemma stable_sort_acc:
  "set acc \<subseteq> D \<Longrightarrow> set xs \<subseteq> D \<Longrightarrow> ordered acc \<Longrightarrow>
     ordered (foldl (\<lambda>acc x. insert_by cmp x acc) acc xs) \<and>
     set (foldl (\<lambda>acc x. insert_by cmp x acc) acc xs) = set acc \<union> set xs"
proof (induction xs arbitrary: acc)
  case (Cons x xs)
  then show ?case using Cons.IH [of "insert_by cmp x acc"] insert_by_ordered [of x acc] by auto
qed simp

lemma stable_sort_ordered: "set xs \<subseteq> D \<Longrightarrow> ordered (stable_sort cmp xs)"
  using stable_sort_acc [of "[]" xs] by (simp add: stable_sort_def)

end

lemma mset_insert_by: "mset (insert_by cmp x ys) = add_mset x (mset ys)"
  by (induction ys) auto

lemma mset_stable_sort: "mset (stable_sort cmp xs) = mset xs"
proof -
  have "mset (foldl (\<lambda>acc x. insert_by cmp x acc) acc xs) = mset acc + mset xs" for acc
    by (induction xs arbitrary: acc) (auto simp: mset_insert_by)
  then show ?thesis by (simp add: stable_sort_def)
qed

lemma set_stable_sort [simp]: "set (stable_sort cmp xs) = set xs"
  by (metis mset_stable_sort set_mset_mset)

interpretation ip_order: comparator UNIV compare_ip_rules
  by unfold_locales
     (auto simp: compare_ip_rules_def compare_int_def Let_def split: if_splits)

interpretation domain_order: comparator UNIV compare_domain_rules
  by unfold_locales
     (auto simp: compare_domain_rules_def compare_int_def Let_def split: if_splits)

interpretation node_order: comparator "{n. node_Type n = ''wan'' \<or> node_Type n = ''lan''}" compare_nodes
  by unfold_locales (auto simp: compare_nodes_def split: if_splits)

section \<open>Prefix words\<close>

lemma ip4_u32_inverse [simp]: "u32_ip4 (ip4_u32 a) = a"
proof (cases a)
  case (fields a0 a1 a2 a3)
  show ?thesis
    unfolding fields ip4_u32_def u32_ip4_def prod.case prod.inject
    by (intro conjI; rule bit_word_eqI) (auto simp: bit_simps dest: bit_imp_le_length)
qed

lemma u32_ip4_inverse [simp]: "ip4_u32 (u32_ip4 w) = w"
  unfolding ip4_u32_def u32_ip4_def prod.case
proof (rule bit_word_eqI)
  fix n
  assume "n < LENGTH(32)"
  then consider "n < 8" | "8 \<le> n" "n < 16" | "16 \<le> n" "n < 24" | "24 \<le> n" "n < 32"
    by fastforce
  then show "bit (push_bit 24 (ucast (ucast (drop_bit 24 w) :: byte)) OR
      push_bit 16 (ucast (ucast (drop_bit 16 w) :: byte)) OR
      push_bit 8 (ucast (ucast (drop_bit 8 w) :: byte)) OR ucast (ucast w :: byte) :: u32) n = bit w n"
    by cases (auto simp: bit_simps)
qed

lemma xor_zero_iff: "a XOR b = 0 \<longleftrightarrow> a = (b :: u32)"
  by (metis xor.assoc xor.left_neutral xor.right_neutral xor_self_eq)

lemma ip4_u32_inj: "ip4_u32 a = ip4_u32 b \<longleftrightarrow> a = b"
  by (metis ip4_u32_inverse)

lemma Masked_idem [simp]: "Masked (Masked p) = Masked p"
proof -
  have "push_bit k (drop_bit k (push_bit k (drop_bit k w))) = push_bit k (drop_bit k w)" for k and w :: u32
    by (rule bit_word_eqI) (auto simp: bit_simps)
  then show ?thesis by (simp add: Masked_def)
qed

lemma Masked_32: "Masked \<lparr>pf_addr = a, pf_bits = 32\<rparr> = \<lparr>pf_addr = a, pf_bits = 32\<rparr>"
  by (simp add: Masked_def)

lemma Masked_bits [simp]: "pf_bits (Masked p) = pf_bits p"
  by (simp add: Masked_def)

text \<open>Two masked prefixes of one length that contain the same address are the same prefix.\<close>

lemma Contains_same_prefix:
  assumes "Masked p = p" "Masked q = q" "pf_bits p = pf_bits q" "Contains p a" "Contains q a"
  shows "p = q"
proof -
  let ?k = "32 - pf_bits p"
  have d: "drop_bit ?k (ip4_u32 a) = drop_bit ?k (ip4_u32 (pf_addr p))"
    "drop_bit ?k (ip4_u32 a) = drop_bit ?k (ip4_u32 (pf_addr q))"
    using assms(3-5) by (simp_all add: Contains_def drop_bit_xor xor_zero_iff)
  have "pf_addr x = u32_ip4 (push_bit (32 - pf_bits x) (drop_bit (32 - pf_bits x) (ip4_u32 (pf_addr x))))"
    if "Masked x = x" for x
    using arg_cong [OF that, of pf_addr] by (simp add: Masked_def)
  with assms(1-3) d have "pf_addr p = pf_addr q" by metis
  with assms(3) show ?thesis by simp
qed


section \<open>Well-formed rules\<close>

definition ports_ok :: "portRange \<Rightarrow> bool" where
  "ports_ok r \<longleftrightarrow> 0 < first r \<and> first r \<le> last_port r"

definition ip_rule_ok :: "ipv4Rule \<Rightarrow> bool" where
  "ip_rule_ok r \<longleftrightarrow> ports_ok (r_ports r) \<and> Masked (r_prefix r) = r_prefix r \<and> pf_bits (r_prefix r) \<le> 32 \<and>
     r_protocol r \<in> {ResourceProtocolAll, ResourceProtocolTCP, ResourceProtocolUDP}"

definition domain_rule_ok :: "tcpDomainRule \<Rightarrow> bool" where
  "domain_rule_ok r \<longleftrightarrow> ports_ok (d_ports r) \<and> Normalize (d_pattern r) True = Some (d_pattern r)"

definition state_ok :: "parseState \<Rightarrow> bool" where
  "state_ok s \<longleftrightarrow> list_all ip_rule_ok (ps_ipRules s) \<and> list_all domain_rule_ok (ps_domainRules s)"

lemma parsePortRange_ok: "parsePortRange text = Some r \<Longrightarrow> ports_ok r"
  by (auto simp: parsePortRange_def Let_def ports_ok_def word_neq_0_conv
      split: if_splits option.splits)

lemma ParsePrefix4_bits:
  assumes "ParsePrefix4 s = Some p"
  shows "pf_bits p \<le> 32"
proof -
  define bits where "bits = rev (takeWhile (\<lambda>c. c \<noteq> CHR ''/'') (rev s))"
  have "pf_bits p = nat (digits_val bits)" "\<not> digits_val bits > 32"
    using assms unfolding ParsePrefix4_def Let_def bits_def [symmetric]
    by (auto split: if_splits option.splits addr.splits)
  then show ?thesis by simp
qed

lemma parseIPv4ResourceHost_ok:
  assumes "parseIPv4ResourceHost h = Some p"
  shows "Masked p = p" "pf_bits p \<le> 32"
  using assms ParsePrefix4_bits
  by (auto simp: parseIPv4ResourceHost_def Masked_32 split: option.splits addr.splits)

lemma resource_protocol_ok:
  "resource_protocol t = Some p \<Longrightarrow> p \<in> {ResourceProtocolAll, ResourceProtocolTCP, ResourceProtocolUDP}"
  by (auto simp: resource_protocol_def Let_def split: if_splits)

lemma Normalize_fixpoint: "Normalize h p = Some d \<Longrightarrow> Normalize d p = Some d"
  using Normalize_Some [of h p d] by (intro Normalize_fixed) auto

lemma accept_address_ok: "state_ok s \<Longrightarrow> state_ok (accept_address app a s)"
  by (auto simp: accept_address_def Let_def state_ok_def ip_rule_ok_def domain_rule_ok_def
      dest: parsePortRange_ok parseIPv4ResourceHost_ok resource_protocol_ok Normalize_fixpoint
      split: option.splits if_splits prod.splits)

lemma state_ok_counters [simp]:
  "state_ok (s\<lparr>ps_ips := i\<rparr>) = state_ok s" "state_ok (s\<lparr>ps_apps := n\<rparr>) = state_ok s"
  "state_ok (s\<lparr>ps_addresses := k\<rparr>) = state_ok s" "state_ok (s\<lparr>ps_stats := st\<rparr>) = state_ok s"
  by (simp_all add: state_ok_def)

lemma parse_addresses_ok:
  "parse_addresses app acc as s = Inr s' \<Longrightarrow> state_ok s \<Longrightarrow> state_ok s'"
  by (induction as arbitrary: s) (auto simp: Let_def accept_address_ok split: if_splits)

lemma parse_apps_ok: "parse_apps apps s = Inr s' \<Longrightarrow> state_ok s \<Longrightarrow> state_ok s'"
proof (induction apps arbitrary: s)
  case (Cons app apps)
  then show ?case
    by (auto simp: Let_def dest!: parse_addresses_ok split: if_splits sum.splits)
qed simp

text \<open>What \<open>parseResourceTable\<close> returns.\<close>

lemma parseResourceTable_Inr:
  assumes "parseResourceTable doc h = Inr (t, st)"
  obtains s where "state_ok s"
    "ipRules t = stable_sort compare_ip_rules (ps_ipRules s)"
    "domainRules t = stable_sort compare_domain_rules (ps_domainRules s)"
proof -
  let ?s0 = "\<lparr>ps_apps = 0, ps_addresses = 0, ps_ips = 0, ps_stats = noStats, ps_ipRules = [],
      ps_domainRules = []\<rparr>"
  have s0: "state_ok ?s0" by (simp add: state_ok_def)
  from assms obtain s where s: "parse_apps (concat (doc_AppInfo doc)) ?s0 = Inr s"
      "ipRules t = stable_sort compare_ip_rules (ps_ipRules s)"
      "domainRules t = stable_sort compare_domain_rules (ps_domainRules s)"
    unfolding parseResourceTable_def by (auto split: sum.splits if_splits prod.splits)
  show ?thesis by (rule that [OF parse_apps_ok [OF s(1) s0] s(2,3)])
qed

lemma parsed_rules_ok:
  assumes "parseResourceTable doc h = Inr (t, st)"
  shows "\<forall>r\<in>set (ipRules t). ip_rule_ok r" "\<forall>r\<in>set (domainRules t). domain_rule_ok r"
    "ip_order.ordered (ipRules t)" "domain_order.ordered (domainRules t)"
proof -
  from assms obtain s where s: "state_ok s"
      "ipRules t = stable_sort compare_ip_rules (ps_ipRules s)"
      "domainRules t = stable_sort compare_domain_rules (ps_domainRules s)"
    by (rule parseResourceTable_Inr)
  from s show "\<forall>r\<in>set (ipRules t). ip_rule_ok r" "\<forall>r\<in>set (domainRules t). domain_rule_ok r"
    by (auto simp: state_ok_def list_all_iff)
  show "ip_order.ordered (ipRules t)" "domain_order.ordered (domainRules t)"
    unfolding s(2,3) by (rule ip_order.stable_sort_ordered domain_order.stable_sort_ordered; simp)+
qed

section \<open>First match is most specific\<close>

lemma match_ip_rules_Some:
  assumes "match_ip_rules rs dst proto port = Some g"
  obtains xs r ys where "rs = xs @ r # ys" "ip_rule_matches dst proto port r" "r_grant r = g"
    "\<forall>x\<in>set xs. \<not> ip_rule_matches dst proto port x"
proof -
  have "\<exists>xs r ys. rs = xs @ r # ys \<and> ip_rule_matches dst proto port r \<and> r_grant r = g \<and>
      (\<forall>x\<in>set xs. \<not> ip_rule_matches dst proto port x)"
    using assms
  proof (induction rs)
    case (Cons a rs)
    show ?case
    proof (cases "ip_rule_matches dst proto port a")
      case True
      then show ?thesis using Cons.prems by (intro exI [of _ "[]"]) auto
    next
      case False
      then obtain xs r ys where "rs = xs @ r # ys" "ip_rule_matches dst proto port r" "r_grant r = g"
          "\<forall>x\<in>set xs. \<not> ip_rule_matches dst proto port x"
        using Cons by auto
      with False show ?thesis by (intro exI [of _ "a # xs"]) auto
    qed
  qed simp
  then show ?thesis using that by blast
qed

lemma match_ip_rules_None:
  "match_ip_rules rs dst proto port = None \<longleftrightarrow> (\<forall>r\<in>set rs. \<not> ip_rule_matches dst proto port r)"
  by (induction rs) auto

lemma compare_ip_rules_le:
  assumes "compare_ip_rules r r' \<le> 0"
  shows "pf_bits (r_prefix r') \<le> pf_bits (r_prefix r)"
    "r_prefix r' = r_prefix r \<Longrightarrow> r_protocol r = ResourceProtocolAll \<Longrightarrow> r_protocol r' = ResourceProtocolAll"
  using assms by (auto simp: compare_ip_rules_def compare_int_def Let_def split: if_splits)

text \<open>C7: in a parsed table the grant of an IP destination is that of the most specific rule: no
  matching rule has a longer prefix, and a rule for all protocols is used only when no matching
  rule of the same prefix names the protocol. No grant is given exactly when no rule matches.\<close>

theorem longest_prefix_match:
  assumes "parseResourceTable doc h = Inr (t, st)"
  shows "case matchIP t dst proto port of
      None \<Rightarrow> \<forall>r\<in>set (ipRules t). \<not> ip_rule_matches dst proto port r
    | Some g \<Rightarrow> \<exists>r\<in>set (ipRules t). ip_rule_matches dst proto port r \<and> r_grant r = g \<and>
        (\<forall>r'\<in>set (ipRules t). ip_rule_matches dst proto port r' \<longrightarrow>
           pf_bits (r_prefix r') \<le> pf_bits (r_prefix r) \<and>
           (pf_bits (r_prefix r') = pf_bits (r_prefix r) \<and> r_protocol r = ResourceProtocolAll \<longrightarrow>
              r_protocol r' = ResourceProtocolAll))"
proof (cases "matchIP t dst proto port")
  case None
  then have "\<forall>r\<in>set (ipRules t). \<not> ip_rule_matches dst proto port r"
    by (simp add: matchIP_def match_ip_rules_None)
  with None show ?thesis by simp
next
  case (Some g)
  note ok = parsed_rules_ok [OF assms]
  from Some obtain xs r ys where r: "ipRules t = xs @ r # ys" "ip_rule_matches dst proto port r"
      "r_grant r = g" "\<forall>x\<in>set xs. \<not> ip_rule_matches dst proto port x"
    unfolding matchIP_def by (rule match_ip_rules_Some)
  have "pf_bits (r_prefix r') \<le> pf_bits (r_prefix r) \<and>
      (pf_bits (r_prefix r') = pf_bits (r_prefix r) \<and> r_protocol r = ResourceProtocolAll \<longrightarrow>
         r_protocol r' = ResourceProtocolAll)"
    if "r' \<in> set (ipRules t)" "ip_rule_matches dst proto port r'" for r'
  proof (cases "r' = r")
    case False
    then have "r' \<in> set ys" using that r by auto
    then have c: "compare_ip_rules r r' \<le> 0" using ok(3) r(1) by (auto simp: sorted_wrt_append)
    have "r_prefix r' = r_prefix r" if "pf_bits (r_prefix r') = pf_bits (r_prefix r)"
      using Contains_same_prefix [of "r_prefix r'" "r_prefix r" dst] that ok(1) r
        \<open>ip_rule_matches dst proto port r'\<close> \<open>r' \<in> set (ipRules t)\<close>
      by (auto simp: ip_rule_ok_def ip_rule_matches_def)
    then show ?thesis using compare_ip_rules_le [OF c] by blast
  qed simp
  then have "\<exists>r\<in>set (ipRules t). ip_rule_matches dst proto port r \<and> r_grant r = g \<and>
      (\<forall>r'\<in>set (ipRules t). ip_rule_matches dst proto port r' \<longrightarrow>
         pf_bits (r_prefix r') \<le> pf_bits (r_prefix r) \<and>
         (pf_bits (r_prefix r') = pf_bits (r_prefix r) \<and> r_protocol r = ResourceProtocolAll \<longrightarrow>
            r_protocol r' = ResourceProtocolAll))"
    using r by (intro bexI [of _ r]) auto
  with Some show ?thesis by simp
qed


section \<open>An example document\<close>

definition sample_app :: rawResourceApp where
  "sample_app = \<lparr>app_ID = ''a1'', app_NodeGroupID = ''g'', app_AccessModel = ''L3VPN'', app_AddrPretend = True,
     app_AddressList =
       [\<lparr>host = ''10.0.0.0/8'', protocol_text = ''all'', port_text = ''0'', ip_list = []\<rparr>,
        \<lparr>host = ''10.1.2.3'', protocol_text = ''TCP'', port_text = ''80-443'', ip_list = []\<rparr>,
        \<lparr>host = ''*.nju.edu.cn'', protocol_text = ''tcp'', port_text = ''443'', ip_list = []\<rparr>]\<rparr>"

definition sample_doc :: resourceDocument where
  "sample_doc = \<lparr>doc_AppInfo = [[sample_app]], doc_MajorNodeGroup = ''g'',
     doc_NodeGroupList = [(''g'', [\<lparr>node_Address = ''{{sdpcHost}}'', node_Type = ''WAN''\<rparr>])],
     doc_FirstDNS = ''210.28.129.251'', doc_SecondDNS = []\<rparr>"

definition sample_rules :: "ipv4Rule list" where
  "sample_rules =
     [\<lparr>r_prefix = \<lparr>pf_addr = (10, 1, 2, 3), pf_bits = 32\<rparr>, r_grant = \<lparr>g_appID = ''a1'', g_nodeGroupID = ''g''\<rparr>,
        r_ports = \<lparr>first = 80, last_port = 443\<rparr>, r_protocol = 6\<rparr>,
      \<lparr>r_prefix = \<lparr>pf_addr = (10, 0, 0, 0), pf_bits = 8\<rparr>, r_grant = \<lparr>g_appID = ''a1'', g_nodeGroupID = ''g''\<rparr>,
        r_ports = \<lparr>first = 1, last_port = 65535\<rparr>, r_protocol = - 1\<rparr>]"


lemma sample_parses:
  "case parseResourceTable sample_doc ''vpn.nju.edu.cn'' of Inr (t, st) \<Rightarrow> ipRules t = sample_rules | _ \<Rightarrow> False"
  by code_simp

lemma sample_rule_matches: "ip_rule_matches (10, 1, 2, 3) 6 443 (sample_rules ! 0)"
  by code_simp

theorem longest_prefix_match_witness:
  "\<exists>t st r. parseResourceTable sample_doc ''vpn.nju.edu.cn'' = Inr (t, st) \<and> r \<in> set (ipRules t) \<and>
     matchIP t (10, 1, 2, 3) 6 443 = Some (r_grant r) \<and> 32 \<le> pf_bits (r_prefix r)"
proof -
  obtain t st where t: "parseResourceTable sample_doc ''vpn.nju.edu.cn'' = Inr (t, st)" "ipRules t = sample_rules"
    using sample_parses by (auto split: sum.splits prod.splits)
  have m: "sample_rules ! 0 \<in> set (ipRules t)" "pf_bits (r_prefix (sample_rules ! 0)) = 32"
    by (simp_all add: t(2) sample_rules_def)
  note l = longest_prefix_match [OF t(1), of "(10, 1, 2, 3)" 6 443]
  show ?thesis
  proof (cases "matchIP t (10, 1, 2, 3) 6 443")
    case None
    then show ?thesis using l m(1) sample_rule_matches by auto
  next
    case (Some g)
    then obtain r where r: "r \<in> set (ipRules t)" "r_grant r = g"
        "pf_bits (r_prefix (sample_rules ! 0)) \<le> pf_bits (r_prefix r)"
      using l m(1) sample_rule_matches by auto
    with Some t(1) m(2) show ?thesis by auto
  qed
qed

end
