(* ===== verification/Ipc_Resources.thy ===== *)
theory Ipc_Resources
  imports Resource_Table
begin

text \<open>
  The resource listing that crosses the IPC socket: \<open>internal/ipc/resources.go\<close> (the response
  format and the client's \<open>Validate\<close>) and \<open>ResourcesJSON\<close> of \<open>internal/service/service.go\<close>, which
  fills it from the session's view. The theorem composes parser, view, conversion and check.
\<close>

section \<open>The response\<close>

text \<open>A \<open>netip.Prefix\<close> as the client decodes it: it may be invalid or IPv6.\<close>

datatype net_prefix = NoPrefix | Prefix4 prefix4 | Prefix6

record IPResource =
  ir_prefix :: net_prefix
  ir_protocol :: string
  ir_ports :: "u16 \<times> u16"

record TCPDomainResource =
  dr_pattern :: string
  dr_ports :: "u16 \<times> u16"

record ResourceDNS =
  dns_primary :: string
  dns_secondary :: string

text \<open>A nil slice, which a missing or null field leaves, is None.\<close>

record Resources =
  res_IP :: "IPResource list option"
  res_TCPDomains :: "TCPDomainResource list option"
  res_DNS :: ResourceDNS

definition portsOK :: "u16 \<times> u16 \<Rightarrow> bool" where
  "portsOK p \<longleftrightarrow> 0 < fst p \<and> fst p \<le> snd p"

definition ip_resource_ok :: "IPResource \<Rightarrow> bool" where
  "ip_resource_ok r =
     (case ir_prefix r of
        Prefix4 p \<Rightarrow> p = Masked p \<and> portsOK (ir_ports r) \<and> ir_protocol r \<in> {''tcp'', ''udp'', ''all''}
      | _ \<Rightarrow> False)"

definition domain_resource_ok :: "TCPDomainResource \<Rightarrow> bool" where
  "domain_resource_ok r =
     (case Normalize (dr_pattern r) True of
        Some name \<Rightarrow> name = dr_pattern r \<and> portsOK (dr_ports r)
      | None \<Rightarrow> False)"

definition dns_ok :: "string \<Rightarrow> bool" where
  "dns_ok value =
     (if value = [] then True
      else case ParseAddr value of
        Some (Addr4 a) \<Rightarrow> ip4_str a = value
      | _ \<Rightarrow> False)"

definition Validate :: "Resources \<Rightarrow> bool" where
  "Validate r =
     (case (res_IP r, res_TCPDomains r) of
        (Some ips, Some domains) \<Rightarrow>
          list_all ip_resource_ok ips \<and> list_all domain_resource_ok domains \<and>
          dns_ok (dns_primary (res_DNS r)) \<and> dns_ok (dns_secondary (res_DNS r))
      | _ \<Rightarrow> False)"

section \<open>Filling it\<close>

definition dns_text :: "ip4 option \<Rightarrow> string" where
  "dns_text d = (case d of Some a \<Rightarrow> ip4_str a | None \<Rightarrow> [])"

definition resources_of_view :: "ResourceView \<Rightarrow> Resources" where
  "resources_of_view v =
     \<lparr>res_IP = Some (map (\<lambda>r. \<lparr>ir_prefix = Prefix4 (iv_prefix r), ir_protocol = protocol_String (iv_protocol r),
                                ir_ports = iv_ports r\<rparr>) (rv_ip v)),
      res_TCPDomains = Some (map (\<lambda>r. \<lparr>dr_pattern = dv_pattern r, dr_ports = dv_ports r\<rparr>) (rv_domains v)),
      res_DNS = \<lparr>dns_primary = dns_text (fst (rv_dns v)), dns_secondary = dns_text (snd (rv_dns v))\<rparr>\<rparr>"

definition prefix_str :: "prefix4 \<Rightarrow> string" where
  "prefix_str p = ip4_str (pf_addr p) @ ''/'' @ nat_str (pf_bits p)"

definition ports_json :: "u16 \<times> u16 \<Rightarrow> json" where
  "ports_json p = JArr [JNum (nat_str (unat (fst p))), JNum (nat_str (unat (snd p)))]"

fun net_prefix_str :: "net_prefix \<Rightarrow> string" where
  "net_prefix_str (Prefix4 p) = prefix_str p"
| "net_prefix_str _ = []"

definition list_json :: "('a \<Rightarrow> json) \<Rightarrow> 'a list option \<Rightarrow> json" where
  "list_json f xs = (case xs of None \<Rightarrow> JNull | Some l \<Rightarrow> JArr (map f l))"

definition resources_json :: "Resources \<Rightarrow> json" where
  "resources_json r =
     JObj [(''ip'', list_json (\<lambda>x. JObj [(''prefix'', JStr (net_prefix_str (ir_prefix x))),
              (''protocol'', JStr (ir_protocol x)), (''ports'', ports_json (ir_ports x))]) (res_IP r)),
           (''tcpDomains'', list_json (\<lambda>x. JObj [(''pattern'', JStr (dr_pattern x)),
              (''ports'', ports_json (dr_ports x))]) (res_TCPDomains r)),
           (''dns'', JObj [(''primary'', JStr (dns_primary (res_DNS r))),
              (''secondary'', JStr (dns_secondary (res_DNS r)))])]"

text \<open>None is \<open>ErrResourceSnapshotTooLarge\<close>.\<close>

definition EncodeResources :: "Resources \<Rightarrow> int \<Rightarrow> string option" where
  "EncodeResources r limit =
     (let body = print_json (resources_json r) in if len body > limit then None else Some body)"

section \<open>Composition\<close>

lemma dns_text_ok: "dns_ok (dns_text d)"
  by (cases d) (simp_all add: dns_text_def dns_ok_def ParseAddr_ip4_str)

text \<open>C8: whatever resource document the control plane sends, the listing the service builds from
  the parsed table passes the complete check the command line client makes before it prints
  anything.\<close>

theorem parsed_resources_validate:
  assumes "parseResourceTable doc h = Inr (t, st)"
  shows "Validate (resources_of_view (view t))"
  using parsed_rules_ok(1,2) [OF assms]
  by (auto simp: Validate_def resources_of_view_def view_def list_all_iff dns_text_ok
      ip_resource_ok_def domain_resource_ok_def portsOK_def ip_rule_ok_def domain_rule_ok_def
      ports_ok_def protocol_String_def)

theorem parsed_resources_validate_witness:
  "\<exists>t st. parseResourceTable sample_doc ''vpn.nju.edu.cn'' = Inr (t, st) \<and>
     Validate (resources_of_view (view t))"
proof -
  obtain t st where t: "parseResourceTable sample_doc ''vpn.nju.edu.cn'' = Inr (t, st)"
    using sample_parses by (auto split: sum.splits prod.splits)
  with parsed_resources_validate [OF t] show ?thesis by blast
qed

lemma ascii_dns_text: "ascii (dns_text d)"
  by (cases d) (simp_all add: dns_text_def ascii_ip4_str)

lemma plain_nat_str [simp]: "plain (JNum (nat_str n))"
proof -
  have "nat_str n = int_str (int n)" by (simp add: int_str_def)
  then show ?thesis by auto
qed

lemma ascii_normalized:
  assumes "Normalize d True = Some d"
  shows "ascii d"
proof -
  have n: "name_loop True d [] 0" using Normalize_Some(2) [OF assms] .
  show ?thesis
    unfolding list_all_iff
  proof
    fix c
    assume "c \<in> set d"
    with name_loop_chars [OF n] have "name_char c \<or> c = CHR ''.'' \<or> c = CHR ''*''" by blast
    then show "code_in 0 0x7F c" by (auto simp: name_char_def code_in_def)
  qed
qed

lemma list_allI: "(\<And>x. x \<in> set xs \<Longrightarrow> P x) \<Longrightarrow> list_all P xs"
  by (simp add: list_all_iff)

lemma plain_ports: "plain (ports_json p)"
  using plain_nat_str by (simp add: ports_json_def del: plain.simps(1))

lemma ascii_prefix_str: "ascii (prefix_str p)"
  by (simp add: prefix_str_def ascii_ip4_str ascii_nat_str code_in_def)

lemma ascii_protocol_String: "ascii (protocol_String p)"
  by (simp add: protocol_String_def code_in_def)

lemma plain_view:
  assumes "parseResourceTable doc h = Inr (t, st)"
  shows "plain (resources_json (resources_of_view (view t)))"
proof -
  have d: "\<forall>r\<in>set (domainRules t). ascii (d_pattern r)"
    using parsed_rules_ok(2) [OF assms] ascii_normalized by (auto simp: domain_rule_ok_def)
  have ip: "plain (JObj [(''prefix'', JStr (net_prefix_str (Prefix4 p))), (''protocol'', JStr (protocol_String q)),
      (''ports'', ports_json u)])" for p q u
    using ascii_prefix_str ascii_protocol_String plain_ports by (simp add: code_in_def del: list.pred_inject(2))
      (simp add: code_in_def)
  have dom: "plain (JObj [(''pattern'', JStr (d_pattern r)), (''ports'', ports_json u)])"
    if "r \<in> set (domainRules t)" for r u
    using d that plain_ports by (simp add: code_in_def)
  have "list_all plain (map (\<lambda>r. JObj [(''prefix'', JStr (net_prefix_str (Prefix4 (r_prefix r)))),
      (''protocol'', JStr (protocol_String (r_protocol r))),
      (''ports'', ports_json (first (r_ports r), last_port (r_ports r)))]) (ipRules t))"
    by (rule list_allI) (use ip in \<open>auto simp del: plain.simps net_prefix_str.simps\<close>)
  moreover have "list_all plain (map (\<lambda>r. JObj [(''pattern'', JStr (d_pattern r)),
      (''ports'', ports_json (first (d_ports r), last_port (d_ports r)))]) (domainRules t))"
    by (rule list_allI) (use dom in \<open>auto simp del: plain.simps\<close>)
  ultimately show ?thesis
    using ascii_dns_text
    by (simp add: resources_json_def resources_of_view_def view_def list_json_def code_in_def comp_def
        del: net_prefix_str.simps plain.simps(4)) (simp add: code_in_def)
qed

lemma depth_JArr: "(\<And>v. v \<in> set vs \<Longrightarrow> json_depth v \<le> n) \<Longrightarrow> 0 \<le> n \<Longrightarrow> json_depth (JArr vs) \<le> 1 + n"
  by (induction vs) auto

lemma depth_ports: "json_depth (ports_json p) = 1"
  by (simp add: ports_json_def)

lemma depth_list_json: "(\<And>x. json_depth (f x) \<le> n) \<Longrightarrow> 0 \<le> n \<Longrightarrow> json_depth (list_json f xs) \<le> 1 + n"
  by (cases xs) (auto simp: list_json_def intro!: depth_JArr simp del: json_depth.simps(1))

lemma depth_resources: "json_depth (resources_json r) \<le> 4"
proof -
  have "json_depth (list_json (\<lambda>x. JObj [(''prefix'', JStr (net_prefix_str (ir_prefix x))),
      (''protocol'', JStr (ir_protocol x)), (''ports'', ports_json (ir_ports x))]) (res_IP r)) \<le> 1 + 2"
    by (rule depth_list_json) (simp_all add: depth_ports)
  moreover have "json_depth (list_json (\<lambda>x. JObj [(''pattern'', JStr (dr_pattern x)),
      (''ports'', ports_json (dr_ports x))]) (res_TCPDomains r)) \<le> 1 + 2"
    by (rule depth_list_json) (simp_all add: depth_ports)
  ultimately show ?thesis by (simp add: resources_json_def)
qed

text \<open>The body the service encodes for a parsed table stays within the limit and is read back by
  the client's JSON decoder as exactly the value that was encoded.\<close>

theorem resources_body_decodes:
  assumes "parseResourceTable doc h = Inr (t, st)"
    "EncodeResources (resources_of_view (view t)) limit = Some body"
  shows "len body \<le> limit \<and> parse_json body = Some (resources_json (resources_of_view (view t)))"
proof -
  have b: "body = print_json (resources_json (resources_of_view (view t)))" "len body \<le> limit"
    using assms(2) by (auto simp: EncodeResources_def Let_def split: if_splits)
  have "json_depth (resources_json (resources_of_view (view t))) \<le> maxNestingDepth"
    by (rule order_trans [OF depth_resources]) (simp add: maxNestingDepth_def)
  with parse_print_json [OF plain_view [OF assms(1)]] b show ?thesis by simp
qed

theorem resources_body_decodes_witness:
  "\<exists>t st body. parseResourceTable sample_doc ''vpn.nju.edu.cn'' = Inr (t, st) \<and>
     parse_json body = Some (resources_json (resources_of_view (view t)))"
proof -
  obtain t st where t: "parseResourceTable sample_doc ''vpn.nju.edu.cn'' = Inr (t, st)"
    using sample_parses by (auto split: sum.splits prod.splits)
  define body where "body = print_json (resources_json (resources_of_view (view t)))"
  have "EncodeResources (resources_of_view (view t)) (len body) = Some body"
    by (simp add: EncodeResources_def body_def)
  from resources_body_decodes [OF t this] t show ?thesis by blast
qed

end
