(* ===== verification/Wire.thy ===== *)
theory Wire
  imports NetAddr Errors
begin

text \<open>
  The tunnel's wire format, \<open>internal/ztna/wire.go\<close>: the handshake, the data, authentication,
  heartbeat and address frames, and the splitting of the downlink byte stream into IP packets.
  Reading is from a connection as in the prelude: the bytes still to come.

  The independent second implementation of the format, the frame reader of the test server
  (\<open>internal/ztnatest/fake.go\<close>), is modelled as the peer the encoders must agree with.
\<close>

abbreviation Version :: byte where "Version \<equiv> 0x05"
abbreviation cmdHandshake :: byte where "cmdHandshake \<equiv> 0x01"
abbreviation methodHandshake :: byte where "methodHandshake \<equiv> 0xD0"
abbreviation envelopeVersion :: byte where "envelopeVersion \<equiv> 0x53"
abbreviation cmdAuthReq :: byte where "cmdAuthReq \<equiv> 0x13"
abbreviation cmdAuthResp :: byte where "cmdAuthResp \<equiv> 0x93"
abbreviation authRetryStatus :: byte where "authRetryStatus \<equiv> 0x86"
abbreviation cmdDataReq :: byte where "cmdDataReq \<equiv> 0x14"
abbreviation cmdDataResp :: byte where "cmdDataResp \<equiv> 0x94"
abbreviation cmdHeartbeatReq :: byte where "cmdHeartbeatReq \<equiv> 0x15"
abbreviation cmdHeartbeatResp :: byte where "cmdHeartbeatResp \<equiv> 0x95"
abbreviation cmdVIPUpdate :: byte where "cmdVIPUpdate \<equiv> 0x96"
abbreviation handshakeFrameLimit :: nat where "handshakeFrameLimit \<equiv> 32"
abbreviation codeSessionGone :: int where "codeSessionGone \<equiv> 75500002"

section \<open>Addresses\<close>

definition dec_vips :: "string \<Rightarrow> (string \<times> string) decoder" where
  "dec_vips k v a =
     (if is_field ''vip'' k then (let (s, b) = dec_string v (fst a) in ((s, snd a), b))
      else if is_field ''vip6'' k then (let (s, b) = dec_string v (snd a) in ((fst a, s), b))
      else (a, False))"

definition vip_values :: "json \<Rightarrow> string list option" where
  "vip_values data =
     (case unmarshal_value dec_strings [] data of
        Some values \<Rightarrow> Some values
      | None \<Rightarrow>
          (case unmarshal_value (dec_struct dec_vips) ([], []) data of
             Some (vip, vip6) \<Rightarrow> Some [vip, vip6]
           | None \<Rightarrow> None))"

definition dec_vip_envelope :: "string \<Rightarrow> json option decoder" where
  "dec_vip_envelope k v d = (if is_field ''data'' k then dec_raw v d else (d, False))"

definition parseVIPListPayload :: "bytes \<Rightarrow> bytes list" where
  "parseVIPListPayload payload =
     (case parse_json (bytes_str payload) of
        None \<Rightarrow> []
      | Some doc \<Rightarrow>
          (case unmarshal_value (dec_struct dec_vip_envelope) None doc of
             None \<Rightarrow> []
           | Some d \<Rightarrow>
               (case vip_values (case d of Some data \<Rightarrow> data | None \<Rightarrow> doc) of
                  None \<Rightarrow> []
                | Some values \<Rightarrow> if len values > 16 then [] else List.map_filter ParseIP values)))"

definition vipBodyLen :: "byte \<Rightarrow> error + nat" where
  "vipBodyLen addrType =
     (if addrType = 1 then Inr 6 else if addrType = 4 then Inr 18 else if addrType = 5 then Inr 22
      else Inl (ProtocolError W_vip_type))"

text \<open>\<open>net.IPv4\<close> makes the 16-byte form.\<close>

definition parseVIP :: "byte \<Rightarrow> bytes \<Rightarrow> bytes option" where
  "parseVIP addrType body =
     (if length body < 4 then None
      else if addrType = 1 \<or> addrType = 5 then Some (v4_mapped (get4 body 0))
      else None)"

section \<open>Handshake\<close>

definition sid_json :: "string \<Rightarrow> json" where
  "sid_json sid = JObj [(''sid'', JStr sid)]"

definition handshakeRequest :: "string \<Rightarrow> error + bytes" where
  "handshakeRequest sid =
     (if sid = [] then Inl (ProtocolError W_no_sid)
      else let payload = str_bytes (print_json (sid_json sid)) in
        if len payload > 65535 then Inl (ProtocolError W_sid_too_long)
        else Inr ([Version, cmdHandshake, methodHandshake, envelopeVersion, 0x00] @
                  put16 (of_nat (length payload)) @ payload @
                  [Version, 0x04, 0x00, 0x01, 0, 0, 0, 0, 0, 0]))"

text \<open>\<open>dial.Wrap(op, err)\<close> of a failed read.\<close>

definition read_err :: "dial_op \<Rightarrow> io_error \<Rightarrow> error" where
  "read_err op e = WrapError op (IOError e)"

text \<open>One round of the handshake loop: the frame's verdict. \<open>Inr None\<close> goes on to the next frame,
  \<open>Inr (Some vip)\<close> is the result.\<close>

definition handshake_frame :: "bytes \<Rightarrow> error + bytes option \<times> bytes" where
  "handshake_frame r =
     (case read_full 4 r of
        Inl e \<Rightarrow> Inl (read_err Op_read_envelope_head e)
      | Inr (head, r1) \<Rightarrow>
          if head ! 0 = envelopeVersion then
            (case read_full (unat (get16 head 2)) r1 of
               Inl e \<Rightarrow> Inl (read_err Op_read_envelope_body e)
             | Inr (payload, r2) \<Rightarrow>
                 if payload = [] then
                   (if head ! 1 \<noteq> 0 then Inl (ProtocolError W_handshake_rejected) else Inr (None, r2))
                 else case parseEnvelopeCode (bytes_str payload) of
                   None \<Rightarrow> Inl (ProtocolError W_envelope_no_code)
                 | Some code \<Rightarrow>
                     if code = codeSessionGone then Inl (ErrSessionGone code)
                     else if head ! 1 \<noteq> 0 then Inl (ProtocolError W_handshake_rejected)
                     else if code \<noteq> 0 then Inl (ProtocolError (W_handshake_rejected_code code))
                     else Inr (None, r2))
          else if head ! 0 = Version then
            (case vipBodyLen (head ! 3) of
               Inl e \<Rightarrow> Inl e
             | Inr n \<Rightarrow>
                 (case read_full n r1 of
                    Inl e \<Rightarrow> Inl (read_err Op_read_vip e)
                  | Inr (body, r2) \<Rightarrow>
                      if head ! 1 \<noteq> 0 then Inl (ProtocolError W_vip_failed)
                      else case parseVIP (head ! 3) body of
                        None \<Rightarrow> Inl (ProtocolError W_no_ipv4)
                      | Some ip \<Rightarrow> Inr (Some ip, r2)))
          else Inl (ProtocolError W_unknown_handshake_frame))"

fun handshake_loop :: "nat \<Rightarrow> bytes \<Rightarrow> error + bytes \<times> bytes" where
  "handshake_loop 0 r = Inl (ProtocolError W_handshake_frames)"
| "handshake_loop (Suc n) r =
     (case handshake_frame r of
        Inl e \<Rightarrow> Inl e
      | Inr (Some ip, r') \<Rightarrow> Inr (ip, r')
      | Inr (None, r') \<Rightarrow> handshake_loop n r')"

definition readHandshake :: "bytes \<Rightarrow> error + bytes \<times> bytes" where
  "readHandshake r =
     (case read_full 2 r of
        Inl e \<Rightarrow> Inl (read_err Op_read_method e)
      | Inr (method, r1) \<Rightarrow>
          if method ! 0 \<noteq> Version \<or> method ! 1 \<noteq> methodHandshake
          then Inl (ProtocolError W_method_response)
          else handshake_loop handshakeFrameLimit r1)"

section \<open>Frames\<close>

definition encode_packet :: "bytes \<Rightarrow> bytes" where
  "encode_packet p = put16 (of_nat (length p)) @ p"

definition encodeDataFrame :: "string \<Rightarrow> bytes list \<Rightarrow> error + bytes" where
  "encodeDataFrame token pkts =
     (if length token = 0 \<or> len token > 0xFF then Inl (ProtocolError W_token_length)
      else if length pkts = 0 \<or> len pkts > 255 then Inl (ProtocolError W_packet_count)
      else if list_ex (\<lambda>p. length p = 0 \<or> len p > 0xFFFF) pkts then Inl (ProtocolError W_packet_length)
      else Inr ([Version, cmdDataReq, of_nat (length token)] @ str_bytes token @
                [0x00, 0x00, of_nat (length pkts)] @ concat (map encode_packet pkts)))"

definition encodeAuthRequest :: "bytes \<Rightarrow> error + bytes" where
  "encodeAuthRequest body =
     (if len body > 0xFFFF then Inl (ProtocolError W_auth_request_long)
      else Inr ([Version, cmdAuthReq] @ put16 (of_nat (length body)) @ body))"

definition encodeHeartbeat :: bytes where
  "encodeHeartbeat = [Version, cmdHeartbeatReq, 0x00, 0x00]"

record frame =
  cmd :: byte
  status :: byte
  payload :: bytes

definition readFrame :: "bytes \<Rightarrow> error + frame \<times> bytes" where
  "readFrame r =
     (case read_full 2 r of
        Inl e \<Rightarrow> Inl (IOError e)
      | Inr (head, r1) \<Rightarrow>
          if head ! 0 \<noteq> Version then Inl (ProtocolError W_frame_version)
          else if head ! 1 = cmdDataResp \<or> head ! 1 = cmdHeartbeatResp then
            (case read_full 2 r1 of
               Inl e \<Rightarrow> Inl (IOError e)
             | Inr (l, r2) \<Rightarrow>
                 (case read_full (unat (get16 l 0)) r2 of
                    Inl e \<Rightarrow> Inl (IOError e)
                  | Inr (p, r3) \<Rightarrow> Inr (\<lparr>cmd = head ! 1, status = 0, payload = p\<rparr>, r3)))
          else if head ! 1 = cmdAuthResp \<or> head ! 1 = cmdVIPUpdate then
            (case read_full 3 r1 of
               Inl e \<Rightarrow> Inl (IOError e)
             | Inr (l, r2) \<Rightarrow>
                 (case read_full (unat (get16 l 1)) r2 of
                    Inl e \<Rightarrow> Inl (IOError e)
                  | Inr (p, r3) \<Rightarrow> Inr (\<lparr>cmd = head ! 1, status = l ! 0, payload = p\<rparr>, r3)))
          else Inl (ProtocolError W_unknown_frame))"

section \<open>Splitting the downlink stream\<close>

function splitPackets :: "bytes \<Rightarrow> error + bytes list \<times> bytes" where
  "splitPackets stream =
     (if stream = [] then Inr ([], [])
      else if drop_bit 4 (stream ! 0) \<noteq> 4 then Inl (ProtocolError W_stream_not_ipv4)
      else if length stream < 4 then Inr ([], stream)
      else let n = unat (get16 stream 2) in
        if n < 20 then Inl (ProtocolError W_stream_packet_length)
        else if length stream < n then Inr ([], stream)
        else case splitPackets (drop n stream) of
          Inl e \<Rightarrow> Inl e
        | Inr (pkts, rest) \<Rightarrow> Inr (take n stream # pkts, rest))"
  by pat_completeness auto
termination
  by (relation "measure length") auto

declare splitPackets.simps [simp del]

section \<open>The test server's reader\<close>

datatype fake_error = FakeIO io_error | FakeVersion byte | FakeUnknown byte | FakeShort | FakeHead
  | FakeNoLength nat | FakeNoPacket nat

definition readEnvelopePayload :: "bytes \<Rightarrow> fake_error + bytes \<times> bytes" where
  "readEnvelopePayload r =
     (case read_full 2 r of
        Inl e \<Rightarrow> Inl (FakeIO e)
      | Inr (head, r1) \<Rightarrow>
          (case read_full (unat (get16 head 0)) r1 of
             Inl e \<Rightarrow> Inl (FakeIO e)
           | Inr (p, r2) \<Rightarrow> Inr (p, r2)))"

record serverFrame =
  sf_cmd :: byte
  sf_payload :: bytes

fun read_packets :: "nat \<Rightarrow> bytes \<Rightarrow> bytes \<Rightarrow> fake_error + bytes \<times> bytes" where
  "read_packets 0 acc r = Inr (acc, r)"
| "read_packets (Suc n) acc r =
     (case read_full 2 r of
        Inl e \<Rightarrow> Inl (FakeIO e)
      | Inr (l, r1) \<Rightarrow>
          (case read_full (unat (get16 l 0)) r1 of
             Inl e \<Rightarrow> Inl (FakeIO e)
           | Inr (p, r2) \<Rightarrow> read_packets n (acc @ l @ p) r2))"

definition readServerFrame :: "bytes \<Rightarrow> fake_error + serverFrame \<times> bytes" where
  "readServerFrame r =
     (case read_full 2 r of
        Inl e \<Rightarrow> Inl (FakeIO e)
      | Inr (head, r1) \<Rightarrow>
          if head ! 0 \<noteq> 0x05 then Inl (FakeVersion (head ! 0))
          else if head ! 1 = cmdHeartbeatReq then
            (case read_full 2 r1 of
               Inl e \<Rightarrow> Inl (FakeIO e)
             | Inr (_, r2) \<Rightarrow> Inr (\<lparr>sf_cmd = head ! 1, sf_payload = []\<rparr>, r2))
          else if head ! 1 = cmdAuthReq then
            (case read_full 2 r1 of
               Inl e \<Rightarrow> Inl (FakeIO e)
             | Inr (l, r2) \<Rightarrow>
                 (case read_full (unat (get16 l 0)) r2 of
                    Inl e \<Rightarrow> Inl (FakeIO e)
                  | Inr (p, r3) \<Rightarrow> Inr (\<lparr>sf_cmd = head ! 1, sf_payload = p\<rparr>, r3)))
          else if head ! 1 = cmdDataReq then
            (case read_full 1 r1 of
               Inl e \<Rightarrow> Inl (FakeIO e)
             | Inr (lenByte, r2) \<Rightarrow>
                 (case read_full (unat (lenByte ! 0) + 3) r2 of
                    Inl e \<Rightarrow> Inl (FakeIO e)
                  | Inr (mid, r3) \<Rightarrow>
                      (case read_packets (unat (mid ! (length mid - 1))) (lenByte @ mid) r3 of
                         Inl e \<Rightarrow> Inl e
                       | Inr (p, r4) \<Rightarrow> Inr (\<lparr>sf_cmd = head ! 1, sf_payload = p\<rparr>, r4))))
          else Inl (FakeUnknown (head ! 1)))"

fun client_packets :: "nat \<Rightarrow> nat \<Rightarrow> bytes \<Rightarrow> fake_error + bytes list" where
  "client_packets i 0 b = Inr []"
| "client_packets i (Suc n) b =
     (if length b < 2 then Inl (FakeNoLength i)
      else let k = unat (get16 b 0) in
        if length b < 2 + k then Inl (FakeNoPacket i)
        else case client_packets (Suc i) n (drop (2 + k) b) of
          Inl e \<Rightarrow> Inl e
        | Inr ps \<Rightarrow> Inr (take k (drop 2 b) # ps))"

definition parseClientDataFrame :: "bytes \<Rightarrow> fake_error + bytes list" where
  "parseClientDataFrame p =
     (if length p < 4 then Inl FakeShort
      else let at = 1 + unat (p ! 0) in
        if length p < at + 3 then Inl FakeHead
        else client_packets 0 (unat (p ! (at + 2))) (drop (at + 3) p))"


text \<open>The server's side of the handshake (\<open>handleTunnel\<close>): the request is accepted when it carries the
  server's SID; the reply is the method response, an envelope with code 0 and the address.\<close>

definition dec_sid :: "string \<Rightarrow> string decoder" where
  "dec_sid k v s = (if is_field ''sid'' k then dec_string v s else (s, False))"

definition accept_handshake :: "string \<Rightarrow> bytes \<Rightarrow> bytes option" where
  "accept_handshake sid r =
     (case read_full 5 r of
        Inl _ \<Rightarrow> None
      | Inr (head, r1) \<Rightarrow>
          if head ! 0 \<noteq> 0x05 \<or> head ! 1 \<noteq> cmdHandshake \<or> head ! 2 \<noteq> methodHandshake \<or> head ! 3 \<noteq> envelopeVersion
          then None
          else case readEnvelopePayload r1 of
            Inl _ \<Rightarrow> None
          | Inr (p, r2) \<Rightarrow>
              (case unmarshal (dec_struct dec_sid) [] (bytes_str p) of
                 None \<Rightarrow> None
               | Some s \<Rightarrow>
                   if s \<noteq> sid then None
                   else case read_full 10 r2 of
                     Inl _ \<Rightarrow> None
                   | Inr (_, r3) \<Rightarrow> Some r3))"

definition code_body :: "int \<Rightarrow> bytes" where
  "code_body c = str_bytes (print_json (JObj [(''code'', JNum (int_str c))]))"

definition handshake_reply :: "ip4 \<Rightarrow> bytes" where
  "handshake_reply vip =
     [0x05, methodHandshake, envelopeVersion, 0x00] @ put16 (of_nat (length (code_body 0))) @ code_body 0 @
     [0x05, 0x00, 0x00, 0x01] @ ip4_bytes vip @ [0x00, 0x00]"

end
