(* ===== verification/Wire_Props.thy ===== *)
theory Wire_Props
  imports Wire
begin

text \<open>
  The wire format is read back by the peer, and the downlink splitter does not depend on how
  the bytes were cut into frames.
\<close>

section \<open>Stream splitters\<close>

text \<open>A splitter cuts complete items off a byte stream and leaves the rest for the next call. Its
  contract is that more bytes never change the items already cut off.\<close>

locale stream_splitter =
  fixes split :: "'a list \<Rightarrow> 'e + 'p list \<times> 'a list"
  assumes split_Nil: "split [] = Inr ([], [])"
    and split_more: "split a = Inr (ps, r) \<Longrightarrow>
      split (a @ b) = (case split (r @ b) of Inl e \<Rightarrow> Inl e | Inr (qs, r') \<Rightarrow> Inr (ps @ qs, r'))"
    and split_error: "split a = Inl e \<Longrightarrow> split (a @ b) = Inl e"
begin

text \<open>Feeding chunks one after the other, each appended to what the last call left.\<close>

fun feed :: "'a list \<Rightarrow> 'a list list \<Rightarrow> 'e + 'p list \<times> 'a list" where
  "feed buf [] = Inr ([], buf)"
| "feed buf (c # cs) =
     (case split (buf @ c) of
        Inl e \<Rightarrow> Inl e
      | Inr (ps, r) \<Rightarrow> (case feed r cs of Inl e \<Rightarrow> Inl e | Inr (qs, r') \<Rightarrow> Inr (ps @ qs, r')))"

lemma feed_split:
  "split buf = Inr ([], buf) \<Longrightarrow> feed buf cs = Inr (qs, r') \<Longrightarrow> split (buf @ concat cs) = Inr (qs, r')"
proof (induction cs arbitrary: buf qs)
  case (Cons c cs)
  from Cons.prems(2) obtain ps r ps' where s: "split (buf @ c) = Inr (ps, r)"
      and f: "feed r cs = Inr (ps', r')" and q: "qs = ps @ ps'"
    by (auto split: sum.splits)
  have "split ((buf @ c) @ []) = (case split (r @ []) of Inl e \<Rightarrow> Inl e | Inr (qs, r') \<Rightarrow> Inr (ps @ qs, r'))"
    by (rule split_more [OF s])
  then have "split r = Inr ([], r)" using s by (auto split: sum.splits)
  from Cons.IH [OF this f] have "split (r @ concat cs) = Inr (ps', r')" .
  then have "split ((buf @ c) @ concat cs) = Inr (ps @ ps', r')"
    by (simp only: split_more [OF s]) simp
  then show ?case by (simp add: q)
qed simp

lemma feed_error:
  "split buf = Inr ([], buf) \<Longrightarrow> feed buf cs = Inl e \<Longrightarrow> split (buf @ concat cs) = Inl e"
proof (induction cs arbitrary: buf)
  case (Cons c cs)
  show ?case
  proof (cases "split (buf @ c)")
    case (Inl e')
    then show ?thesis using Cons.prems split_error [OF Inl, of "concat cs"] by simp
  next
    case (Inr x)
    then obtain ps r where s: "split (buf @ c) = Inr (ps, r)" by (cases x) auto
    then have f: "feed r cs = Inl e" using Cons.prems by (auto split: sum.splits)
    have "split ((buf @ c) @ []) = (case split (r @ []) of Inl e \<Rightarrow> Inl e | Inr (qs, r') \<Rightarrow> Inr (ps @ qs, r'))"
      by (rule split_more [OF s])
    then have "split r = Inr ([], r)" using s by (auto split: sum.splits)
    from Cons.IH [OF this f] have "split (r @ concat cs) = Inl e" .
    then have "split ((buf @ c) @ concat cs) = Inl e" by (simp only: split_more [OF s]) simp
    then show ?thesis by simp
  qed
qed simp

lemma feed_chunks: "feed [] cs = split (concat cs)"
proof (cases "feed [] cs")
  case (Inl e)
  then show ?thesis using feed_error [of "[]" cs e] split_Nil by simp
next
  case (Inr x)
  then show ?thesis using feed_split [of "[]" cs "fst x" "snd x"] split_Nil by simp
qed

end

section \<open>The downlink splitter\<close>

lemma get16_prefix: "Suc i < length a \<Longrightarrow> get16 (a @ b) i = get16 a i"
  by (simp add: get16_def nth_append)

lemma splitPackets_head:
  assumes "drop_bit 4 (a ! 0) = 4" "20 \<le> unat (get16 a 2)" "unat (get16 a 2) \<le> length a"
  shows "splitPackets (a @ b) = (case splitPackets (drop (unat (get16 a 2)) a @ b) of
    Inl e \<Rightarrow> Inl e | Inr (pkts, rest) \<Rightarrow> Inr (take (unat (get16 a 2)) a # pkts, rest))"
proof -
  let ?n = "unat (get16 a 2)"
  have a: "a \<noteq> []" "\<not> length (a @ b) < 4" "\<not> ?n < 20" "\<not> length (a @ b) < ?n" "a @ b \<noteq> []"
    using assms(2,3) by auto
  have g: "get16 (a @ b) 2 = get16 a 2" using assms(2,3) by (intro get16_prefix) linarith
  have n: "(a @ b) ! 0 = a ! 0" using a(1) by (simp add: nth_append)
  have d: "drop ?n (a @ b) = drop ?n a @ b" "take ?n (a @ b) = take ?n a" using assms(3) by simp_all
  show ?thesis
    by (subst splitPackets.simps) (simp only: a g n d assms(1) Let_def simp_thms if_False)
qed

lemma splitPackets_more:
  "splitPackets a = Inr (ps, r) \<Longrightarrow>
   splitPackets (a @ b) = (case splitPackets (r @ b) of Inl e \<Rightarrow> Inl e | Inr (qs, r') \<Rightarrow> Inr (ps @ qs, r'))"
proof (induction a arbitrary: ps rule: splitPackets.induct)
  case (1 a)
  have keep: "splitPackets (a @ b) = (case splitPackets (a @ b) of Inl e \<Rightarrow> Inl e | Inr (qs, r') \<Rightarrow> Inr ([] @ qs, r'))"
    by (auto split: sum.splits)
  let ?n = "unat (get16 a 2)"
  show ?case
  proof (cases "a = [] \<or> length a < 4 \<or> length a < ?n")
    case True
    then have "ps = [] \<and> r = a"
      using 1(2) by (subst (asm) splitPackets.simps) (auto simp: Let_def split: if_splits sum.splits)
    then have "ps = []" "r = a" by blast+
    then show ?thesis using keep by (simp only:)
  next
    case False
    then have c: "drop_bit 4 (a ! 0) = 4" "20 \<le> ?n" "?n \<le> length a"
      using 1(2) by (subst (asm) splitPackets.simps; auto simp: Let_def split: if_splits)+
    then obtain ps' where ps': "splitPackets (drop ?n a) = Inr (ps', r)" "ps = take ?n a # ps'"
      using 1(2) splitPackets_head [OF c, of "[]"] by (auto split: sum.splits)
    have "splitPackets (drop ?n a @ b) =
        (case splitPackets (r @ b) of Inl e \<Rightarrow> Inl e | Inr (qs, r') \<Rightarrow> Inr (ps' @ qs, r'))"
      using False c ps'(1) by (intro 1(1)) auto
    then show ?thesis
      unfolding splitPackets_head [OF c] ps'(2) by (auto split: sum.splits)
  qed
qed

lemma splitPackets_error: "splitPackets a = Inl e \<Longrightarrow> splitPackets (a @ b) = Inl e"
proof (induction a rule: splitPackets.induct)
  case (1 a)
  let ?n = "unat (get16 a 2)"
  consider "a \<noteq> []" "drop_bit 4 (a ! 0) \<noteq> 4"
    | "4 \<le> length a" "drop_bit 4 (a ! 0) = 4" "?n < 20"
    | "drop_bit 4 (a ! 0) = 4" "20 \<le> ?n" "?n \<le> length a" "splitPackets (drop ?n a) = Inl e"
    using 1(2) by (subst (asm) splitPackets.simps) (auto simp: Let_def split: if_splits sum.splits)
  then show ?case
  proof cases
    case 1
    then show ?thesis using "1.prems"
      by (subst (asm) splitPackets.simps, subst splitPackets.simps) (simp add: nth_append)
  next
    case 2
    then have "a \<noteq> []" by auto
    with 2 show ?thesis using "1.prems"
      by (subst (asm) splitPackets.simps, subst splitPackets.simps) (simp add: nth_append get16_prefix Let_def)
  next
    case 3
    then have "a \<noteq> []" "4 \<le> length a" by auto
    then have "splitPackets (drop ?n a @ b) = Inl e"
      using 3 by (intro "1.IH") auto
    then show ?thesis unfolding splitPackets_head [OF 3(1-3)] by simp
  qed
qed

interpretation downlink: stream_splitter splitPackets
  by unfold_locales (simp_all add: splitPackets_more splitPackets_error, simp add: splitPackets.simps)


text \<open>What is complete, and what may be left over.\<close>

definition ipv4_item :: "bytes \<Rightarrow> bool" where
  "ipv4_item p \<longleftrightarrow> 20 \<le> length p \<and> drop_bit 4 (p ! 0) = 4 \<and> unat (get16 p 2) = length p"

definition incomplete :: "bytes \<Rightarrow> bool" where
  "incomplete r \<longleftrightarrow> r = [] \<or> drop_bit 4 (r ! 0) = 4 \<and> (length r < 4 \<or> length r < unat (get16 r 2))"

lemma splitPackets_Inr:
  "splitPackets s = Inr (ps, r) \<Longrightarrow> concat ps @ r = s \<and> (\<forall>p\<in>set ps. ipv4_item p) \<and> incomplete r"
proof (induction s arbitrary: ps rule: splitPackets.induct)
  case (1 s)
  let ?n = "unat (get16 s 2)"
  show ?case
  proof (cases "s = [] \<or> length s < 4 \<or> length s < ?n")
    case True
    then have "ps = []" "r = s" "s = [] \<or> drop_bit 4 (s ! 0) = 4"
      using 1(2) by (subst (asm) splitPackets.simps; auto simp: Let_def split: if_splits sum.splits)+
    with True show ?thesis by (auto simp: incomplete_def)
  next
    case False
    then have c: "drop_bit 4 (s ! 0) = 4" "20 \<le> ?n" "?n \<le> length s"
      using 1(2) by (subst (asm) splitPackets.simps; auto simp: Let_def split: if_splits)+
    then obtain ps' where ps': "splitPackets (drop ?n s) = Inr (ps', r)" "ps = take ?n s # ps'"
      using 1(2) splitPackets_head [OF c, of "[]"] by (auto split: sum.splits)
    have "concat ps' @ r = drop ?n s \<and> (\<forall>p\<in>set ps'. ipv4_item p) \<and> incomplete r"
      using False c ps'(1) by (intro 1(1)) auto
    moreover have "get16 (take ?n s) 2 = get16 s 2" using c by (simp add: get16_def)
    then have "ipv4_item (take ?n s)" using c by (simp add: ipv4_item_def)
    ultimately show ?thesis using c ps'(2) by simp
  qed
qed

text \<open>Cutting a downlink stream loses and invents nothing: the packets in order followed by the
  rest are the stream, every packet is an IPv4 packet of exactly its declared length, and the
  rest is a proper beginning of one more.\<close>

theorem splitPackets_partition:
  assumes "splitPackets s = Inr (ps, r)"
  shows "concat ps @ r = s \<and> (\<forall>p\<in>set ps. ipv4_item p) \<and> incomplete r"
  by (rule splitPackets_Inr [OF assms])

definition sample_stream :: bytes where
  "sample_stream = [69, 0, 0, 20, 0, 0, 0, 0, 64, 17, 0, 0, 10, 0, 0, 1, 10, 0, 0, 2, 69, 0, 0]"

lemma sample_stream_splits: "splitPackets sample_stream = Inr ([take 20 sample_stream], [69, 0, 0])"
  by code_simp

theorem splitPackets_partition_witness:
  "splitPackets sample_stream = Inr ([take 20 sample_stream], [69, 0, 0]) \<and>
   concat [take 20 sample_stream] @ [69, 0, 0] = sample_stream \<and> incomplete [69, 0, 0]"
  using splitPackets_partition [OF sample_stream_splits] sample_stream_splits by blast

section \<open>Data frames\<close>

lemma unat_of_nat_u16: "n < 65536 \<Longrightarrow> unat (of_nat n :: u16) = n"
  by (simp add: unat_of_nat)

lemma unat_of_nat_byte: "n < 256 \<Longrightarrow> unat (of_nat n :: byte) = n"
  by (simp add: unat_of_nat)

lemma read_full_take: "length a = n \<Longrightarrow> read_full n (a @ r) = Inr (a, r)"
  by (simp add: read_full_def)

lemma get16_put16_alone [simp]: "get16 (put16 w) 0 = w"
  using get16_put16 [of w "[]"] by simp

lemma encode_packet_read:
  assumes "length p \<le> 65535"
  shows "read_full 2 (encode_packet p @ r) = Inr (put16 (of_nat (length p)), p @ r)"
    "unat (get16 (put16 (of_nat (length p))) 0) = length p"
  using assms by (simp_all add: encode_packet_def unat_of_nat_u16)

lemma read_packets_encoded:
  "\<forall>p\<in>set pkts. length p \<le> 65535 \<Longrightarrow>
   read_packets (length pkts) acc (concat (map encode_packet pkts) @ r) =
     Inr (acc @ concat (map encode_packet pkts), r)"
proof (induction pkts arbitrary: acc)
  case (Cons p pkts)
  then show ?case
    using encode_packet_read(1) [of p "concat (map encode_packet pkts) @ r"]
    by (simp add: encode_packet_def unat_of_nat_u16)
qed simp

lemma client_packets_encoded:
  "\<forall>p\<in>set pkts. length p \<le> 65535 \<Longrightarrow>
   client_packets i (length pkts) (concat (map encode_packet pkts)) = Inr pkts"
proof (induction pkts arbitrary: i)
  case (Cons p pkts)
  then have "unat (get16 (encode_packet p @ concat (map encode_packet pkts)) 0) = length p"
    by (simp add: encode_packet_def unat_of_nat_u16)
  moreover have "drop (2 + length p) (encode_packet p @ x) = x"
    "take (length p) (drop 2 (encode_packet p @ x)) = p" for x
    by (simp_all add: encode_packet_def put16_def)
  moreover have "length (encode_packet p) = 2 + length p" by (simp add: encode_packet_def)
  ultimately show ?case using Cons by (simp add: Let_def)
qed simp

lemma data_frame_read:
  assumes "encodeDataFrame token pkts = Inr f"
  shows "\<exists>p. readServerFrame (f @ rest) = Inr (\<lparr>sf_cmd = cmdDataReq, sf_payload = p\<rparr>, rest) \<and>
     parseClientDataFrame p = Inr pkts"
proof -
  let ?body = "concat (map encode_packet pkts)"
  let ?mid = "str_bytes token @ [0x00, 0x00, of_nat (length pkts)]"
  have ok: "0 < length token" "length token \<le> 255" "0 < length pkts" "length pkts \<le> 255"
    "\<forall>p\<in>set pkts. length p \<le> 65535"
    and f: "f = [Version, cmdDataReq] @ [of_nat (length token)] @ ?mid @ ?body"
    using assms by (auto simp: encodeDataFrame_def list_ex_iff split: if_splits)
  have t: "unat (of_nat (length token) :: byte) = length token" "unat (of_nat (length pkts) :: byte) = length pkts"
    using ok by (simp_all add: unat_of_nat_byte)
  let ?p = "[of_nat (length token)] @ ?mid @ ?body"
  have last: "?mid ! (length ?mid - 1) = of_nat (length pkts)" by (simp add: nth_append)
  have "readServerFrame (f @ rest) = Inr (\<lparr>sf_cmd = cmdDataReq, sf_payload = ?p\<rparr>, rest)"
    unfolding readServerFrame_def f
    using read_packets_encoded [OF ok(5), of "[of_nat (length token)] @ ?mid" rest] last t
    by (simp add: read_full_def)
  moreover have "parseClientDataFrame ?p = Inr pkts"
  proof -
    have "drop (1 + length token + 3) ?p = ?body" by (simp add: numeral_3_eq_3)
    then show ?thesis
      using client_packets_encoded [OF ok(5), of 0] t
      by (simp add: parseClientDataFrame_def Let_def nth_append numeral_3_eq_3)
  qed
  ultimately show ?thesis by blast
qed

text \<open>A data frame the client encodes is read by the server as one frame that leaves the following
  bytes untouched, and decodes to the same packets in the same order.\<close>

theorem data_frame_roundtrip:
  assumes "encodeDataFrame token pkts = Inr f"
  shows "\<exists>p. readServerFrame (f @ rest) = Inr (\<lparr>sf_cmd = cmdDataReq, sf_payload = p\<rparr>, rest) \<and>
     parseClientDataFrame p = Inr pkts"
  by (rule data_frame_read [OF assms])

theorem data_frame_roundtrip_witness:
  "\<exists>f p. encodeDataFrame ''tok'' [[1, 2, 3], [4]] = Inr f \<and>
     readServerFrame (f @ [9]) = Inr (\<lparr>sf_cmd = cmdDataReq, sf_payload = p\<rparr>, [9]) \<and>
     parseClientDataFrame p = Inr [[1, 2, 3], [4]]"
proof -
  obtain f where f: "encodeDataFrame ''tok'' [[1, 2, 3], [4]] = Inr f"
    by (simp add: encodeDataFrame_def)
  from data_frame_roundtrip [OF f, of "[9]"] f show ?thesis by blast
qed


section \<open>Handshake\<close>

lemma sid_json_read:
  assumes "ascii sid"
  shows "unmarshal (dec_struct dec_sid) [] (print_json (sid_json sid)) = Some sid"
proof -
  have "plain (sid_json sid)" using assms by (simp add: sid_json_def code_in_def)
  moreover have "json_depth (sid_json sid) \<le> maxNestingDepth" by (simp add: sid_json_def maxNestingDepth_def)
  ultimately have "parse_json (print_json (sid_json sid)) = Some (sid_json sid)" by (rule parse_print_json)
  then show ?thesis by (simp add: unmarshal_def unmarshal_value_def sid_json_def dec_sid_def is_field_def)
qed

lemma code_body_zero: "code_body 0 = [0x7B, 0x22, 0x63, 0x6F, 0x64, 0x65, 0x22, 0x3A, 0x30, 0x7D]"
  by code_simp

lemma code_body_zero_code: "parseEnvelopeCode (bytes_str (code_body 0)) = Some 0"
  by code_simp

lemma handshake_reply_read: "readHandshake (handshake_reply vip @ rest) = Inr (v4_mapped vip, rest)"
proof -
  obtain a b c d where vip: "vip = (a, b, c, d)" by (cases vip)
  let ?vip = "[0x05, 0x00, 0x00, 0x01, a, b, c, d, 0x00, 0x00]"
  have l: "length (code_body 0) = 10" by (simp add: code_body_zero)
  have e: "handshake_reply vip @ rest =
      [0x05, methodHandshake] @ ([envelopeVersion, 0x00] @ put16 10 @ code_body 0 @ ?vip @ rest)"
    by (simp add: handshake_reply_def ip4_bytes_def vip l)
  have f1: "handshake_frame ([envelopeVersion, 0x00] @ put16 10 @ code_body 0 @ ?vip @ rest) = Inr (None, ?vip @ rest)"
  proof -
    have r: "read_full 4 ([envelopeVersion, 0x00] @ put16 10 @ code_body 0 @ ?vip @ rest) =
        Inr ([envelopeVersion, 0x00] @ put16 10, code_body 0 @ ?vip @ rest)"
      by (simp add: read_full_def put16_def)
    have g: "get16 ([envelopeVersion, 0x00] @ put16 10) 2 = 10" by (simp add: get16_def put16_def be16_def)
    have r2: "read_full 10 (code_body 0 @ ?vip @ rest) = Inr (code_body 0, ?vip @ rest)"
      by (rule read_full_append) (simp add: l)
    have ne: "code_body 0 \<noteq> []" by (simp add: code_body_zero)
    show ?thesis
      unfolding handshake_frame_def r sum.case prod.case g
      using r2 ne code_body_zero_code by simp
  qed
  have f2: "handshake_frame (?vip @ rest) = Inr (Some (v4_mapped vip), rest)"
    by (simp add: handshake_frame_def read_full_def vipBodyLen_def parseVIP_def vip get4_def)
  have "handshake_loop 32 ([envelopeVersion, 0x00] @ put16 10 @ code_body 0 @ ?vip @ rest) = Inr (v4_mapped vip, rest)"
    using f1 f2 by (simp add: numeral_eq_Suc)
  then show ?thesis
    unfolding e readHandshake_def by (simp add: read_full_def)
qed

lemma accept_handshakeRequest:
  assumes "ascii sid" "handshakeRequest sid = Inr req"
  shows "accept_handshake sid (req @ rest) = Some rest"
proof -
  let ?p = "str_bytes (print_json (sid_json sid))"
  let ?tail = "[Version, 0x04, 0x00, 0x01, 0, 0, 0, 0, 0, 0] :: bytes"
  have l: "length ?p \<le> 65535"
    and req: "req = [Version, cmdHandshake, methodHandshake, envelopeVersion, 0x00] @
      put16 (of_nat (length ?p)) @ ?p @ ?tail"
    using assms(2) by (auto simp: handshakeRequest_def Let_def split: if_splits)
  have r1: "read_full 5 (req @ rest) =
      Inr ([Version, cmdHandshake, methodHandshake, envelopeVersion, 0x00],
        put16 (of_nat (length ?p)) @ ?p @ ?tail @ rest)"
    by (simp add: req read_full_def)
  have "unat (of_nat (length ?p) :: u16) = length ?p" using l by (simp add: unat_of_nat_u16)
  then have r2: "readEnvelopePayload (put16 (of_nat (length ?p)) @ ?p @ ?tail @ rest) = Inr (?p, ?tail @ rest)"
    by (simp add: readEnvelopePayload_def)
  have r3: "read_full 10 (?tail @ rest) = Inr (?tail, rest)" by (simp add: read_full_def)
  show ?thesis
    unfolding accept_handshake_def r1 sum.case prod.case
    using sid_json_read [OF assms(1)] r2 r3 by simp
qed

text \<open>C9: client and server agree on the handshake: the server accepts the request of a client that
  knows its SID and leaves what follows, and the client takes from the server's reply exactly
  the address the server assigned.\<close>

theorem handshake_exchange:
  assumes "ascii sid" "handshakeRequest sid = Inr req"
  shows "accept_handshake sid (req @ rest) = Some rest \<and>
     readHandshake (handshake_reply vip @ rest') = Inr (v4_mapped vip, rest')"
  using accept_handshakeRequest [OF assms] handshake_reply_read by blast

theorem handshake_exchange_witness:
  "\<exists>req. handshakeRequest ''s1'' = Inr req \<and> accept_handshake ''s1'' (req @ [7]) = Some [7] \<and>
     readHandshake (handshake_reply (172, 29, 56, 18) @ []) = Inr (v4_mapped (172, 29, 56, 18), [])"
proof -
  have "isl (handshakeRequest ''s1'') = False" by code_simp
  then obtain req where r: "handshakeRequest ''s1'' = Inr req" by (cases "handshakeRequest ''s1''") auto
  have "ascii ''s1''" by (simp add: code_in_def)
  from handshake_exchange [OF this r, of "[7]"] r show ?thesis by blast
qed

lemma handshake_frame_Inr:
  assumes "handshake_frame r = Inr (v, r')"
  shows "(\<exists>x. r = x @ r') \<and> (\<forall>ip. v = Some ip \<longrightarrow> (\<exists>a. ip = v4_mapped a))"
proof -
  obtain head r1 where h: "read_full 4 r = Inr (head, r1)"
    using assms unfolding handshake_frame_def by (cases "read_full 4 r") auto
  then have r: "r = head @ r1" by (simp add: read_full_Inr)
  show ?thesis
  proof (cases "head ! 0 = envelopeVersion")
    case True
    obtain p r2 where p: "read_full (unat (get16 head 2)) r1 = Inr (p, r2)"
      using assms True unfolding handshake_frame_def h
      by (cases "read_full (unat (get16 head 2)) r1") auto
    then have "v = None \<and> r' = r2"
      using assms True unfolding handshake_frame_def h
      by (auto split: if_splits option.splits)
    with p r show ?thesis by (simp add: read_full_Inr)
  next
    case False
    obtain n where n: "vipBodyLen (head ! 3) = Inr n"
      using assms False unfolding handshake_frame_def h
      by (cases "vipBodyLen (head ! 3)") (auto split: if_splits)
    obtain body r2 where b: "read_full n r1 = Inr (body, r2)"
      using assms False n unfolding handshake_frame_def h
      by (cases "read_full n r1") (auto split: if_splits)
    then have "r' = r2 \<and> v = parseVIP (head ! 3) body"
      using assms False n unfolding handshake_frame_def h
      by (auto split: if_splits option.splits)
    moreover have "\<forall>ip. parseVIP (head ! 3) body = Some ip \<longrightarrow> ip = v4_mapped (get4 body 0)"
      by (simp add: parseVIP_def)
    ultimately show ?thesis using b r by (auto simp: read_full_Inr simp del: split_paired_Ex)
  qed
qed

lemma handshake_loop_Inr:
  "handshake_loop n r = Inr (ip, r') \<Longrightarrow> (\<exists>x. r = x @ r') \<and> (\<exists>a. ip = v4_mapped a)"
proof (induction n arbitrary: r)
  case (Suc n)
  then obtain v r1 where f: "handshake_frame r = Inr (v, r1)" by (auto split: sum.splits)
  show ?case
  proof (cases v)
    case None
    then have "handshake_loop n r1 = Inr (ip, r')" using Suc.prems f by simp
    from Suc.IH [OF this] handshake_frame_Inr [OF f] show ?thesis by auto
  next
    case (Some i)
    then have "i = ip" "r1 = r'" using Suc.prems f by auto
    with handshake_frame_Inr [OF f] Some show ?thesis by auto
  qed
qed simp

lemma handshake_loop_flood:
  "k \<le> n \<Longrightarrow> handshake_loop k (concat (replicate n [envelopeVersion, 0, 0, 0]) @ rest) =
     Inl (ProtocolError W_handshake_frames)"
proof (induction k arbitrary: n)
  case (Suc k)
  then obtain m where n: "n = Suc m" "k \<le> m" by (cases n) auto
  have "handshake_frame ([envelopeVersion, 0, 0, 0] @ s) = Inr (None, s)" for s
    by (simp add: handshake_frame_def read_full_def get16_def be16_def)
  with Suc.IH [OF n(2)] show ?case by (simp add: n)
qed simp

text \<open>A handshake never runs away: a peer that keeps sending empty envelopes is cut off after 32
  frames, and a successful handshake has read a beginning of the stream and yields an IPv4
  address.\<close>

theorem handshake_bounded:
  "readHandshake ([Version, methodHandshake] @ concat (replicate (32 + n) [envelopeVersion, 0, 0, 0]) @ rest) =
     Inl (ProtocolError W_handshake_frames) \<and>
   (\<forall>r ip r'. readHandshake r = Inr (ip, r') \<longrightarrow> (\<exists>x. r = x @ r') \<and> (\<exists>a. ip = v4_mapped a))"
proof (intro conjI allI impI)
  show "readHandshake ([Version, methodHandshake] @ concat (replicate (32 + n) [envelopeVersion, 0, 0, 0]) @ rest) =
      Inl (ProtocolError W_handshake_frames)"
    using handshake_loop_flood [of 32 "32 + n" rest] by (simp add: readHandshake_def read_full_def)
next
  fix r ip r'
  assume "readHandshake r = Inr (ip, r')"
  then obtain m r1 where r: "r = m @ r1" and l: "handshake_loop 32 r1 = Inr (ip, r')"
    by (auto simp: readHandshake_def read_full_Inr split: sum.splits if_splits)
  from handshake_loop_Inr [OF l] r show "\<exists>x. r = x @ r'" "\<exists>a. ip = v4_mapped a" by auto
qed

theorem handshake_bounded_witness:
  "readHandshake ([Version, methodHandshake] @ concat (replicate (32 + 1) [envelopeVersion, 0, 0, 0]) @ []) =
     Inl (ProtocolError W_handshake_frames)"
  using handshake_bounded [of 1 "[]"] by blast

end
