(* ===== verification/Endpoint.thy ===== *)
theory Endpoint
  imports NetAddr Errors
begin

text \<open>
  \<open>internal/l3/endpoint.go\<close>: the seam between the tunnel and the bearer. Both sides register a
  callback; each registration has its own identity, and unregistering removes only the
  registration it belongs to.

  The two callbacks live in one immutable \<open>binding\<close> behind an atomic pointer, changed by a
  compare-and-swap loop. A pointer is the number of its allocation together with what it
  points to; a callback is a value of the type parameters \<open>'u\<close> and \<open>'d\<close> that says whom to
  call, and \<open>Send\<close> and \<open>Deliver\<close> return it.
\<close>

record 'u uplinkBinding =
  up_owner :: nat
  up_call :: 'u

record 'd downlinkBinding =
  down_owner :: nat
  down_call :: 'd

record ('u, 'd) binding =
  b_uplink :: "'u uplinkBinding option"
  b_downlink :: "'d downlinkBinding option"

record ('u, 'd) Endpoint =
  ep_binding :: "(nat \<times> ('u, 'd) binding) option"
  ep_alloc :: nat \<comment> \<open>the next pointer an allocation returns\<close>
  ep_local :: "ip4 option"

definition New :: "('u, 'd) Endpoint" where
  "New = \<lparr>ep_binding = None, ep_alloc = 0, ep_local = None\<rparr>"

section \<open>The local address\<close>

definition SetLocalAddr :: "bytes \<Rightarrow> ('u, 'd) Endpoint \<Rightarrow> ('u, 'd) Endpoint" where
  "SetLocalAddr ip ep =
     (case To4 ip of None \<Rightarrow> ep | Some v4 \<Rightarrow> ep\<lparr>ep_local := Some v4\<rparr>)"

text \<open>The nil \<open>net.IP\<close> is the empty slice.\<close>

definition LocalAddr :: "('u, 'd) Endpoint \<Rightarrow> bytes" where
  "LocalAddr ep = (case ep_local ep of None \<Rightarrow> [] | Some a \<Rightarrow> ip4_bytes a)"

definition LocalAddr4 :: "('u, 'd) Endpoint \<Rightarrow> ip4 \<times> bool" where
  "LocalAddr4 ep = (case ep_local ep of None \<Rightarrow> ((0, 0, 0, 0), False) | Some a \<Rightarrow> (a, True))"

section \<open>Changing the callbacks\<close>

definition deref :: "(nat \<times> ('u, 'd) binding) option \<Rightarrow> ('u, 'd) binding" where
  "deref cur = (case cur of None \<Rightarrow> \<lparr>b_uplink = None, b_downlink = None\<rparr> | Some (_, b) \<Rightarrow> b)"

abbreviation current :: "('u, 'd) Endpoint \<Rightarrow> ('u, 'd) binding" where
  "current ep \<equiv> deref (ep_binding ep)"

text \<open>A successful compare-and-swap: the new binding gets a new pointer.\<close>

definition store :: "('u, 'd) binding \<Rightarrow> ('u, 'd) Endpoint \<Rightarrow> ('u, 'd) Endpoint" where
  "store next ep = ep\<lparr>ep_binding := Some (ep_alloc ep, next), ep_alloc := Suc (ep_alloc ep)\<rparr>"

text \<open>\<open>update\<close> with interference: the \<open>i\<close>-th element of the list is what the other goroutines do
  to the endpoint between the load and the compare-and-swap of round \<open>i\<close>; after the list the
  rounds are undisturbed. The compare-and-swap compares pointers only.\<close>

fun update :: "(('u, 'd) binding \<Rightarrow> ('u, 'd) binding) \<Rightarrow> (('u, 'd) Endpoint \<Rightarrow> ('u, 'd) Endpoint) list \<Rightarrow>
    ('u, 'd) Endpoint \<Rightarrow> ('u, 'd) Endpoint" where
  "update change [] ep = store (change (current ep)) ep"
| "update change (env # envs) ep =
     (let cur = ep_binding ep; next = change (deref cur); ep' = env ep in
      if map_option fst (ep_binding ep') = map_option fst cur then store next ep'
      else update change envs ep')"

text \<open>The registrations and what they return: the owner, by which the returned closure unregisters.\<close>

definition SetUplink :: "'u \<Rightarrow> ('u, 'd) Endpoint \<Rightarrow> ('u, 'd) Endpoint \<times> nat" where
  "SetUplink f ep =
     (let owner = ep_alloc ep; ep = ep\<lparr>ep_alloc := Suc owner\<rparr>
      in (update (\<lambda>b. b\<lparr>b_uplink := Some \<lparr>up_owner = owner, up_call = f\<rparr>\<rparr>) [] ep, owner))"

definition drop_uplink :: "nat \<Rightarrow> ('u, 'd) binding \<Rightarrow> ('u, 'd) binding" where
  "drop_uplink owner b =
     (if map_option up_owner (b_uplink b) = Some owner then b\<lparr>b_uplink := None\<rparr> else b)"

definition unregisterUplink :: "nat \<Rightarrow> ('u, 'd) Endpoint \<Rightarrow> ('u, 'd) Endpoint" where
  "unregisterUplink owner ep = update (drop_uplink owner) [] ep"

definition SetDownlink :: "'d \<Rightarrow> ('u, 'd) Endpoint \<Rightarrow> ('u, 'd) Endpoint \<times> nat" where
  "SetDownlink f ep =
     (let owner = ep_alloc ep; ep = ep\<lparr>ep_alloc := Suc owner\<rparr>
      in (update (\<lambda>b. b\<lparr>b_downlink := Some \<lparr>down_owner = owner, down_call = f\<rparr>\<rparr>) [] ep, owner))"

definition drop_downlink :: "nat \<Rightarrow> ('u, 'd) binding \<Rightarrow> ('u, 'd) binding" where
  "drop_downlink owner b =
     (if map_option down_owner (b_downlink b) = Some owner then b\<lparr>b_downlink := None\<rparr> else b)"

definition unregisterDownlink :: "nat \<Rightarrow> ('u, 'd) Endpoint \<Rightarrow> ('u, 'd) Endpoint" where
  "unregisterDownlink owner ep = update (drop_downlink owner) [] ep"

text \<open>Which callback \<open>Send\<close> and \<open>Deliver\<close> call.\<close>

definition Send :: "('u, 'd) Endpoint \<Rightarrow> error + 'u" where
  "Send ep = (case b_uplink (current ep) of None \<Rightarrow> Inl ErrNoUplink | Some b \<Rightarrow> Inr (up_call b))"

definition Deliver :: "('u, 'd) Endpoint \<Rightarrow> 'd option" where
  "Deliver ep = map_option down_call (b_downlink (current ep))"

section \<open>The loop is one atomic change\<close>

text \<open>What other goroutines do respects the pointers: it never reuses one, so a pointer that is
  still there is the same binding.\<close>

definition pointers_ok :: "('u, 'd) Endpoint \<Rightarrow> bool" where
  "pointers_ok ep \<longleftrightarrow> (case ep_binding ep of None \<Rightarrow> True | Some (p, _) \<Rightarrow> p < ep_alloc ep)"

definition interferes :: "(('u, 'd) Endpoint \<Rightarrow> ('u, 'd) Endpoint) \<Rightarrow> bool" where
  "interferes env \<longleftrightarrow> (\<forall>ep. pointers_ok ep \<longrightarrow>
     pointers_ok (env ep) \<and> ep_alloc ep \<le> ep_alloc (env ep) \<and>
     (ep_binding (env ep) = ep_binding ep \<or>
      (\<exists>p b. ep_binding (env ep) = Some (p, b) \<and> ep_alloc ep \<le> p)))"

lemma store_simps [simp]:
  "current (store b ep) = b" "ep_local (store b ep) = ep_local ep" "ep_alloc (store b ep) = Suc (ep_alloc ep)"
  by (simp_all add: store_def deref_def)

lemma update_interferes: "interferes (update c [])"
  by (auto simp: interferes_def store_def pointers_ok_def)

lemma SetLocalAddr_interferes: "interferes (SetLocalAddr ip)"
  by (auto simp: interferes_def SetLocalAddr_def pointers_ok_def split: option.splits)

text \<open>A kept pointer means a kept binding.\<close>

lemma kept_pointer:
  assumes "interferes env" "pointers_ok ep"
    and "map_option fst (ep_binding (env ep)) = map_option fst (ep_binding ep)"
  shows "ep_binding (env ep) = ep_binding ep"
proof (rule ccontr)
  assume "ep_binding (env ep) \<noteq> ep_binding ep"
  then obtain p b where "ep_binding (env ep) = Some (p, b)" "ep_alloc ep \<le> p"
    using assms(1,2) by (force simp: interferes_def)
  with assms(2,3) show False by (auto simp: pointers_ok_def split: option.splits)
qed

lemma update_linear:
  assumes "\<forall>env\<in>set envs. interferes env" "pointers_ok ep"
  shows "\<exists>k\<le>length envs. update change envs ep = update change [] (fold (\<lambda>env. env) (take k envs) ep)"
  using assms
proof (induction envs arbitrary: ep)
  case (Cons env envs)
  show ?case
  proof (cases "map_option fst (ep_binding (env ep)) = map_option fst (ep_binding ep)")
    case True
    then have "ep_binding (env ep) = ep_binding ep" using Cons.prems by (intro kept_pointer) auto
    then show ?thesis using True by (intro exI [of _ 1]) (simp add: Let_def)
  next
    case False
    have "pointers_ok (env ep)" using Cons.prems by (auto simp: interferes_def)
    then obtain k where "k \<le> length envs"
        "update change envs (env ep) = update change [] (fold (\<lambda>env. env) (take k envs) (env ep))"
      using Cons.IH [of "env ep"] Cons.prems by auto
    then show ?thesis using False by (intro exI [of _ "Suc k"]) (simp add: Let_def)
  qed
qed simp

text \<open>C17: the compare-and-swap loop of the endpoint is one atomic change: whatever the other goroutines do
  between its loads and its swaps, it ends, and the outcome is that of an undisturbed change
  applied at one moment between theirs, so that no concurrent registration is lost.\<close>

theorem update_atomic:
  assumes "\<forall>env\<in>set envs. interferes env" "pointers_ok ep"
  shows "\<exists>k\<le>length envs. update change envs ep = update change [] (fold (\<lambda>env. env) (take k envs) ep)"
  by (rule update_linear [OF assms])

theorem update_atomic_witness:
  "\<exists>k\<le>1. update (drop_uplink 7) [update (drop_downlink 3) []] (New :: (nat, nat) Endpoint) =
     update (drop_uplink 7) [] (fold (\<lambda>env. env) (take k [update (drop_downlink 3) []]) New)"
  using update_atomic [of "[update (drop_downlink 3) []]" "New :: (nat, nat) Endpoint" "drop_uplink 7"]
  by (simp add: update_interferes New_def pointers_ok_def)

section \<open>Registrations\<close>

datatype ('u, 'd) ep_op =
    RegisterUp 'u | UnregisterUp nat | RegisterDown 'd | UnregisterDown nat | SetLocal bytes

fun ep_step :: "('u, 'd) ep_op \<Rightarrow> ('u, 'd) Endpoint \<Rightarrow> ('u, 'd) Endpoint" where
  "ep_step (RegisterUp f) ep = fst (SetUplink f ep)"
| "ep_step (UnregisterUp o1) ep = unregisterUplink o1 ep"
| "ep_step (RegisterDown f) ep = fst (SetDownlink f ep)"
| "ep_step (UnregisterDown o1) ep = unregisterDownlink o1 ep"
| "ep_step (SetLocal ip) ep = SetLocalAddr ip ep"

lemmas ep_defs = SetUplink_def SetDownlink_def unregisterUplink_def unregisterDownlink_def
  SetLocalAddr_def drop_uplink_def drop_downlink_def Let_def

fun registers_up :: "('u, 'd) ep_op \<Rightarrow> bool" where
  "registers_up (RegisterUp f) = True"
| "registers_up _ = False"

lemma uplink_after:
  "\<forall>e\<in>set es. \<not> registers_up e \<Longrightarrow>
   b_uplink (current (fold ep_step es ep)) =
     (case b_uplink (current ep) of
        None \<Rightarrow> None
      | Some b \<Rightarrow> if UnregisterUp (up_owner b) \<in> set es then None else Some b)"
proof (induction es arbitrary: ep)
  case (Cons e es)
  then show ?case by (cases e) (auto simp: ep_defs split: option.splits)
qed (simp split: option.splits)

text \<open>An uplink registration stays the current one until its own unregistration: after it, whatever
  other registrations of the downlink, address updates and stale unregistrations follow, the
  callback called is the registered one exactly as long as its own owner was not unregistered.\<close>

theorem uplink_registration_kept:
  assumes "\<forall>e\<in>set es. \<not> registers_up e"
  shows "Send (fold ep_step es (fst (SetUplink f ep))) =
    (if UnregisterUp (snd (SetUplink f ep)) \<in> set es then Inl ErrNoUplink else Inr f)"
  using uplink_after [OF assms, of "fst (SetUplink f ep)"] by (auto simp: Send_def ep_defs)

theorem uplink_registration_kept_witness:
  "Send (fold ep_step [UnregisterUp 0, RegisterDown (2::nat)]
     (fst (SetUplink (1::nat) (fst (SetUplink 0 New))))) = Inr 1"
  using uplink_registration_kept [of "[UnregisterUp 0, RegisterDown (2::nat)]" "1::nat" "fst (SetUplink 0 New)"]
  by (simp add: SetUplink_def New_def Let_def)

end
