(* ===== verification/Packetlog.thy ===== *)
theory Packetlog
  imports Json_Props
begin

text \<open>
  \<open>internal/packetlog/packet.go\<close>: the log lines of dropped packets, written by the relay and the
  tunnel and read back by the release tests. A \<open>Kind\<close> and a \<open>Reason\<close> are strings in Go, as here;
  the Chinese display texts are their UTF-8 bytes.
\<close>

type_synonym Kind = string
type_synonym Reason = string

abbreviation RelayDrop :: Kind where "RelayDrop \<equiv> ''relay_drop''"
abbreviation TunnelRejection :: Kind where "TunnelRejection \<equiv> ''tunnel_reject''"
abbreviation DownlinkInvalid :: Reason where "DownlinkInvalid \<equiv> ''downlink_invalid''"
abbreviation DownlinkAddress :: Reason where "DownlinkAddress \<equiv> ''downlink_address''"
abbreviation DownlinkFull :: Reason where "DownlinkFull \<equiv> ''downlink_full''"
abbreviation DownlinkNoSession :: Reason where "DownlinkNoSession \<equiv> ''downlink_no_session''"
abbreviation UplinkInvalid :: Reason where "UplinkInvalid \<equiv> ''uplink_invalid''"
abbreviation UplinkAddress :: Reason where "UplinkAddress \<equiv> ''uplink_address''"
abbreviation PeerNotReady :: Reason where "PeerNotReady \<equiv> ''peer_not_ready''"
abbreviation ReadBufferFull :: Reason where "ReadBufferFull \<equiv> ''read_buffer_full''"
abbreviation UplinkNoSession :: Reason where "UplinkNoSession \<equiv> ''uplink_no_session''"
abbreviation UplinkUnavailable :: Reason where "UplinkUnavailable \<equiv> ''uplink_unavailable''"
abbreviation UplinkRejected :: Reason where "UplinkRejected \<equiv> ''uplink_rejected''"
abbreviation StaleQueue :: Reason where "StaleQueue \<equiv> ''stale_queue''"
abbreviation MTUExceeded :: Reason where "MTUExceeded \<equiv> ''mtu_exceeded''"
abbreviation LinkUnavailable :: Reason where "LinkUnavailable \<equiv> ''link_unavailable''"
abbreviation ResourceUnmatched :: Reason where "ResourceUnmatched \<equiv> ''resource_unmatched''"
abbreviation FlowRejected :: Reason where "FlowRejected \<equiv> ''flow_rejected''"
abbreviation PendingFull :: Reason where "PendingFull \<equiv> ''pending_full''"
abbreviation FlowTableFull :: Reason where "FlowTableFull \<equiv> ''flow_table_full''"
abbreviation FragmentMissing :: Reason where "FragmentMissing \<equiv> ''fragment_missing''"
abbreviation FragmentOrder :: Reason where "FragmentOrder \<equiv> ''fragment_order''"
abbreviation FragmentFull :: Reason where "FragmentFull \<equiv> ''fragment_full''"
abbreviation InvalidPacket :: Reason where "InvalidPacket \<equiv> ''invalid_packet''"

section \<open>Display texts\<close>

definition prefix_RelayDrop :: string where
  "prefix_RelayDrop = ''wireguard: '' @
     [CHR 0xE4, CHR 0xB8, CHR 0xA2, CHR 0xE5, CHR 0xBC, CHR 0x83] @
     '' ''"

definition prefix_TunnelRejection :: string where
  "prefix_TunnelRejection =
     [CHR 0xE4, CHR 0xB8, CHR 0x8A, CHR 0xE8, CHR 0xA1, CHR 0x8C, CHR 0xE6, CHR 0x8B, CHR 0x92,
      CHR 0xE7, CHR 0xBB, CHR 0x9D, CHR 0xEF, CHR 0xBC, CHR 0x9A]"

definition kind_prefix :: "Kind \<Rightarrow> string" where
  "kind_prefix k =
     (if k = RelayDrop then prefix_RelayDrop
      else if k = TunnelRejection then prefix_TunnelRejection
      else [])"

definition text_DownlinkInvalid :: string where
  "text_DownlinkInvalid =
     [CHR 0xE4, CHR 0xB8, CHR 0x8B, CHR 0xE8, CHR 0xA1, CHR 0x8C, CHR 0xE6, CHR 0x95, CHR 0xB0,
      CHR 0xE6, CHR 0x8D, CHR 0xAE, CHR 0xE5, CHR 0x88, CHR 0x87, CHR 0xE4, CHR 0xB8, CHR 0x8D,
      CHR 0xE5, CHR 0x87, CHR 0xBA] @
     '' IPv4 '' @
     [CHR 0xE5, CHR 0x8C, CHR 0x85]"

definition text_DownlinkAddress :: string where
  "text_DownlinkAddress =
     [CHR 0xE4, CHR 0xB8, CHR 0x8B, CHR 0xE8, CHR 0xA1, CHR 0x8C, CHR 0xE5, CHR 0x8C, CHR 0x85,
      CHR 0xE7, CHR 0x9A, CHR 0x84, CHR 0xE7, CHR 0x9B, CHR 0xAE, CHR 0xE7, CHR 0x9A, CHR 0x84,
      CHR 0xE5, CHR 0x9C, CHR 0xB0, CHR 0xE5, CHR 0x9D, CHR 0x80, CHR 0xE4, CHR 0xB8, CHR 0x8D,
      CHR 0xE6, CHR 0x98, CHR 0xAF, CHR 0xE6, CHR 0x9C, CHR 0xAC, CHR 0xE6, CHR 0xAC, CHR 0xA1,
      CHR 0xE5, CHR 0x88, CHR 0x86, CHR 0xE9, CHR 0x85, CHR 0x8D, CHR 0xE5, CHR 0x88, CHR 0xB0,
      CHR 0xE7, CHR 0x9A, CHR 0x84, CHR 0xE5, CHR 0x9C, CHR 0xB0, CHR 0xE5, CHR 0x9D, CHR 0x80,
      CHR 0xEF, CHR 0xBC, CHR 0x88, CHR 0xE6, CHR 0xA3, CHR 0x80, CHR 0xE6, CHR 0x9F, CHR 0xA5,
      CHR 0xE5, CHR 0xAF, CHR 0xB9, CHR 0xE7, CHR 0xAB, CHR 0xAF] @
     '' allowed_ips '' @
     [CHR 0xE4, CHR 0xB8, CHR 0x8E] @
     '' peer_address'' @
     [CHR 0xEF, CHR 0xBC, CHR 0x89]"

definition text_DownlinkFull :: string where
  "text_DownlinkFull =
     [CHR 0xE4, CHR 0xB8, CHR 0x8B, CHR 0xE8, CHR 0xA1, CHR 0x8C, CHR 0xE9, CHR 0x98, CHR 0x9F,
      CHR 0xE5, CHR 0x88, CHR 0x97, CHR 0xE5, CHR 0xB7, CHR 0xB2, CHR 0xE6, CHR 0xBB, CHR 0xA1]"

definition text_DownlinkNoSession :: string where
  "text_DownlinkNoSession =
     [CHR 0xE4, CHR 0xBC, CHR 0x9A, CHR 0xE8, CHR 0xAF, CHR 0x9D, CHR 0xE5, CHR 0xB7, CHR 0xB2,
      CHR 0xE6, CHR 0x91, CHR 0x98, CHR 0xE6, CHR 0x8E, CHR 0x89, CHR 0xEF, CHR 0xBC, CHR 0x8C,
      CHR 0xE4, CHR 0xB8, CHR 0x8B, CHR 0xE8, CHR 0xA1, CHR 0x8C, CHR 0xE5, CHR 0x8C, CHR 0x85,
      CHR 0xE8, CHR 0xA2, CHR 0xAB, CHR 0xE4, CHR 0xB8, CHR 0xA2, CHR 0xE5, CHR 0xBC, CHR 0x83,
      CHR 0xEF, CHR 0xBC, CHR 0x88, CHR 0xE6, CHR 0x96, CHR 0xAD, CHR 0xE5, CHR 0xBC, CHR 0x80,
      CHR 0xE7, CHR 0xAA, CHR 0x97, CHR 0xE5, CHR 0x8F, CHR 0xA3, CHR 0xE9, CHR 0x87, CHR 0x8C,
      CHR 0xE7, CHR 0x9A, CHR 0x84, CHR 0xE5, CHR 0xB0, CHR 0xBE, CHR 0xE5, CHR 0xB7, CHR 0xB4,
      CHR 0xEF, CHR 0xBC, CHR 0x89]"

definition text_UplinkInvalid :: string where
  "text_UplinkInvalid =
     [CHR 0xE4, CHR 0xB8, CHR 0x8A, CHR 0xE8, CHR 0xA1, CHR 0x8C, CHR 0xE8, CHR 0xA7, CHR 0xA3,
      CHR 0xE5, CHR 0x87, CHR 0xBA, CHR 0xE6, CHR 0x9D, CHR 0xA5, CHR 0xE7, CHR 0x9A, CHR 0x84,
      CHR 0xE4, CHR 0xB8, CHR 0x8D, CHR 0xE6, CHR 0x98, CHR 0xAF] @
     '' IPv4 '' @
     [CHR 0xE5, CHR 0x8C, CHR 0x85]"

definition text_UplinkAddress :: string where
  "text_UplinkAddress =
     [CHR 0xE4, CHR 0xB8, CHR 0x8A, CHR 0xE8, CHR 0xA1, CHR 0x8C, CHR 0xE5, CHR 0x8C, CHR 0x85,
      CHR 0xE7, CHR 0x9A, CHR 0x84, CHR 0xE6, CHR 0xBA, CHR 0x90, CHR 0xE5, CHR 0x9C, CHR 0xB0,
      CHR 0xE5, CHR 0x9D, CHR 0x80, CHR 0xE4, CHR 0xB8, CHR 0x8D, CHR 0xE6, CHR 0x98, CHR 0xAF] @
     '' peer_address'' @
     [CHR 0xEF, CHR 0xBC, CHR 0x88, CHR 0xE5, CHR 0xAF, CHR 0xB9, CHR 0xE7, CHR 0xAB, CHR 0xAF] @
     '' ip '' @
     [CHR 0xE9, CHR 0x85, CHR 0x8D, CHR 0xE7, CHR 0xBD, CHR 0xAE, CHR 0xE4, CHR 0xB8, CHR 0x8D,
      CHR 0xE4, CHR 0xB8, CHR 0x80, CHR 0xE8, CHR 0x87, CHR 0xB4, CHR 0xEF, CHR 0xBC, CHR 0x9F,
      CHR 0xEF, CHR 0xBC, CHR 0x89]"

definition text_PeerNotReady :: string where
  "text_PeerNotReady =
     [CHR 0xE5, CHR 0xAF, CHR 0xB9, CHR 0xE7, CHR 0xAB, CHR 0xAF, CHR 0xE5, CHR 0xB0, CHR 0x9A,
      CHR 0xE6, CHR 0x9C, CHR 0xAA, CHR 0xE6, CHR 0x8F, CHR 0xA1, CHR 0xE6, CHR 0x89, CHR 0x8B,
      CHR 0xEF, CHR 0xBC, CHR 0x8C, CHR 0xE4, CHR 0xB8, CHR 0x8B, CHR 0xE8, CHR 0xA1, CHR 0x8C,
      CHR 0xE5, CHR 0x8C, CHR 0x85, CHR 0xE8, CHR 0xA2, CHR 0xAB, CHR 0xE4, CHR 0xB8, CHR 0xA2,
      CHR 0xE5, CHR 0xBC, CHR 0x83, CHR 0xEF, CHR 0xBC, CHR 0x88, CHR 0xE5, CHR 0xAF, CHR 0xB9,
      CHR 0xE7, CHR 0xAB, CHR 0xAF, CHR 0xE8, CHR 0xBF, CHR 0x98, CHR 0xE6, CHR 0xB2, CHR 0xA1,
      CHR 0xE8, CHR 0xBF, CHR 0x9E, CHR 0xE4, CHR 0xB8, CHR 0x8A, CHR 0xEF, CHR 0xBC, CHR 0x8C,
      CHR 0xE6, CHR 0x88, CHR 0x96, CHR 0xE5, CHR 0xAF, CHR 0x86, CHR 0xE9, CHR 0x92, CHR 0xA5,
      CHR 0xE4, CHR 0xB8, CHR 0x8D, CHR 0xE5, CHR 0x8C, CHR 0xB9, CHR 0xE9, CHR 0x85, CHR 0x8D,
      CHR 0xEF, CHR 0xBC, CHR 0x89]"

definition text_ReadBufferFull :: string where
  "text_ReadBufferFull =
     [CHR 0xE8, CHR 0xAF, CHR 0xBB, CHR 0xE7, CHR 0xBC, CHR 0x93, CHR 0xE5, CHR 0x86, CHR 0xB2,
      CHR 0xE8, CHR 0xA3, CHR 0x85, CHR 0xE4, CHR 0xB8, CHR 0x8D, CHR 0xE4, CHR 0xB8, CHR 0x8B,
      CHR 0xE8, CHR 0xBF, CHR 0x99, CHR 0xE4, CHR 0xB8, CHR 0xAA, CHR 0xE5, CHR 0x8C, CHR 0x85]"

definition text_UplinkNoSession :: string where
  "text_UplinkNoSession =
     [CHR 0xE9, CHR 0x9A, CHR 0xA7, CHR 0xE9, CHR 0x81, CHR 0x93, CHR 0xE5, CHR 0xB0, CHR 0x9A,
      CHR 0xE6, CHR 0x9C, CHR 0xAA, CHR 0xE5, CHR 0xBB, CHR 0xBA, CHR 0xE7, CHR 0xAB, CHR 0x8B,
      CHR 0xEF, CHR 0xBC, CHR 0x8C, CHR 0xE5, CHR 0xAF, CHR 0xB9, CHR 0xE7, CHR 0xAB, CHR 0xAF,
      CHR 0xE5, CHR 0x8F, CHR 0x91, CHR 0xE6, CHR 0x9D, CHR 0xA5, CHR 0xE7, CHR 0x9A, CHR 0x84,
      CHR 0xE5, CHR 0x8C, CHR 0x85, CHR 0xE8, CHR 0xA2, CHR 0xAB, CHR 0xE4, CHR 0xB8, CHR 0xA2,
      CHR 0xE5, CHR 0xBC, CHR 0x83]"

definition text_UplinkUnavailable :: string where
  "text_UplinkUnavailable =
     [CHR 0xE9, CHR 0x9A, CHR 0xA7, CHR 0xE9, CHR 0x81, CHR 0x93, CHR 0xE4, CHR 0xB8, CHR 0x8A,
      CHR 0xE8, CHR 0xA1, CHR 0x8C, CHR 0xE9, CHR 0x80, CHR 0x9A, CHR 0xE9, CHR 0x81, CHR 0x93,
      CHR 0xE6, CHR 0x9C, CHR 0xAA, CHR 0xE5, CHR 0xB0, CHR 0xB1, CHR 0xE7, CHR 0xBB, CHR 0xAA,
      CHR 0xEF, CHR 0xBC, CHR 0x8C, CHR 0xE5, CHR 0x8C, CHR 0x85, CHR 0xE8, CHR 0xA2, CHR 0xAB,
      CHR 0xE4, CHR 0xB8, CHR 0xA2, CHR 0xE5, CHR 0xBC, CHR 0x83]"

definition text_UplinkRejected :: string where
  "text_UplinkRejected =
     [CHR 0xE9, CHR 0x9A, CHR 0xA7, CHR 0xE9, CHR 0x81, CHR 0x93, CHR 0xE6, CHR 0x8B, CHR 0x92,
      CHR 0xE7, CHR 0xBB, CHR 0x9D, CHR 0xE4, CHR 0xBA, CHR 0x86, CHR 0xE8, CHR 0xBF, CHR 0x99,
      CHR 0xE4, CHR 0xB8, CHR 0xAA, CHR 0xE4, CHR 0xB8, CHR 0x8A, CHR 0xE8, CHR 0xA1, CHR 0x8C,
      CHR 0xE5, CHR 0x8C, CHR 0x85]"

definition text_StaleQueue :: string where
  "text_StaleQueue =
     [CHR 0xE4, CHR 0xBC, CHR 0x9A, CHR 0xE8, CHR 0xAF, CHR 0x9D, CHR 0xE5, CHR 0x88, CHR 0x87,
      CHR 0xE6, CHR 0x8D, CHR 0xA2, CHR 0xE6, CHR 0x97, CHR 0xB6, CHR 0xE4, CHR 0xB8, CHR 0xA2,
      CHR 0xE6, CHR 0x8E, CHR 0x89, CHR 0xE4, CHR 0xBA, CHR 0x86, CHR 0xE9, CHR 0x98, CHR 0x9F,
      CHR 0xE5, CHR 0x88, CHR 0x97, CHR 0xE9, CHR 0x87, CHR 0x8C, CHR 0xE5, CHR 0xB1, CHR 0x9E,
      CHR 0xE4, CHR 0xBA, CHR 0x8E, CHR 0xE6, CHR 0x97, CHR 0xA7, CHR 0xE4, CHR 0xBC, CHR 0x9A,
      CHR 0xE8, CHR 0xAF, CHR 0x9D, CHR 0xE7, CHR 0x9A, CHR 0x84, CHR 0xE4, CHR 0xB8, CHR 0x8B,
      CHR 0xE8, CHR 0xA1, CHR 0x8C, CHR 0xE5, CHR 0x8C, CHR 0x85, CHR 0xEF, CHR 0xBC, CHR 0x88,
      CHR 0xE9, CHR 0x87, CHR 0x8D, CHR 0xE8, CHR 0xBF, CHR 0x9E, CHR 0xE6, CHR 0x97, CHR 0xB6,
      CHR 0xE6, CHR 0xAD, CHR 0xA3, CHR 0xE5, CHR 0xB8, CHR 0xB8, CHR 0xEF, CHR 0xBC, CHR 0x89]"

definition text_MTUExceeded :: string where
  "text_MTUExceeded =
     [CHR 0xE6, CHR 0x8A, CHR 0xA5, CHR 0xE6, CHR 0x96, CHR 0x87, CHR 0xE8, CHR 0xB6, CHR 0x85,
      CHR 0xE8, CHR 0xBF, CHR 0x87, CHR 0xE9, CHR 0x85, CHR 0x8D, CHR 0xE7, CHR 0xBD, CHR 0xAE] @
     '' MTU''"

definition text_LinkUnavailable :: string where
  "text_LinkUnavailable =
     [CHR 0xE9, CHR 0x93, CHR 0xBE, CHR 0xE8, CHR 0xB7, CHR 0xAF, CHR 0xE6, CHR 0x88, CHR 0x96,
      CHR 0xE4, CHR 0xBC, CHR 0x9A, CHR 0xE8, CHR 0xAF, CHR 0x9D, CHR 0xE4, CHR 0xB8, CHR 0x8D,
      CHR 0xE5, CHR 0x8F, CHR 0xAF, CHR 0xE7, CHR 0x94, CHR 0xA8]"

definition text_ResourceUnmatched :: string where
  "text_ResourceUnmatched =
     [CHR 0xE8, CHR 0xB5, CHR 0x84, CHR 0xE6, CHR 0xBA, CHR 0x90, CHR 0xE8, CHR 0xA1, CHR 0xA8,
      CHR 0xE5, CHR 0xA4, CHR 0x96]"

definition text_FlowRejected :: string where
  "text_FlowRejected =
     [CHR 0xE6, CHR 0xB5, CHR 0x81, CHR 0xE9, CHR 0x89, CHR 0xB4, CHR 0xE6, CHR 0x9D, CHR 0x83,
      CHR 0xE5, CHR 0xA4, CHR 0xB1, CHR 0xE8, CHR 0xB4, CHR 0xA5]"

definition text_PendingFull :: string where
  "text_PendingFull =
     [CHR 0xE5, CHR 0xBE, CHR 0x85, CHR 0xE9, CHR 0x89, CHR 0xB4, CHR 0xE6, CHR 0x9D, CHR 0x83,
      CHR 0xE7, CHR 0xBC, CHR 0x93, CHR 0xE5, CHR 0xAD, CHR 0x98, CHR 0xE5, CHR 0xB7, CHR 0xB2,
      CHR 0xE6, CHR 0xBB, CHR 0xA1]"

definition text_FlowTableFull :: string where
  "text_FlowTableFull =
     [CHR 0xE6, CHR 0xB5, CHR 0x81, CHR 0xE8, CHR 0xA1, CHR 0xA8, CHR 0xE5, CHR 0xB7, CHR 0xB2,
      CHR 0xE6, CHR 0xBB, CHR 0xA1]"

definition text_FragmentMissing :: string where
  "text_FragmentMissing =
     [CHR 0xE5, CHR 0x88, CHR 0x86, CHR 0xE7, CHR 0x89, CHR 0x87, CHR 0xE5, CHR 0x85, CHR 0xB3,
      CHR 0xE8, CHR 0x81, CHR 0x94, CHR 0xE4, CHR 0xB8, CHR 0x8D, CHR 0xE5, CHR 0xAD, CHR 0x98,
      CHR 0xE5, CHR 0x9C, CHR 0xA8, CHR 0xE6, CHR 0x88, CHR 0x96, CHR 0xE8, CHR 0xBF, CHR 0x87,
      CHR 0xE6, CHR 0x9C, CHR 0x9F]"

definition text_FragmentOrder :: string where
  "text_FragmentOrder =
     [CHR 0xE5, CHR 0x88, CHR 0x86, CHR 0xE7, CHR 0x89, CHR 0x87, CHR 0xE4, CHR 0xB9, CHR 0xB1,
      CHR 0xE5, CHR 0xBA, CHR 0x8F, CHR 0xE6, CHR 0x88, CHR 0x96, CHR 0xE9, CHR 0x87, CHR 0x8D,
      CHR 0xE5, CHR 0x8F, CHR 0xA0]"

definition text_FragmentFull :: string where
  "text_FragmentFull =
     [CHR 0xE5, CHR 0x88, CHR 0x86, CHR 0xE7, CHR 0x89, CHR 0x87, CHR 0xE5, CHR 0x85, CHR 0xB3,
      CHR 0xE8, CHR 0x81, CHR 0x94, CHR 0xE5, CHR 0xB7, CHR 0xB2, CHR 0xE6, CHR 0xBB, CHR 0xA1]"

definition text_InvalidPacket :: string where
  "text_InvalidPacket =
     [CHR 0xE6, CHR 0x8A, CHR 0xA5, CHR 0xE6, CHR 0x96, CHR 0x87, CHR 0xE6, CHR 0xA0, CHR 0xBC,
      CHR 0xE5, CHR 0xBC, CHR 0x8F, CHR 0xE9, CHR 0x9D, CHR 0x9E, CHR 0xE6, CHR 0xB3, CHR 0x95]"

definition descriptions :: "(Reason \<times> Kind \<times> string) list" where
  "descriptions =
     [(DownlinkInvalid, RelayDrop, text_DownlinkInvalid),
      (DownlinkAddress, RelayDrop, text_DownlinkAddress),
      (DownlinkFull, RelayDrop, text_DownlinkFull),
      (DownlinkNoSession, RelayDrop, text_DownlinkNoSession),
      (UplinkInvalid, RelayDrop, text_UplinkInvalid),
      (UplinkAddress, RelayDrop, text_UplinkAddress),
      (PeerNotReady, RelayDrop, text_PeerNotReady),
      (ReadBufferFull, RelayDrop, text_ReadBufferFull),
      (UplinkNoSession, RelayDrop, text_UplinkNoSession),
      (UplinkUnavailable, RelayDrop, text_UplinkUnavailable),
      (UplinkRejected, RelayDrop, text_UplinkRejected),
      (StaleQueue, RelayDrop, text_StaleQueue),
      (MTUExceeded, '''', text_MTUExceeded),
      (LinkUnavailable, TunnelRejection, text_LinkUnavailable),
      (ResourceUnmatched, TunnelRejection, text_ResourceUnmatched),
      (FlowRejected, TunnelRejection, text_FlowRejected),
      (PendingFull, TunnelRejection, text_PendingFull),
      (FlowTableFull, TunnelRejection, text_FlowTableFull),
      (FragmentMissing, TunnelRejection, text_FragmentMissing),
      (FragmentOrder, TunnelRejection, text_FragmentOrder),
      (FragmentFull, TunnelRejection, text_FragmentFull),
      (InvalidPacket, TunnelRejection, text_InvalidPacket)]"

definition description :: "Reason \<Rightarrow> Kind \<times> string" where
  "description r = (case map_of descriptions r of Some d \<Rightarrow> d | None \<Rightarrow> ([], []))"

section \<open>Formatting\<close>

definition open_mark :: string where "open_mark = [CHR 0xEF, CHR 0xBC, CHR 0x88] @
     ''reason=''"
definition count_mark :: string where "count_mark =
     [CHR 0xEF, CHR 0xBC, CHR 0x8C, CHR 0xE7, CHR 0xB4, CHR 0xAF, CHR 0xE8, CHR 0xAE, CHR 0xA1] @
     '' ''"
definition close_mark :: string where "close_mark =
     '' '' @
     [CHR 0xE4, CHR 0xB8, CHR 0xAA, CHR 0xE5, CHR 0x8C, CHR 0x85, CHR 0xEF, CHR 0xBC, CHR 0x89]"

text \<open>\<open>None\<close> is the panic of an illegal combination.\<close>

definition Format :: "Kind \<Rightarrow> Reason \<Rightarrow> u64 \<Rightarrow> string option" where
  "Format kind reason count =
     (let (owner, label) = description reason; prefix = kind_prefix kind in
      if prefix = [] \<or> label = [] \<or> (owner \<noteq> [] \<and> owner \<noteq> kind) then None
      else Some (prefix @ label @ open_mark @ reason @ count_mark @ nat_str (unat count) @ close_mark))"

section \<open>Parsing\<close>

record Event =
  ev_kind :: Kind
  ev_reason :: Reason
  ev_count :: u64

definition strip_prefix :: "string \<Rightarrow> string \<Rightarrow> string option" where
  "strip_prefix p s = (if take (length p) s = p then Some (drop (length p) s) else None)"

definition strip_suffix :: "string \<Rightarrow> string \<Rightarrow> string option" where
  "strip_suffix p s = map_option rev (strip_prefix (rev p) (rev s))"

text \<open>The longest end of a string whose characters satisfy a predicate, and what precedes it.\<close>

definition take_end :: "(char \<Rightarrow> bool) \<Rightarrow> string \<Rightarrow> string \<times> string" where
  "take_end P s = (rev (dropWhile P (rev s)), rev (takeWhile P (rev s)))"

definition reason_char :: "char \<Rightarrow> bool" where
  "reason_char c \<longleftrightarrow> code_in 0x61 0x7A c \<or> c = CHR ''_''"

text \<open>The submatches of the regular expression
  \<open>^(prefix)(.+)\<close>, \<open>open_mark\<close>, \<open>([a-z_]+)\<close>, \<open>count_mark\<close>, \<open>([0-9]+)\<close>, \<open>close_mark\<close>, \<open>$\<close>. Read from the end
  every part is determined by the one after it, so the match is unique.\<close>

definition match_pattern :: "string \<Rightarrow> (string \<times> string \<times> string \<times> string) option" where
  "match_pattern s =
     Option.bind (strip_suffix close_mark s) (\<lambda>s.
       let (s, digits) = take_end is_digit s in
       Option.bind (strip_suffix count_mark s) (\<lambda>s.
         let (s, reason) = take_end reason_char s in
         Option.bind (strip_suffix open_mark s) (\<lambda>s.
           let prefix = (if strip_prefix prefix_RelayDrop s \<noteq> None then prefix_RelayDrop
                         else prefix_TunnelRejection) in
           Option.bind (strip_prefix prefix s) (\<lambda>label.
             if digits = [] \<or> reason = [] \<or> label = [] \<or> CHR 0x0A \<in> set label then None
             else Some (prefix, label, reason, digits)))))"

definition Parse :: "string \<Rightarrow> Event option" where
  "Parse message =
     (if len message > 512 then None
      else case match_pattern message of
        None \<Rightarrow> None
      | Some (prefix, text, reason, digits) \<Rightarrow>
          let kind = (if prefix \<noteq> kind_prefix RelayDrop then TunnelRejection else RelayDrop);
              (owner, label) = description reason in
          if label = [] \<or> label \<noteq> text \<or> (owner \<noteq> [] \<and> owner \<noteq> kind) then None
          else case parse_uint64 digits of
            None \<Rightarrow> None
          | Some count \<Rightarrow> Some \<lparr>ev_kind = kind, ev_reason = reason, ev_count = count\<rparr>)"

section \<open>Round trip\<close>

lemma strip_prefix_append [simp]: "strip_prefix p (p @ s) = Some s"
  by (simp add: strip_prefix_def)

lemma strip_suffix_append [simp]: "strip_suffix p (s @ p) = Some s"
  by (simp add: strip_suffix_def)

lemma take_end_append:
  assumes "list_all P d" "s \<noteq> []" "\<not> P (last s)"
  shows "take_end P (s @ d) = (s, d)"
proof -
  have "takeWhile P (rev s) = []" "dropWhile P (rev s) = rev s"
    using assms(2,3) by (cases "rev s"; force simp: last_conv_nth hd_rev [symmetric])+
  then have "takeWhile P (rev d @ rev s) = rev d" "dropWhile P (rev d @ rev s) = rev s"
    using assms(1) takeWhile_append2 [of "rev d" P "rev s"] dropWhile_append2 [of "rev d" P "rev s"]
    by (simp_all add: list_all_iff)
  then show ?thesis by (simp add: take_end_def)
qed

lemma marks_last:
  "\<not> is_digit (last count_mark)" "count_mark \<noteq> []" "\<not> reason_char (last open_mark)" "open_mark \<noteq> []"
  by (code_simp)+

definition prefixes :: "string list" where
  "prefixes = [prefix_RelayDrop, prefix_TunnelRejection]"

lemma match_pattern_shape:
  assumes "prefix \<in> set prefixes" "label \<noteq> []" "CHR 0x0A \<notin> set label"
    and "reason \<noteq> []" "list_all reason_char reason" "digits \<noteq> []" "list_all is_digit digits"
  shows "match_pattern (prefix @ label @ open_mark @ reason @ count_mark @ digits @ close_mark) =
    Some (prefix, label, reason, digits)"
proof -
  let ?s3 = "prefix @ label" and ?s2 = "(prefix @ label @ open_mark) @ reason"
  let ?s1 = "(?s2 @ count_mark) @ digits"
  have s: "prefix @ label @ open_mark @ reason @ count_mark @ digits @ close_mark = ?s1 @ close_mark" by simp
  have 1: "take_end is_digit ?s1 = (?s2 @ count_mark, digits)"
    using assms marks_last by (intro take_end_append) auto
  have 2: "take_end reason_char ?s2 = (?s3 @ open_mark, reason)"
    using assms marks_last take_end_append [of reason_char reason "?s3 @ open_mark"] by simp
  have p: "(if strip_prefix prefix_RelayDrop (prefix @ label) \<noteq> None then prefix_RelayDrop
            else prefix_TunnelRejection) = prefix"
    using assms(1) by (auto simp: prefixes_def strip_prefix_def prefix_TunnelRejection_def prefix_RelayDrop_def)
  show ?thesis
    unfolding s match_pattern_def strip_suffix_append Option.bind.bind_lunit 1 Let_def case_prod_conv 2 p
      strip_prefix_append
    using assms by simp
qed

lemma descriptions_ok:
  "list_all (\<lambda>(r, k, l). r \<noteq> [] \<and> list_all reason_char r \<and> l \<noteq> [] \<and> CHR 0x0A \<notin> set l \<and> len l + len r < 300)
     descriptions"
  by code_simp

lemma description_ok:
  assumes "description r = (k, l)" "l \<noteq> []"
  shows "r \<noteq> [] \<and> list_all reason_char r \<and> CHR 0x0A \<notin> set l \<and> len l + len r < 300"
proof -
  have "(r, k, l) \<in> set descriptions"
    using assms map_of_SomeD [of descriptions r "(k, l)"] by (auto simp: description_def split: option.splits)
  then show ?thesis using descriptions_ok by (auto simp: list_all_iff)
qed

text \<open>Every drop line the program logs is read back: for every kind, reason and count that \<open>Format\<close>
  accepts, \<open>Parse\<close> of the line returns exactly that kind, reason and count.\<close>

theorem Parse_Format:
  assumes "Format kind reason count = Some line"
  shows "Parse line = Some \<lparr>ev_kind = kind, ev_reason = reason, ev_count = count\<rparr>"
proof -
  obtain owner label where d: "description reason = (owner, label)" by (cases "description reason")
  let ?digits = "nat_str (unat count)"
  have l: "kind_prefix kind \<noteq> []" "label \<noteq> []" "owner = [] \<or> owner = kind"
      "line = kind_prefix kind @ label @ open_mark @ reason @ count_mark @ ?digits @ close_mark"
    using assms d by (auto simp: Format_def Let_def split: if_splits)
  have k: "kind = RelayDrop \<or> kind = TunnelRejection" using l(1) by (auto simp: kind_prefix_def split: if_splits)
  note ok = description_ok [OF d l(2)]
  have "unat count < 2 ^ 64" using unsigned_less [of count, where 'a = nat] by simp
  then have "unat count < 10 ^ 20" by simp
  then have "length ?digits \<le> 20" by (intro nat_str_length) simp_all
  moreover have "length (kind_prefix kind) \<le> 20" "length open_mark + length count_mark + length close_mark \<le> 60"
    using k by (auto simp: kind_prefix_def prefix_RelayDrop_def prefix_TunnelRejection_def open_mark_def
        count_mark_def close_mark_def)
  ultimately have "\<not> len line > 512" using ok l(4) by simp
  moreover have "match_pattern line = Some (kind_prefix kind, label, reason, ?digits)"
    unfolding l(4) using k ok l nat_str_digits [of "unat count"]
    by (intro match_pattern_shape) (auto simp: kind_prefix_def prefixes_def nat_str.simps [of "unat count"])
  moreover have "(if kind_prefix kind \<noteq> kind_prefix RelayDrop then TunnelRejection else RelayDrop) = kind"
    using k by (auto simp: kind_prefix_def prefix_RelayDrop_def prefix_TunnelRejection_def)
  ultimately show ?thesis
    using l(2,3) d by (simp add: Parse_def parse_uint64_nat_str Let_def)
qed

theorem Parse_Format_witness:
  "\<exists>line. Format TunnelRejection PendingFull 41 = Some line \<and>
     Parse line = Some \<lparr>ev_kind = TunnelRejection, ev_reason = PendingFull, ev_count = 41\<rparr>"
proof -
  have "Format TunnelRejection PendingFull 41 \<noteq> None" by code_simp
  then obtain line where "Format TunnelRejection PendingFull 41 = Some line" by blast
  with Parse_Format [OF this] show ?thesis by blast
qed

end
