(* ===== verification/Auth_Request.thy ===== *)
theory Auth_Request
  imports Hashes Json_Props NetAddr Conntrack
begin

text \<open>
  The signed JSON bodies of the per-flow authentication request (\<open>internal/ztna/tunnel.go\<close>) and the
  process description they carry (\<open>internal/ztna/tcp.go\<close>). A Go struct marshals to an object
  with its fields in the order of the declaration, so each struct is the function that makes
  that object.
\<close>

section \<open>Process environment\<close>

abbreviation clientIdentity :: string where "clientIdentity \<equiv> ''njuvpn''"

definition processJSON :: "string \<Rightarrow> string \<Rightarrow> json" where
  "processJSON fingerprint path = JObj
     [(''name'', JStr clientIdentity), (''digital_signature'', JStr ''TrustAppClosed''),
      (''platform'', JStr ''Linux''), (''fingerprint'', JStr fingerprint),
      (''description'', JStr ''TrustAppClosed''), (''path'', JStr path),
      (''version'', JStr ''TrustAppClosed''), (''security_env'', JStr ''normal'')]"

definition envJSON :: "json \<Rightarrow> string \<Rightarrow> json" where
  "envJSON process trusted =
     JObj [(''application'', JObj [(''runtime'', JObj
       [(''process'', process), (''process_trusted'', JStr trusted)])])]"

definition processEnvironment :: "json \<times> string" where
  "processEnvironment =
     (let path = ''/usr/bin/njuvpn'';
          hash = upperHex (hex_encode (sha256 (str_bytes path)))
      in (envJSON (processJSON hash path) ''TRUSTED'', hash))"

section \<open>The request of one flow\<close>

definition authIPJSON :: "int \<Rightarrow> flowKey \<Rightarrow> json" where
  "authIPJSON ipProto k = JObj
     [(''atype'', JNum (int_str 0x0800)), (''protocol'', JNum (int_str ipProto)),
      (''destAddr'', JStr (ip4_str (fk_dst k))), (''destPort'', JNum (int_str (uint (fk_dport k)))),
      (''srcAddr'', JStr (ip4_str (fk_src k))), (''srcPort'', JNum (int_str (uint (fk_sport k))))]"

definition flow_url :: "flowKey \<Rightarrow> string" where
  "flow_url k = protoName (fk_proto k) @ '':'' @ ip4_str (fk_dst k) @ '':'' @ int_str (uint (fk_dport k))"

definition authRequestJSON :: "string \<Rightarrow> string \<Rightarrow> string \<Rightarrow> authFlow \<Rightarrow> (string \<times> json) list" where
  "authRequestJSON sid deviceID connectionID f =
     (let ipProto = (if fk_proto (a_key f) = protoUDP then 17
                     else if fk_proto (a_key f) = protoICMP then 1 else 6);
          (env, hash) = processEnvironment
      in [(''sid'', JStr sid), (''appId'', JStr (a_appID f)), (''url'', JStr (flow_url (a_key f))),
          (''deviceId'', JStr deviceID), (''connectionId'', JStr connectionID), (''env'', env),
          (''conntrackHash'', JNum (int_str (uint (a_authID f)))), (''lang'', JStr ''en-US''),
          (''ip'', authIPJSON ipProto (a_key f)), (''procHash'', JStr hash)])"

text \<open>The signature covers the bytes of the object without it and is spliced in before the closing
  brace. \<open>%q\<close> of a hexadecimal string puts it in quotes.\<close>

definition signature :: "bytes \<Rightarrow> bytes \<Rightarrow> string" where
  "signature body k = upperHex (hex_encode (hmac_sha256 k body))"

definition signAuthJSON :: "bytes \<Rightarrow> bytes \<Rightarrow> bytes" where
  "signAuthJSON body k =
     butlast body @ str_bytes ('',\"xRequestSig\":\"'' @ signature body k @ ''\"}'')"

definition buildAuthRequest :: "string \<Rightarrow> string \<Rightarrow> string \<Rightarrow> bytes \<Rightarrow> authFlow \<Rightarrow> bytes" where
  "buildAuthRequest sid deviceID connectionID signKey f =
     signAuthJSON (str_bytes (print_json (JObj (authRequestJSON sid deviceID connectionID f)))) signKey"

section \<open>What is signed\<close>

lemma join_snoc: "xs \<noteq> [] \<Longrightarrow> join sep (xs @ [y]) = join sep xs @ sep @ y"
  by (induction sep xs rule: join.induct) auto

lemma str_bytes_append: "str_bytes (a @ b) = str_bytes a @ str_bytes b"
  by (simp add: str_bytes_def)

lemma butlast_str_bytes: "butlast (str_bytes (s @ [c])) = str_bytes s"
  by (simp add: str_bytes_def)

definition hex_char :: "char \<Rightarrow> bool" where
  "hex_char c \<longleftrightarrow> code_in 0x30 0x39 c \<or> code_in 0x41 0x46 c"

lemma upper_hex_digit: "0 \<le> d \<Longrightarrow> d < 16 \<Longrightarrow> hex_char (upper_char (hex_digit d))"
  by (cases "d < 10") (simp_all add: hex_char_def upper_char_def hex_digit_def code_in_def of_chr)

lemma signature_hex: "list_all hex_char (upperHex (hex_encode b))"
proof -
  have "0 \<le> uint x div 16 \<and> uint x div 16 < 16" for x :: byte
    using uint_lt2p [of x] uint_nonnegative [of x] pos_imp_zdiv_nonneg_iff [of 16 "uint x"] by simp
  then show ?thesis
    by (auto simp: upperHex_def hex_encode_def list_all_iff upper_hex_digit)
qed

lemma hex_char_quote:
  assumes "hex_char c"
  shows "code_in 0 0x7F c" "quote_char c = [c]"
proof -
  have c: "of_char c \<in> {0x30..0x39} \<union> {0x41..0x46::int}" using assms by (auto simp: hex_char_def code_in_def)
  show "code_in 0 0x7F c" using c by (auto simp: code_in_def)
  have ne: "c \<noteq> d" if "of_char d \<notin> {0x30..0x39} \<union> {0x41..0x46::int}" for d using c that by auto
  have "\<not> code_in 0 0x1F c" using c by (auto simp: code_in_def)
  then show "quote_char c = [c]"
    using ne [of "CHR ''\"''"] ne [of "CHR 0x5C"] ne [of "CHR 0x08"] ne [of "CHR 0x0C"] ne [of "CHR 0x0A"]
      ne [of "CHR 0x0D"] ne [of "CHR 0x09"] ne [of "CHR ''<''"] ne [of "CHR ''>''"] ne [of "CHR ''&''"]
    by (simp add: quote_char_def)
qed

lemma quote_hex: "list_all hex_char s \<Longrightarrow> quote_chars s = s"
  by (induction s) (simp_all add: hex_char_quote)

lemma sign_is_member:
  assumes "ms \<noteq> []"
  defines "body \<equiv> str_bytes (print_json (JObj ms))"
  shows "signAuthJSON body k =
    str_bytes (print_json (JObj (ms @ [(''xRequestSig'', JStr (signature body k))])))"
proof -
  let ?pr = "\<lambda>(k, v). quote k @ '':'' @ print_json v"
  have "quote_chars (signature body k) = signature body k"
    unfolding signature_def by (rule quote_hex [OF signature_hex])
  then have q: "?pr (''xRequestSig'', JStr (signature body k)) =
      ''\"xRequestSig\":\"'' @ signature body k @ ''\"''"
    by (simp add: quote_def quote_char_def code_in_def)
  have "butlast body = str_bytes (''{'' @ join '','' (map ?pr ms))"
    unfolding body_def using butlast_str_bytes [of "''{'' @ join '','' (map ?pr ms)" "CHR ''}''"] by simp
  then have "signAuthJSON body k =
      str_bytes (''{'' @ join '','' (map ?pr ms) @ '','' @ ?pr (''xRequestSig'', JStr (signature body k)) @ ''}'')"
    unfolding signAuthJSON_def q by (simp flip: str_bytes_append)
  also have "\<dots> = str_bytes (print_json (JObj (ms @ [(''xRequestSig'', JStr (signature body k))])))"
    using assms(1) join_snoc [of "map ?pr ms" "'',''" "?pr (''xRequestSig'', JStr (signature body k))"]
    by simp
  finally show ?thesis .
qed

lemma hex_ascii: "ascii (upperHex (hex_encode b))"
  using signature_hex [of b] by (auto simp: list_all_iff dest: hex_char_quote(1))

lemma authRequest_plain:
  assumes "ascii sid" "ascii deviceID" "ascii connectionID" "ascii (a_appID f)"
  shows "list_all (\<lambda>(k, v). ascii k \<and> plain v) (authRequestJSON sid deviceID connectionID f)"
  using assms
  by (auto simp: authRequestJSON_def processEnvironment_def envJSON_def processJSON_def authIPJSON_def
      flow_url_def protoName_def Let_def ascii_int_str ascii_ip4_str hex_ascii code_in_def)

text \<open>The signature of an authentication request covers the request: what is sent parses as the request
  object followed by one more member, the upper-case hexadecimal HMAC-SHA-256, under the
  session's key, of exactly the bytes of the object without that member.\<close>

theorem signed_request_parses:
  assumes "ascii sid" "ascii deviceID" "ascii connectionID" "ascii (a_appID f)"
  defines "ms \<equiv> authRequestJSON sid deviceID connectionID f"
  shows "parse_json (bytes_str (buildAuthRequest sid deviceID connectionID signKey f)) =
    Some (JObj (ms @ [(''xRequestSig'', JStr (upperHex (hex_encode
      (hmac_sha256 signKey (str_bytes (print_json (JObj ms)))))))]))"
proof -
  have ne: "ms \<noteq> []" by (simp add: ms_def authRequestJSON_def Let_def split: prod.splits)
  let ?sig = "signature (str_bytes (print_json (JObj ms))) signKey"
  have "plain (JObj (ms @ [(''xRequestSig'', JStr ?sig)]))"
    using authRequest_plain [OF assms(1-4)] hex_ascii by (simp add: ms_def signature_def code_in_def)
  moreover have "json_depth (JObj (ms @ [(''xRequestSig'', JStr ?sig)])) \<le> maxNestingDepth"
    by (simp add: ms_def authRequestJSON_def processEnvironment_def envJSON_def processJSON_def authIPJSON_def Let_def maxNestingDepth_def)
  ultimately show ?thesis
    unfolding buildAuthRequest_def ms_def [symmetric] sign_is_member [OF ne]
    by (simp add: parse_print_json signature_def del: print_json.simps)
qed

theorem signed_request_parses_witness:
  "parse_json (bytes_str (buildAuthRequest ''s'' ''d'' ''c'' [1, 2]
       \<lparr>a_key = zero_flowKey, a_appID = ''app'', a_authID = 7\<rparr>)) \<noteq> None"
  using signed_request_parses [of "''s''" "''d''" "''c''" "\<lparr>a_key = zero_flowKey, a_appID = ''app'', a_authID = 7\<rparr>" "[1, 2]"]
  by (simp add: code_in_def)

end
