(* ===== verification/Tunnel.thy ===== *)
theory Tunnel
  imports Endpoint Packetlog Auth_Request Wire Resource
begin

text \<open>
  \<open>internal/ztna/tunnel.go\<close>: one tunnel connection. The record holds the fields of \<open>tunnelConn\<close>,
  the endpoint it is registered on, and what it has done to the outside: the bytes of each
  write, the packets handed to the downlink callback, the log lines.

  Every handler takes the time it reads and, where it writes, the outcomes of the connection's
  writes: \<open>net i\<close> is the outcome of the \<open>i\<close>-th write of the connection. Each handler is one step
  here; in Go two handlers of one connection may interleave between their critical sections.
\<close>

section \<open>State\<close>

abbreviation heartbeatInterval :: time where "heartbeatInterval \<equiv> 15 * second"
abbreviation heartbeatMissLimit :: int where "heartbeatMissLimit \<equiv> 3"
abbreviation authBatchSize :: nat where "authBatchSize \<equiv> 32"
abbreviation maxStreamBytes :: int where "maxStreamBytes \<equiv> 4 * 0xFFFF"
abbreviation authRetryLogInterval :: time where "authRetryLogInterval \<equiv> 10 * second"

record RejectionCounts =
  rc_LinkUnavailable :: u64
  rc_ResourceUnmatched :: u64
  rc_FlowRejected :: u64
  rc_PendingFull :: u64
  rc_FlowTableFull :: u64
  rc_FragmentMissing :: u64
  rc_FragmentOrder :: u64
  rc_FragmentFull :: u64
  rc_MTUExceeded :: u64
  rc_InvalidPacket :: u64

definition zero_counts :: RejectionCounts where
  "zero_counts = \<lparr>rc_LinkUnavailable = 0, rc_ResourceUnmatched = 0, rc_FlowRejected = 0,
     rc_PendingFull = 0, rc_FlowTableFull = 0, rc_FragmentMissing = 0, rc_FragmentOrder = 0,
     rc_FragmentFull = 0, rc_MTUExceeded = 0, rc_InvalidPacket = 0\<rparr>"

datatype tunnel_log =
    Log_rejection string | Log_auth_retry | Log_vip_updated | Log_disconnected error

text \<open>What a write of the connection may do: setting the deadline fails, or some bytes are written,
  with an error or without.\<close>

datatype write_result = Deadline_failed error | Wrote nat "error option"

record ('u, 'd) tunnelConn =
  tc_self :: 'u \<comment> \<open>the method value \<open>t.Send\<close>, as registered on the endpoint\<close>
  tc_ep :: "('u, 'd) Endpoint"
  tc_mtu :: int
  tc_flows :: flowTable
  tc_table :: resourceTable
  tc_sid :: string
  tc_deviceID :: string
  tc_connectionID :: string
  tc_signKey :: bytes
  tc_initialAddr :: bytes
  tc_unregister :: "nat option"
  tc_closed :: bool \<comment> \<open>\<open>closeCh\<close> is closed\<close>
  tc_closeErr :: "error option"
  tc_connClosed :: bool
  tc_authWake :: bool \<comment> \<open>the channel of capacity one holds a token\<close>
  tc_heartbeatGap :: int
  tc_rejected :: RejectionCounts
  tc_rejectLogAt :: time
  tc_authRetryLogAt :: int
  tc_writes :: nat
  tc_written :: "bytes list"
  tc_delivered :: "('d \<times> bytes) list"
  tc_log :: "tunnel_log list"

text \<open>\<open>UnixNano\<close> counts from 1970, \<open>time.Time\<close> from Go's zero time.\<close>

definition UnixNano :: "time \<Rightarrow> int" where
  "UnixNano t = t - 62135596800 * second"

definition add_log :: "tunnel_log \<Rightarrow> ('u, 'd) tunnelConn \<Rightarrow> ('u, 'd) tunnelConn" where
  "add_log l t = t\<lparr>tc_log := tc_log t @ [l]\<rparr>"

section \<open>Handshake\<close>

record ('u, 'd) tunnelOptions =
  o_self :: 'u
  o_Endpoint :: "('u, 'd) Endpoint"
  o_MTU :: int
  o_Table :: resourceTable
  o_SID :: string
  o_DeviceID :: string
  o_SignKey :: bytes

text \<open>\<open>fmt.Sprintf("%X-%d", md5.Sum([]byte(id)), now.UnixMicro())\<close>\<close>

definition connection_id :: "string \<Rightarrow> time \<Rightarrow> string" where
  "connection_id deviceID now =
     upperHex (hex_encode (md5 (str_bytes deviceID))) @ ''-'' @ int_str (UnixNano now div 1000)"

definition new_tunnel :: "('u, 'd) tunnelOptions \<Rightarrow> time \<Rightarrow> ('u, 'd) tunnelConn" where
  "new_tunnel opts now =
     \<lparr>tc_self = o_self opts, tc_ep = o_Endpoint opts, tc_mtu = o_MTU opts, tc_flows = newFlowTable,
      tc_table = o_Table opts, tc_sid = o_SID opts, tc_deviceID = o_DeviceID opts,
      tc_connectionID = connection_id (o_DeviceID opts) now, tc_signKey = o_SignKey opts,
      tc_initialAddr = [], tc_unregister = None, tc_closed = False, tc_closeErr = None,
      tc_connClosed = False, tc_authWake = False, tc_heartbeatGap = 0, tc_rejected = zero_counts,
      tc_rejectLogAt = 0, tc_authRetryLogAt = 0, tc_writes = 0, tc_written = [], tc_delivered = [],
      tc_log = []\<rparr>"

text \<open>What the established TLS connection and the context do during the handshake: the outcomes of the
  two deadline calls, of the write and of the final \<open>ctx.Err()\<close>, and the bytes that arrive.\<close>

record handshake_env =
  he_deadline :: "error option"
  he_write :: "error option"
  he_input :: bytes
  he_ctx :: "error option"
  he_clear :: "error option"

text \<open>The result carries the request that was sent and the bytes that stay in the buffered reader.\<close>

definition handshakeTunnel :: "('u, 'd) tunnelOptions \<Rightarrow> time \<Rightarrow> handshake_env \<Rightarrow>
    error + ('u, 'd) tunnelConn \<times> bytes \<times> bytes" where
  "handshakeTunnel opts now env =
     (case he_deadline env of
        Some e \<Rightarrow> Inl (WrapError (Op_other 1) e)
      | None \<Rightarrow>
          (case handshakeRequest (o_SID opts) of
             Inl e \<Rightarrow> Inl e
           | Inr request \<Rightarrow>
               (case he_write env of
                  Some e \<Rightarrow> Inl (WrapError (Op_other 2) e)
                | None \<Rightarrow>
                    (case readHandshake (he_input env) of
                       Inl e \<Rightarrow> Inl e
                     | Inr (vip, rest) \<Rightarrow>
                         (case he_ctx env of
                            Some e \<Rightarrow> Inl e
                          | None \<Rightarrow>
                              (case he_clear env of
                                 Some e \<Rightarrow> Inl (WrapError (Op_other 3) e)
                               | None \<Rightarrow>
                                   Inr ((new_tunnel opts now)\<lparr>tc_initialAddr := vip\<rparr>, request, rest)))))))"

section \<open>Start and close\<close>

definition start :: "('u, 'd) tunnelConn \<Rightarrow> ('u, 'd) tunnelConn" where
  "start t =
     (let (ep, owner) = SetUplink (tc_self t) (SetLocalAddr (tc_initialAddr t) (tc_ep t))
      in t\<lparr>tc_ep := ep, tc_initialAddr := [], tc_unregister := Some owner\<rparr>)"

definition close :: "error option \<Rightarrow> ('u, 'd) tunnelConn \<Rightarrow> ('u, 'd) tunnelConn" where
  "close err t =
     (if tc_closed t then t
      else let t = t\<lparr>tc_closeErr := err, tc_closed := True\<rparr>;
               t = (case tc_unregister t of None \<Rightarrow> t
                    | Some owner \<Rightarrow> t\<lparr>tc_ep := unregisterUplink owner (tc_ep t)\<rparr>);
               t = t\<lparr>tc_connClosed := True, tc_flows := clear (tc_flows t)\<rparr>
           in case err of None \<Rightarrow> t | Some e \<Rightarrow> add_log (Log_disconnected e) t)"

definition Err :: "('u, 'd) tunnelConn \<Rightarrow> error option" where
  "Err t = tc_closeErr t"

definition VIP :: "('u, 'd) tunnelConn \<Rightarrow> bytes" where
  "VIP t = LocalAddr (tc_ep t)"

section \<open>Writing\<close>

definition tunnel_write :: "bytes \<Rightarrow> (nat \<Rightarrow> write_result) \<Rightarrow> ('u, 'd) tunnelConn \<Rightarrow>
    ('u, 'd) tunnelConn \<times> error option" where
  "tunnel_write buf net t =
     (if tc_closed t then (t, Some ErrNetClosed)
      else let r = net (tc_writes t); t = t\<lparr>tc_writes := Suc (tc_writes t)\<rparr> in
        case r of
          Deadline_failed e \<Rightarrow>
            let err = Wrap Op_tunnel_write_deadline (Some e) in (close err t, err)
        | Wrote n e \<Rightarrow>
            let t = t\<lparr>tc_written := tc_written t @ [take n buf]\<rparr>;
                err = (if e = None \<and> n \<noteq> length buf then Some ErrShortWrite else e);
                t = (if err \<noteq> None then close (Wrap Op_tunnel_write err) t else t)
            in (t, Wrap Op_tunnel_write err))"

section \<open>Uplink\<close>

definition rejection_reason :: "error \<Rightarrow> Reason" where
  "rejection_reason err =
     (if err_is err ErrResourceUnmatched then ResourceUnmatched
      else if err_is err ErrFlowRejected then FlowRejected
      else if err_is err ErrPendingFull then PendingFull
      else if err_is err ErrFlowTableFull then FlowTableFull
      else if err_is err ErrFragmentMissing then FragmentMissing
      else if err_is err ErrFragmentOrder then FragmentOrder
      else if err_is err ErrFragmentFull then FragmentFull
      else if err_is err ErrPacketTooLarge then MTUExceeded
      else if err_as is_protocol err \<noteq> None then InvalidPacket
      else LinkUnavailable)"

text \<open>The counter of a reason: its value, and the counters after adding one to it.\<close>

definition count_of :: "Reason \<Rightarrow> RejectionCounts \<Rightarrow> u64" where
  "count_of r c =
     (if r = ResourceUnmatched then rc_ResourceUnmatched c
      else if r = FlowRejected then rc_FlowRejected c
      else if r = PendingFull then rc_PendingFull c
      else if r = FlowTableFull then rc_FlowTableFull c
      else if r = FragmentMissing then rc_FragmentMissing c
      else if r = FragmentOrder then rc_FragmentOrder c
      else if r = FragmentFull then rc_FragmentFull c
      else if r = MTUExceeded then rc_MTUExceeded c
      else if r = InvalidPacket then rc_InvalidPacket c
      else rc_LinkUnavailable c)"

definition bump :: "Reason \<Rightarrow> RejectionCounts \<Rightarrow> RejectionCounts" where
  "bump r c =
     (if r = ResourceUnmatched then c\<lparr>rc_ResourceUnmatched := rc_ResourceUnmatched c + 1\<rparr>
      else if r = FlowRejected then c\<lparr>rc_FlowRejected := rc_FlowRejected c + 1\<rparr>
      else if r = PendingFull then c\<lparr>rc_PendingFull := rc_PendingFull c + 1\<rparr>
      else if r = FlowTableFull then c\<lparr>rc_FlowTableFull := rc_FlowTableFull c + 1\<rparr>
      else if r = FragmentMissing then c\<lparr>rc_FragmentMissing := rc_FragmentMissing c + 1\<rparr>
      else if r = FragmentOrder then c\<lparr>rc_FragmentOrder := rc_FragmentOrder c + 1\<rparr>
      else if r = FragmentFull then c\<lparr>rc_FragmentFull := rc_FragmentFull c + 1\<rparr>
      else if r = MTUExceeded then c\<lparr>rc_MTUExceeded := rc_MTUExceeded c + 1\<rparr>
      else if r = InvalidPacket then c\<lparr>rc_InvalidPacket := rc_InvalidPacket c + 1\<rparr>
      else c\<lparr>rc_LinkUnavailable := rc_LinkUnavailable c + 1\<rparr>)"

text \<open>The log line is \<open>Format TunnelRejection reason n\<close>; that it never panics is a lemma below.\<close>

definition recordRejection :: "error \<Rightarrow> time \<Rightarrow> ('u, 'd) tunnelConn \<Rightarrow> ('u, 'd) tunnelConn" where
  "recordRejection err now t =
     (let reason = rejection_reason err;
          t = t\<lparr>tc_rejected := bump reason (tc_rejected t)\<rparr>;
          n = count_of reason (tc_rejected t);
          report = (tc_rejectLogAt t = 0 \<or> now - tc_rejectLogAt t \<ge> 10 * second)
      in if report then
           add_log (Log_rejection (the (Format TunnelRejection reason n))) (t\<lparr>tc_rejectLogAt := now\<rparr>)
         else t)"

definition wakeAuth :: "('u, 'd) tunnelConn \<Rightarrow> ('u, 'd) tunnelConn" where
  "wakeAuth t = t\<lparr>tc_authWake := True\<rparr>"

definition reject_fragmented :: "packetInfo \<Rightarrow> ('u, 'd) tunnelConn \<Rightarrow> ('u, 'd) tunnelConn" where
  "reject_fragmented info t =
     (if fragmented info then t\<lparr>tc_flows := rejectFragment (fragment info) (tc_flows t)\<rparr> else t)"

text \<open>The application of the destination; a tail fragment is not matched (its flow was).\<close>

definition packet_app :: "packetInfo \<Rightarrow> ('u, 'd) tunnelConn \<Rightarrow> string option" where
  "packet_app info t =
     (if offset info = 0
      then map_option g_appID (matchIP (tc_table t) (fk_dst (key info)) (proto info) (dstPort info))
      else Some [])"

definition send_packet :: "bytes \<Rightarrow> time \<Rightarrow> (nat \<Rightarrow> write_result) \<Rightarrow> ('u, 'd) tunnelConn \<Rightarrow>
    ('u, 'd) tunnelConn \<times> error option" where
  "send_packet pkt now net t =
     (case parsePacket pkt of
        (info, Some err) \<Rightarrow> (reject_fragmented info t, Some err)
      | (info, None) \<Rightarrow>
          if len pkt > tc_mtu t then (reject_fragmented info t, Some ErrPacketTooLarge)
          else case packet_app info t of
            None \<Rightarrow> (reject_fragmented info t, Some ErrResourceUnmatched)
          | Some appID \<Rightarrow>
              (case queuePacket info appID pkt now (tc_flows t) of
                 (ft, Inl err) \<Rightarrow> (t\<lparr>tc_flows := ft\<rparr>, Some err)
               | (ft, Inr (token, queued)) \<Rightarrow>
                   let t = t\<lparr>tc_flows := ft\<rparr> in
                   if queued then (wakeAuth t, None)
                   else case encodeDataFrame token [pkt] of
                     Inl err \<Rightarrow> (t, Some err)
                   | Inr frame \<Rightarrow> tunnel_write frame net t))"

text \<open>The deferred call counts a refused packet.\<close>

definition Send :: "bytes \<Rightarrow> time \<Rightarrow> (nat \<Rightarrow> write_result) \<Rightarrow> ('u, 'd) tunnelConn \<Rightarrow>
    ('u, 'd) tunnelConn \<times> error option" where
  "Send pkt now net t =
     (case send_packet pkt now net t of
        (t, None) \<Rightarrow> (t, None)
      | (t, Some err) \<Rightarrow> (recordRejection err now t, Some err))"

section \<open>Authentication responses\<close>

record auth_resp =
  ar_code :: "int option"
  ar_token :: string
  ar_hash :: "u64 option"

definition dec_auth_data :: "string \<Rightarrow> auth_resp decoder" where
  "dec_auth_data k v a =
     (if is_field ''connectToken'' k then (let (s, b) = dec_string v (ar_token a) in (a\<lparr>ar_token := s\<rparr>, b))
      else if is_field ''conntrackHash'' k then (let (h, b) = dec_uint64_ptr v (ar_hash a) in (a\<lparr>ar_hash := h\<rparr>, b))
      else (a, False))"

definition dec_auth_resp :: "string \<Rightarrow> auth_resp decoder" where
  "dec_auth_resp k v a =
     (if is_field ''code'' k then (let (c, b) = dec_int_ptr v (ar_code a) in (a\<lparr>ar_code := c\<rparr>, b))
      else if is_field ''data'' k then dec_struct dec_auth_data v a
      else (a, False))"

definition logAuthRetry :: "time \<Rightarrow> ('u, 'd) tunnelConn \<Rightarrow> ('u, 'd) tunnelConn" where
  "logAuthRetry now t =
     (if UnixNano now - tc_authRetryLogAt t < authRetryLogInterval then t
      else add_log Log_auth_retry (t\<lparr>tc_authRetryLogAt := UnixNano now\<rparr>))"

text \<open>Sending the released packets in batches; each round takes at least one packet.\<close>

function send_pending :: "string \<Rightarrow> bytes list \<Rightarrow> (nat \<Rightarrow> write_result) \<Rightarrow> ('u, 'd) tunnelConn \<Rightarrow>
    ('u, 'd) tunnelConn" where
  "send_pending token pending net t =
     (if pending = [] then t
      else let n = min authBatchSize (length pending) in
        case encodeDataFrame token (take n pending) of
          Inl err \<Rightarrow> close (Some err) t
        | Inr frame \<Rightarrow>
            (case tunnel_write frame net t of
               (t, Some err) \<Rightarrow> close (Some err) t
             | (t, None) \<Rightarrow> send_pending token (drop n pending) net t))"
  by pat_completeness auto
termination
  by (relation "measure (\<lambda>(_, pending, _). length pending)") auto

declare send_pending.simps [simp del]

text \<open>The answer to one flow: a first \<open>0x86\<close> may be retried, another refusal fails the flow, a success
  releases its packets. \<open>retry_flow\<close> is the call of \<open>retryAuth\<close> behind the \<open>\&\&\<close>.\<close>

definition retry_flow :: "byte \<Rightarrow> u64 \<Rightarrow> time \<Rightarrow> ('u, 'd) tunnelConn \<Rightarrow> ('u, 'd) tunnelConn \<times> bool" where
  "retry_flow st hash now t =
     (if st = authRetryStatus then
        (case retryAuth hash now (tc_flows t) of (ft, ok) \<Rightarrow> (t\<lparr>tc_flows := ft\<rparr>, ok))
      else (t, False))"

definition settle_flow :: "byte \<Rightarrow> int \<Rightarrow> string \<Rightarrow> u64 \<Rightarrow> time \<Rightarrow> (nat \<Rightarrow> write_result) \<Rightarrow>
    ('u, 'd) tunnelConn \<Rightarrow> ('u, 'd) tunnelConn" where
  "settle_flow st code token hash now net t =
     (if st \<noteq> 0 \<or> code \<noteq> 0 then
        t\<lparr>tc_flows := fst (completeAuth hash [] (Some ErrFlowRejected) now (tc_flows t))\<rparr>
      else if length token = 0 \<or> len token > 255 then
        close (Some (ProtocolError W_auth_response_token)) t
      else (case completeAuth hash token None now (tc_flows t) of
              (ft, _, pending) \<Rightarrow> send_pending token pending net (t\<lparr>tc_flows := ft\<rparr>)))"

definition handleAuthResp :: "byte \<Rightarrow> bytes \<Rightarrow> time \<Rightarrow> (nat \<Rightarrow> write_result) \<Rightarrow> ('u, 'd) tunnelConn \<Rightarrow>
    ('u, 'd) tunnelConn" where
  "handleAuthResp st body now net t =
     (case unmarshal (dec_struct dec_auth_resp) \<lparr>ar_code = None, ar_token = [], ar_hash = None\<rparr> (bytes_str body) of
        None \<Rightarrow> close (Some (ProtocolError W_auth_response_format)) t
      | Some resp \<Rightarrow>
          if ar_code resp = Some codeSessionGone then close (Some (ErrSessionGone codeSessionGone)) t
          else if ar_code resp = None \<or> ar_hash resp = None \<or> ar_hash resp = Some 0
          then close (Some (ProtocolError W_auth_response_fields)) t
          else let hash = the (ar_hash resp) in
            case retry_flow st hash now t of
              (t, True) \<Rightarrow> logAuthRetry now t
            | (t, False) \<Rightarrow> settle_flow st (the (ar_code resp)) (ar_token resp) hash now net t)"

section \<open>Address updates\<close>

fun update_vip :: "bytes list \<Rightarrow> ('u, 'd) tunnelConn \<Rightarrow> ('u, 'd) tunnelConn" where
  "update_vip [] t = t"
| "update_vip (ip # ips) t =
     (case To4 ip of
        None \<Rightarrow> update_vip ips t
      | Some v4 \<Rightarrow>
          if VIP t = ip4_bytes v4 then t
          else add_log Log_vip_updated (t\<lparr>tc_ep := SetLocalAddr (ip4_bytes v4) (tc_ep t)\<rparr>))"

definition handleVIPUpdate :: "byte \<Rightarrow> bytes \<Rightarrow> ('u, 'd) tunnelConn \<Rightarrow> ('u, 'd) tunnelConn" where
  "handleVIPUpdate st body t = (if st \<noteq> 0 then t else update_vip (parseVIPListPayload body) t)"

section \<open>Reading\<close>

definition appendStream :: "bytes \<Rightarrow> bytes \<Rightarrow> error + bytes" where
  "appendStream stream body =
     (if len body > maxStreamBytes - len stream then Inl (ProtocolError W_stream_buffer)
      else Inr (stream @ body))"

definition deliver_packet :: "('u, 'd) tunnelConn \<Rightarrow> bytes \<Rightarrow> ('u, 'd) tunnelConn" where
  "deliver_packet t pkt =
     (case Deliver (tc_ep t) of
        None \<Rightarrow> t
      | Some cb \<Rightarrow> t\<lparr>tc_delivered := tc_delivered t @ [(cb, pkt)]\<rparr>)"

text \<open>One frame. The second component is the stream buffer for the next round, \<open>None\<close> when the loop
  returns.\<close>

definition handle_frame :: "frame \<Rightarrow> time \<Rightarrow> (nat \<Rightarrow> write_result) \<Rightarrow> bytes \<Rightarrow> ('u, 'd) tunnelConn \<Rightarrow>
    ('u, 'd) tunnelConn \<times> bytes option" where
  "handle_frame fr now net stream t =
     (let t = t\<lparr>tc_heartbeatGap := 0\<rparr> in
      if cmd fr = cmdDataResp then
        (case appendStream stream (payload fr) of
           Inl err \<Rightarrow> (close (Some err) t, None)
         | Inr stream \<Rightarrow>
             (case splitPackets stream of
                Inl err \<Rightarrow> (close (Some err) t, None)
              | Inr (pkts, rest) \<Rightarrow> (foldl deliver_packet t pkts, Some rest)))
      else if cmd fr = cmdAuthResp then (handleAuthResp (status fr) (payload fr) now net t, Some stream)
      else if cmd fr = cmdVIPUpdate then (handleVIPUpdate (status fr) (payload fr) t, Some stream)
      else (t, Some stream))"

text \<open>The loop over the bytes that arrive. A closed connection refuses the read deadline; \<open>dl\<close> says
  when it fails otherwise, \<open>clock\<close> is the time of each round, both by the number of bytes still
  to come.\<close>

lemma read_full_length: "read_full n r = Inr (a, r') \<Longrightarrow> length r' + n = length r"
  by (auto simp: read_full_Inr)

lemma readFrame_consumes: "readFrame r = Inr (fr, r') \<Longrightarrow> length r' < length r"
  by (auto simp: readFrame_def split: sum.splits if_splits dest!: read_full_length)

function readLoop :: "(nat \<Rightarrow> error option) \<Rightarrow> (nat \<Rightarrow> time) \<Rightarrow> (nat \<Rightarrow> write_result) \<Rightarrow> bytes \<Rightarrow> bytes \<Rightarrow>
    ('u, 'd) tunnelConn \<Rightarrow> ('u, 'd) tunnelConn" where
  "readLoop dl clock net stream r t =
     (case (if tc_connClosed t then Some ErrNetClosed else dl (length r)) of
        Some err \<Rightarrow> close (Wrap Op_tunnel_read_deadline (Some err)) t
      | None \<Rightarrow>
          (case readFrame r of
             Inl err \<Rightarrow> close (Wrap Op_tunnel_read (Some err)) t
           | Inr (fr, r') \<Rightarrow>
               (case handle_frame fr (clock (length r)) net stream t of
                  (t, None) \<Rightarrow> t
                | (t, Some stream) \<Rightarrow> readLoop dl clock net stream r' t)))"
  by pat_completeness auto
termination
  by (relation "measure (\<lambda>(_, _, _, _, r, _). length r)") (auto dest: readFrame_consumes)

declare readLoop.simps [simp del]

section \<open>Heartbeats and authentication requests\<close>

text \<open>One tick of the heartbeat loop; the flag says whether the loop goes on.\<close>

definition heartbeat_tick :: "(nat \<Rightarrow> write_result) \<Rightarrow> ('u, 'd) tunnelConn \<Rightarrow> ('u, 'd) tunnelConn \<times> bool" where
  "heartbeat_tick net t =
     (case tunnel_write encodeHeartbeat net t of
        (t, Some err) \<Rightarrow> (close (Some err) t, False)
      | (t, None) \<Rightarrow>
          let t = t\<lparr>tc_heartbeatGap := tc_heartbeatGap t + 1\<rparr> in
          if tc_heartbeatGap t \<ge> heartbeatMissLimit then (close (Some ErrHeartbeatLost) t, False)
          else (t, True))"

definition sendAuthRequest :: "(nat \<Rightarrow> write_result) \<Rightarrow> authFlow \<Rightarrow> ('u, 'd) tunnelConn \<Rightarrow>
    ('u, 'd) tunnelConn \<times> error option" where
  "sendAuthRequest net f t =
     (case encodeAuthRequest (buildAuthRequest (tc_sid t) (tc_deviceID t) (tc_connectionID t) (tc_signKey t) f) of
        Inl err \<Rightarrow> (t, Some err)
      | Inr frame \<Rightarrow> tunnel_write frame net t)"

fun send_requests :: "(nat \<Rightarrow> write_result) \<Rightarrow> authFlow list \<Rightarrow> ('u, 'd) tunnelConn \<Rightarrow>
    ('u, 'd) tunnelConn \<times> bool" where
  "send_requests net [] t = (t, True)"
| "send_requests net (f # fs) t =
     (case sendAuthRequest net f t of
        (t, Some err) \<Rightarrow> (close (Some err) t, False)
      | (t, None) \<Rightarrow> send_requests net fs t)"

definition dispatchAuth :: "flow_ref list \<Rightarrow> time \<Rightarrow> (nat \<Rightarrow> write_result) \<Rightarrow> ('u, 'd) tunnelConn \<Rightarrow>
    ('u, 'd) tunnelConn \<times> bool" where
  "dispatchAuth order now net t =
     (case pendingAuth order authBatchSize now (tc_flows t) of
        (ft, fs) \<Rightarrow> send_requests net fs (t\<lparr>tc_flows := ft\<rparr>))"

text \<open>The two cases of the authentication loop that act: a wake-up and a scan.\<close>

definition auth_woken :: "flow_ref list \<Rightarrow> time \<Rightarrow> (nat \<Rightarrow> write_result) \<Rightarrow> ('u, 'd) tunnelConn \<Rightarrow>
    ('u, 'd) tunnelConn \<times> bool" where
  "auth_woken order now net t = dispatchAuth order now net (t\<lparr>tc_authWake := False\<rparr>)"

definition auth_scan :: "flow_ref list \<Rightarrow> flow_ref list \<Rightarrow> time \<Rightarrow> (nat \<Rightarrow> write_result) \<Rightarrow>
    ('u, 'd) tunnelConn \<Rightarrow> ('u, 'd) tunnelConn \<times> bool" where
  "auth_scan order order' now net t =
     dispatchAuth order' now net (t\<lparr>tc_flows := fst (expire order now (tc_flows t))\<rparr>)"

end
