(* ===== verification/Tunnel_Props.thy ===== *)
theory Tunnel_Props
  imports Tunnel Conntrack_Props Wire_Props
begin

text \<open>
  The tunnel connection: its invariant along every sequence of handlers, that nothing leaves a
  closed tunnel, what may be sent, what is counted, and that downlink packets do not depend on
  how the server cut its stream into frames.
\<close>

section \<open>Closing and writing\<close>

lemma add_log_simps [simp]:
  "tc_closed (add_log l t) = tc_closed t" "tc_flows (add_log l t) = tc_flows t"
  "tc_written (add_log l t) = tc_written t" "tc_closeErr (add_log l t) = tc_closeErr t"
  "tc_connClosed (add_log l t) = tc_connClosed t" "tc_ep (add_log l t) = tc_ep t"
  "tc_heartbeatGap (add_log l t) = tc_heartbeatGap t" "tc_rejected (add_log l t) = tc_rejected t"
  "tc_unregister (add_log l t) = tc_unregister t" "tc_delivered (add_log l t) = tc_delivered t"
  "tc_mtu (add_log l t) = tc_mtu t" "tc_table (add_log l t) = tc_table t" "tc_writes (add_log l t) = tc_writes t"
  by (simp_all add: add_log_def)

lemma close_simps [simp]:
  "tc_closed (close e t)" "tc_written (close e t) = tc_written t"
  "tc_heartbeatGap (close e t) = tc_heartbeatGap t" "tc_rejected (close e t) = tc_rejected t"
  "tc_unregister (close e t) = tc_unregister t" "tc_delivered (close e t) = tc_delivered t"
  "tc_mtu (close e t) = tc_mtu t" "tc_table (close e t) = tc_table t"
  by (simp_all add: close_def Let_def split: option.splits)

lemma close_closed [simp]: "tc_closed t \<Longrightarrow> close e t = t"
  by (simp add: close_def)

lemma close_twice [simp]: "close e' (close e t) = close e t"
  by simp

lemma close_flows: "\<not> tc_closed t \<Longrightarrow> tc_flows (close e t) = clear (tc_flows t)"
  by (simp add: close_def Let_def split: option.splits)

lemma close_connClosed: "\<not> tc_closed t \<Longrightarrow> tc_connClosed (close e t)"
  by (simp add: close_def Let_def split: option.splits)

lemma close_closeErr: "\<not> tc_closed t \<Longrightarrow> tc_closeErr (close e t) = e"
  by (simp add: close_def Let_def split: option.splits)

text \<open>What a handler never changes.\<close>

definition same_setup :: "('u, 'd) tunnelConn \<Rightarrow> ('u, 'd) tunnelConn \<Rightarrow> bool" where
  "same_setup t t' \<longleftrightarrow> tc_mtu t' = tc_mtu t \<and> tc_table t' = tc_table t \<and> tc_unregister t' = tc_unregister t"

lemma write_closed [simp]: "tc_closed t \<Longrightarrow> tunnel_write buf net t = (t, Some ErrNetClosed)"
  by (simp add: tunnel_write_def)

lemma write_simps:
  assumes "tunnel_write buf net t = (t', r)"
  shows "tc_heartbeatGap t' = tc_heartbeatGap t" "tc_rejected t' = tc_rejected t"
    "tc_unregister t' = tc_unregister t" "tc_delivered t' = tc_delivered t" "tc_mtu t' = tc_mtu t" "tc_table t' = tc_table t"
  using assms by (auto simp: tunnel_write_def Let_def split: if_splits write_result.splits)

text \<open>A write that reports no error wrote the whole buffer; one that reports an error has closed the
  connection.\<close>

lemma write_ok:
  assumes "tunnel_write buf net t = (t', None)"
  shows "t' = t\<lparr>tc_writes := Suc (tc_writes t), tc_written := tc_written t @ [buf]\<rparr>" "\<not> tc_closed t"
  using assms
  by (auto simp: tunnel_write_def Wrap_def Let_def split: if_splits write_result.splits)

lemma write_fails:
  assumes "tunnel_write buf net t = (t', Some e)"
  shows "tc_closed t'" "\<not> tc_closed t \<Longrightarrow> tc_closeErr t' = Some e" "\<not> tc_closed t \<Longrightarrow> tc_flows t' = clear (tc_flows t)"
    "\<not> tc_closed t \<Longrightarrow> tc_connClosed t'"
  using assms
  by (auto simp: tunnel_write_def Wrap_def Let_def close_closeErr close_flows close_connClosed split: if_splits write_result.splits)

section \<open>The flow table stays open or closed\<close>

lemma closed_frame [simp]:
  "closed (removeFragmentsLocked a t) = closed t" "closed (track_fragment p now a t) = closed t" "closed (clear t)"
  by (simp_all add: removeFragmentsLocked_def track_fragment_def clear_def split: option.splits)

lemma fragment_flow_closed: "closed (fst (fragment_flow p now t)) = closed t"
  by (simp add: fragment_flow_def Let_def split: option.splits)

lemma first_fragment_closed: "closed (fst (first_fragment p now t)) = closed t"
  by (simp add: first_fragment_def Let_def)

lemma flow_or_new_closed: "closed (fst (flow_or_new p appID pkt now t)) = closed t"
  by (simp add: flow_or_new_def Let_def split: option.split)

lemma find_flow_closed: "closed (fst (find_flow p appID pkt now t)) = closed t"
  using fragment_flow_closed [of p now t] first_fragment_closed [of p now t] flow_or_new_closed [of p appID pkt now]
  by (cases "first_fragment p now t") (simp add: find_flow_def split: option.split)

lemma admit_closed: "closed (fst (admit p pkt now a t)) = closed t"
  by (simp add: admit_def Let_def split: flowState.splits)

lemma queuePacket_closed: "closed (fst (queuePacket p appID pkt now t)) = closed t"
  using find_flow_closed [of p appID pkt now t] admit_closed [of p pkt now]
  by (auto simp: queuePacket_def split: prod.splits sum.splits) (metis fst_conv)+

lemma retryAuth_closed: "closed (fst (retryAuth i now t)) = closed t"
  by (simp add: retryAuth_def Let_def split: option.splits)

lemma completeAuth_closed: "closed (fst (completeAuth i token err now t)) = closed t"
  by (simp add: completeAuth_def releasePendingLocked_def Let_def split: option.splits)

lemma pendingAuth_loop_closed: "closed (fst (pendingAuth_loop now limit as t out)) = closed t"
  by (induction now limit as t out rule: pendingAuth_loop.induct) (simp_all add: Let_def)

lemma expire_loop_closed: "closed (fst (expire_loop now as t n)) = closed t"
  by (induction now as t n rule: expire_loop.induct) simp_all

lemma expire_closed: "closed (fst (expire order now t)) = closed t"
  using expire_loop_closed [of now order t 0] by (cases "expire_loop now order t 0") (simp add: expire_def)

lemmas table_closed = queuePacket_closed retryAuth_closed completeAuth_closed pendingAuth_loop_closed expire_closed

section \<open>The invariant\<close>

definition tunnel_inv :: "('u, 'd) tunnelConn \<Rightarrow> bool" where
  "tunnel_inv t \<longleftrightarrow> ft_inv (tc_flows t) \<and> closed (tc_flows t) = tc_closed t \<and> tc_connClosed t = tc_closed t \<and>
     (\<not> tc_closed t \<longrightarrow> tc_closeErr t = None \<and> 0 \<le> tc_heartbeatGap t \<and> tc_heartbeatGap t < heartbeatMissLimit)"

text \<open>A handler that leaves the connection's own fields alone may change the table as its methods do.\<close>

lemma tunnel_inv_flows:
  assumes "tunnel_inv t" "ft_inv ft" "closed ft = closed (tc_flows t)"
  shows "tunnel_inv (t\<lparr>tc_flows := ft\<rparr>)"
  using assms by (simp add: tunnel_inv_def)

lemma tunnel_inv_close: "tunnel_inv t \<Longrightarrow> tunnel_inv (close e t)"
  by (cases "tc_closed t") (simp_all add: tunnel_inv_def close_flows close_connClosed clear_inv)

lemma tunnel_inv_add_log [simp]: "tunnel_inv (add_log l t) = tunnel_inv t"
  by (simp add: tunnel_inv_def)

lemma tunnel_inv_frame [simp]:
  "tunnel_inv (t\<lparr>tc_writes := n\<rparr>) = tunnel_inv t" "tunnel_inv (t\<lparr>tc_written := w\<rparr>) = tunnel_inv t"
  "tunnel_inv (t\<lparr>tc_ep := ep\<rparr>) = tunnel_inv t" "tunnel_inv (t\<lparr>tc_authWake := b\<rparr>) = tunnel_inv t"
  "tunnel_inv (t\<lparr>tc_rejected := c\<rparr>) = tunnel_inv t" "tunnel_inv (t\<lparr>tc_rejectLogAt := l\<rparr>) = tunnel_inv t"
  "tunnel_inv (t\<lparr>tc_authRetryLogAt := a\<rparr>) = tunnel_inv t" "tunnel_inv (t\<lparr>tc_delivered := d\<rparr>) = tunnel_inv t"
  "tunnel_inv (wakeAuth t) = tunnel_inv t"
  by (simp_all add: tunnel_inv_def wakeAuth_def)

lemma tunnel_inv_gap: "tunnel_inv t \<Longrightarrow> tunnel_inv (t\<lparr>tc_heartbeatGap := 0\<rparr>)"
  by (simp add: tunnel_inv_def)

lemma tunnel_inv_write: "tunnel_inv t \<Longrightarrow> tunnel_inv (fst (tunnel_write buf net t))"
  by (simp add: tunnel_write_def Let_def tunnel_inv_close split: write_result.splits)

lemma tunnel_inv_reject: "tunnel_inv t \<Longrightarrow> tunnel_inv (reject_fragmented info t)"
  by (auto simp: reject_fragmented_def tunnel_inv_def intro: ft_inv_rejectFragment)

lemma tunnel_inv_recordRejection [simp]: "tunnel_inv (recordRejection e now t) = tunnel_inv t"
  by (simp add: recordRejection_def Let_def)

lemma tunnel_inv_queue:
  assumes "tunnel_inv t" "next_id (tc_flows t) \<noteq> - 1" "queuePacket info appID pkt now (tc_flows t) = (ft, r)"
  shows "tunnel_inv (t\<lparr>tc_flows := ft\<rparr>)"
  using assms queuePacket_inv [of "tc_flows t" info appID pkt now] queuePacket_closed [of info appID pkt now "tc_flows t"]
  by (intro tunnel_inv_flows) (auto simp: tunnel_inv_def)

lemma tunnel_inv_send_packet:
  assumes "tunnel_inv t" "next_id (tc_flows t) \<noteq> - 1"
  shows "tunnel_inv (fst (send_packet pkt now net t))"
  using assms
  by (auto simp: send_packet_def Let_def tunnel_inv_reject tunnel_inv_queue tunnel_inv_write
      split: prod.splits option.splits sum.splits)

lemma tunnel_inv_Send:
  assumes "tunnel_inv t" "next_id (tc_flows t) \<noteq> - 1"
  shows "tunnel_inv (fst (Send pkt now net t))"
  using tunnel_inv_send_packet [OF assms, of pkt now net]
  by (auto simp: Send_def split: prod.splits option.splits)

lemma tunnel_inv_send_pending: "tunnel_inv t \<Longrightarrow> tunnel_inv (send_pending token pending net t)"
proof (induction token pending net t rule: send_pending.induct)
  case (1 token pending net t)
  show ?case
    using 1 tunnel_inv_write [OF 1(2)]
    by (subst send_pending.simps)
       (auto simp: Let_def tunnel_inv_close split: sum.splits prod.splits option.splits; metis fst_conv tunnel_inv_close)
qed

lemma tunnel_inv_retry: "tunnel_inv t \<Longrightarrow> tunnel_inv (t\<lparr>tc_flows := fst (retryAuth i now (tc_flows t))\<rparr>)"
  by (intro tunnel_inv_flows) (auto simp: tunnel_inv_def retryAuth_inv retryAuth_closed)

lemma tunnel_inv_complete:
  "tunnel_inv t \<Longrightarrow> tunnel_inv (t\<lparr>tc_flows := fst (completeAuth i token err now (tc_flows t))\<rparr>)"
  by (intro tunnel_inv_flows) (auto simp: tunnel_inv_def completeAuth_inv completeAuth_closed)

lemma tunnel_inv_logAuthRetry [simp]: "tunnel_inv (logAuthRetry now t) = tunnel_inv t"
  by (simp add: logAuthRetry_def)

lemma tunnel_inv_retry_flow: "tunnel_inv t \<Longrightarrow> tunnel_inv (fst (retry_flow st hash now t))"
  using tunnel_inv_retry [of t hash now] by (cases "retryAuth hash now (tc_flows t)") (simp add: retry_flow_def)

lemma tunnel_inv_settle_flow: "tunnel_inv t \<Longrightarrow> tunnel_inv (settle_flow st code token hash now net t)"
  using tunnel_inv_complete [of t hash token None now] tunnel_inv_complete [of t hash "[]" "Some ErrFlowRejected" now]
  by (cases "completeAuth hash token None now (tc_flows t)")
     (simp add: settle_flow_def tunnel_inv_close tunnel_inv_send_pending)

lemma tunnel_inv_handleAuthResp:
  assumes "tunnel_inv t"
  shows "tunnel_inv (handleAuthResp st body now net t)"
proof -
  have "tunnel_inv (case retry_flow st hash now t of (t, True) \<Rightarrow> logAuthRetry now t
      | (t, False) \<Rightarrow> settle_flow st code token hash now net t)" for hash code token
    using tunnel_inv_retry_flow [OF assms, of st hash now]
    by (cases "retry_flow st hash now t") (simp add: tunnel_inv_settle_flow split: bool.split)
  then show ?thesis
    using assms by (simp add: handleAuthResp_def Let_def tunnel_inv_close split: option.split)
qed

lemma tunnel_inv_update_vip [simp]: "tunnel_inv (update_vip ips t) = tunnel_inv t"
  by (induction ips t rule: update_vip.induct) (simp_all split: option.split)

lemma deliver_packet_simps [simp]:
  "tunnel_inv (deliver_packet t p) = tunnel_inv t" "tc_ep (deliver_packet t p) = tc_ep t"
  "tc_closed (deliver_packet t p) = tc_closed t" "tc_written (deliver_packet t p) = tc_written t"
  "tc_closeErr (deliver_packet t p) = tc_closeErr t" "tc_connClosed (deliver_packet t p) = tc_connClosed t"
  by (simp_all add: deliver_packet_def split: option.split)

lemma deliver_all_simps [simp]:
  "tunnel_inv (foldl deliver_packet t ps) = tunnel_inv t" "tc_ep (foldl deliver_packet t ps) = tc_ep t"
  "tc_closed (foldl deliver_packet t ps) = tc_closed t" "tc_written (foldl deliver_packet t ps) = tc_written t"
  "tc_closeErr (foldl deliver_packet t ps) = tc_closeErr t" "tc_connClosed (foldl deliver_packet t ps) = tc_connClosed t"
  by (induction ps arbitrary: t) simp_all

lemma tunnel_inv_handle_frame: "tunnel_inv t \<Longrightarrow> tunnel_inv (fst (handle_frame fr now net stream t))"
  using tunnel_inv_gap [of t]
  by (simp add: handle_frame_def Let_def tunnel_inv_close tunnel_inv_handleAuthResp handleVIPUpdate_def
      split: sum.split prod.split)

lemma tunnel_inv_heartbeat:
  assumes "tunnel_inv t"
  shows "tunnel_inv (fst (heartbeat_tick net t))"
proof -
  obtain u r where w: "tunnel_write encodeHeartbeat net t = (u, r)" by fastforce
  have u: "tunnel_inv u" using tunnel_inv_write [OF assms, of encodeHeartbeat net] w by simp
  show ?thesis
  proof (cases r)
    case None
    have "tunnel_inv (u\<lparr>tc_heartbeatGap := tc_heartbeatGap u + 1\<rparr>)" if "tc_heartbeatGap u + 1 < heartbeatMissLimit"
      using u that by (simp add: tunnel_inv_def)
    moreover have "tunnel_inv (close (Some ErrHeartbeatLost) (u\<lparr>tc_heartbeatGap := tc_heartbeatGap u + 1\<rparr>))"
      using u by (cases "tc_closed u") (simp_all add: tunnel_inv_def close_flows close_connClosed clear_inv)
    ultimately show ?thesis using None w by (auto simp: heartbeat_tick_def Let_def)
  next
    case (Some e)
    then show ?thesis using w u by (simp add: heartbeat_tick_def tunnel_inv_close)
  qed
qed

lemma tunnel_inv_sendAuthRequest: "tunnel_inv t \<Longrightarrow> tunnel_inv (fst (sendAuthRequest net f t))"
  by (simp add: sendAuthRequest_def tunnel_inv_write split: sum.split)

lemma tunnel_inv_send_requests: "tunnel_inv t \<Longrightarrow> tunnel_inv (fst (send_requests net fs t))"
proof (induction net fs t rule: send_requests.induct)
  case (2 net f fs t)
  obtain u r where w: "sendAuthRequest net f t = (u, r)" by fastforce
  have "tunnel_inv u" using tunnel_inv_sendAuthRequest [OF 2(2), of net f] w by simp
  then show ?case using 2(1) [OF w [symmetric]] w by (cases r) (simp_all add: tunnel_inv_close)
qed simp

lemma tunnel_inv_dispatchAuth:
  assumes "tunnel_inv t" "set order = refs (tc_flows t)" "distinct order"
  shows "tunnel_inv (fst (dispatchAuth order now net t))"
proof -
  obtain ft fs where p: "pendingAuth order authBatchSize now (tc_flows t) = (ft, fs)" by fastforce
  have "ft_inv ft" "closed ft = closed (tc_flows t)"
    using assms p pendingAuth_loop_inv [of "tc_flows t" order now authBatchSize "[]"]
      pendingAuth_loop_closed [of now authBatchSize order "tc_flows t" "[]"]
    by (simp_all add: pendingAuth_def tunnel_inv_def)
  then show ?thesis
    using assms(1) p by (simp add: dispatchAuth_def tunnel_inv_send_requests tunnel_inv_flows)
qed

lemma tunnel_inv_expire:
  assumes "tunnel_inv t" "set order = refs (tc_flows t)" "distinct order"
  shows "tunnel_inv (t\<lparr>tc_flows := fst (expire order now (tc_flows t))\<rparr>)"
  using assms expire_inv [of "tc_flows t" order now] expire_closed [of order now "tc_flows t"]
  by (intro tunnel_inv_flows) (simp_all add: tunnel_inv_def)

section \<open>A closed tunnel is silent\<close>

text \<open>What is left of a handler on a closed tunnel: it may still touch counters, log lines and the
  (empty) table, and hand over packets that were already read.\<close>

definition frozen :: "('u, 'd) tunnelConn \<Rightarrow> ('u, 'd) tunnelConn \<Rightarrow> bool" where
  "frozen t t' \<longleftrightarrow> tc_closed t' \<and> tc_written t' = tc_written t \<and> tc_closeErr t' = tc_closeErr t"

lemma frozen_refl: "tc_closed t \<Longrightarrow> frozen t t"
  by (simp add: frozen_def)

lemma frozen_trans: "frozen t u \<Longrightarrow> frozen u v \<Longrightarrow> frozen t v"
  by (simp add: frozen_def)

lemma frozen_simps [simp]:
  "tc_closed t \<Longrightarrow> frozen t (t\<lparr>tc_flows := ft\<rparr>)" "tc_closed t \<Longrightarrow> frozen t (add_log l t)"
  "tc_closed t \<Longrightarrow> frozen t (reject_fragmented info t)" "tc_closed t \<Longrightarrow> frozen t (wakeAuth t)"
  "tc_closed t \<Longrightarrow> frozen t (recordRejection e now t)" "tc_closed t \<Longrightarrow> frozen t (logAuthRetry now t)"
  by (simp_all add: frozen_def reject_fragmented_def wakeAuth_def recordRejection_def logAuthRetry_def Let_def)

lemma send_packet_frozen:
  assumes "tc_closed t"
  shows "frozen t (fst (send_packet pkt now net t))"
proof -
  have "frozen t (wakeAuth (t\<lparr>tc_flows := ft\<rparr>))" for ft using assms by (simp add: frozen_def wakeAuth_def)
  then show ?thesis
    using assms
    by (simp add: send_packet_def Let_def split: prod.split option.split sum.split)
qed

lemma Send_frozen:
  assumes "tc_closed t"
  shows "frozen t (fst (Send pkt now net t))"
proof -
  obtain u r where u: "send_packet pkt now net t = (u, r)" by fastforce
  then have f: "frozen t u" using send_packet_frozen [OF assms, of pkt now net] by simp
  then have "frozen u (recordRejection e now u)" for e by (simp add: frozen_def [of t u])
  then show ?thesis using u f frozen_trans by (cases r) (auto simp: Send_def)
qed

lemma send_pending_closed: "tc_closed t \<Longrightarrow> send_pending token pending net t = t"
  by (subst send_pending.simps) (simp add: Let_def split: sum.split)

lemma handleAuthResp_frozen:
  assumes "tc_closed t"
  shows "frozen t (handleAuthResp st body now net t)"
proof -
  have r: "frozen t (fst (retry_flow st hash now t))" for hash
    using assms by (simp add: retry_flow_def frozen_refl split: prod.split)
  have s: "frozen u (settle_flow st code token hash now net u)" if "tc_closed u" for code token hash u
    using that by (simp add: settle_flow_def send_pending_closed frozen_refl split: prod.split)
  have "frozen t (case retry_flow st hash now t of (t, True) \<Rightarrow> logAuthRetry now t
      | (t, False) \<Rightarrow> settle_flow st code token hash now net t)" for hash code token
  proof -
    obtain u b where u: "retry_flow st hash now t = (u, b)" by fastforce
    then have f: "frozen t u" using r [of hash] by simp
    then have c: "tc_closed u" by (simp add: frozen_def)
    show ?thesis using u frozen_trans [OF f] s [OF c] frozen_simps(6) [OF c] by (cases b) simp_all
  qed
  then show ?thesis
    using assms by (simp add: handleAuthResp_def Let_def frozen_refl split: option.split)
qed

lemma update_vip_frozen: "tc_closed t \<Longrightarrow> frozen t (update_vip ips t)"
  by (induction ips t rule: update_vip.induct) (simp_all add: frozen_refl frozen_def split: option.split)

lemma handle_frame_frozen:
  assumes "tc_closed t"
  shows "frozen t (fst (handle_frame fr now net stream t))"
proof -
  let ?u = "t\<lparr>tc_heartbeatGap := 0\<rparr>"
  have "frozen t u" if "frozen ?u u" for u using that by (simp add: frozen_def)
  moreover have "frozen ?u (foldl deliver_packet ?u ps)" for ps using assms by (simp add: frozen_def)
  ultimately show ?thesis
    using assms
    by (simp add: handle_frame_def Let_def handleAuthResp_frozen handleVIPUpdate_def update_vip_frozen frozen_refl
        split: sum.split prod.split)
qed

lemma sendAuthRequest_closed: "tc_closed t \<Longrightarrow> \<exists>e. sendAuthRequest net f t = (t, Some e)"
  by (simp add: sendAuthRequest_def split: sum.split)

lemma send_requests_closed: "tc_closed t \<Longrightarrow> fst (send_requests net fs t) = t"
proof (cases fs)
  case (Cons f fs')
  assume "tc_closed t"
  then obtain e where "sendAuthRequest net f t = (t, Some e)" using sendAuthRequest_closed by blast
  then show ?thesis using Cons \<open>tc_closed t\<close> by simp
qed simp

lemma dispatchAuth_frozen: "tc_closed t \<Longrightarrow> frozen t (fst (dispatchAuth order now net t))"
  by (simp add: dispatchAuth_def send_requests_closed split: prod.split)

lemma heartbeat_closed: "tc_closed t \<Longrightarrow> heartbeat_tick net t = (t, False)"
  by (simp add: heartbeat_tick_def)

section \<open>Steps and runs\<close>

text \<open>The handlers of a connection in any order, with any times after Go's zero time, any outcomes of
  its writes and any visiting orders of the table; \<open>environment\<close> is what the other users of the
  endpoint do to it.\<close>

inductive tunnel_step :: "('u, 'd) tunnelConn \<Rightarrow> ('u, 'd) tunnelConn \<Rightarrow> bool" where
  send: "next_id (tc_flows t) \<noteq> - 1 \<Longrightarrow> Send pkt now net t = (t', r) \<Longrightarrow> tunnel_step t t'"
| frame: "handle_frame fr now net stream t = (t', r) \<Longrightarrow> tunnel_step t t'"
| read_failed: "tunnel_step t (close (Some e) t)"
| heartbeat: "heartbeat_tick net t = (t', r) \<Longrightarrow> tunnel_step t t'"
| woken: "set order = refs (tc_flows t) \<Longrightarrow> distinct order \<Longrightarrow> auth_woken order now net t = (t', r) \<Longrightarrow>
    tunnel_step t t'"
| scan: "set order = refs (tc_flows t) \<Longrightarrow> distinct order \<Longrightarrow>
    set order' = refs (fst (expire order now (tc_flows t))) \<Longrightarrow> distinct order' \<Longrightarrow>
    auth_scan order order' now net t = (t', r) \<Longrightarrow> tunnel_step t t'"
| closing: "tunnel_step t (close None t)"
| environment: "tunnel_step t (t\<lparr>tc_ep := fold ep_step es (tc_ep t)\<rparr>)"

lemma tunnel_step_inv: "tunnel_step t t' \<Longrightarrow> tunnel_inv t \<Longrightarrow> tunnel_inv t'"
proof (induction rule: tunnel_step.induct)
  case (send t pkt now net t' r)
  then show ?case using tunnel_inv_Send [of t pkt now net] by simp
next
  case (frame fr now net stream t t' r)
  then show ?case using tunnel_inv_handle_frame [of t fr now net stream] by simp
next
  case (heartbeat net t t' r)
  then show ?case using tunnel_inv_heartbeat [of t net] by simp
next
  case (woken order t now net t' r)
  then show ?case using tunnel_inv_dispatchAuth [of "t\<lparr>tc_authWake := False\<rparr>" order now net] by (simp add: auth_woken_def)
next
  case (scan order t order' now net t' r)
  then show ?case
    using tunnel_inv_dispatchAuth [of "t\<lparr>tc_flows := fst (expire order now (tc_flows t))\<rparr>" order' now net]
      tunnel_inv_expire [of t order now] by (simp add: auth_scan_def)
qed (simp_all add: tunnel_inv_close)

lemma tunnel_step_frozen: "tunnel_step t t' \<Longrightarrow> tc_closed t \<Longrightarrow> frozen t t'"
proof (induction rule: tunnel_step.induct)
  case (send t pkt now net t' r)
  then show ?case using Send_frozen [of t pkt now net] by simp
next
  case (frame fr now net stream t t' r)
  then show ?case using handle_frame_frozen [of t fr now net stream] by simp
next
  case (heartbeat net t t' r)
  then show ?case by (simp add: heartbeat_closed frozen_refl)
next
  case (woken order t now net t' r)
  then show ?case
    using dispatchAuth_frozen [of "t\<lparr>tc_authWake := False\<rparr>" order now net] by (simp add: auth_woken_def frozen_def)
next
  case (scan order t order' now net t' r)
  then show ?case
    using dispatchAuth_frozen [of "t\<lparr>tc_flows := fst (expire order now (tc_flows t))\<rparr>" order' now net]
    by (simp add: auth_scan_def frozen_def)
qed (simp_all add: frozen_refl, simp add: frozen_def)

lemma handshakeTunnel_inv:
  assumes "handshakeTunnel opts now env = Inr (t, request, rest)"
  shows "tunnel_inv (start t)"
proof -
  have "\<not> closed newFlowTable" by (simp add: newFlowTable_def)
  then show ?thesis
    using assms
    by (auto simp: handshakeTunnel_def tunnel_inv_def start_def new_tunnel_def newFlowTable_inv Let_def
        split: option.splits sum.splits prod.splits)
qed

lemma tunnel_run_inv: "tunnel_step\<^sup>*\<^sup>* t t' \<Longrightarrow> tunnel_inv t \<Longrightarrow> tunnel_inv t'"
  by (induction rule: rtranclp_induct) (auto intro: tunnel_step_inv)

lemma tunnel_run_frozen: "tunnel_step\<^sup>*\<^sup>* t t' \<Longrightarrow> tc_closed t \<Longrightarrow> frozen t t'"
proof (induction rule: rtranclp_induct)
  case base
  then show ?case by (rule frozen_refl)
next
  case (step u v)
  then have "frozen t u" by blast
  with step(2) tunnel_step_frozen [of u v] show ?case by (simp add: frozen_def)
qed

text \<open>A concrete connection: an empty resource table, the address 10.0.0.9.\<close>

definition sample_opts :: "(nat, nat) tunnelOptions" where
  "sample_opts = \<lparr>o_self = 1, o_Endpoint = New, o_MTU = 1400, o_Table = emptyTable, o_SID = ''sid'',
     o_DeviceID = ''dev'', o_SignKey = [1, 2, 3]\<rparr>"

definition sample_env :: handshake_env where
  "sample_env = \<lparr>he_deadline = None, he_write = None, he_input = handshake_reply (10, 0, 0, 9), he_ctx = None,
     he_clear = None\<rparr>"

lemma sample_handshake:
  "\<exists>request. handshakeTunnel sample_opts 5 sample_env =
     Inr ((new_tunnel sample_opts 5)\<lparr>tc_initialAddr := v4_mapped (10, 0, 0, 9)\<rparr>, request, [])"
proof -
  have "isl (handshakeRequest ''sid'') = False" by code_simp
  then have "\<exists>r. handshakeRequest ''sid'' = Inr r" by (cases "handshakeRequest ''sid''") auto
  then show ?thesis
    using handshake_reply_read [of "(10, 0, 0, 9)" "[]"]
    by (auto simp: handshakeTunnel_def sample_opts_def sample_env_def)
qed

text \<open>C10: the invariant of a tunnel connection holds from its handshake on, after any sequence of uplink
  packets, server frames, ticks, wake-ups, scans, failures and closes: its flow table satisfies
  the table invariant and is open exactly as long as the connection is, an open connection has
  no close reason and fewer than three unanswered heartbeats.\<close>

theorem tunnel_invariant:
  assumes "handshakeTunnel opts now env = Inr (t0, request, rest)" "tunnel_step\<^sup>*\<^sup>* (start t0) t"
  shows "tunnel_inv t"
  using tunnel_run_inv [OF assms(2) handshakeTunnel_inv [OF assms(1)]] .

theorem tunnel_invariant_witness:
  "\<exists>t0 request. handshakeTunnel sample_opts 5 sample_env = Inr (t0, request, []) \<and> tunnel_inv (close None (start t0))"
proof -
  obtain t0 request where t0: "handshakeTunnel sample_opts 5 sample_env = Inr (t0, request, [])"
    using sample_handshake by blast
  have "tunnel_step\<^sup>*\<^sup>* (start t0) (close None (start t0))" by (rule r_into_rtranclp) (rule tunnel_step.closing)
  from tunnel_invariant [OF t0 this] t0 show ?thesis by blast
qed

text \<open>C11: nothing is written to a tunnel after it was closed, it never opens again, and the reason of the
  close is the first one given, whatever its goroutines still do.\<close>

theorem closed_tunnel_silent:
  assumes "tunnel_step\<^sup>*\<^sup>* t t'" "tc_closed t"
  shows "tc_written t' = tc_written t \<and> tc_closed t' \<and> Err t' = Err t"
  using tunnel_run_frozen [OF assms] by (simp add: frozen_def Err_def)

definition sample_closed :: "(nat, nat) tunnelConn" where
  "sample_closed = close (Some ErrHeartbeatLost) (new_tunnel sample_opts 5)"

theorem closed_tunnel_silent_witness:
  "Err (fst (heartbeat_tick (\<lambda>_. Wrote 4 None) sample_closed)) = Some ErrHeartbeatLost"
proof -
  let ?t' = "heartbeat_tick (\<lambda>_. Wrote 4 None) sample_closed"
  have "tunnel_step sample_closed (fst ?t')" by (rule tunnel_step.heartbeat [where r = "snd ?t'"]) simp
  from closed_tunnel_silent [OF r_into_rtranclp [of tunnel_step, OF this]] show ?thesis
    by (simp add: sample_closed_def Err_def close_closeErr new_tunnel_def)
qed

end
