(* ===== verification/Tunnel_Traffic.thy ===== *)
theory Tunnel_Traffic
  imports Tunnel_Props Conntrack_Fragments
begin

text \<open>
  What a tunnel lets through: uplink packets, the packets released by an authentication, downlink
  packets, and the heartbeats that decide whether the peer is alive.
\<close>

section \<open>Uplink\<close>

lemma ready_token:
  assumes "admit p pkt now a t = (u, Inr (token, False))"
  shows "heap u a = (heap t a)\<lparr>f_updatedAt := now\<rparr>" "f_state (heap t a) = flowReady" "token = f_token (heap t a)"
    "flows u = flows t"
  using assms by (auto simp: admit_def Let_def update_flow_def split: flowState.splits if_splits)

lemma track_fragment_simps [simp]:
  "heap (track_fragment p now a t) = heap t" "flows (track_fragment p now a t) = flows t"
  by (simp_all add: track_fragment_def rejectFragment_def split: option.splits)

lemma queuePacket_ready:
  assumes "ft_inv t" "next_id t \<noteq> - 1" "queuePacket p appID pkt now t = (t', Inr (token, False))"
  shows "\<exists>a. map_of (flows t') (f_key (heap t' a)) = Some a \<and> f_state (heap t' a) = flowReady \<and>
    f_token (heap t' a) = token \<and>
    (if offset p = 0 then f_key (heap t' a) = key p
     else \<exists>s. map_of (fragments t) (fragment p) = Some s \<and> s_flow s = a)"
proof -
  have c: "\<not> closed t" using assms(3) by (auto simp: queuePacket_def)
  obtain u a where u: "find_flow p appID pkt now t = (u, Inr a)"
    using assms(3) c by (auto simp: queuePacket_def split: prod.splits sum.splits)
  then obtain v where v: "admit p pkt now a u = (v, Inr (token, False))" "t' = track_fragment p now a v"
    using assms(3) c by (auto simp: queuePacket_def split: prod.splits sum.splits)
  have a: "a \<in> refs u" "ft_inv u" using find_flow_inv [OF assms(1) u assms(2) c] by auto
  then have live: "map_of (flows u) (f_key (heap u a)) = Some a" by (simp add: refs_lookup ft_inv_def)
  have "if offset p = 0 then f_key (heap u a) = key p
     else \<exists>s. map_of (fragments t) (fragment p) = Some s \<and> s_flow s = a"
  proof (cases "offset p = 0")
    case True
    obtain w e where w: "first_fragment p now t = (w, e)" by fastforce
    with True u have "flow_or_new p appID pkt now w = (u, Inr a)"
      by (cases e) (auto simp: find_flow_def)
    moreover have "ft_inv w" using first_fragment_inv [OF assms(1) w] by blast
    ultimately show ?thesis using True flow_or_new_key by auto
  next
    case False
    with u have "fragment_flow p now t = (u, Inr a)" by (simp add: find_flow_def)
    from fragment_flow_accepts [OF this] False show ?thesis by auto
  qed
  then show ?thesis
    using ready_token [OF v(1)] v(2) live by (intro exI [of _ a]) simp
qed

text \<open>C12: a packet leaves through the tunnel only when it may: if sending a packet writes anything, the
  packet is a well-formed IPv4 packet within the MTU, its destination is in the resource table
  (a tail fragment belongs to a datagram whose first fragment was), its own flow - the one with its
  addresses, ports and protocol, for a tail fragment the one its datagram is associated with - is in
  the table and has been authenticated, and what is written is one data frame with that flow's token
  which the server reads as exactly this packet.\<close>

theorem uplink_authorised:
  assumes "tunnel_inv t" "next_id (tc_flows t) \<noteq> - 1"
    and "Send pkt now net t = (t', None)" "tc_written t' \<noteq> tc_written t"
  shows "\<exists>info frame body. \<exists>a\<in>refs (tc_flows t').
    parsePacket pkt = (info, None) \<and> len pkt \<le> tc_mtu t \<and>
    (offset info = 0 \<longrightarrow> matchIP (tc_table t) (fk_dst (key info)) (proto info) (dstPort info) \<noteq> None \<and>
       map_of (flows (tc_flows t')) (key info) = Some a) \<and>
    (offset info \<noteq> 0 \<longrightarrow> (\<exists>s. map_of (fragments (tc_flows t)) (fragment info) = Some s \<and> s_flow s = a)) \<and>
    f_state (heap (tc_flows t') a) = flowReady \<and>
    encodeDataFrame (f_token (heap (tc_flows t') a)) [pkt] = Inr frame \<and>
    tc_written t' = tc_written t @ [frame] \<and>
    readServerFrame frame = Inr (\<lparr>sf_cmd = cmdDataReq, sf_payload = body\<rparr>, []) \<and>
    parseClientDataFrame body = Inr [pkt]"
proof -
  have s: "send_packet pkt now net t = (t', None)"
    using assms(3) by (auto simp: Send_def split: prod.splits option.splits)
  obtain info where i: "parsePacket pkt = (info, None)"
    using s by (auto simp: send_packet_def split: prod.splits option.splits)
  have m: "\<not> len pkt > tc_mtu t" using s i by (auto simp: send_packet_def split: if_splits)
  obtain appID where a: "packet_app info t = Some appID"
    using s i m by (cases "packet_app info t") (simp_all add: send_packet_def)
  obtain ft r where q: "queuePacket info appID pkt now (tc_flows t) = (ft, r)" by fastforce
  obtain token queued where r: "r = Inr (token, queued)"
    using s i m a q by (cases r) (auto simp: send_packet_def)
  have nq: "\<not> queued"
    using s i m a q r assms(4) by (auto simp: send_packet_def wakeAuth_def Let_def)
  obtain frame where f: "encodeDataFrame token [pkt] = Inr frame" "tunnel_write frame net (t\<lparr>tc_flows := ft\<rparr>) = (t', None)"
    using s i m a q r nq by (cases "encodeDataFrame token [pkt]") (auto simp: send_packet_def Let_def)
  note w = write_ok [OF f(2)]
  obtain b where b: "map_of (flows ft) (f_key (heap ft b)) = Some b" "f_state (heap ft b) = flowReady"
    "f_token (heap ft b) = token"
    "if offset info = 0 then f_key (heap ft b) = key info
     else \<exists>s. map_of (fragments (tc_flows t)) (fragment info) = Some s \<and> s_flow s = b"
    using queuePacket_ready [of "tc_flows t" info appID pkt now ft token] assms(1,2) q r nq by (auto simp: tunnel_inv_def)
  have own: "offset info = 0 \<longrightarrow> map_of (flows ft) (key info) = Some b"
    "offset info \<noteq> 0 \<longrightarrow> (\<exists>s. map_of (fragments (tc_flows t)) (fragment info) = Some s \<and> s_flow s = b)"
    using b(1,4) by auto
  obtain body where body: "readServerFrame (frame @ []) = Inr (\<lparr>sf_cmd = cmdDataReq, sf_payload = body\<rparr>, [])"
      "parseClientDataFrame body = Inr [pkt]"
    using data_frame_read [OF f(1), of "[]"] by blast
  have app: "offset info = 0 \<longrightarrow> matchIP (tc_table t) (fk_dst (key info)) (proto info) (dstPort info) \<noteq> None"
    using a by (auto simp: packet_app_def)
  have t': "tc_flows t' = ft" "tc_written t' = tc_written t @ [frame]" using w by simp_all
  show ?thesis
    using i m b(2,3) own app body f(1) refsI [OF b(1)] unfolding t'
    by (intro exI [of _ info] exI [of _ frame] exI [of _ body] bexI [of _ b]) simp_all
qed

text \<open>A tunnel whose only flow has been authenticated.\<close>

definition demo_ready :: flowTable where
  "demo_ready = fst (completeAuth 1 ''T'' None (3 * second) demo_sent)"

definition demo_rule :: ipv4Rule where
  "demo_rule = \<lparr>r_prefix = \<lparr>pf_addr = (10, 0, 0, 0), pf_bits = 8\<rparr>, r_grant = \<lparr>g_appID = ''app'', g_nodeGroupID = []\<rparr>,
     r_ports = \<lparr>first = 1, last_port = 65535\<rparr>, r_protocol = ResourceProtocolAll\<rparr>"

definition demo_tunnel :: "(nat, nat) tunnelConn" where
  "demo_tunnel = (new_tunnel sample_opts 5)\<lparr>tc_flows := demo_ready, tc_table := emptyTable\<lparr>ipRules := [demo_rule]\<rparr>\<rparr>"

lemma demo_ready_eq:
  "demo_ready = demo_sent\<lparr>heap := (heap demo_sent)(0 := demo_flow\<lparr>f_authSent := 2 * second, f_pending := [],
      f_updatedAt := 3 * second, f_state := flowReady, f_token := ''T''\<rparr>),
     pendingPackets := 0, pendingBytes := 0\<rparr>"
  by (simp add: demo_ready_def demo_sent_def demo_queued_eq demo_flow_def completeAuth_def awaiting_def expired_def
      releasePendingLocked_def update_flow_def zero_flow_def udp_example_def Let_def)

lemma demo_tunnel_inv: "tunnel_inv demo_tunnel"
proof -
  have "ft_inv demo_sent" using demo_run_sent by (rule ft_run_inv)
  then have "ft_inv demo_ready" unfolding demo_ready_def by (rule completeAuth_inv)
  moreover have "\<not> closed demo_ready" by (simp add: demo_ready_eq demo_sent_def demo_queued_eq)
  ultimately show ?thesis by (simp add: demo_tunnel_def tunnel_inv_def new_tunnel_def)
qed

lemma demo_queue_ready:
  "queuePacket demo_info ''app'' udp_example (4 * second) demo_ready =
     (update_flow 0 (\<lambda>f. f\<lparr>f_updatedAt := 4 * second\<rparr>) demo_ready, Inr (''T'', False))"
  by (simp add: demo_ready_eq demo_sent_def demo_queued_eq demo_flow_def zero_flow_def queuePacket_def find_flow_def
      first_fragment_def flow_or_new_def admit_def track_fragment_def expired_def update_flow_def Let_def)

lemma demo_app: "packet_app demo_info demo_tunnel = Some ''app''"
  unfolding packet_app_def demo_info_def parsePacket_udp_example
  by (simp add: demo_tunnel_def demo_rule_def matchIP_def ip_rule_matches_def port_in_def Contains_def
      parseHeader_def udp_example_def get16_def be16_def get4_def ip4_u32_def Let_def)

theorem uplink_authorised_witness:
  "\<exists>frame body. tc_written (fst (Send udp_example (4 * second) (\<lambda>_. Wrote 37 None) demo_tunnel)) = [frame] \<and>
     readServerFrame frame = Inr (\<lparr>sf_cmd = cmdDataReq, sf_payload = body\<rparr>, []) \<and>
     parseClientDataFrame body = Inr [udp_example]"
proof -
  let ?net = "\<lambda>_. Wrote 37 None"
  let ?t = "demo_tunnel\<lparr>tc_flows := update_flow 0 (\<lambda>f. f\<lparr>f_updatedAt := 4 * second\<rparr>) demo_ready\<rparr>"
  have p: "parsePacket udp_example = (demo_info, None)" by (simp add: demo_info_def parsePacket_udp_example)
  have l: "tc_mtu demo_tunnel = 1400" "len udp_example = 28" "tc_flows demo_tunnel = demo_ready"
    by (simp_all add: demo_tunnel_def new_tunnel_def sample_opts_def udp_example_def)
  obtain frame where f: "encodeDataFrame ''T'' [udp_example] = Inr frame" "length frame = 37"
    by (simp add: encodeDataFrame_def encode_packet_def put16_def udp_example_def str_bytes_def)
  have w: "tunnel_write frame ?net ?t = (?t\<lparr>tc_writes := 1, tc_written := [frame]\<rparr>, None)"
    using f(2) by (simp add: tunnel_write_def demo_tunnel_def new_tunnel_def Wrap_def)
  have s: "Send udp_example (4 * second) ?net demo_tunnel = (?t\<lparr>tc_writes := 1, tc_written := [frame]\<rparr>, None)"
    by (simp add: Send_def send_packet_def p l demo_app demo_queue_ready [simplified] f w [simplified] Let_def)
  have "next_id (tc_flows demo_tunnel) \<noteq> - 1"
    by (simp add: l demo_ready_eq demo_sent_def demo_queued_eq)
  moreover have "tc_written demo_tunnel = []" by (simp add: demo_tunnel_def new_tunnel_def)
  ultimately show ?thesis
    using uplink_authorised [OF demo_tunnel_inv _ s] s by auto
qed

section \<open>Accounting\<close>

definition rejection_reasons :: "Reason list" where
  "rejection_reasons = [LinkUnavailable, ResourceUnmatched, FlowRejected, PendingFull, FlowTableFull,
     FragmentMissing, FragmentOrder, FragmentFull, MTUExceeded, InvalidPacket]"

lemma rejection_reason_known: "rejection_reason e \<in> set rejection_reasons"
  by (simp add: rejection_reason_def rejection_reasons_def)

lemma reasons_format: "list_all (\<lambda>r. description r \<noteq> ([], []) \<and> snd (description r) \<noteq> [] \<and>
    (fst (description r) = [] \<or> fst (description r) = TunnelRejection)) rejection_reasons"
  by code_simp

text \<open>The line logged for a rejection exists: \<open>Format\<close> does not panic.\<close>

lemma rejection_formats: "Format TunnelRejection (rejection_reason e) n \<noteq> None"
proof -
  have "snd (description (rejection_reason e)) \<noteq> []"
    "fst (description (rejection_reason e)) = [] \<or> fst (description (rejection_reason e)) = TunnelRejection"
    using reasons_format rejection_reason_known [of e] by (auto simp: list_all_iff)
  moreover have "kind_prefix TunnelRejection \<noteq> []" by (simp add: kind_prefix_def prefix_TunnelRejection_def)
  ultimately show ?thesis by (auto simp: Format_def Let_def split: prod.splits)
qed

lemma count_bump:
  assumes "r \<in> set rejection_reasons" "r' \<in> set rejection_reasons"
  shows "count_of r (bump r' c) = count_of r c + (if r = r' then 1 else 0)"
  using assms by (auto simp: rejection_reasons_def count_of_def bump_def)

lemma write_rejected: "tc_rejected (fst (tunnel_write buf net t)) = tc_rejected t"
  by (cases "tunnel_write buf net t") (simp add: write_simps)

lemma send_packet_rejected: "tc_rejected (fst (send_packet pkt now net t)) = tc_rejected t"
  by (simp add: send_packet_def reject_fragmented_def wakeAuth_def write_rejected Let_def
      split: prod.split option.split sum.split)

text \<open>Every refused uplink packet is counted once, in the one counter of its reason; an accepted packet
  changes no counter.\<close>

theorem rejections_counted:
  assumes "Send pkt now net t = (t', r)" "reason \<in> set rejection_reasons"
  shows "count_of reason (tc_rejected t') = count_of reason (tc_rejected t) +
    (case r of None \<Rightarrow> 0 | Some e \<Rightarrow> if reason = rejection_reason e then 1 else 0)"
proof -
  obtain u r' where u: "send_packet pkt now net t = (u, r')" by fastforce
  have "tc_rejected u = tc_rejected t" using send_packet_rejected [of pkt now net t] u by simp
  then show ?thesis
    using assms u count_bump [OF assms(2) rejection_reason_known]
    by (cases r') (auto simp: Send_def recordRejection_def Let_def)
qed

theorem rejections_counted_witness:
  "count_of InvalidPacket (tc_rejected (fst (Send [1, 2] 5 (\<lambda>_. Wrote 0 None) (new_tunnel sample_opts 5)))) = 1"
proof -
  have s: "Send [1, 2] 5 (\<lambda>_. Wrote 0 None) (new_tunnel sample_opts 5) =
      (fst (Send [1, 2] 5 (\<lambda>_. Wrote 0 None) (new_tunnel sample_opts 5)), Some (ProtocolError W_not_ipv4_header))"
    by (simp add: Send_def send_packet_def parsePacket_def)
  from rejections_counted [OF s, of InvalidPacket] show ?thesis
    by (simp add: rejection_reasons_def rejection_reason_def err_is_def err_as_def new_tunnel_def zero_counts_def
        count_of_def)
qed

section \<open>Packets released by an authentication\<close>






section \<open>Downlink\<close>

text \<open>The read loop on a list of frames, until it returns.\<close>

fun run_frames :: "(frame \<times> time) list \<Rightarrow> (nat \<Rightarrow> write_result) \<Rightarrow> bytes \<Rightarrow> ('u, 'd) tunnelConn \<Rightarrow>
    ('u, 'd) tunnelConn \<times> bytes option" where
  "run_frames [] net stream t = (t, Some stream)"
| "run_frames ((fr, now) # frs) net stream t =
     (case handle_frame fr now net stream t of
        (t, None) \<Rightarrow> (t, None)
      | (t, Some stream) \<Rightarrow> run_frames frs net stream t)"

definition data_frame :: "bytes \<Rightarrow> frame" where
  "data_frame p = \<lparr>cmd = cmdDataResp, status = 0, payload = p\<rparr>"

lemma deliver_all:
  assumes "Deliver (tc_ep t) = Some cb"
  shows "foldl deliver_packet t ps = t\<lparr>tc_delivered := tc_delivered t @ map (Pair cb) ps\<rparr>"
  using assms by (induction ps arbitrary: t) (simp_all add: deliver_packet_def)

lemma incomplete_length: "incomplete r \<Longrightarrow> length r < 65536"
  by (auto simp: incomplete_def intro: less_trans [OF _ unat_u16_less])

text \<open>The buffer limit is never reached: what is left of a stream is less than one packet, and a frame
  carries at most 65535 bytes.\<close>

lemma appendStream_fits:
  assumes "incomplete stream" "length p \<le> 65535"
  shows "appendStream stream p = Inr (stream @ p)"
  using incomplete_length [OF assms(1)] assms(2) by (simp add: appendStream_def)

lemma run_data_frames:
  assumes "Deliver (tc_ep t) = Some cb" "incomplete stream" "\<forall>c\<in>set cs. length c \<le> 65535"
    and "downlink.feed stream cs = Inr (ps, rest)"
  shows "run_frames (map (\<lambda>c. (data_frame c, now)) cs) net stream t =
    (t\<lparr>tc_heartbeatGap := (if cs = [] then tc_heartbeatGap t else 0),
       tc_delivered := tc_delivered t @ map (Pair cb) ps\<rparr>, Some rest)"
  using assms
proof (induction cs arbitrary: stream t ps)
  case (Cons c cs)
  obtain ps1 r ps2 where s: "splitPackets (stream @ c) = Inr (ps1, r)" "downlink.feed r cs = Inr (ps2, rest)" "ps = ps1 @ ps2"
    using Cons.prems(4) by (auto split: sum.splits)
  have r: "incomplete r" using splitPackets_Inr [OF s(1)] by blast
  let ?t = "t\<lparr>tc_heartbeatGap := 0\<rparr>"
  have "appendStream stream c = Inr (stream @ c)" using Cons.prems(2,3) by (intro appendStream_fits) auto
  then have h: "handle_frame (data_frame c) now net stream t =
      (?t\<lparr>tc_delivered := tc_delivered t @ map (Pair cb) ps1\<rparr>, Some r)"
    using Cons.prems(1) s(1) by (simp add: handle_frame_def data_frame_def deliver_all [of ?t cb] Let_def)
  show ?case
    using h s(3) Cons.IH [of "?t\<lparr>tc_delivered := tc_delivered t @ map (Pair cb) ps1\<rparr>" r ps2] Cons.prems(1,3) r s(2)
    by (cases cs) simp_all
qed simp

text \<open>C14: the downlink does not depend on framing, for a stream that consists of valid packets and perhaps the
  beginning of one more: however the server cuts it into data frames of at most 65535 bytes, while a bearer is bound,
  the bearer is handed exactly the packets of the whole stream, in order, the undelivered rest
  is the incomplete end of the stream, and no frame closes the connection.\<close>

theorem downlink_framing_independent:
  assumes "Deliver (tc_ep t) = Some cb" "\<forall>c\<in>set cs. length c \<le> 65535" "cs \<noteq> []"
    and "splitPackets (concat cs) = Inr (ps, rest)"
  shows "run_frames (map (\<lambda>c. (data_frame c, now)) cs) net [] t =
    (t\<lparr>tc_heartbeatGap := 0, tc_delivered := tc_delivered t @ map (Pair cb) ps\<rparr>, Some rest)"
proof -
  have "downlink.feed [] cs = Inr (ps, rest)" using assms(4) by (simp add: downlink.feed_chunks)
  with run_data_frames [OF assms(1) _ assms(2), of "[]" ps rest now net] assms(3) show ?thesis
    by (simp add: incomplete_def)
qed

definition sample_bound :: "(nat, nat) tunnelConn" where
  "sample_bound = (new_tunnel sample_opts 5)\<lparr>tc_ep := fst (SetDownlink 9 New)\<rparr>"

theorem downlink_framing_independent_witness:
  "tc_delivered (fst (run_frames (map (\<lambda>c. (data_frame c, 5)) [take 3 sample_stream, drop 3 sample_stream])
     (\<lambda>_. Wrote 0 None) [] sample_bound)) = [(9, take 20 sample_stream)]"
proof -
  have d: "Deliver (tc_ep sample_bound) = Some 9"
    by (simp add: sample_bound_def Deliver_def SetDownlink_def Let_def)
  have "tc_delivered sample_bound = []" by (simp add: sample_bound_def new_tunnel_def)
  moreover have "splitPackets (concat [take 3 sample_stream, drop 3 sample_stream]) =
      Inr ([take 20 sample_stream], [69, 0, 0])"
    using sample_stream_splits by simp
  ultimately show ?thesis
    using downlink_framing_independent [OF d, of "[take 3 sample_stream, drop 3 sample_stream]" "[take 20 sample_stream]"
        "[69, 0, 0]" 5 "\<lambda>_. Wrote 0 None"]
    by (simp add: sample_stream_def)
qed

section \<open>Heartbeats\<close>

definition writes_ok :: "(nat \<Rightarrow> write_result) \<Rightarrow> bool" where
  "writes_ok net \<longleftrightarrow> (\<forall>i. net i = Wrote 4 None)"

lemma heartbeat_write:
  assumes "writes_ok net" "\<not> tc_closed t"
  shows "heartbeat_tick net t =
    (let t = t\<lparr>tc_writes := Suc (tc_writes t), tc_written := tc_written t @ [encodeHeartbeat],
               tc_heartbeatGap := tc_heartbeatGap t + 1\<rparr> in
     if tc_heartbeatGap t \<ge> heartbeatMissLimit then (close (Some ErrHeartbeatLost) t, False) else (t, True))"
  using assms by (simp add: heartbeat_tick_def tunnel_write_def writes_ok_def encodeHeartbeat_def Wrap_def Let_def)

text \<open>C15: a silent peer is given up after exactly three heartbeats: counting from a frame of the server,
  the first two ticks keep the connection open, the third one closes it as lost, although every
  heartbeat was written without an error.\<close>

theorem silent_peer_detected:
  assumes "writes_ok net" "\<not> tc_closed t" "tc_heartbeatGap t = 0"
  shows "snd (heartbeat_tick net t) \<and> snd (heartbeat_tick net (fst (heartbeat_tick net t))) \<and>
    (let t3 = heartbeat_tick net (fst (heartbeat_tick net (fst (heartbeat_tick net t))))
     in \<not> snd t3 \<and> tc_closed (fst t3) \<and> Err (fst t3) = Some ErrHeartbeatLost)"
  using assms by (simp add: heartbeat_write Let_def Err_def close_closeErr)

theorem silent_peer_detected_witness:
  "tc_closed (fst (heartbeat_tick (\<lambda>_. Wrote 4 None) (fst (heartbeat_tick (\<lambda>_. Wrote 4 None)
     (fst (heartbeat_tick (\<lambda>_. Wrote 4 None) (new_tunnel sample_opts 5)))))))"
  using silent_peer_detected [of "\<lambda>_. Wrote 4 None" "new_tunnel sample_opts 5"]
  by (simp add: writes_ok_def new_tunnel_def Let_def)

end
