(* ===== verification/Relay.thy ===== *)
theory Relay
  imports Mapping Endpoint Packetlog
begin

text \<open>
  \<open>internal/wireguard/relay.go\<close> and the counters of \<open>diagnostics.go\<close>: the in-memory device between
  WireGuard and the campus tunnel.

  Sessions and peer gates are objects compared by pointer: each has a number, and a session's
  downlink callback on its endpoint is that number. Endpoints live in a store by their own
  number. \<open>deliverFrom\<close> maps a packet without the binding lock and then checks and enqueues
  under it; the model has these two phases as two operations, with the mapped packets between
  them in \<open>rl_inflight\<close>, so that a session switch may fall between them. Every other method is
  one step. The result of the tunnel's \<open>Send\<close> is a parameter of \<open>Write\<close>. The mapper's one-time log
  flag is not followed here: it has no influence on packets.
\<close>

section \<open>Data\<close>

abbreviation queueSize :: nat where "queueSize \<equiv> 128"
abbreviation dropLogInterval :: time where "dropLogInterval \<equiv> 5 * second"

datatype dropReason =
    dropDownlinkInvalid | dropDownlinkAddr | dropDownlinkFull | dropDownlinkNoSession
  | dropUplinkNotIPv4 | dropUplinkAddr | dropPeerNotReady | dropNoBuffer | dropNoSession
  | dropNoUplink | dropUplinkRejected | dropStaleQueue | dropMTUExceeded

fun dropReasonName :: "dropReason \<Rightarrow> Reason" where
  "dropReasonName dropDownlinkInvalid = DownlinkInvalid"
| "dropReasonName dropDownlinkAddr = DownlinkAddress"
| "dropReasonName dropDownlinkFull = DownlinkFull"
| "dropReasonName dropDownlinkNoSession = DownlinkNoSession"
| "dropReasonName dropUplinkNotIPv4 = UplinkInvalid"
| "dropReasonName dropUplinkAddr = UplinkAddress"
| "dropReasonName dropPeerNotReady = PeerNotReady"
| "dropReasonName dropNoBuffer = ReadBufferFull"
| "dropReasonName dropNoSession = UplinkNoSession"
| "dropReasonName dropNoUplink = UplinkUnavailable"
| "dropReasonName dropUplinkRejected = UplinkRejected"
| "dropReasonName dropStaleQueue = StaleQueue"
| "dropReasonName dropMTUExceeded = MTUExceeded"

definition dropQuietInterval :: "dropReason \<Rightarrow> time" where
  "dropQuietInterval r =
     (if r = dropPeerNotReady \<or> r = dropDownlinkNoSession \<or> r = dropStaleQueue then 5 * minute else 0)"

record dropCounter =
  dc_n :: u64
  dc_lastLog :: int

record relaySession =
  rs_ep :: nat
  rs_mapper :: "Mapper option"
  rs_unregister :: nat

record queuedPacket =
  qp_owner :: nat
  qp_data :: bytes

datatype tun_event = EventUp | EventDown

record 'u Relay =
  rl_mtu :: int
  rl_queue :: "queuedPacket list"
  rl_session :: "(nat \<times> relaySession) option"
  rl_next :: nat \<comment> \<open>the next session or gate number\<close>
  rl_gate :: "nat option"
  rl_seen :: "nat \<Rightarrow> bool" \<comment> \<open>\<open>seen\<close> of each gate\<close>
  rl_holdWake :: bool
  rl_events :: "tun_event list"
  rl_eventsClosed :: bool
  rl_closed :: bool
  rl_drops :: "dropReason \<Rightarrow> dropCounter"
  rl_log :: "string list"
  rl_eps :: "nat \<Rightarrow> ('u, nat) Endpoint"
  rl_inflight :: "queuedPacket list"

definition NewRelay :: "int \<Rightarrow> (nat \<Rightarrow> ('u, nat) Endpoint) \<Rightarrow> 'u Relay" where
  "NewRelay mtu eps =
     \<lparr>rl_mtu = mtu, rl_queue = [], rl_session = None, rl_next = 0, rl_gate = None, rl_seen = (\<lambda>_. False),
      rl_holdWake = False, rl_events = [EventUp], rl_eventsClosed = False, rl_closed = False,
      rl_drops = (\<lambda>_. \<lparr>dc_n = 0, dc_lastLog = 0\<rparr>), rl_log = [], rl_eps = eps, rl_inflight = []\<rparr>"

section \<open>Counting\<close>

text \<open>\<open>now\<close> is \<open>time.Now().UnixNano()\<close>. The compare-and-swap on the last log time only decides who logs.\<close>

definition countDrop :: "dropReason \<Rightarrow> int \<Rightarrow> 'u Relay \<Rightarrow> 'u Relay" where
  "countDrop reason now r =
     (let c = rl_drops r reason;
          n = dc_n c + 1;
          interval = (if dropQuietInterval reason > 0 then dropQuietInterval reason else dropLogInterval)
      in if now - dc_lastLog c < interval then
           r\<lparr>rl_drops := (rl_drops r)(reason := c\<lparr>dc_n := n\<rparr>)\<rparr>
         else r\<lparr>rl_drops := (rl_drops r)(reason := \<lparr>dc_n = n, dc_lastLog = now\<rparr>),
                rl_log := rl_log r @ [the (Format RelayDrop (dropReasonName reason) n)]\<rparr>)"

section \<open>Sessions\<close>

text \<open>\<open>dropStaleQueue\<close>: drain the queue, counting each packet.\<close>

definition dropStale :: "int \<Rightarrow> 'u Relay \<Rightarrow> 'u Relay" where
  "dropStale now r = (fold (\<lambda>_. countDrop dropStaleQueue now) (rl_queue r) r)\<lparr>rl_queue := []\<rparr>"

definition unregister_session :: "relaySession \<Rightarrow> 'u Relay \<Rightarrow> 'u Relay" where
  "unregister_session s r =
     r\<lparr>rl_eps := (rl_eps r)(rs_ep s := unregisterDownlink (rs_unregister s) (rl_eps r (rs_ep s)))\<rparr>"

definition ClearSession :: "int \<Rightarrow> 'u Relay \<Rightarrow> 'u Relay" where
  "ClearSession now r =
     dropStale now (case rl_session r of
        None \<Rightarrow> r
      | Some (_, old) \<Rightarrow> unregister_session old (r\<lparr>rl_session := None\<rparr>))"

definition InstallSession :: "nat \<Rightarrow> Mapper option \<Rightarrow> int \<Rightarrow> 'u Relay \<Rightarrow> 'u Relay" where
  "InstallSession ep mapper now r =
     (let r = ClearSession now r;
          sess = rl_next r;
          (e, owner) = SetDownlink sess (rl_eps r ep);
          s = \<lparr>rs_ep = ep, rs_mapper = mapper, rs_unregister = owner\<rparr>;
          r = r\<lparr>rl_next := Suc sess, rl_eps := (rl_eps r)(ep := e)\<rparr>
      in if rl_closed r then unregister_session s r else r\<lparr>rl_session := Some (sess, s)\<rparr>)"

definition HoldDownlink :: "bool \<Rightarrow> 'u Relay \<Rightarrow> 'u Relay" where
  "HoldDownlink hold r =
     (let r = (if hold then r\<lparr>rl_gate := Some (rl_next r), rl_seen := (rl_seen r)(rl_next r := False),
                              rl_next := Suc (rl_next r)\<rparr>
               else r\<lparr>rl_gate := None\<rparr>)
      in r\<lparr>rl_holdWake := True\<rparr>)"

section \<open>Downlink\<close>

text \<open>The mapper's callback reads the session's endpoint.\<close>

definition session_addr :: "relaySession \<Rightarrow> 'u Relay \<Rightarrow> ip4 \<times> bool" where
  "session_addr s r = LocalAddr4 (rl_eps r (rs_ep s))"

text \<open>First phase: up to the mapped packet, which is in flight afterwards.\<close>

definition deliver_map :: "nat \<Rightarrow> bytes \<Rightarrow> int \<Rightarrow> 'u Relay \<Rightarrow> 'u Relay" where
  "deliver_map sess pkt now r =
     (if rl_closed r then r
      else case rl_session r of
        None \<Rightarrow> countDrop dropDownlinkNoSession now r
      | Some (i, s) \<Rightarrow>
          if i \<noteq> sess then countDrop dropDownlinkNoSession now r
          else case ipv4TotalLength pkt of
            Inl _ \<Rightarrow> countDrop dropDownlinkInvalid now r
          | Inr n \<Rightarrow>
              if n \<noteq> length pkt then countDrop dropDownlinkInvalid now r
              else if int n > rl_mtu r then countDrop dropMTUExceeded now r
              else case rs_mapper s of
                None \<Rightarrow> r\<lparr>rl_inflight := rl_inflight r @ [\<lparr>qp_owner = sess, qp_data = pkt\<rparr>]\<rparr>
              | Some m \<Rightarrow>
                  (case Downlink m (session_addr s r) pkt of
                     Inl _ \<Rightarrow> countDrop dropDownlinkAddr now r
                   | Inr (out, _) \<Rightarrow>
                       r\<lparr>rl_inflight := rl_inflight r @ [\<lparr>qp_owner = sess, qp_data = out\<rparr>]\<rparr>))"

text \<open>Second phase, under the lock: the packet in flight at position \<open>i\<close> is enqueued or dropped. When the
  device is closed the select may take either ready case; \<open>pick\<close> is its choice.\<close>

definition deliver_enqueue :: "nat \<Rightarrow> bool \<Rightarrow> int \<Rightarrow> 'u Relay \<Rightarrow> 'u Relay" where
  "deliver_enqueue i pick now r =
     (if i \<ge> length (rl_inflight r) then r
      else let item = rl_inflight r ! i;
               r = r\<lparr>rl_inflight := take i (rl_inflight r) @ drop (Suc i) (rl_inflight r)\<rparr> in
        if map_option fst (rl_session r) \<noteq> Some (qp_owner item) then countDrop dropStaleQueue now r
        else if rl_closed r \<and> (pick \<or> length (rl_queue r) \<ge> queueSize) then r
        else if length (rl_queue r) \<ge> queueSize then countDrop dropDownlinkFull now r
        else r\<lparr>rl_queue := rl_queue r @ [item]\<rparr>)"

section \<open>The device interface\<close>

datatype read_outcome = Read_closed | Read_none | Read_packet bytes | Read_blocks

text \<open>A peer is configured and has not been seen.\<close>

definition peer_hidden :: "'u Relay \<Rightarrow> bool" where
  "peer_hidden r = (case rl_gate r of None \<Rightarrow> False | Some g \<Rightarrow> \<not> rl_seen r g)"

text \<open>The loop of \<open>Read\<close>: it consumes queue entries until one can be handed over. \<open>Read_blocks\<close> is
  waiting on an empty queue. \<open>room\<close> is the size of the caller's buffer after the offset.\<close>

function read_queue :: "nat \<Rightarrow> int \<Rightarrow> 'u Relay \<Rightarrow> 'u Relay \<times> read_outcome" where
  "read_queue room now r =
     (case rl_queue r of
        [] \<Rightarrow> (r, if rl_closed r then Read_closed else Read_blocks)
      | item # rest \<Rightarrow>
          let r = r\<lparr>rl_queue := rest\<rparr> in
          if map_option fst (rl_session r) \<noteq> Some (qp_owner item) then read_queue room now (countDrop dropStaleQueue now r)
          else if peer_hidden r then read_queue room now (countDrop dropPeerNotReady now r)
          else if length (qp_data item) > room then read_queue room now (countDrop dropNoBuffer now r)
          else (r, Read_packet (qp_data item)))"
  by pat_completeness auto
termination
  by (relation "measure (\<lambda>(_, _, r). length (rl_queue r))") (auto simp: countDrop_def Let_def)

declare read_queue.simps [simp del]

definition Read :: "nat \<Rightarrow> nat \<Rightarrow> int \<Rightarrow> 'u Relay \<Rightarrow> 'u Relay \<times> read_outcome" where
  "Read bufs room now r =
     (if bufs = 0 then (r, Read_none)
      else if rl_closed r then (r, Read_closed)
      else read_queue room now r)"

text \<open>One buffer of \<open>Write\<close>; the flag says whether it was sent. \<open>send\<close> is the tunnel behind the uplink
  callback. The mapper rewrites the buffer in place; nobody reads it again.\<close>

definition write_one :: "('u \<Rightarrow> bytes \<Rightarrow> error option) \<Rightarrow> relaySession \<Rightarrow> int \<Rightarrow> int \<Rightarrow> bytes \<Rightarrow> 'u Relay \<Rightarrow>
    'u Relay \<times> bool" where
  "write_one send s offset now buf r =
     (if offset < 0 \<or> offset > len buf then (countDrop dropUplinkNotIPv4 now r, False)
      else let pkt = drop (nat offset) buf in
        if pkt = [] then (r, False)
        else case parseIPv4 pkt of
          Inl _ \<Rightarrow> (countDrop dropUplinkNotIPv4 now r, False)
        | Inr _ \<Rightarrow>
            if len pkt > rl_mtu r then (countDrop dropMTUExceeded now r, False)
            else case (case rs_mapper s of
                         None \<Rightarrow> Inr pkt
                       | Some m \<Rightarrow> (case Uplink m (session_addr s r) pkt of Inl e \<Rightarrow> Inl e | Inr (out, _) \<Rightarrow> Inr out)) of
              Inl _ \<Rightarrow> (countDrop dropUplinkAddr now r, False)
            | Inr out \<Rightarrow>
                (case (case Endpoint.Send (rl_eps r (rs_ep s)) of Inl e \<Rightarrow> Some e | Inr cb \<Rightarrow> send cb out) of
                   None \<Rightarrow> (r, True)
                 | Some err \<Rightarrow>
                     if err_is err ErrNoUplink then (countDrop dropNoUplink now r, False)
                     else (countDrop dropUplinkRejected now r, False)))"

fun write_all :: "('u \<Rightarrow> bytes \<Rightarrow> error option) \<Rightarrow> relaySession \<Rightarrow> int \<Rightarrow> int \<Rightarrow> bytes list \<Rightarrow> 'u Relay \<Rightarrow> nat \<Rightarrow>
    'u Relay \<times> nat" where
  "write_all send s offset now [] r n = (r, n)"
| "write_all send s offset now (buf # bufs) r n =
     (case write_one send s offset now buf r of
        (r, sent) \<Rightarrow> write_all send s offset now bufs r (if sent then Suc n else n))"

text \<open>\<open>None\<close> is \<open>ErrClosed\<close>, \<open>Some n\<close> the returned count.\<close>

definition Write :: "('u \<Rightarrow> bytes \<Rightarrow> error option) \<Rightarrow> bytes list \<Rightarrow> int \<Rightarrow> int \<Rightarrow> 'u Relay \<Rightarrow>
    'u Relay \<times> nat option" where
  "Write send bufs offset now r =
     (if rl_closed r then (r, None)
      else case rl_session r of
        None \<Rightarrow> (countDrop dropNoSession now r, Some (length bufs))
      | Some (_, s) \<Rightarrow>
          let r = (case rl_gate r of None \<Rightarrow> r | Some g \<Rightarrow> r\<lparr>rl_seen := (rl_seen r)(g := True)\<rparr>)
          in (case write_all send s offset now bufs r 0 of (r, n) \<Rightarrow> (r, Some n)))"

definition Close :: "int \<Rightarrow> 'u Relay \<Rightarrow> 'u Relay" where
  "Close now r =
     (if rl_closed r then r
      else (ClearSession now (r\<lparr>rl_closed := True\<rparr>))
             \<lparr>rl_events := rl_events r @ [EventDown], rl_eventsClosed := True\<rparr>)"

text \<open>\<open>Device.Diagnostics\<close>: what the counters and the gate show.\<close>

definition Diagnostics :: "'u Relay \<Rightarrow> bool \<times> bool \<times> (Reason \<Rightarrow> u64 option)" where
  "Diagnostics r =
     (rl_gate r \<noteq> None, (case rl_gate r of None \<Rightarrow> False | Some g \<Rightarrow> rl_seen r g),
      (\<lambda>name. case List.find (\<lambda>d. dropReasonName d = name)
           [dropDownlinkInvalid, dropDownlinkAddr, dropDownlinkFull, dropDownlinkNoSession, dropUplinkNotIPv4,
            dropUplinkAddr, dropPeerNotReady, dropNoBuffer, dropNoSession, dropNoUplink, dropUplinkRejected,
            dropStaleQueue, dropMTUExceeded] of
         None \<Rightarrow> None
       | Some d \<Rightarrow> if dc_n (rl_drops r d) \<noteq> 0 then Some (dc_n (rl_drops r d)) else None))"

end
