(* ===== verification/Relay_Props.thy ===== *)
theory Relay_Props
  imports Relay Mapping_Props
begin

text \<open>
  The relay: its queue is bounded and never holds a packet of another session, what WireGuard is
  handed has the peer's address and fits, and every uplink buffer is sent or counted.
\<close>

section \<open>Counters\<close>

lemma countDrop_simps [simp]:
  "rl_queue (countDrop d now r) = rl_queue r" "rl_session (countDrop d now r) = rl_session r"
  "rl_mtu (countDrop d now r) = rl_mtu r" "rl_next (countDrop d now r) = rl_next r"
  "rl_gate (countDrop d now r) = rl_gate r" "rl_seen (countDrop d now r) = rl_seen r"
  "rl_closed (countDrop d now r) = rl_closed r" "rl_eps (countDrop d now r) = rl_eps r"
  "rl_inflight (countDrop d now r) = rl_inflight r"
  by (simp_all add: countDrop_def Let_def)

definition drop_count :: "dropReason \<Rightarrow> 'u Relay \<Rightarrow> u64" where
  "drop_count d r = dc_n (rl_drops r d)"

lemma drop_count_countDrop: "drop_count d (countDrop d' now r) = drop_count d r + (if d = d' then 1 else 0)"
  by (simp add: drop_count_def countDrop_def Let_def)

text \<open>The line logged for a drop exists: \<open>Format\<close> does not panic.\<close>

lemma drop_formats: "Format RelayDrop (dropReasonName d) n \<noteq> None"
proof -
  have "\<exists>owner label. description (dropReasonName d) = (owner, label) \<and> label \<noteq> [] \<and> (owner = [] \<or> owner = RelayDrop)"
    by (cases d; simp add: description_def descriptions_def; code_simp)
  moreover have "kind_prefix RelayDrop \<noteq> []" by (simp add: kind_prefix_def prefix_RelayDrop_def)
  ultimately show ?thesis by (auto simp: Format_def Let_def)
qed

lemma fold_countDrop [simp]:
  "rl_session (fold (\<lambda>_. countDrop d now) xs r) = rl_session r" "rl_mtu (fold (\<lambda>_. countDrop d now) xs r) = rl_mtu r"
  "rl_next (fold (\<lambda>_. countDrop d now) xs r) = rl_next r" "rl_gate (fold (\<lambda>_. countDrop d now) xs r) = rl_gate r"
  "rl_seen (fold (\<lambda>_. countDrop d now) xs r) = rl_seen r" "rl_closed (fold (\<lambda>_. countDrop d now) xs r) = rl_closed r"
  "rl_eps (fold (\<lambda>_. countDrop d now) xs r) = rl_eps r" "rl_inflight (fold (\<lambda>_. countDrop d now) xs r) = rl_inflight r"
  by (induction xs arbitrary: r) simp_all

lemma ClearSession_simps [simp]:
  "rl_queue (ClearSession now r) = []" "rl_session (ClearSession now r) = None"
  "rl_mtu (ClearSession now r) = rl_mtu r" "rl_next (ClearSession now r) = rl_next r"
  "rl_closed (ClearSession now r) = rl_closed r" "rl_inflight (ClearSession now r) = rl_inflight r"
  by (auto simp: ClearSession_def dropStale_def unregister_session_def split: option.splits)

section \<open>The invariant\<close>

definition item_ok :: "int \<Rightarrow> relaySession \<Rightarrow> bytes \<Rightarrow> bool" where
  "item_ok mtu s data \<longleftrightarrow> 20 \<le> length data \<and> len data \<le> mtu \<and>
     (case rs_mapper s of None \<Rightarrow> True | Some m \<Rightarrow> get4 data 16 = peerIP m)"

definition relay_inv :: "'u Relay \<Rightarrow> bool" where
  "relay_inv r \<longleftrightarrow> length (rl_queue r) \<le> queueSize \<and>
     (\<forall>item\<in>set (rl_queue r). \<exists>s. rl_session r = Some (qp_owner item, s) \<and> item_ok (rl_mtu r) s (qp_data item)) \<and>
     (\<forall>item\<in>set (rl_inflight r). qp_owner item < rl_next r \<and>
        (\<forall>s. rl_session r = Some (qp_owner item, s) \<longrightarrow> item_ok (rl_mtu r) s (qp_data item))) \<and>
     (\<forall>i s. rl_session r = Some (i, s) \<longrightarrow> i < rl_next r) \<and> (rl_closed r \<longrightarrow> rl_session r = None)"

lemma relay_inv_countDrop [simp]: "relay_inv (countDrop d now r) = relay_inv r"
  by (simp add: relay_inv_def)

lemma relay_inv_frame [simp]:
  "relay_inv (r\<lparr>rl_eps := e\<rparr>) = relay_inv r" "relay_inv (r\<lparr>rl_seen := f\<rparr>) = relay_inv r"
  "relay_inv (r\<lparr>rl_holdWake := b\<rparr>) = relay_inv r" "relay_inv (r\<lparr>rl_events := ev\<rparr>) = relay_inv r"
  "relay_inv (r\<lparr>rl_eventsClosed := b\<rparr>) = relay_inv r" "relay_inv (r\<lparr>rl_gate := g\<rparr>) = relay_inv r"
  by (simp_all add: relay_inv_def)

lemma relay_inv_clear: "relay_inv r \<Longrightarrow> relay_inv (ClearSession now r)"
  by (auto simp: relay_inv_def)

lemma relay_inv_next: "relay_inv r \<Longrightarrow> rl_next r \<le> n \<Longrightarrow> relay_inv (r\<lparr>rl_next := n\<rparr>)"
  by (force simp: relay_inv_def)

lemma relay_inv_install:
  assumes "relay_inv r"
  shows "relay_inv (InstallSession ep mapper now r)"
proof -
  let ?c = "ClearSession now r"
  have c: "relay_inv ?c" using assms by (rule relay_inv_clear)
  obtain e owner where e: "SetDownlink (rl_next ?c) (rl_eps ?c ep) = (e, owner)" by fastforce
  let ?r = "?c\<lparr>rl_next := Suc (rl_next ?c), rl_eps := (rl_eps ?c)(ep := e)\<rparr>"
  have r: "relay_inv ?r" using relay_inv_next [OF c, of "Suc (rl_next ?c)"] by simp
  have "relay_inv (?r\<lparr>rl_session := Some (rl_next ?c, s)\<rparr>)" if "\<not> rl_closed r" for s
    using r c that by (auto simp: relay_inv_def)
  moreover have "relay_inv (unregister_session s ?r)" for s
    using r by (simp add: unregister_session_def)
  ultimately show ?thesis
    using e by (simp add: InstallSession_def Let_def)
qed

lemma relay_inv_hold: "relay_inv r \<Longrightarrow> relay_inv (HoldDownlink hold r)"
  using relay_inv_next [of "r\<lparr>rl_gate := Some (rl_next r), rl_seen := (rl_seen r)(rl_next r := False)\<rparr>" "Suc (rl_next r)"]
  by (simp add: HoldDownlink_def Let_def)

lemma ipv4TotalLength_length: "ipv4TotalLength pkt = Inr n \<Longrightarrow> 20 \<le> length pkt"
  using parseIPv4_ok(1) by (auto simp: ipv4TotalLength_def split: sum.splits if_splits)

lemma Downlink_peer:
  assumes "Downlink m pub pkt = Inr (out, m')"
  shows "length out = length pkt" "get4 out 16 = peerIP m"
proof -
  have t: "translate Down m pub pkt = Inr (out, m')" using assms by (simp add: translate_def)
  show "get4 out 16 = peerIP m" using translate_ihl(3) [OF t] by (simp add: addr_at_def new_addr_def)
  show "length out = length pkt" by (rule translate_facts [OF t])
qed

lemma relay_inv_inflight:
  assumes "relay_inv r" "rl_session r = Some (i, s)" "item_ok (rl_mtu r) s data"
  shows "relay_inv (r\<lparr>rl_inflight := rl_inflight r @ [\<lparr>qp_owner = i, qp_data = data\<rparr>]\<rparr>)"
  using assms by (auto simp: relay_inv_def)

lemma relay_inv_deliver_map:
  assumes "relay_inv r"
  shows "relay_inv (deliver_map sess pkt now r)"
proof -
  have "relay_inv (r\<lparr>rl_inflight := rl_inflight r @ [\<lparr>qp_owner = i, qp_data = out\<rparr>]\<rparr>)"
    if s: "rl_session r = Some (i, s)" and t: "ipv4TotalLength pkt = Inr (length pkt)" "\<not> len pkt > rl_mtu r"
      and m: "rs_mapper s = None \<and> out = pkt \<or> (\<exists>m m'. rs_mapper s = Some m \<and> Downlink m (session_addr s r) pkt = Inr (out, m'))"
    for i s out
    using m ipv4TotalLength_length [OF t(1)] t(2)
    by (intro relay_inv_inflight [OF assms s]) (auto simp: item_ok_def Downlink_peer)
  then show ?thesis
    using assms by (auto simp: deliver_map_def split: option.split sum.split prod.split)
qed

lemma relay_inv_deliver_enqueue:
  assumes "relay_inv r"
  shows "relay_inv (deliver_enqueue i pick now r)"
proof (cases "i < length (rl_inflight r)")
  case True
  let ?item = "rl_inflight r ! i"
  let ?u = "r\<lparr>rl_inflight := take i (rl_inflight r) @ drop (Suc i) (rl_inflight r)\<rparr>"
  have "set (rl_inflight ?u) \<subseteq> set (rl_inflight r)"
    using set_take_subset [of i "rl_inflight r"] set_drop_subset [of "Suc i" "rl_inflight r"] by auto
  then have u: "relay_inv ?u" using assms by (auto simp: relay_inv_def)
  have "relay_inv (?u\<lparr>rl_queue := rl_queue r @ [?item]\<rparr>)"
    if "map_option fst (rl_session r) = Some (qp_owner ?item)" "\<not> length (rl_queue r) \<ge> queueSize"
    using u assms that nth_mem [OF True] by (auto simp: relay_inv_def)
  then show ?thesis using True u by (simp add: deliver_enqueue_def Let_def)
qed (use assms in \<open>simp add: deliver_enqueue_def\<close>)

lemma relay_inv_pop: "relay_inv r \<Longrightarrow> rl_queue r = item # rest \<Longrightarrow> relay_inv (r\<lparr>rl_queue := rest\<rparr>)"
  by (auto simp: relay_inv_def)

lemma relay_inv_read_queue: "relay_inv r \<Longrightarrow> relay_inv (fst (read_queue room now r))"
proof (induction room now r rule: read_queue.induct)
  case (1 room now r)
  then show ?case
    by (subst read_queue.simps) (auto simp: Let_def relay_inv_pop split: list.split)
qed

lemma write_one_simps [simp]:
  "relay_inv (fst (write_one send s offset now buf r)) = relay_inv r"
  by (auto simp: write_one_def Let_def split: sum.split option.split prod.split)

lemma relay_inv_write_all: "relay_inv r \<Longrightarrow> relay_inv (fst (write_all send s offset now bufs r n))"
proof (induction bufs arbitrary: r n)
  case (Cons buf bufs)
  then show ?case using write_one_simps [of send s offset now buf r]
    by (cases "write_one send s offset now buf r") simp
qed simp

definition open_gate :: "'u Relay \<Rightarrow> 'u Relay" where
  "open_gate r = (case rl_gate r of None \<Rightarrow> r | Some g \<Rightarrow> r\<lparr>rl_seen := (rl_seen r)(g := True)\<rparr>)"

lemma open_gate_simps [simp]:
  "relay_inv (open_gate r) = relay_inv r" "drop_count d (open_gate r) = drop_count d r" "rl_mtu (open_gate r) = rl_mtu r"
  by (simp_all add: open_gate_def drop_count_def split: option.split)

lemma Write_session:
  assumes "\<not> rl_closed r" "rl_session r = Some (i, s)"
  shows "Write send bufs offset now r =
    (fst (write_all send s offset now bufs (open_gate r) 0), Some (snd (write_all send s offset now bufs (open_gate r) 0)))"
  using assms by (simp add: Write_def open_gate_def Let_def split: prod.split)

lemma relay_inv_Write: "relay_inv r \<Longrightarrow> relay_inv (fst (Write send bufs offset now r))"
proof (cases "rl_closed r")
  case False
  assume "relay_inv r"
  then show ?thesis
    using Write_session [OF False] False relay_inv_write_all [of "open_gate r"]
    by (cases "rl_session r") (auto simp: Write_def)
qed (simp add: Write_def)

lemma relay_inv_Close: "relay_inv r \<Longrightarrow> relay_inv (Close now r)"
  by (auto simp: Close_def relay_inv_def)

section \<open>Steps and runs\<close>

text \<open>The methods of the relay in any order, a probe that opens the gate it holds, and changes of the
  endpoints by their other users.\<close>

inductive relay_step :: "'u Relay \<Rightarrow> 'u Relay \<Rightarrow> bool" where
  install: "relay_step r (InstallSession ep mapper now r)"
| clear: "relay_step r (ClearSession now r)"
| hold: "relay_step r (HoldDownlink b r)"
| deliver: "relay_step r (deliver_map sess pkt now r)"
| enqueue: "relay_step r (deliver_enqueue i pick now r)"
| read: "Read bufs room now r = (r', out) \<Longrightarrow> relay_step r r'"
| writing: "Write send bufs offset now r = (r', n) \<Longrightarrow> relay_step r r'"
| probe: "relay_step r (r\<lparr>rl_seen := (rl_seen r)(g := True)\<rparr>)"
| endpoints: "relay_step r (r\<lparr>rl_eps := eps\<rparr>)"
| closing: "relay_step r (Close now r)"

lemma relay_step_inv: "relay_step r r' \<Longrightarrow> relay_inv r \<Longrightarrow> relay_inv r'"
proof (induction rule: relay_step.induct)
  case (read bufs room now r r' out)
  then show ?case
    using relay_inv_read_queue [of r room now] by (auto simp: Read_def split: if_splits)
next
  case (writing send bufs offset now r r' n)
  then show ?case using relay_inv_Write [of r send bufs offset now] by simp
qed (simp_all add: relay_inv_install relay_inv_clear relay_inv_hold relay_inv_deliver_map relay_inv_deliver_enqueue
    relay_inv_Close)

lemma relay_run_inv: "relay_step\<^sup>*\<^sup>* r r' \<Longrightarrow> relay_inv r \<Longrightarrow> relay_inv r'"
  by (induction rule: rtranclp_induct) (auto intro: relay_step_inv)

lemma NewRelay_inv: "relay_inv (NewRelay mtu eps)"
  by (simp add: relay_inv_def NewRelay_def)

text \<open>C16: along every run of the relay, with session switches at any moment (also between the mapping of a
  downlink packet and its enqueueing), the queue holds at most 128 packets, all of them of the
  current session, each within the MTU and, under a mapper, addressed to the peer; a closed
  relay has no session.\<close>

theorem relay_invariant:
  assumes "relay_step\<^sup>*\<^sup>* (NewRelay mtu eps) r"
  shows "relay_inv r"
  by (rule relay_run_inv [OF assms NewRelay_inv])

theorem relay_invariant_witness:
  "relay_inv (InstallSession 1 None 7 (NewRelay 1400 (\<lambda>_. New :: (nat, nat) Endpoint)))"
  by (rule relay_invariant [OF r_into_rtranclp [of relay_step, OF relay_step.install]])

section \<open>Reading\<close>

lemma peer_hidden_simps [simp]:
  "peer_hidden (r\<lparr>rl_queue := q\<rparr>) = peer_hidden r" "peer_hidden (countDrop d now r) = peer_hidden r"
  by (simp_all add: peer_hidden_def split: option.split)

lemma read_queue_packet:
  "read_queue room now r = (r', Read_packet data) \<Longrightarrow>
   \<exists>item\<in>set (rl_queue r). qp_data item = data \<and> map_option fst (rl_session r) = Some (qp_owner item) \<and>
    length data \<le> room \<and> \<not> peer_hidden r"
proof (induction room now r rule: read_queue.induct)
  case (1 room now r)
  obtain item rest where q: "rl_queue r = item # rest"
    using "1.prems" by (subst (asm) read_queue.simps) (auto split: list.splits if_splits)
  consider "map_option fst (rl_session r) \<noteq> Some (qp_owner item)"
    | "map_option fst (rl_session r) = Some (qp_owner item)" "peer_hidden r"
    | "map_option fst (rl_session r) = Some (qp_owner item)" "\<not> peer_hidden r" "length (qp_data item) > room"
    | "map_option fst (rl_session r) = Some (qp_owner item)" "\<not> peer_hidden r" "\<not> length (qp_data item) > room"
    by blast
  then show ?case
  proof cases
    case 1
    then show ?thesis using "1.prems" "1.IH"(1) [OF q refl] q by (subst (asm) read_queue.simps) (auto simp: Let_def)
  next
    case 2
    then show ?thesis using "1.prems" "1.IH"(2) [OF q refl] q by (subst (asm) read_queue.simps) (auto simp: Let_def)
  next
    case 3
    then show ?thesis using "1.prems" "1.IH"(3) [OF q refl] q by (subst (asm) read_queue.simps) (auto simp: Let_def)
  next
    case 4
    then show ?thesis using "1.prems" q by (subst (asm) read_queue.simps) (auto simp: Let_def)
  qed
qed

text \<open>What WireGuard reads is a packet of the current session: it was queued under it, fits the caller's
  buffer and the MTU, carries the peer's address when the session maps addresses, and is handed
  over only when no peer is configured or the peer has been seen.\<close>

theorem Read_hands_over:
  assumes "relay_inv r" "Read bufs room now r = (r', Read_packet data)"
  shows "\<exists>i s. rl_session r = Some (i, s) \<and> \<lparr>qp_owner = i, qp_data = data\<rparr> \<in> set (rl_queue r) \<and>
    item_ok (rl_mtu r) s data \<and> length data \<le> room \<and> \<not> peer_hidden r"
proof -
  have q: "read_queue room now r = (r', Read_packet data)" using assms(2) by (auto simp: Read_def split: if_splits)
  obtain item where i: "item \<in> set (rl_queue r)" "qp_data item = data"
      "length data \<le> room" "\<not> peer_hidden r"
    using read_queue_packet [OF q] by blast
  moreover obtain s where "rl_session r = Some (qp_owner item, s)" "item_ok (rl_mtu r) s (qp_data item)"
    using assms(1) i(1) by (auto simp: relay_inv_def)
  moreover have "\<lparr>qp_owner = qp_owner item, qp_data = data\<rparr> = item" using i(2) by simp
  ultimately show ?thesis by metis
qed

text \<open>A relay with a queued packet: a session without a mapper.\<close>

definition sample_relay :: "nat Relay" where
  "sample_relay = deliver_enqueue 0 False 9 (deliver_map 0 [0x45, 0, 0, 20, 0, 0, 0, 0, 64, 17, 0, 0, 10, 0, 0, 1, 10, 0, 0, 2] 8
     (InstallSession 1 None 7 (NewRelay 1400 (\<lambda>_. New))))"

theorem Read_hands_over_witness:
  "\<exists>r' data. Read 1 2000 9 sample_relay = (r', Read_packet data) \<and> item_ok 1400 \<lparr>rs_ep = 1, rs_mapper = None, rs_unregister = 0\<rparr> data"
proof -
  let ?p = "[0x45, 0, 0, 20, 0, 0, 0, 0, 64, 17, 0, 0, 10, 0, 0, 1, 10, 0, 0, 2] :: bytes"
  have i: "InstallSession 1 None 7 (NewRelay 1400 (\<lambda>_. New)) =
      (NewRelay 1400 ((\<lambda>_. New)(1 := fst (SetDownlink 0 New))))\<lparr>rl_next := 1,
         rl_session := Some (0, \<lparr>rs_ep = 1, rs_mapper = None, rs_unregister = 0\<rparr>)\<rparr>"
    by (simp add: InstallSession_def ClearSession_def dropStale_def NewRelay_def SetDownlink_def New_def Let_def)
  have l: "ipv4TotalLength ?p = Inr 20"
    by (simp add: ipv4TotalLength_def parseIPv4_def get16_def be16_def Let_def)
  have s: "rl_queue sample_relay = [\<lparr>qp_owner = 0, qp_data = ?p\<rparr>]" "\<not> rl_closed sample_relay" "rl_gate sample_relay = None"
      "rl_session sample_relay = Some (0, \<lparr>rs_ep = 1, rs_mapper = None, rs_unregister = 0\<rparr>)" "rl_mtu sample_relay = 1400"
    unfolding sample_relay_def i
    by (simp_all add: deliver_map_def deliver_enqueue_def NewRelay_def l Let_def)
  have r: "Read 1 2000 9 sample_relay = (sample_relay\<lparr>rl_queue := []\<rparr>, Read_packet ?p)"
    by (simp add: Read_def read_queue.simps [of _ _ sample_relay] s peer_hidden_def Let_def)
  have "relay_inv sample_relay"
    unfolding sample_relay_def
    by (intro relay_inv_deliver_enqueue relay_inv_deliver_map relay_inv_install NewRelay_inv)
  from Read_hands_over [OF this r] r s show ?thesis by auto
qed

section \<open>Writing\<close>

definition uplink_drops :: "dropReason list" where
  "uplink_drops = [dropUplinkNotIPv4, dropMTUExceeded, dropUplinkAddr, dropNoUplink, dropUplinkRejected]"

definition total_drops :: "'u Relay \<Rightarrow> u64" where
  "total_drops r = sum_list (map (\<lambda>d. drop_count d r) uplink_drops)"

lemma total_drops_countDrop: "d \<in> set uplink_drops \<Longrightarrow> total_drops (countDrop d now r) = total_drops r + 1"
  by (auto simp: total_drops_def uplink_drops_def drop_count_countDrop)

definition is_empty_buf :: "int \<Rightarrow> bytes \<Rightarrow> bool" where
  "is_empty_buf offset buf \<longleftrightarrow> offset = len buf"

lemma write_one_counts:
  assumes "write_one send s offset now buf r = (r', sent)"
  shows "total_drops r' + (if sent then 1 else 0) + (if is_empty_buf offset buf then 1 else 0) = total_drops r + 1"
    "d \<notin> set uplink_drops \<Longrightarrow> drop_count d r' = drop_count d r"
  using assms
  by (auto simp: write_one_def is_empty_buf_def Let_def total_drops_countDrop uplink_drops_def drop_count_countDrop
      split: if_splits sum.splits option.splits prod.splits)

lemma write_all_counts:
  "write_all send s offset now bufs r n = (r', n') \<Longrightarrow>
   total_drops r' + of_nat n' + of_nat (length (filter (is_empty_buf offset) bufs)) = total_drops r + of_nat n + of_nat (length bufs)"
proof (induction bufs arbitrary: r n)
  case (Cons buf bufs)
  obtain u sent where u: "write_one send s offset now buf r = (u, sent)" by fastforce
  with Cons.prems have w: "write_all send s offset now bufs u (if sent then Suc n else n) = (r', n')" by simp
  from Cons.IH [OF w] write_one_counts(1) [OF u] show ?case
    by (simp add: algebra_simps split: if_splits)
qed simp

lemma write_all_other:
  "write_all send s offset now bufs r n = (r', n') \<Longrightarrow> d \<notin> set uplink_drops \<Longrightarrow> drop_count d r' = drop_count d r"
proof (induction bufs arbitrary: r n)
  case (Cons buf bufs)
  obtain u sent where u: "write_one send s offset now buf r = (u, sent)" by fastforce
  with Cons show ?case using write_one_counts(2) [OF u] by simp
qed simp

text \<open>Every buffer WireGuard hands to the relay under a session is accounted for: it was accepted by the
  tunnel, or it is empty, or exactly one of the uplink counters grew by one for it; the call
  reports an error only when the relay is closed.\<close>

theorem Write_accounts:
  assumes "\<not> rl_closed r" "rl_session r \<noteq> None" "Write send bufs offset now r = (r', res)"
  shows "\<exists>n. res = Some n \<and>
    total_drops r' + of_nat n + of_nat (length (filter (is_empty_buf offset) bufs)) = total_drops r + of_nat (length bufs) \<and>
    (\<forall>d. d \<notin> set uplink_drops \<longrightarrow> drop_count d r' = drop_count d r)"
proof -
  obtain i s where s: "rl_session r = Some (i, s)" using assms(2) by auto
  obtain u n where u: "write_all send s offset now bufs (open_gate r) 0 = (u, n)" by fastforce
  have "r' = u" "res = Some n" using assms(3) Write_session [OF assms(1) s, of send bufs offset now] u by simp_all
  moreover have "total_drops (open_gate r) = total_drops r" by (simp add: total_drops_def)
  ultimately show ?thesis using write_all_counts [OF u] write_all_other [OF u] by simp
qed

theorem Write_accounts_witness:
  "total_drops (fst (Write (\<lambda>_ _. None) [[1, 2], []] 0 9 (InstallSession 1 None 7 (NewRelay 1400 (\<lambda>_. New :: (nat, nat) Endpoint))))) = 1"
proof -
  let ?r = "InstallSession 1 None 7 (NewRelay 1400 (\<lambda>_. New :: (nat, nat) Endpoint))"
  have r: "\<not> rl_closed ?r" "rl_session ?r \<noteq> None" "total_drops ?r = 0"
    by (simp_all add: InstallSession_def ClearSession_def dropStale_def NewRelay_def total_drops_def uplink_drops_def
        drop_count_def Let_def split: prod.split)
  obtain r' res where w: "Write (\<lambda>_ _. None) [[1, 2], []] 0 9 ?r = (r', res)" by fastforce
  have "res = Some 0"
    using w r(1,2) by (auto simp: Write_def write_one_def parseIPv4_def Let_def split: option.splits prod.splits)
  then show ?thesis
    using Write_accounts [OF r(1,2) w] w r(3) by (simp add: is_empty_buf_def)
qed

text \<open>Without a session a whole batch is dropped, and counted as one.\<close>

lemma batch_counted_once:
  assumes "\<not> rl_closed r" "rl_session r = None"
  shows "drop_count dropNoSession (fst (Write send bufs offset now r)) = drop_count dropNoSession r + 1"
    "snd (Write send bufs offset now r) = Some (length bufs)"
  using assms by (simp_all add: Write_def drop_count_countDrop)

end
