(* ===== verification/Status.thy ===== *)
theory Status
  imports Errors
begin

text \<open>
  \<open>internal/service/status.go\<close>: the status of the service process, its legal transitions and the
  finite classes of errors it shows. A panic of the Go code is \<open>None\<close>. The diagnostics that
  \<open>Service.Status\<close> reads from the live objects are not part of the stored snapshot.
\<close>

section \<open>Data\<close>

datatype State = StateIdle | StateLoggingIn | StateAuthPending | StateUp | StateError

record Identity =
  id_PID :: int
  id_ConfigPath :: string
  id_Endpoint :: string
  id_Username :: string

record EndpointStatus =
  es_Enabled :: bool
  es_Failure :: string

record Status =
  st_State :: State
  st_Detail :: string
  st_Failure :: string
  st_WireGuard :: EndpointStatus
  st_SOCKS5 :: EndpointStatus
  st_Retrying :: bool
  st_Since :: time
  st_Identity :: Identity

section \<open>Error classes\<close>

definition failureKind :: "error option \<Rightarrow> string" where
  "failureKind err =
     (case err of
        None \<Rightarrow> []
      | Some e \<Rightarrow>
          if err_is e ErrControlTLS then ''control_tls''
          else if err_is e ErrNodeUntrusted then ''node_untrusted''
          else if err_is e ErrNodeTLS then ''node_tls''
          else if err_as is_rejected e \<noteq> None then ''auth_rejected''
          else if err_as is_gone e \<noteq> None then ''session_expired''
          else if err_is e ContextCanceled then ''canceled''
          else if err_is e ContextDeadline then ''timeout''
          else if err_as is_protocol e \<noteq> None then ''protocol''
          else if err_as is_dial e \<noteq> None then ''network''
          else ''internal'')"

section \<open>The store\<close>

definition newStatusStore :: "Identity \<Rightarrow> time \<Rightarrow> Status" where
  "newStatusStore i now =
     \<lparr>st_State = StateIdle, st_Detail = [], st_Failure = [], st_WireGuard = \<lparr>es_Enabled = False, es_Failure = []\<rparr>,
      st_SOCKS5 = \<lparr>es_Enabled = False, es_Failure = []\<rparr>, st_Retrying = False, st_Since = now, st_Identity = i\<rparr>"

fun validTransition :: "State \<Rightarrow> State \<Rightarrow> bool" where
  "validTransition StateIdle t = (t = StateIdle \<or> t = StateLoggingIn \<or> t = StateError)"
| "validTransition StateLoggingIn t =
     (t = StateLoggingIn \<or> t = StateAuthPending \<or> t = StateUp \<or> t = StateIdle \<or> t = StateError)"
| "validTransition StateAuthPending t = (t = StateAuthPending \<or> t = StateUp \<or> t = StateIdle \<or> t = StateError)"
| "validTransition StateUp t = (t = StateUp \<or> t = StateIdle \<or> t = StateError)"
| "validTransition StateError t = (t = StateError \<or> t = StateIdle \<or> t = StateLoggingIn)"

definition applyLocked :: "State \<Rightarrow> string \<Rightarrow> time \<Rightarrow> Status \<Rightarrow> Status" where
  "applyLocked next detail now s =
     (let s = (if st_State s \<noteq> next then s\<lparr>st_Since := now\<rparr> else s);
          s = s\<lparr>st_State := next, st_Detail := detail, st_Failure := []\<rparr>
      in if next = StateIdle \<or> next = StateError then s\<lparr>st_Retrying := False\<rparr> else s)"

definition set_state :: "State \<Rightarrow> string \<Rightarrow> time \<Rightarrow> Status \<Rightarrow> Status option" where
  "set_state next detail now s =
     (if \<not> validTransition (st_State s) next then None else Some (applyLocked next detail now s))"

definition setError :: "string \<Rightarrow> error option \<Rightarrow> time \<Rightarrow> Status \<Rightarrow> Status option" where
  "setError detail err now s =
     (if \<not> validTransition (st_State s) StateError then None
      else Some ((applyLocked StateError detail now s)\<lparr>st_Failure := failureKind err\<rparr>))"

definition setLinkFailure :: "string \<Rightarrow> error option \<Rightarrow> Status \<Rightarrow> Status option" where
  "setLinkFailure detail err s =
     (if st_State s \<noteq> StateUp then None
      else Some (s\<lparr>st_Retrying := True, st_Detail := detail, st_Failure := failureKind err\<rparr>))"

definition setDetail :: "string \<Rightarrow> Status \<Rightarrow> Status" where
  "setDetail detail s = s\<lparr>st_Detail := detail\<rparr>"

definition setRetrying :: "bool \<Rightarrow> Status \<Rightarrow> Status option" where
  "setRetrying retrying s =
     (if retrying \<and> st_State s \<noteq> StateUp then None
      else let s = s\<lparr>st_Retrying := retrying\<rparr> in Some (if retrying then s else s\<lparr>st_Failure := []\<rparr>))"

definition set_endpoint :: "bool \<Rightarrow> bool \<Rightarrow> error option \<Rightarrow> Status \<Rightarrow> Status" where
  "set_endpoint wireguard enabled err s =
     (if wireguard then s\<lparr>st_WireGuard := \<lparr>es_Enabled = enabled, es_Failure = failureKind err\<rparr>\<rparr>
      else s\<lparr>st_SOCKS5 := \<lparr>es_Enabled = enabled, es_Failure = failureKind err\<rparr>\<rparr>)"

section \<open>Runs\<close>

inductive status_step :: "Status \<Rightarrow> Status \<Rightarrow> bool" where
  state: "set_state st detail now s = Some s' \<Longrightarrow> status_step s s'"
| error: "setError detail err now s = Some s' \<Longrightarrow> status_step s s'"
| link: "setLinkFailure detail err s = Some s' \<Longrightarrow> status_step s s'"
| detail: "status_step s (setDetail detail s)"
| retrying: "setRetrying b s = Some s' \<Longrightarrow> status_step s s'"
| endpoint: "status_step s (set_endpoint w b err s)"

definition status_inv :: "Status \<Rightarrow> bool" where
  "status_inv s \<longleftrightarrow> (st_Retrying s \<longrightarrow> st_State s = StateUp) \<and>
     (st_Failure s \<noteq> [] \<longrightarrow> st_State s = StateError \<or> st_Retrying s)"

lemmas status_defs = set_state_def setError_def setLinkFailure_def setDetail_def setRetrying_def set_endpoint_def
  applyLocked_def Let_def

lemma status_step_inv: "status_step s s' \<Longrightarrow> status_inv s \<Longrightarrow> status_inv s' \<and> validTransition (st_State s) (st_State s')"
proof (induction rule: status_step.induct)
  case (state st detail now s s')
  then show ?case by (cases "st_State s") (auto simp: status_defs status_inv_def split: if_splits)
next
  case (error detail err now s s')
  then show ?case by (cases "st_State s") (auto simp: status_defs status_inv_def split: if_splits)
next
  case (link detail err s s')
  then show ?case by (auto simp: status_defs status_inv_def split: if_splits)
next
  case (detail s detail)
  then show ?case by (cases "st_State s") (auto simp: status_defs status_inv_def)
next
  case (retrying b s s')
  then show ?case by (cases "st_State s") (auto simp: status_defs status_inv_def split: if_splits)
next
  case (endpoint s w b err)
  then show ?case by (cases "st_State s") (auto simp: status_defs status_inv_def)
qed

text \<open>C24: in every status the service can show, the link is being retried only while the session is up, and
  a failure class is shown only in the error state or while retrying; every change of state is a
  legal transition.\<close>

theorem status_consistent:
  assumes "status_step\<^sup>*\<^sup>* (newStatusStore i now) s"
  shows "status_inv s \<and> (\<forall>s'. status_step s s' \<longrightarrow> validTransition (st_State s) (st_State s'))"
proof -
  have "status_inv s"
    using assms
  proof (induction rule: rtranclp_induct)
    case base
    then show ?case by (simp add: status_inv_def newStatusStore_def)
  next
    case (step s s')
    then show ?case using status_step_inv by blast
  qed
  then show ?thesis using status_step_inv by blast
qed

theorem status_consistent_witness:
  "status_inv (set_endpoint True True (Some ErrNodeTLS) (newStatusStore \<lparr>id_PID = 1, id_ConfigPath = [], id_Endpoint = [], id_Username = []\<rparr> 5))"
  using status_consistent [OF r_into_rtranclp [of status_step, OF status_step.endpoint]] by blast

text \<open>Wrapping an error with the name of the failed operation never hides its class: only an error that has
  none becomes a network error.\<close>

lemma failureKind_Wrap:
  "failureKind (Wrap op (Some e)) =
     (if failureKind (Some e) = ''internal'' then ''network'' else failureKind (Some e))"
proof -
  have "err_as is_dial (WrapError op e) \<noteq> None" by (simp add: err_as_def)
  then show ?thesis by (simp add: failureKind_def Wrap_def)
qed

end
