(* ===== verification/Tcp.thy ===== *)
theory Tcp
  imports Auth_Request Wire Resource
begin

text \<open>
  \<open>internal/ztna/tcp.go\<close>: TCP connections through the campus nodes: the signed request, the reply, one
  attempt on a node and the loop over addresses and nodes. The network is a parameter: an
  attempt's environment says how its calls end and which bytes arrive. The test server's side
  (\<open>internal/ztnatest/tcp.go\<close>) is modelled as the reader of the request.
\<close>

abbreviation tcpMethod :: byte where "tcpMethod \<equiv> 0x81"
abbreviation tcpAuthMode :: byte where "tcpAuthMode \<equiv> 0x03"
abbreviation maxTCPDialAttempts :: nat where "maxTCPDialAttempts \<equiv> 64"

text \<open>The fields of \<open>Session\<close> that dialing uses. \<open>ts_cancelled\<close> is \<open>s.ctx.Err() != nil\<close>, \<open>ts_failure\<close> what
  \<open>invalidate\<close> stored; connections are numbered.\<close>

record tcp_session =
  ts_closed :: bool
  ts_cancelled :: bool
  ts_table :: "resourceTable option"
  ts_sid :: string
  ts_deviceID :: string
  ts_username :: string
  ts_signKey :: bytes
  ts_connections :: "nat list"
  ts_failure :: "error option"

section \<open>The request\<close>

definition tcpAuthRequest :: "tcp_session \<Rightarrow> tcpRoute \<Rightarrow> string \<Rightarrow> string \<Rightarrow> string \<Rightarrow> (string \<times> json) list" where
  "tcpAuthRequest s route connectionID addr destIP =
     (let (env, hash) = processEnvironment
      in [(''sid'', JStr (ts_sid s)), (''appId'', JStr (g_appID (route_grant route))), (''url'', JStr (''tcp://'' @ addr)),
          (''deviceId'', JStr (ts_deviceID s)), (''connectionId'', JStr connectionID), (''procHash'', JStr hash),
          (''userName'', JStr (ts_username s)), (''rcAppliedInfo'', JNum (int_str 0)), (''lang'', JStr ''en-US''),
          (''destAddr'', JStr addr)] @
         (if destIP = [] then [] else [(''destIP'', JStr destIP)]) @ [(''env'', env)])"

definition dest_ip :: "tcpRoute \<Rightarrow> nat \<Rightarrow> string" where
  "dest_ip route ipIndex = (if route_dialIPs route = [] then [] else ip4_str (route_dialIPs route ! ipIndex))"

definition destination :: "tcpRoute \<Rightarrow> nat \<Rightarrow> string" where
  "destination route ipIndex =
     (if route_dialIPs route = [] then t_host (route_target route) else dest_ip route ipIndex)"

definition target_addr :: "TCPTarget \<Rightarrow> string" where
  "target_addr target = JoinHostPort (t_host target) (int_str (uint (t_port target)))"

text \<open>The SOCKS address of the destination; \<open>None\<close> is the panic of \<open>As4\<close> on an IPv6 address.\<close>

definition dest_bytes :: "string \<Rightarrow> bytes option" where
  "dest_bytes d =
     (case ParseAddr d of
        Some (Addr4 a) \<Rightarrow> Some (1 # ip4_bytes a)
      | Some (Addr6 b z) \<Rightarrow> (case To4 b of Some a \<Rightarrow> Some (1 # ip4_bytes a) | None \<Rightarrow> None)
      | None \<Rightarrow> Some ([3, of_nat (length d)] @ str_bytes d))"

definition tcpRequest :: "tcp_session \<Rightarrow> tcpRoute \<Rightarrow> nat \<Rightarrow> string \<Rightarrow> (error + bytes) option" where
  "tcpRequest s route ipIndex connectionID =
     (if ts_sid s = [] then Some (Inl (ProtocolError W_tcp_no_sid))
      else let addr = target_addr (route_target route);
               body = signAuthJSON (str_bytes (print_json (JObj
                 (tcpAuthRequest s route connectionID addr (dest_ip route ipIndex))))) (ts_signKey s) in
        if len body > 65535 then Some (Inl (ProtocolError W_tcp_auth_long))
        else case dest_bytes (destination route ipIndex) of
          None \<Rightarrow> None
        | Some d \<Rightarrow> Some (Inr ([Version, 1, tcpMethod, envelopeVersion, tcpAuthMode] @ put16 (of_nat (length body)) @
              body @ [Version, 1, 0] @ d @ put16 (t_port (route_target route)))))"

section \<open>The reply\<close>

text \<open>The bound address of the reply.\<close>

definition read_bound :: "byte \<Rightarrow> bytes \<Rightarrow> error + string \<times> bytes" where
  "read_bound atype r =
     (if atype = 1 \<or> atype = 4 then
        (case read_full (if atype = 4 then 16 else 4) r of
           Inl e \<Rightarrow> Inl (read_err Op_tcp_bound_addr e)
         | Inr (a, r') \<Rightarrow> Inr (if atype = 4 then ip6_str a [] else ip4_str (get4 a 0), r'))
      else if atype = 3 then
        (case read_full 1 r of
           Inl e \<Rightarrow> Inl (read_err Op_tcp_bound_len e)
         | Inr (l, r1) \<Rightarrow>
             (case read_full (unat (l ! 0)) r1 of
                Inl e \<Rightarrow> Inl (read_err Op_tcp_bound_name e)
              | Inr (b, r2) \<Rightarrow>
                  (case Normalize (bytes_str b) False of
                     None \<Rightarrow> Inl (ProtocolError W_tcp_bound_domain)
                   | Some host \<Rightarrow> Inr (host, r2))))
      else Inl (ProtocolError W_tcp_bound_type))"

definition readTCPReply :: "bytes \<Rightarrow> error + (string \<times> u16) \<times> bytes" where
  "readTCPReply r =
     (case read_full 6 r of
        Inl e \<Rightarrow> Inl (read_err Op_tcp_auth_head e)
      | Inr (head, r1) \<Rightarrow>
          if head ! 0 \<noteq> Version \<or> head ! 1 \<noteq> tcpMethod \<or> head ! 2 \<noteq> envelopeVersion
          then Inl (ProtocolError W_tcp_auth_header)
          else case read_full (unat (get16 head 4)) r1 of
            Inl e \<Rightarrow> Inl (read_err Op_tcp_auth_body e)
          | Inr (body, r2) \<Rightarrow>
              (case parseEnvelopeCode (bytes_str body) of
                 None \<Rightarrow> Inl (ProtocolError W_tcp_no_code)
               | Some code \<Rightarrow>
                   if code = codeSessionGone then Inl (ErrSessionGone code)
                   else if head ! 3 \<noteq> 0 \<or> code \<noteq> 0 then Inl ErrTCPAuthRejected
                   else case read_full 4 r2 of
                     Inl e \<Rightarrow> Inl (read_err Op_tcp_reply e)
                   | Inr (reply, r3) \<Rightarrow>
                       if reply ! 0 \<noteq> Version \<or> reply ! 2 \<noteq> 0 \<or> reply ! 1 > 8 then Inl (ProtocolError W_tcp_reply)
                       else case read_bound (reply ! 3) r3 of
                         Inl e \<Rightarrow> Inl e
                       | Inr (host, r4) \<Rightarrow>
                           (case read_full 2 r4 of
                              Inl e \<Rightarrow> Inl (read_err Op_tcp_bound_port e)
                            | Inr (port, r5) \<Rightarrow>
                                if reply ! 1 \<noteq> 0 then Inl (TCPConnectError (reply ! 1))
                                else Inr ((host, get16 port 0), r5))))"

section \<open>One attempt\<close>

record attempt_env =
  ae_dial :: "error option"
  ae_deadline :: "error option"
  ae_write :: "nat option \<times> error option" \<comment> \<open>bytes written (\<open>None\<close>: all of them) and the error\<close>
  ae_input :: bytes
  ae_ctx :: "error option"
  ae_clear :: "error option"
  ae_connectionID :: string

record TCPConn =
  tconn_boundHost :: string
  tconn_boundPort :: u16
  tconn_buffered :: bytes

definition dialTCPNode :: "tcp_session \<Rightarrow> tcpRoute \<Rightarrow> nat \<Rightarrow> attempt_env \<Rightarrow> (error + TCPConn) option" where
  "dialTCPNode s route ipIndex env =
     (case ae_dial env of
        Some e \<Rightarrow> Some (Inl e)
      | None \<Rightarrow>
          (case ae_deadline env of
             Some e \<Rightarrow> Some (Inl (WrapError (Op_other 4) e))
           | None \<Rightarrow>
               (case tcpRequest s route ipIndex (ae_connectionID env) of
                  None \<Rightarrow> None
                | Some (Inl e) \<Rightarrow> Some (Inl e)
                | Some (Inr request) \<Rightarrow>
                    (case ae_write env of
                       (_, Some e) \<Rightarrow> Some (Inl (WrapError (Op_other 5) e))
                     | (n, None) \<Rightarrow>
                         if n \<noteq> None \<and> n \<noteq> Some (length request) then Some (Inl (WrapError (Op_other 5) ErrShortWrite))
                         else case readTCPReply (ae_input env) of
                           Inl e \<Rightarrow> Some (Inl e)
                         | Inr ((host, port), rest) \<Rightarrow>
                             (case ae_ctx env of
                                Some e \<Rightarrow> Some (Inl e)
                              | None \<Rightarrow>
                                  (case ae_clear env of
                                     Some e \<Rightarrow> Some (Inl (WrapError (Op_other 6) e))
                                   | None \<Rightarrow> Some (Inr \<lparr>tconn_boundHost = host, tconn_boundPort = port,
                                       tconn_buffered = rest\<rparr>)))))))"

section \<open>The loop\<close>

definition attempts :: "string list \<Rightarrow> tcpRoute \<Rightarrow> (nat \<times> string) list" where
  "attempts nodes route =
     concat (map (\<lambda>i. map (Pair i) nodes) [0..<max 1 (length (route_dialIPs route))])"

text \<open>An error that ends the loop: a verdict of the server on this connection. Only an unreachable network
  or host and a refused connection (replies 3 to 5) are worth another node.\<close>

fun is_connect_error :: "error \<Rightarrow> bool" where
  "is_connect_error (TCPConnectError _) = True"
| "is_connect_error _ = False"

definition final_error :: "error \<Rightarrow> bool" where
  "final_error err \<longleftrightarrow> err_is err ErrTCPAuthRejected \<or> err_as is_protocol err \<noteq> None \<or>
     (case err_as is_connect_error err of
        Some (TCPConnectError r) \<Rightarrow> r \<noteq> 3 \<and> r \<noteq> 4 \<and> r \<noteq> 5
      | _ \<Rightarrow> False)"

abbreviation ts_stopped :: "tcp_session \<Rightarrow> bool" where
  "ts_stopped s \<equiv> ts_closed s \<or> ts_cancelled s"

text \<open>\<open>invalidate\<close> keeps the first failure, cancels the session and closes its connections, each of which
  leaves the set.\<close>

definition invalidate :: "error \<Rightarrow> tcp_session \<Rightarrow> tcp_session" where
  "invalidate err s =
     (if ts_failure s \<noteq> None \<or> ts_closed s then s
      else s\<lparr>ts_failure := Some err, ts_cancelled := True, ts_connections := []\<rparr>)"

text \<open>What the loop finds after attempt \<open>i\<close>: the attempt's environment, whether the session was stopped
  meanwhile, and the error of the dial's context. \<open>id\<close> is the number of a new connection.\<close>

record dial_env =
  de_attempt :: "nat \<Rightarrow> attempt_env"
  de_stopped :: "nat \<Rightarrow> bool"
  de_ctx :: "nat \<Rightarrow> error option"
  de_id :: nat

text \<open>The result: \<open>None\<close> a panic, \<open>Inl None\<close> the nil error with a nil connection. The second component lists
  the attempts that were made.\<close>

fun dial_loop :: "dial_env \<Rightarrow> tcpRoute \<Rightarrow> (nat \<times> string) list \<Rightarrow> nat \<Rightarrow> error option \<Rightarrow> tcp_session \<Rightarrow>
    tcp_session \<times> (error option + TCPConn) option \<times> (nat \<times> string) list" where
  "dial_loop env route [] count lastErr s = (s, Some (Inl lastErr), [])"
| "dial_loop env route ((i, node) # as) count lastErr s =
     (if count \<ge> maxTCPDialAttempts then (s, Some (Inl lastErr), [])
      else case dialTCPNode s route i (de_attempt env count) of
        None \<Rightarrow> (s, None, [(i, node)])
      | Some (Inr conn) \<Rightarrow>
          if ts_stopped s \<or> de_stopped env count \<or> de_ctx env count \<noteq> None
          then (s, Some (Inl (Some ContextCanceled)), [(i, node)])
          else (s\<lparr>ts_connections := de_id env # ts_connections s\<rparr>, Some (Inr conn), [(i, node)])
      | Some (Inl err) \<Rightarrow>
          (case err_as is_gone err of
             Some gone \<Rightarrow> (invalidate gone s, Some (Inl (Some gone)), [(i, node)])
           | None \<Rightarrow>
               if de_ctx env count \<noteq> None then (s, Some (Inl (de_ctx env count)), [(i, node)])
               else if final_error err then (s, Some (Inl (Some err)), [(i, node)])
               else (case dial_loop env route as (Suc count) (Some err) s of
                       (s', r, made) \<Rightarrow> (s', r, (i, node) # made))))"

definition DialTCP :: "dial_env \<Rightarrow> TCPTarget \<Rightarrow> tcp_session \<Rightarrow>
    tcp_session \<times> (error option + TCPConn) option \<times> (nat \<times> string) list" where
  "DialTCP env target s =
     (if t_port target = 0 then (s, Some (Inl (Some (ProtocolError W_tcp_target_zero))), [])
      else if ts_stopped s \<or> ts_table s = None then (s, Some (Inl (Some ErrResourcesUnavailable)), [])
      else let table = the (ts_table s) in
        case matchTCP table target of
          None \<Rightarrow> (s, Some (Inl (Some ErrTCPResourceUnmatched)), [])
        | Some route \<Rightarrow>
            let nodes = candidateNodes table (g_nodeGroupID (route_grant route)) in
            if nodes = [] then (s, Some (Inl (Some (ProtocolError W_no_nodes))), [])
            else dial_loop env route (attempts nodes route) 0 None s)"

section \<open>The test server\<close>

record TCPRequest =
  rq_AppID :: string
  rq_URL :: string
  rq_DestAddr :: string
  rq_DestIP :: string
  rq_Host :: string
  rq_Port :: u16

fun dec_u16 :: "u16 decoder" where
  "dec_u16 JNull a = (a, False)"
| "dec_u16 (JNum l) a = (case parse_uint64 l of
     Some n \<Rightarrow> if n < 65536 then (ucast n, False) else (a, True) | None \<Rightarrow> (a, True))"
| "dec_u16 _ a = (a, True)"

definition dec_tcp_request :: "string \<Rightarrow> TCPRequest decoder" where
  "dec_tcp_request k v q =
     (if is_field ''appId'' k then (let (s, b) = dec_string v (rq_AppID q) in (q\<lparr>rq_AppID := s\<rparr>, b))
      else if is_field ''url'' k then (let (s, b) = dec_string v (rq_URL q) in (q\<lparr>rq_URL := s\<rparr>, b))
      else if is_field ''destAddr'' k then (let (s, b) = dec_string v (rq_DestAddr q) in (q\<lparr>rq_DestAddr := s\<rparr>, b))
      else if is_field ''destIP'' k then (let (s, b) = dec_string v (rq_DestIP q) in (q\<lparr>rq_DestIP := s\<rparr>, b))
      else if is_field ''Host'' k then (let (s, b) = dec_string v (rq_Host q) in (q\<lparr>rq_Host := s\<rparr>, b))
      else if is_field ''Port'' k then (let (p, b) = dec_u16 v (rq_Port q) in (q\<lparr>rq_Port := p\<rparr>, b))
      else (q, False))"

definition read_target_host :: "byte \<Rightarrow> bytes \<Rightarrow> (string \<times> bytes) option" where
  "read_target_host atype r =
     (if atype = 1 then
        (case read_full 4 r of Inl _ \<Rightarrow> None | Inr (ip, r') \<Rightarrow> Some (ip4_str (get4 ip 0), r'))
      else if atype = 3 then
        (case read_full 1 r of
           Inl _ \<Rightarrow> None
         | Inr (n, r1) \<Rightarrow>
             if n ! 0 = 0 then None
             else case read_full (unat (n ! 0)) r1 of
               Inl _ \<Rightarrow> None
             | Inr (host, r2) \<Rightarrow> Some (bytes_str host, r2))
      else None)"

definition accept_tcp :: "bytes \<Rightarrow> (TCPRequest \<times> bytes) option" where
  "accept_tcp r =
     (case read_full 7 r of
        Inl _ \<Rightarrow> None
      | Inr (head, r1) \<Rightarrow>
          if take 5 head \<noteq> [5, 1, 0x81, 0x53, 3] then None
          else case read_full (unat (get16 head 5)) r1 of
            Inl _ \<Rightarrow> None
          | Inr (body, r2) \<Rightarrow>
              (case unmarshal (dec_struct dec_tcp_request)
                   \<lparr>rq_AppID = [], rq_URL = [], rq_DestAddr = [], rq_DestIP = [], rq_Host = [], rq_Port = 0\<rparr> (bytes_str body) of
                 None \<Rightarrow> None
               | Some q \<Rightarrow>
                   (case read_full 4 r2 of
                      Inl _ \<Rightarrow> None
                    | Inr (target, r3) \<Rightarrow>
                        if take 3 target \<noteq> [5, 1, 0] then None
                        else case read_target_host (target ! 3) r3 of
                          None \<Rightarrow> None
                        | Some (host, r4) \<Rightarrow>
                            (case read_full 2 r4 of
                               Inl _ \<Rightarrow> None
                             | Inr (port, r5) \<Rightarrow> Some (q\<lparr>rq_Host := host, rq_Port := get16 port 0\<rparr>, r5)))))"

definition tcp_reply :: "int \<Rightarrow> byte \<Rightarrow> bytes \<Rightarrow> bytes" where
  "tcp_reply code connectStatus greeting =
     [5, 0x81, 0x53, 0] @ put16 (of_nat (length (code_body code))) @ code_body code @
     (if code \<noteq> 0 then []
      else [5, connectStatus, 0, 1, 198, 51, 100, 9, 0x9C, 0x40] @ (if connectStatus = 0 then greeting else []))"

end
