(* ===== verification/Socks.thy ===== *)
theory Socks
  imports Hashes Tcp
begin

text \<open>
  \<open>internal/socks5\<close>: the SOCKS5 server. A handler reads bytes from its client and writes replies; the model
  threads the client connection through it, with the outcomes of the writes to come as part of
  the connection. \<open>New\<close>, the budgets of \<open>Run\<close> and the counters are the server's state; the handlers of
  several clients interleave, so the server is a step relation over its connections.
\<close>

abbreviation noAuth :: byte where "noAuth \<equiv> 0"
abbreviation passwordAuth :: byte where "passwordAuth \<equiv> 2"
abbreviation noMethod :: byte where "noMethod \<equiv> 255"
abbreviation connectCommand :: byte where "connectCommand \<equiv> 1"
abbreviation ipv4Address :: byte where "ipv4Address \<equiv> 1"
abbreviation domainAddress :: byte where "domainAddress \<equiv> 3"
abbreviation ipv6Address :: byte where "ipv6Address \<equiv> 4"
abbreviation generalFailure :: byte where "generalFailure \<equiv> 1"
abbreviation ruleDenied :: byte where "ruleDenied \<equiv> 2"
abbreviation networkUnreachable :: byte where "networkUnreachable \<equiv> 3"
abbreviation hostUnreachable :: byte where "hostUnreachable \<equiv> 4"
abbreviation connectionRefused :: byte where "connectionRefused \<equiv> 5"
abbreviation commandUnsupported :: byte where "commandUnsupported \<equiv> 7"
abbreviation addressUnsupported :: byte where "addressUnsupported \<equiv> 8"

text \<open>The errors of the package, each named by its text.\<close>

abbreviation errBudget :: error where "errBudget \<equiv> OtherError 50"
abbreviation errAuthOptions :: error where "errAuthOptions \<equiv> OtherError 51"
abbreviation errListenAddress :: error where "errListenAddress \<equiv> OtherError 52"
abbreviation errListenIPv4 :: error where "errListenIPv4 \<equiv> OtherError 53"
abbreviation errOpenListener :: error where "errOpenListener \<equiv> OtherError 54"
abbreviation errHandshakeBudget :: error where "errHandshakeBudget \<equiv> OtherError 55"
abbreviation errNoDialer :: error where "errNoDialer \<equiv> OtherError 56"
abbreviation errStarted :: error where "errStarted \<equiv> OtherError 57"
abbreviation errMethods :: error where "errMethods \<equiv> OtherError 58"
abbreviation errNoMethod :: error where "errNoMethod \<equiv> OtherError 59"
abbreviation errAuthRequest :: error where "errAuthRequest \<equiv> OtherError 60"
abbreviation errAuthRefused :: error where "errAuthRefused \<equiv> OtherError 61"
abbreviation errHeader :: error where "errHeader \<equiv> OtherError 62"
abbreviation errCommand :: error where "errCommand \<equiv> OtherError 63"
abbreviation errEmptyDomain :: error where "errEmptyDomain \<equiv> OtherError 64"
abbreviation errSlots :: error where "errSlots \<equiv> OtherError 65"
abbreviation errBoundAddress :: error where "errBoundAddress \<equiv> OtherError 66"

section \<open>The client connection\<close>

record client =
  cl_in :: bytes
  cl_out :: bytes
  cl_writes :: "error option list" \<comment> \<open>outcomes of the writes to come; past the end they succeed\<close>

type_synonym 'a io = "client \<Rightarrow> (error + 'a) \<times> client"

definition ret :: "'a \<Rightarrow> 'a io" where
  "ret x c = (Inr x, c)"

definition failed :: "error \<Rightarrow> 'a io" where
  "failed e c = (Inl e, c)"

definition io_bind :: "'a io \<Rightarrow> ('a \<Rightarrow> 'b io) \<Rightarrow> 'b io" where
  "io_bind m f c = (case m c of (Inl e, c') \<Rightarrow> (Inl e, c') | (Inr x, c') \<Rightarrow> f x c')"

definition rd :: "nat \<Rightarrow> bytes io" where
  "rd n c =
     (case read_full n (cl_in c) of
        Inl e \<Rightarrow> (Inl (IOError e), c\<lparr>cl_in := []\<rparr>)
      | Inr (b, r) \<Rightarrow> (Inr b, c\<lparr>cl_in := r\<rparr>))"

definition write_outcome :: "client \<Rightarrow> error option" where
  "write_outcome c = (case cl_writes c of [] \<Rightarrow> None | e # _ \<Rightarrow> e)"

definition wr :: "bytes \<Rightarrow> unit io" where
  "wr b c =
     (case write_outcome c of
        None \<Rightarrow> (Inr (), c\<lparr>cl_out := cl_out c @ b, cl_writes := tl (cl_writes c)\<rparr>)
      | Some e \<Rightarrow> (Inl e, c\<lparr>cl_writes := tl (cl_writes c)\<rparr>))"

text \<open>A write whose error is ignored.\<close>

definition wr_ignored :: "bytes \<Rightarrow> unit io" where
  "wr_ignored b c = (Inr (), snd (wr b c))"

section \<open>The server\<close>

record Options =
  op_Username :: string
  op_Password :: string
  op_MaxConnections :: int
  op_MaxDials :: int
  op_HandshakeTimeout :: int

record Server =
  sv_port :: int
  sv_maxConnections :: int
  sv_maxDials :: int
  sv_handshakeTimeout :: int
  sv_auth :: bool
  sv_username :: bytes
  sv_password :: bytes
  sv_dialing :: nat
  sv_connections :: "nat list"
  sv_closed :: bool
  sv_started :: bool
  sv_rejected :: u64
  sv_failed :: u64

abbreviation socks_second :: int where "socks_second \<equiv> 1000000000"
abbreviation defaultHandshakeTimeout :: int where "defaultHandshakeTimeout \<equiv> 10 * socks_second"

text \<open>\<open>New\<close>; the listener is a parameter: the error of \<open>net.Listen\<close> or the port it listens on.\<close>

definition loopback4 :: "ip4 \<Rightarrow> bool" where
  "loopback4 a \<longleftrightarrow> (case a of (a0, _) \<Rightarrow> a0 = 127)"

definition new_server :: "Options \<Rightarrow> int \<Rightarrow> Server" where
  "new_server opts port =
     \<lparr>sv_port = port, sv_maxConnections = op_MaxConnections opts, sv_maxDials = op_MaxDials opts,
      sv_handshakeTimeout = (if op_HandshakeTimeout opts = 0 then defaultHandshakeTimeout else op_HandshakeTimeout opts),
      sv_auth = (op_Username opts \<noteq> []), sv_username = sha256 (str_bytes (op_Username opts)),
      sv_password = sha256 (str_bytes (op_Password opts)), sv_dialing = 0, sv_connections = [],
      sv_closed = False, sv_started = False, sv_rejected = 0, sv_failed = 0\<rparr>"

definition New :: "(string \<Rightarrow> error + int) \<Rightarrow> string \<Rightarrow> Options \<Rightarrow> error + Server" where
  "New listen address opts =
     (if op_MaxConnections opts < 1 \<or> op_MaxConnections opts > 4096 \<or> op_MaxDials opts < 1 \<or>
         op_MaxDials opts > 128 \<or> op_MaxDials opts > op_MaxConnections opts then Inl errBudget
      else if (op_Username opts = []) \<noteq> (op_Password opts = []) \<or> length (op_Username opts) > 255 \<or>
              length (op_Password opts) > 255 then Inl errAuthOptions
      else case SplitHostPort address of
        None \<Rightarrow> Inl errListenAddress
      | Some (host, _) \<Rightarrow>
          (case ParseAddr host of
             Some (Addr4 ip) \<Rightarrow>
               if \<not> loopback4 ip \<and> op_Username opts = [] then Inl errOpenListener
               else if op_HandshakeTimeout opts < 0 then Inl errHandshakeBudget
               else (case listen address of
                       Inl e \<Rightarrow> Inl (WrapError (Op_other 50) e)
                     | Inr port \<Rightarrow> Inr (new_server opts port))
           | _ \<Rightarrow> Inl errListenIPv4))"

definition authenticate :: "Server \<Rightarrow> bytes \<Rightarrow> bytes \<Rightarrow> bool" where
  "authenticate s username password \<longleftrightarrow>
     sha256 username = sv_username s \<and> sha256 password = sv_password s"

section \<open>Negotiation\<close>

definition negotiate_auth :: "Server \<Rightarrow> unit io" where
  "negotiate_auth s =
     io_bind (rd 2) (\<lambda>head.
       if head ! 0 \<noteq> 1 \<or> head ! 1 = 0 then io_bind (wr_ignored [1, 1]) (\<lambda>_. failed errAuthRequest)
       else io_bind (rd (unat (head ! 1))) (\<lambda>username.
         io_bind (rd 1) (\<lambda>l.
           io_bind (rd (unat (l ! 0))) (\<lambda>password.
             let ok = length password > 0 \<and> authenticate s username password in
             io_bind (wr [1, if ok then 0 else 1]) (\<lambda>_.
               if \<not> ok then failed errAuthRefused else ret ())))))"

definition negotiate :: "Server \<Rightarrow> unit io" where
  "negotiate s =
     io_bind (rd 2) (\<lambda>head.
       if head ! 0 \<noteq> Version \<or> head ! 1 = 0 then failed errMethods
       else io_bind (rd (unat (head ! 1))) (\<lambda>methods.
         let wanted = (if sv_auth s then passwordAuth else noAuth);
             chosen = (if wanted \<in> set methods then wanted else noMethod) in
         io_bind (wr [Version, chosen]) (\<lambda>_.
           if chosen = noMethod then failed errNoMethod
           else if \<not> sv_auth s then ret ()
           else negotiate_auth s)))"

section \<open>Replies\<close>

definition failure_bytes :: "byte \<Rightarrow> bytes" where
  "failure_bytes code = [Version, code, 0, ipv4Address, 0, 0, 0, 0, 0, 0]"

definition failureReply :: "byte \<Rightarrow> unit io" where
  "failureReply code = wr_ignored (failure_bytes code)"

definition refuse :: "byte \<Rightarrow> error \<Rightarrow> 'a io" where
  "refuse code err = io_bind (failureReply code) (\<lambda>_. failed err)"

definition bound_bytes :: "string \<Rightarrow> bytes option" where
  "bound_bytes host =
     (case ParseAddr host of
        Some (Addr4 a) \<Rightarrow> Some (ipv4Address # ip4_bytes a)
      | Some (Addr6 b z) \<Rightarrow> Some (ipv6Address # b)
      | None \<Rightarrow>
          if length host = 0 \<or> length host > 255 then None
          else Some ([domainAddress, of_nat (length host)] @ str_bytes host))"

definition successReply :: "string \<Rightarrow> u16 \<Rightarrow> unit io" where
  "successReply host port =
     (case bound_bytes host of
        None \<Rightarrow> failed errBoundAddress
      | Some b \<Rightarrow> wr ([Version, 0, 0] @ b @ put16 port))"

text \<open>The errors with a \<open>Timeout\<close> method: system call numbers, a context deadline and the network errors.\<close>

fun is_net_error :: "error \<Rightarrow> bool" where
  "is_net_error (NetError _) = True"
| "is_net_error ContextDeadline = True"
| "is_net_error ErrNetClosed = True"
| "is_net_error ErrConnRefused = True"
| "is_net_error ErrNetUnreach = True"
| "is_net_error ErrHostUnreach = True"
| "is_net_error _ = False"

definition is_timeout :: "error \<Rightarrow> bool" where
  "is_timeout e \<longleftrightarrow> e = NetError True \<or> e = ContextDeadline"

definition replyCode :: "error \<Rightarrow> byte" where
  "replyCode err =
     (case err_as is_connect_error err of
        Some (TCPConnectError r) \<Rightarrow> r
      | _ \<Rightarrow>
          if err_is err ErrTCPResourceUnmatched \<or> err_is err ErrTCPAuthRejected then ruleDenied
          else if err_is err ErrTCPAddressUnsupported then addressUnsupported
          else if err_is err ErrConnRefused then connectionRefused
          else if err_is err ErrNetUnreach then networkUnreachable
          else if err_is err ErrHostUnreach \<or> err_is err ContextDeadline then hostUnreachable
          else case err_as is_net_error err of
            Some e \<Rightarrow> if is_timeout e then hostUnreachable else generalFailure
          | None \<Rightarrow> generalFailure)"

section \<open>One connection\<close>

definition read_host :: "byte \<Rightarrow> string io" where
  "read_host atype =
     (if atype = ipv4Address then io_bind (rd 4) (\<lambda>ip. ret (ip4_str (get4 ip 0)))
      else if atype = domainAddress then
        io_bind (rd 1) (\<lambda>size.
          if size ! 0 = 0 then refuse addressUnsupported errEmptyDomain
          else io_bind (rd (unat (size ! 0))) (\<lambda>name. ret (bytes_str name)))
      else refuse addressUnsupported ErrTCPAddressUnsupported)"

text \<open>From the greeting to the target: everything before a dial slot is taken. The first deadline is set
  before anything is read.\<close>

definition handle_request :: "Server \<Rightarrow> error option \<Rightarrow> TCPTarget io" where
  "handle_request s deadline =
     (case deadline of
        Some e \<Rightarrow> failed e
      | None \<Rightarrow>
          io_bind (negotiate s) (\<lambda>_.
            io_bind (rd 4) (\<lambda>header.
              if header ! 0 \<noteq> Version \<or> header ! 2 \<noteq> 0 then refuse generalFailure errHeader
              else if header ! 1 \<noteq> connectCommand then refuse commandUnsupported errCommand
              else io_bind (read_host (header ! 3)) (\<lambda>host.
                io_bind (rd 2) (\<lambda>port.
                  case NewTCPTarget host (get16 port 0) of
                    Inl e \<Rightarrow> refuse addressUnsupported e
                  | Inr target \<Rightarrow> ret target)))))"

text \<open>A dial slot, taken without waiting.\<close>

definition take_slot :: "Server \<Rightarrow> Server option" where
  "take_slot s = (if int (sv_dialing s) < sv_maxDials s then Some (s\<lparr>sv_dialing := sv_dialing s + 1\<rparr>) else None)"

definition release_slot :: "Server \<Rightarrow> Server" where
  "release_slot s = s\<lparr>sv_dialing := sv_dialing s - 1\<rparr>"

definition count_rejected :: "Server \<Rightarrow> Server" where
  "count_rejected s = s\<lparr>sv_rejected := sv_rejected s + 1\<rparr>"

text \<open>After the dial: the reply, then the relay. The result is the bound address when the relay runs.\<close>

definition handle_dialed :: "(error + string \<times> u16) \<Rightarrow> error option \<Rightarrow> (string \<times> u16) io" where
  "handle_dialed upstream deadline =
     (case upstream of
        Inl e \<Rightarrow> refuse (replyCode e) e
      | Inr (host, port) \<Rightarrow>
          io_bind (successReply host port) (\<lambda>_.
            case deadline of Some e \<Rightarrow> failed e | None \<Rightarrow> ret (host, port)))"

text \<open>The whole handler up to the relay, when no other handler runs in between. \<open>deadlines k\<close> is the outcome
  of the \<open>k\<close>-th \<open>SetDeadline\<close>; \<open>connect\<close> the dial. The third component is the target that was dialed.\<close>

definition handle :: "(nat \<Rightarrow> error option) \<Rightarrow> (TCPTarget \<Rightarrow> error + string \<times> u16) \<Rightarrow> Server \<Rightarrow> client \<Rightarrow>
    (error + string \<times> u16) \<times> client \<times> TCPTarget option \<times> Server" where
  "handle deadlines connect s c =
     (case handle_request s (deadlines 0) c of
        (Inl e, c1) \<Rightarrow> (Inl e, c1, None, s)
      | (Inr target, c1) \<Rightarrow>
          (case take_slot s of
             None \<Rightarrow> (case refuse generalFailure errSlots c1 of (r, c2) \<Rightarrow> (r, c2, None, count_rejected s))
           | Some s1 \<Rightarrow>
               (case deadlines 1 of
                  Some e \<Rightarrow> (Inl e, c1, None, release_slot s1)
                | None \<Rightarrow>
                    (case handle_dialed (connect target) (deadlines 2) c1 of
                       (r, c2) \<Rightarrow> (r, c2, Some target, release_slot s1)))))"

section \<open>The relay\<close>

text \<open>One direction: the error of its copy or of the \<open>CloseWrite\<close> after end of file.\<close>

record direction =
  dir_copy :: "error option"
  dir_closeWrite :: "error option"

definition direction_result :: "direction \<Rightarrow> error option" where
  "direction_result d = (case dir_copy d of Some e \<Rightarrow> Some e | None \<Rightarrow> dir_closeWrite d)"

definition join_errors :: "error option \<Rightarrow> error option \<Rightarrow> error option" where
  "join_errors a b =
     (case (a, b) of
        (None, None) \<Rightarrow> None
      | (Some x, None) \<Rightarrow> Some (JoinError x x)
      | (None, Some y) \<Rightarrow> Some (JoinError y y)
      | (Some x, Some y) \<Rightarrow> Some (JoinError x y))"

text \<open>The directions in the order they end; whether the first one closes both connections, and the result.\<close>

definition relay :: "direction \<Rightarrow> direction \<Rightarrow> bool \<times> error option" where
  "relay d1 d2 =
     (direction_result d1 \<noteq> None, join_errors (direction_result d1) (direction_result d2))"

section \<open>Run\<close>

text \<open>The phases of a connection's handler: before a dial, with a dial slot, and relaying.\<close>

datatype phase = Handshaking | Dialing TCPTarget | Relaying

text \<open>\<open>Run\<close> starts once, and never after \<open>Close\<close>.\<close>

definition run_start :: "Server \<Rightarrow> error + Server" where
  "run_start s = (if sv_closed s \<or> sv_started s then Inl errStarted else Inr (s\<lparr>sv_started := True\<rparr>))"

text \<open>An accepted connection; \<open>None\<close> when it is refused (counted and closed).\<close>

definition accept_conn :: "nat \<Rightarrow> Server \<Rightarrow> Server option" where
  "accept_conn i s =
     (if sv_closed s \<or> len (sv_connections s) \<ge> sv_maxConnections s then None
      else Some (s\<lparr>sv_connections := i # sv_connections s\<rparr>))"

text \<open>The end of a handler: a failure is counted, then the connection leaves the set.\<close>

definition finish_conn :: "nat \<Rightarrow> bool \<Rightarrow> Server \<Rightarrow> Server" where
  "finish_conn i fail s =
     (let s = (if fail then s\<lparr>sv_failed := sv_failed s + 1\<rparr> else s)
      in s\<lparr>sv_connections := filter (\<lambda>j. j \<noteq> i) (sv_connections s)\<rparr>)"

text \<open>\<open>shutdown\<close>: the flag is set once; the connections it closes are those present.\<close>

definition shutdown :: "Server \<Rightarrow> Server \<times> nat list" where
  "shutdown s = (if sv_closed s then (s, []) else (s\<lparr>sv_closed := True\<rparr>, sv_connections s))"

record Diagnostics =
  sd_Listening :: bool
  sd_Port :: int
  sd_Connections :: nat
  sd_Dialing :: nat
  sd_Rejected :: u64
  sd_Failed :: u64

definition Diagnostics :: "Server \<Rightarrow> Diagnostics" where
  "Diagnostics s =
     \<lparr>sd_Listening = (\<not> sv_closed s), sd_Port = sv_port s, sd_Connections = length (sv_connections s),
      sd_Dialing = sv_dialing s, sd_Rejected = sv_rejected s, sd_Failed = sv_failed s\<rparr>"

text \<open>The interleaved steps of the accept loop, of the handlers and of \<open>Close\<close>. The handlers' phases are kept
  beside the server; a handler moves on whatever its client and its dial do.\<close>

type_synonym phases = "nat \<Rightarrow> phase option"

inductive socks_step :: "Server \<times> phases \<Rightarrow> Server \<times> phases \<Rightarrow> bool" where
  start: "run_start s = Inr s' \<Longrightarrow> socks_step (s, ph) (s', ph)"
| accept: "sv_started s \<Longrightarrow> ph i = None \<Longrightarrow> accept_conn i s = Some s' \<Longrightarrow> socks_step (s, ph) (s', ph(i \<mapsto> Handshaking))"
| accept_refused: "sv_started s \<Longrightarrow> accept_conn i s = None \<Longrightarrow> socks_step (s, ph) (count_rejected s, ph)"
| request_failed: "ph i = Some Handshaking \<Longrightarrow> handle_request s d c = (Inl e, c') \<Longrightarrow>
    socks_step (s, ph) (finish_conn i True s, ph(i := None))"
| slot_taken: "ph i = Some Handshaking \<Longrightarrow> handle_request s d c = (Inr target, c') \<Longrightarrow> take_slot s = Some s' \<Longrightarrow>
    socks_step (s, ph) (s', ph(i \<mapsto> Dialing target))"
| slot_refused: "ph i = Some Handshaking \<Longrightarrow> handle_request s d c = (Inr target, c') \<Longrightarrow> take_slot s = None \<Longrightarrow>
    socks_step (s, ph) (finish_conn i True (count_rejected s), ph(i := None))"
| dial_failed: "ph i = Some (Dialing target) \<Longrightarrow> socks_step (s, ph) (finish_conn i True (release_slot s), ph(i := None))"
| dialed: "ph i = Some (Dialing target) \<Longrightarrow> socks_step (s, ph) (release_slot s, ph(i \<mapsto> Relaying))"
| relay_ended: "ph i = Some Relaying \<Longrightarrow> socks_step (s, ph) (finish_conn i fail s, ph(i := None))"
| shut: "shutdown s = (s', closing) \<Longrightarrow> socks_step (s, ph) (s', ph)"

inductive_cases socks_stepE: "socks_step (s, ph) (s', ph')"

end
