(* ===== verification/Tcp_Props.thy ===== *)
theory Tcp_Props
  imports Tcp Wire_Props
begin

text \<open>
  TCP dialing: which attempts are made and when they stop, that a request never makes the client
  panic, and that a node reads from it what was asked for.
\<close>

section \<open>Attempts\<close>

text \<open>An error after which the next node is tried.\<close>

definition retryable :: "error \<Rightarrow> bool" where
  "retryable err \<longleftrightarrow> err_as is_gone err = None \<and> \<not> final_error err"

lemma dial_loop_made:
  assumes "dial_loop env route as count lastErr s = (s', r, made)"
  shows "made = take (length made) as \<and> (made \<noteq> [] \<longrightarrow> length made + count \<le> maxTCPDialAttempts) \<and>
    (\<forall>i. Suc i < length made \<longrightarrow> (\<exists>err. dialTCPNode s route (fst (made ! i)) (de_attempt env (count + i)) = Some (Inl err)
       \<and> retryable err \<and> de_ctx env (count + i) = None))"
  using assms
proof (induction env route as count lastErr s arbitrary: s' r made rule: dial_loop.induct)
  case (2 env route i node as count lastErr s)
  show ?case
  proof (cases "count \<ge> maxTCPDialAttempts")
    case False
    let ?d = "dialTCPNode s route i (de_attempt env count)"
    show ?thesis
    proof (cases "\<exists>err. ?d = Some (Inl err) \<and> retryable err \<and> de_ctx env count = None")
      case True
      then obtain err where d: "?d = Some (Inl err)" "err_as is_gone err = None" "\<not> final_error err" "de_ctx env count = None"
        by (auto simp: retryable_def)
      then obtain made' where m: "dial_loop env route as (Suc count) (Some err) s = (s', r, made')" "made = (i, node) # made'"
        using "2.prems" False by (auto split: prod.splits)
      note ih = "2.IH" [OF False d(1) refl d(2) _ d(3) m(1)]
      have "\<exists>err. dialTCPNode s route (fst (made ! j)) (de_attempt env (count + j)) = Some (Inl err) \<and> retryable err
          \<and> de_ctx env (count + j) = None" if "Suc j < length made" for j
        using that ih d m(2) by (cases j) (auto simp: retryable_def)
      then show ?thesis using ih d(4) m(2) False by (cases "made' = []") auto
    next
      case F: False
      then have "made = [(i, node)]"
        using "2.prems" False
        by (auto simp: retryable_def split: option.splits sum.splits if_splits prod.splits)
      then show ?thesis using False by simp
    qed
  qed (use 2 in simp)
qed simp

text \<open>C20: dialing a TCP target tries the node and address candidates of its resource in order, at most 64 of
  them, and another one only after an error that settles nothing: after a verdict of the server,
  a session that is gone or a cancelled dial, no further attempt is made. A target outside the
  resource table is never dialed.\<close>

theorem DialTCP_attempts:
  assumes "DialTCP env target s = (s', r, made)" "made \<noteq> []"
  shows "\<exists>table route. ts_table s = Some table \<and> matchTCP table target = Some route \<and>
    made = take (length made) (attempts (candidateNodes table (g_nodeGroupID (route_grant route))) route) \<and>
    length made \<le> maxTCPDialAttempts \<and>
    (\<forall>i. Suc i < length made \<longrightarrow> (\<exists>err. dialTCPNode s route (fst (made ! i)) (de_attempt env i) = Some (Inl err) \<and>
       retryable err \<and> de_ctx env i = None))"
proof -
  obtain table where t: "ts_table s = Some table" "t_port target \<noteq> 0" "\<not> ts_stopped s"
    using assms by (auto simp: DialTCP_def split: if_splits)
  obtain route where m: "matchTCP table target = Some route"
    using assms t by (cases "matchTCP table target") (auto simp: DialTCP_def)
  have "dial_loop env route (attempts (candidateNodes table (g_nodeGroupID (route_grant route))) route) 0 None s = (s', r, made)"
    using assms t m by (auto simp: DialTCP_def Let_def split: if_splits)
  from dial_loop_made [OF this] t m assms(2) show ?thesis by auto
qed

section \<open>No panic\<close>

lemma name_char_not_colon: "\<not> name_char (CHR '':'')" "\<not> name_char (CHR ''%'')"
  by (simp_all add: name_char_def code_in_def)

lemma ParseAddr_no_colon: "CHR '':'' \<notin> set s \<Longrightarrow> ParseAddr s \<noteq> Some (Addr6 b z)"
proof -
  assume "CHR '':'' \<notin> set s"
  then have "first_delim s \<noteq> Some (CHR '':'')"
    by (induction s) auto
  then show ?thesis by (auto simp: ParseAddr_def split: option.splits)
qed

lemma ip4_str_no_colon: "CHR '':'' \<notin> set (ip4_str a)"
proof -
  have "CHR '':'' \<notin> set (nat_str n)" for n
    using nat_str_digits [of n] by (auto simp: list_all_iff is_digit_def code_in_def)
  then show ?thesis by (cases a) (simp add: ip4_str_def byte_str_def)
qed

lemma ip4_str_length: "0 < length (ip4_str a)" "length (ip4_str a) \<le> 15"
proof -
  have b: "length (byte_str b) \<le> 3" for b
    unfolding byte_str_def by (intro nat_str_length less_trans [OF unat_byte_less]) simp_all
  obtain a0 a1 a2 a3 where a: "a = (a0, a1, a2, a3)" by (cases a) auto
  show "0 < length (ip4_str a)" by (simp add: a ip4_str_def)
  show "length (ip4_str a) \<le> 15"
    using b [of a0] b [of a1] b [of a2] b [of a3] by (simp add: a ip4_str_def)
qed

lemma target_host_ok:
  assumes "NewTCPTarget host port = Inr t"
  shows "CHR '':'' \<notin> set (t_host t)" "0 < length (t_host t)" "length (t_host t) \<le> 253" "t_port t = port" "ascii (t_host t)"
proof -
  consider a where "t_host t = ip4_str a" | "Normalize host False = Some (t_host t)"
    using assms by (auto simp: NewTCPTarget_def split: if_splits option.splits addr.splits)
  then have "CHR '':'' \<notin> set (t_host t) \<and> 0 < length (t_host t) \<and> length (t_host t) \<le> 253 \<and> ascii (t_host t)"
  proof cases
    case 1
    then show ?thesis
      using ip4_str_no_colon [of a] ascii_ip4_str [of a] ip4_str_length(1) [of a] le_trans [OF ip4_str_length(2) [of a], of 253]
      by simp
  next
    case 2
    note n = Normalize_Some [OF 2]
    have c: "name_char c \<or> c = CHR ''.''" if "c \<in> set (t_host t)" for c
      using name_loop_chars [OF n(2) that] by auto
    have "ascii (t_host t)"
      using c by (force simp: list_all_iff name_char_def code_in_def)
    then show ?thesis using n c name_char_not_colon by force
  qed
  then show "CHR '':'' \<notin> set (t_host t)" "0 < length (t_host t)" "length (t_host t) \<le> 253" "ascii (t_host t)" by auto
  show "t_port t = port" using assms by (auto simp: NewTCPTarget_def split: if_splits option.splits addr.splits)
qed

lemma destination_ok:
  assumes "NewTCPTarget host port = Inr (route_target route)"
  shows "CHR '':'' \<notin> set (destination route i)" "ascii (destination route i)"
    "0 < length (destination route i)" "length (destination route i) \<le> 253"
proof -
  note h = target_host_ok [OF assms]
  show "CHR '':'' \<notin> set (destination route i)" "ascii (destination route i)"
    "0 < length (destination route i)" "length (destination route i) \<le> 253"
    using h ip4_str_no_colon ascii_ip4_str ip4_str_length(1) le_trans [OF ip4_str_length(2), of 253] by (auto simp: destination_def dest_ip_def)
qed

text \<open>A target made by the constructor never reaches the panic of \<open>As4\<close>.\<close>

lemma tcpRequest_no_panic:
  assumes "NewTCPTarget host port = Inr (route_target route)"
  shows "tcpRequest s route i c \<noteq> None"
  using ParseAddr_no_colon [OF destination_ok(1) [OF assms], of i]
  by (auto simp: tcpRequest_def dest_bytes_def Let_def split: option.splits addr.splits)

section \<open>The exchange\<close>

lemma tcp_request_plain:
  assumes "ascii (ts_sid s)" "ascii (ts_deviceID s)" "ascii (ts_username s)" "ascii (g_appID (route_grant route))"
    and "ascii c" "ascii addr" "ascii d"
  shows "list_all (\<lambda>(k, v). ascii k \<and> plain v) (tcpAuthRequest s route c addr d)"
  using assms
  by (auto simp: tcpAuthRequest_def processEnvironment_def envJSON_def processJSON_def Let_def hex_ascii code_in_def)

lemma tcp_request_depth: "json_depth (JObj (tcpAuthRequest s route c addr d @ [(k, JStr v)])) \<le> maxNestingDepth"
  by (simp add: tcpAuthRequest_def processEnvironment_def envJSON_def processJSON_def Let_def maxNestingDepth_def)

lemma dec_members_append:
  "dec_members f (a @ b) x = (let (x1, e1) = dec_members f a x; (x2, e2) = dec_members f b x1 in (x2, e1 \<or> e2))"
  by (induction f a x rule: dec_members.induct) (auto simp: Let_def split: prod.splits)

definition zero_request :: TCPRequest where
  "zero_request = \<lparr>rq_AppID = [], rq_URL = [], rq_DestAddr = [], rq_DestIP = [], rq_Host = [], rq_Port = 0\<rparr>"

lemma request_keys:
  "list_all (\<lambda>k. \<not> is_field ''appId'' k \<and> \<not> is_field ''url'' k \<and> \<not> is_field ''destAddr'' k \<and> \<not> is_field ''destIP'' k \<and>
     \<not> is_field ''Host'' k \<and> \<not> is_field ''Port'' k)
    [''sid'', ''deviceId'', ''connectionId'', ''procHash'', ''userName'', ''rcAppliedInfo'', ''lang'', ''env'', ''xRequestSig'']"
  by code_simp

lemma request_other [simp]:
  "dec_tcp_request ''sid'' v q = (q, False)" "dec_tcp_request ''deviceId'' v q = (q, False)"
  "dec_tcp_request ''connectionId'' v q = (q, False)" "dec_tcp_request ''procHash'' v q = (q, False)"
  "dec_tcp_request ''userName'' v q = (q, False)" "dec_tcp_request ''rcAppliedInfo'' v q = (q, False)"
  "dec_tcp_request ''lang'' v q = (q, False)" "dec_tcp_request ''env'' v q = (q, False)"
  "dec_tcp_request ''xRequestSig'' v q = (q, False)"
  using request_keys by (simp_all only: dec_tcp_request_def list.pred_inject if_False simp_thms)

lemma request_fields [simp]:
  "dec_tcp_request ''appId'' (JStr v) q = (q\<lparr>rq_AppID := v\<rparr>, False)"
  "dec_tcp_request ''url'' (JStr v) q = (q\<lparr>rq_URL := v\<rparr>, False)"
  "dec_tcp_request ''destAddr'' (JStr v) q = (q\<lparr>rq_DestAddr := v\<rparr>, False)"
  "dec_tcp_request ''destIP'' (JStr v) q = (q\<lparr>rq_DestIP := v\<rparr>, False)"
proof -
  have f: "is_field ''url'' ''appId'' = False" "is_field ''appId'' ''url'' = False" "is_field ''appId'' ''destAddr'' = False"
    "is_field ''url'' ''destAddr'' = False" "is_field ''appId'' ''destIP'' = False" "is_field ''url'' ''destIP'' = False"
    "is_field ''destAddr'' ''destIP'' = False"
    by code_simp+
  have r: "is_field x x" for x by (simp add: is_field_def)
  show "dec_tcp_request ''appId'' (JStr v) q = (q\<lparr>rq_AppID := v\<rparr>, False)"
    "dec_tcp_request ''url'' (JStr v) q = (q\<lparr>rq_URL := v\<rparr>, False)"
    "dec_tcp_request ''destAddr'' (JStr v) q = (q\<lparr>rq_DestAddr := v\<rparr>, False)"
    "dec_tcp_request ''destIP'' (JStr v) q = (q\<lparr>rq_DestIP := v\<rparr>, False)"
    by (simp_all add: dec_tcp_request_def f r)
qed

lemma request_decodes:
  "dec_struct dec_tcp_request (JObj (tcpAuthRequest s route c addr d @ [(''xRequestSig'', v)])) zero_request =
    (zero_request\<lparr>rq_AppID := g_appID (route_grant route), rq_URL := ''tcp://'' @ addr, rq_DestAddr := addr, rq_DestIP := d\<rparr>, False)"
  by (simp add: tcpAuthRequest_def zero_request_def processEnvironment_def Let_def)

lemma host_read:
  assumes "dest_bytes d = Some b" "0 < length d" "length d \<le> 255" "CHR '':'' \<notin> set d"
  shows "\<exists>t b'. b = t # b' \<and> read_target_host t (b' @ r) =
    Some (case ParseAddr d of Some (Addr4 a) \<Rightarrow> ip4_str a | _ \<Rightarrow> d, r)"
proof (cases "ParseAddr d")
  case None
  moreover have u: "unat (of_nat (length d) :: byte) = length d"
    using assms(3) by (intro unat_of_nat_byte) simp
  moreover have "of_nat (length d) \<noteq> (0 :: byte)"
    using assms(2) u by (metis less_numeral_extra(3) unat_0)
  moreover have "b = 3 # (of_nat (length d) # str_bytes d)" using assms(1) None by (simp add: dest_bytes_def)
  moreover have "read_full 1 ((of_nat (length d) # str_bytes d) @ r) = Inr ([of_nat (length d)], str_bytes d @ r)"
    by (simp add: read_full_def)
  ultimately show ?thesis
    by (intro exI [of _ 3] exI [of _ "of_nat (length d) # str_bytes d"]) (simp add: read_target_host_def)
next
  case (Some a)
  then obtain x where x: "a = Addr4 x" using ParseAddr_no_colon [OF assms(4)] by (cases a) auto
  obtain a0 a1 a2 a3 where "x = (a0, a1, a2, a3)" by (cases x) auto
  then have b: "b = 1 # [a0, a1, a2, a3]" and p: "ParseAddr d = Some (Addr4 (a0, a1, a2, a3))"
    using assms(1) Some x by (simp_all add: dest_bytes_def ip4_bytes_def)
  have "read_full 4 ([a0, a1, a2, a3] @ r) = Inr ([a0, a1, a2, a3], r)" by (simp add: read_full_def)
  then have "read_target_host 1 ([a0, a1, a2, a3] @ r) = Some (ip4_str (a0, a1, a2, a3), r)"
    by (simp add: read_target_host_def get4_def)
  then show ?thesis using b p by auto
qed

lemma target_addr_ascii: "ascii (t_host t) \<Longrightarrow> ascii (target_addr t)"
  using ascii_int_str by (simp add: target_addr_def JoinHostPort_def code_in_def)

lemma dest_ip_ascii: "ascii (dest_ip route i)"
  by (simp add: dest_ip_def ascii_ip4_str)

lemma tcp_request_accepted:
  assumes "NewTCPTarget host port = Inr (route_target route)" "tcpRequest s route i c = Some (Inr req)"
    and "ascii (ts_sid s)" "ascii (ts_deviceID s)" "ascii (ts_username s)" "ascii (g_appID (route_grant route))" "ascii c"
  shows "accept_tcp (req @ rest) = Some (\<lparr>rq_AppID = g_appID (route_grant route),
      rq_URL = ''tcp://'' @ target_addr (route_target route), rq_DestAddr = target_addr (route_target route),
      rq_DestIP = dest_ip route i,
      rq_Host = (case ParseAddr (destination route i) of Some (Addr4 a) \<Rightarrow> ip4_str a | _ \<Rightarrow> destination route i),
      rq_Port = port\<rparr>, rest)"
proof -
  let ?ms = "tcpAuthRequest s route c (target_addr (route_target route)) (dest_ip route i)"
  let ?u = "str_bytes (print_json (JObj ?ms))"
  let ?sig = "(''xRequestSig'', JStr (signature ?u (ts_signKey s)))"
  let ?body = "str_bytes (print_json (JObj (?ms @ [?sig])))"
  note h = target_host_ok [OF assms(1)] and d = destination_ok [OF assms(1), of i]
  have ne: "?ms \<noteq> []" by (simp add: tcpAuthRequest_def Let_def split: prod.splits)
  obtain b where b: "dest_bytes (destination route i) = Some b" and len: "\<not> len ?body > 65535"
      and req: "req = [Version, 1, tcpMethod, envelopeVersion, tcpAuthMode] @ put16 (of_nat (length ?body)) @
        ?body @ [Version, 1, 0] @ b @ put16 port"
    using assms(2) h(4) unfolding tcpRequest_def Let_def sign_is_member [OF ne]
    by (auto split: if_splits option.splits simp del: print_json.simps str_bytes_length)
  obtain t b' where tb: "b = t # b'" and rh: "read_target_host t (b' @ put16 port @ rest) =
      Some (case ParseAddr (destination route i) of Some (Addr4 a) \<Rightarrow> ip4_str a | _ \<Rightarrow> destination route i, put16 port @ rest)"
    using host_read [OF b d(3) _ d(1), of "put16 port @ rest"] d(4) by auto
  have "plain (JObj (?ms @ [?sig]))"
    using tcp_request_plain [OF assms(3-7), of "target_addr (route_target route)" "dest_ip route i"] h(5) hex_ascii
    by (simp add: target_addr_ascii dest_ip_ascii assms signature_def code_in_def)
  then have p: "parse_json (bytes_str ?body) = Some (JObj (?ms @ [?sig]))"
    using tcp_request_depth by (simp only: str_bytes_inverse parse_print_json)
  then have u: "unmarshal (dec_struct dec_tcp_request)
      \<lparr>rq_AppID = [], rq_URL = [], rq_DestAddr = [], rq_DestIP = [], rq_Host = [], rq_Port = 0\<rparr> (bytes_str ?body) =
      Some (zero_request\<lparr>rq_AppID := g_appID (route_grant route), rq_URL := ''tcp://'' @ target_addr (route_target route),
        rq_DestAddr := target_addr (route_target route), rq_DestIP := dest_ip route i\<rparr>)"
    by (simp only: unmarshal_def unmarshal_value_def zero_request_def [symmetric] request_decodes option.case case_prod_conv if_False)
  let ?head = "[Version, 1, tcpMethod, envelopeVersion, tcpAuthMode] @ put16 (of_nat (length ?body))"
  have r1: "read_full 7 (req @ rest) = Inr (?head, ?body @ [Version, 1, 0, t] @ b' @ put16 port @ rest)"
    unfolding req tb by (simp add: read_full_def put16_def)
  have r2: "read_full (unat (get16 ?head 5)) (?body @ [Version, 1, 0, t] @ b' @ put16 port @ rest) =
      Inr (?body, [Version, 1, 0, t] @ b' @ put16 port @ rest)"
  proof -
    have "get16 ?head 5 = of_nat (length ?body)" by (simp add: get16_def put16_def)
    then have "unat (get16 ?head 5) = length ?body" using len by (simp add: unat_of_nat_u16 del: print_json.simps str_bytes_length)
    then show ?thesis by (simp only: read_full_take)
  qed
  have r3: "read_full 4 ([Version, 1, 0, t] @ b' @ put16 port @ rest) = Inr ([Version, 1, 0, t], b' @ put16 port @ rest)"
    by (simp add: read_full_def)
  have r4: "read_full 2 (put16 port @ rest) = Inr (put16 port, rest)" by (simp add: read_full_def)
  show "accept_tcp (req @ rest) = Some (\<lparr>rq_AppID = g_appID (route_grant route),
      rq_URL = ''tcp://'' @ target_addr (route_target route), rq_DestAddr = target_addr (route_target route),
      rq_DestIP = dest_ip route i,
      rq_Host = (case ParseAddr (destination route i) of Some (Addr4 a) \<Rightarrow> ip4_str a | _ \<Rightarrow> destination route i),
      rq_Port = port\<rparr>, rest)"
    unfolding accept_tcp_def r1 sum.case case_prod_conv r2 u option.case r3
    using rh r4 by (simp add: zero_request_def)
qed


lemma sha256_block_length: "length h = 8 \<Longrightarrow> length (sha256_block b h) = 8"
proof -
  have f: "length (fold sha256_round ks h) = 8" if "length h = 8" for ks and h :: "u32 list"
    using that by (induction ks arbitrary: h) (simp_all add: sha256_round_def Let_def)
  show "length h = 8 \<Longrightarrow> length (sha256_block b h) = 8" using f by (simp add: sha256_block_def Let_def)
qed

lemma sha256_length: "length (sha256 m) = 32"
proof -
  have f: "length (fold sha256_block bs h) = 8" if "length h = 8" for bs h
    using that by (induction bs arbitrary: h) (simp_all add: sha256_block_length)
  have p: "length (concat (map (put_be 4) ws)) = 4 * length ws" for ws :: "u32 list"
    by (induction ws) (simp_all add: put_be_def)
  have "length sha256_H0 = 8" by (simp add: sha256_H0_def)
  then show ?thesis by (simp add: sha256_def p f)
qed

lemma hex_encode_length: "length (hex_encode b) = 2 * length b"
  by (induction b) (simp_all add: hex_encode_def)

lemma signature_length: "length (signature b k) = 64"
  by (simp add: signature_def upperHex_def hmac_sha256_def Let_def sha256_length hex_encode_length)

lemma tcp_reply_read: "readTCPReply (tcp_reply 0 0 greeting) = Inr ((''198.51.100.9'', 40000), greeting)"
proof -
  have c: "tcp_reply 0 0 greeting = [5, 0x81, 0x53, 0, 0, 10] @ code_body 0 @ [5, 0, 0, 1] @ [198, 51, 100, 9] @ [0x9C, 0x40] @ greeting"
    by (simp add: tcp_reply_def code_body_zero put16_def)
  have "ip4_str (198, 51, 100, 9) = ''198.51.100.9''" by code_simp
  then show "readTCPReply (tcp_reply 0 0 greeting) = Inr ((''198.51.100.9'', 40000), greeting)"
    unfolding c using code_body_zero_code
    by (simp add: readTCPReply_def read_bound_def read_full_def code_body_zero get16_def be16_def get4_def)
qed

lemma quote_bound: "ascii s \<Longrightarrow> length (quote s) \<le> 6 * length s + 2"
proof -
  have "length (quote_char c) \<le> 6" for c by (simp add: quote_char_def u_escape_def)
  then have "length (quote_chars s) \<le> 6 * length s" if "ascii s" for s
    using that by (induction s) (auto simp: code_in_def intro: add_mono)
  then show "ascii s \<Longrightarrow> length (quote s) \<le> 6 * length s + 2" by (simp add: quote_def)
qed

lemma join_length: "length (join [c] xs) \<le> sum_list (map (\<lambda>x. Suc (length x)) xs)"
  by (induction "[c]" xs rule: join.induct) auto

fun json_bound :: "json \<Rightarrow> nat" where
  "json_bound JNull = 4"
| "json_bound (JBool b) = 5"
| "json_bound (JNum l) = length l"
| "json_bound (JStr s) = 6 * length s + 2"
| "json_bound (JArr vs) = 2 + sum_list (map (\<lambda>v. Suc (json_bound v)) vs)"
| "json_bound (JObj ms) = 2 + sum_list (map (\<lambda>(k, v). 6 * length k + 4 + json_bound v) ms)"

lemma print_json_length: "plain v \<Longrightarrow> length (print_json v) \<le> json_bound v"
proof (induction v)
  case (JArr vs)
  have "sum_list (map (\<lambda>v. Suc (length (print_json v))) vs) \<le> sum_list (map (\<lambda>v. Suc (json_bound v)) vs)"
    using JArr by (intro sum_list_mono) (auto simp: list_all_iff)
  with join_length [of "CHR '',''" "map print_json vs"] show ?case by (simp add: comp_def)
next
  case (JObj ms)
  have "Suc (length (quote k @ '':'' @ print_json v)) \<le> 6 * length k + 4 + json_bound v" if "(k, v) \<in> set ms" for k v
  proof -
    have "ascii k" "plain v" using JObj.prems that by (auto simp: list_all_iff)
    moreover from this JObj.IH that have "length (print_json v) \<le> json_bound v" by (auto simp: prod_set_defs)
    ultimately show ?thesis using quote_bound [of k] by simp
  qed
  then have "sum_list (map (\<lambda>(k, v). Suc (length (quote k @ '':'' @ print_json v))) ms) \<le>
      sum_list (map (\<lambda>(k, v). 6 * length k + 4 + json_bound v) ms)"
    by (intro sum_list_mono) auto
  with join_length [of "CHR '',''" "map (\<lambda>(k, v). quote k @ '':'' @ print_json v) ms"] show ?case
    by (simp add: comp_def case_prod_unfold)
qed (use quote_bound in auto)

lemma tcp_request_length:
  assumes "length (ts_sid s) \<le> 1000" "length (ts_deviceID s) \<le> 1000" "length (ts_username s) \<le> 1000"
    "length (g_appID (route_grant route)) \<le> 1000" "length c \<le> 1000" "length addr \<le> 300" "length d \<le> 300"
  shows "json_bound (JObj (tcpAuthRequest s route c addr d)) \<le> 60000"
proof -
  have h: "length (upperHex (hex_encode (sha256 b))) = 64" for b
    using signature_length unfolding upperHex_def by (simp add: hex_encode_length sha256_length)
  have "length (int_str 0) = 1" by code_simp
  then show ?thesis using assms by (simp add: tcpAuthRequest_def processEnvironment_def envJSON_def processJSON_def Let_def h)
qed

lemma target_addr_length: "length (t_host t) \<le> 253 \<Longrightarrow> length (target_addr t) \<le> 300"
proof -
  have "unat (t_port t) < 10 ^ 5" by (rule less_trans [OF unsigned_less]) simp
  from nat_str_length [OF _ this] have "length (int_str (uint (t_port t))) \<le> 5" by (simp add: int_str_def)
  then show "length (t_host t) \<le> 253 \<Longrightarrow> length (target_addr t) \<le> 300"
    by (simp add: target_addr_def JoinHostPort_def)
qed

lemma tcpRequest_succeeds:
  assumes "NewTCPTarget host port = Inr (route_target route)" "ts_sid s \<noteq> []"
    and "ascii (ts_sid s)" "ascii (ts_deviceID s)" "ascii (ts_username s)" "ascii (g_appID (route_grant route))" "ascii c"
    and "length (ts_sid s) \<le> 1000" "length (ts_deviceID s) \<le> 1000" "length (ts_username s) \<le> 1000"
      "length (g_appID (route_grant route)) \<le> 1000" "length c \<le> 1000"
  shows "\<exists>req. tcpRequest s route i c = Some (Inr req)"
proof -
  let ?j = "JObj (tcpAuthRequest s route c (target_addr (route_target route)) (dest_ip route i))"
  note h = target_host_ok [OF assms(1)]
  have "plain ?j"
    using tcp_request_plain [OF assms(3-7), of "target_addr (route_target route)" "dest_ip route i"] h(5)
    by (simp add: target_addr_ascii dest_ip_ascii)
  note print_json_length [OF this]
  also have "json_bound ?j \<le> 60000"
    using le_trans [OF ip4_str_length(2), of 300]
    by (intro tcp_request_length assms target_addr_length h) (simp add: dest_ip_def)
  finally have "len (signAuthJSON (str_bytes (print_json ?j)) k) \<le> 65535" for k
    by (simp add: signAuthJSON_def signature_length del: print_json.simps)
  then have l: "\<not> len (signAuthJSON (str_bytes (print_json ?j)) k) > 65535" for k by (simp only: not_less simp_thms)
  show ?thesis using l tcpRequest_no_panic [OF assms(1), of s i c] assms(2)
    unfolding tcpRequest_def Let_def by (auto simp del: print_json.simps str_bytes_length split: option.splits)
qed

text \<open>C18: for a valid target, a session identifier that is not empty, and ASCII fields of at most 1000 bytes each a
  TCP request is built, and a node reads from it what was asked for: the application and addresses of the resource in
  the signed body, the destination and port after it, and nothing of what follows; and the
  client reads the bound address from the node's answer, leaving the stream's first bytes.\<close>

theorem tcp_exchange:
  assumes "NewTCPTarget host port = Inr (route_target route)" "ts_sid s \<noteq> []"
    and "ascii (ts_sid s)" "ascii (ts_deviceID s)" "ascii (ts_username s)" "ascii (g_appID (route_grant route))" "ascii c"
    and "length (ts_sid s) \<le> 1000" "length (ts_deviceID s) \<le> 1000" "length (ts_username s) \<le> 1000"
      "length (g_appID (route_grant route)) \<le> 1000" "length c \<le> 1000"
  shows "\<exists>req. tcpRequest s route i c = Some (Inr req) \<and>
    (\<forall>rest. accept_tcp (req @ rest) = Some (\<lparr>rq_AppID = g_appID (route_grant route),
      rq_URL = ''tcp://'' @ target_addr (route_target route), rq_DestAddr = target_addr (route_target route),
      rq_DestIP = dest_ip route i,
      rq_Host = (case ParseAddr (destination route i) of Some (Addr4 a) \<Rightarrow> ip4_str a | _ \<Rightarrow> destination route i),
      rq_Port = port\<rparr>, rest)) \<and>
    readTCPReply (tcp_reply 0 0 greeting) = Inr ((''198.51.100.9'', 40000), greeting)"
proof -
  obtain req where "tcpRequest s route i c = Some (Inr req)" using tcpRequest_succeeds [OF assms] by auto
  with tcp_request_accepted [OF assms(1) this assms(3-7)] tcp_reply_read show ?thesis by blast
qed

definition example_session :: tcp_session where
  "example_session = \<lparr>ts_closed = False, ts_cancelled = False,
     ts_table = Some (emptyTable\<lparr>domainRules := [\<lparr>d_pattern = ''*.b'', d_grant = \<lparr>g_appID = ''app'', g_nodeGroupID = ''g''\<rparr>,
       d_ports = \<lparr>first = 1, last_port = 100\<rparr>, d_dialIPs = [(10, 0, 0, 1)]\<rparr>],
       nodeGroups := [(''g'', [''n1'', ''n2''])]\<rparr>),
     ts_sid = ''s'', ts_deviceID = ''d'', ts_username = ''u'', ts_signKey = [1], ts_connections = [], ts_failure = None\<rparr>"

definition example_env :: dial_env where
  "example_env = \<lparr>de_attempt = (\<lambda>_. \<lparr>ae_dial = Some ErrShortWrite, ae_deadline = None, ae_write = (None, None), ae_input = [],
     ae_ctx = None, ae_clear = None, ae_connectionID = ''c''\<rparr>), de_stopped = (\<lambda>_. False), de_ctx = (\<lambda>_. None), de_id = 1\<rparr>"

definition example_target :: TCPTarget where
  "example_target = \<lparr>t_host = ''a.b'', t_port = 80\<rparr>"

lemma example_dial:
  "snd (snd (DialTCP example_env example_target example_session)) = [(0, ''n1''), (0, ''n2'')]"
  by code_simp

theorem DialTCP_attempts_witness:
  "length (snd (snd (DialTCP example_env example_target example_session))) \<le> maxTCPDialAttempts"
proof -
  obtain s r made where d: "DialTCP example_env example_target example_session = (s, r, made)" by (metis prod_cases3)
  then have "made \<noteq> []" using example_dial by simp
  from DialTCP_attempts [OF d this] show ?thesis using d by auto
qed

definition example_route :: tcpRoute where
  "example_route = \<lparr>route_grant = \<lparr>g_appID = ''app'', g_nodeGroupID = ''g''\<rparr>, route_target = example_target,
     route_dialIPs = [(10, 0, 0, 1)]\<rparr>"

lemma example_parts:
  "NewTCPTarget ''a.b'' 80 = Inr (route_target example_route)" "ts_sid example_session = ''s''"
  "ts_deviceID example_session = ''d''" "ts_username example_session = ''u''" "g_appID (route_grant example_route) = ''app''"
  "target_addr (route_target example_route) = ''a.b:80''"
  "dest_ip example_route 0 = ''10.0.0.1''" "destination example_route 0 = ''10.0.0.1''"
  "ParseAddr ''10.0.0.1'' = Some (Addr4 (10, 0, 0, 1))" "ip4_str (10, 0, 0, 1) = ''10.0.0.1''"
  by code_simp+

theorem tcp_exchange_witness:
  "\<exists>req. tcpRequest example_session example_route 0 ''c'' = Some (Inr req) \<and>
    (\<forall>rest. accept_tcp (req @ rest) = Some (\<lparr>rq_AppID = ''app'', rq_URL = ''tcp://a.b:80'', rq_DestAddr = ''a.b:80'',
      rq_DestIP = ''10.0.0.1'', rq_Host = ''10.0.0.1'', rq_Port = 80\<rparr>, rest))"
  using tcp_exchange [of "''a.b''" 80 example_route example_session "''c''" 0 "[]"]
  by (auto simp: example_parts code_in_def)

section \<open>The result of a dial\<close>

text \<open>The loop ends with a result: a panic only if some request panics, and the nil error only if nothing was
  tried.\<close>

lemma dial_loop_returns:
  assumes "dial_loop env route as count lastErr s = (s', r, made)"
    and "\<And>i env. dialTCPNode s route i env \<noteq> None" "as \<noteq> [] \<and> count < maxTCPDialAttempts \<or> lastErr \<noteq> None"
  shows "\<exists>x. r = Some x \<and> x \<noteq> Inl None"
  using assms
proof (induction env route as count lastErr s arbitrary: s' r made rule: dial_loop.induct)
  case (2 env route i node as count lastErr s)
  show ?case
  proof (cases "count \<ge> maxTCPDialAttempts")
    case False
    obtain d where d: "dialTCPNode s route i (de_attempt env count) = Some d" using "2.prems"(2) by blast
    show ?thesis
    proof (cases d)
      case (Inl err)
      show ?thesis
      proof (cases "err_as is_gone err = None \<and> de_ctx env count = None \<and> \<not> final_error err")
        case True
        then obtain made' where "dial_loop env route as (Suc count) (Some err) s = (s', r, made')"
          using "2.prems"(1) False d Inl by (auto split: prod.splits)
        from "2.IH" [OF False d Inl _ _ _ this] True "2.prems"(2) show ?thesis by auto
      next
        case F: False
        then show ?thesis using "2.prems"(1) False d Inl by (auto split: option.splits if_splits)
      qed
    next
      case (Inr conn)
      then show ?thesis using "2.prems"(1) False d by (auto split: if_splits)
    qed
  qed (use 2 in auto)
qed auto

lemma dialTCPNode_no_panic:
  assumes "NewTCPTarget host port = Inr (route_target route)"
  shows "dialTCPNode s route i env \<noteq> None"
  using tcpRequest_no_panic [OF assms, of s i "ae_connectionID env"]
  by (auto simp: dialTCPNode_def split: option.splits sum.splits prod.splits)

lemma matchTCP_target: "matchTCP table target = Some route \<Longrightarrow> route_target route = target"
proof -
  have "match_domain_rules rs target = Some route \<Longrightarrow> route_target route = target" for rs
    by (induction rs) (auto split: if_splits)
  then show "matchTCP table target = Some route \<Longrightarrow> route_target route = target"
    by (auto simp: matchTCP_def split: option.splits)
qed

text \<open>C19: dialing a target made by \<open>NewTCPTarget\<close> always ends with a connection or an error: it does not panic on
  any input and never answers with neither (a nil connection without an error, which the SOCKS5
  handler would dereference).\<close>

theorem DialTCP_returns:
  assumes "NewTCPTarget host port = Inr target" "DialTCP env target s = (s', r, made)"
  shows "(\<exists>conn. r = Some (Inr conn)) \<or> (\<exists>err. r = Some (Inl (Some err)))"
proof -
  have "\<exists>x. r = Some x \<and> x \<noteq> Inl None"
  proof (cases "\<exists>table route. ts_table s = Some table \<and> matchTCP table target = Some route \<and> t_port target \<noteq> 0 \<and> \<not> ts_stopped s \<and>
      candidateNodes table (g_nodeGroupID (route_grant route)) \<noteq> []")
    case True
    then obtain table route where t: "ts_table s = Some table" "matchTCP table target = Some route" "t_port target \<noteq> 0"
        "\<not> ts_stopped s" "candidateNodes table (g_nodeGroupID (route_grant route)) \<noteq> []" by blast
    let ?nodes = "candidateNodes table (g_nodeGroupID (route_grant route))"
    have d: "dial_loop env route (attempts ?nodes route) 0 None s = (s', r, made)"
      using assms(2) t by (auto simp: DialTCP_def Let_def)
    have p: "dialTCPNode s route i env \<noteq> None" for i env
      using dialTCPNode_no_panic assms(1) matchTCP_target [OF t(2)] by simp
    have "[0..<max 1 (length (route_dialIPs route))] = 0 # [1..<max 1 (length (route_dialIPs route))]"
      by (subst upt_conv_Cons) simp_all
    then have "attempts ?nodes route \<noteq> []" using t(5) by (simp add: attempts_def)
    with dial_loop_returns [OF d p] show ?thesis by simp
  qed (use assms(2) in \<open>auto simp: DialTCP_def Let_def split: if_splits option.splits\<close>)
  then show ?thesis by (metis option.exhaust sum.exhaust)
qed

theorem DialTCP_returns_witness:
  "\<exists>r. fst (snd (DialTCP example_env \<lparr>t_host = ''a.b'', t_port = 80\<rparr> example_session)) = Some r \<and> r \<noteq> Inl None"
proof -
  have "NewTCPTarget ''a.b'' 80 = Inr \<lparr>t_host = ''a.b'', t_port = 80\<rparr>" by code_simp
  from DialTCP_returns [OF this] show ?thesis by (cases "DialTCP example_env \<lparr>t_host = ''a.b'', t_port = 80\<rparr> example_session") fastforce
qed

end
