(* ===== verification/Socks_Props.thy ===== *)
theory Socks_Props
  imports Socks Tcp_Props
begin

text \<open>
  The SOCKS5 server: which clients reach a dial, what a client is told, and the budgets of
  connections and dials.
\<close>

section \<open>Reads and writes\<close>

named_theorems io_results \<open>successful results of the connection operations\<close>

lemma io_bind_Inr [io_results]: "io_bind m f c = (Inr y, c') \<longleftrightarrow> (\<exists>x c1. m c = (Inr x, c1) \<and> f x c1 = (Inr y, c'))"
  by (auto simp: io_bind_def split: prod.splits sum.splits)

lemma rd_Inr [io_results]:
  "rd n c = (Inr b, c') \<longleftrightarrow> (\<exists>r. length b = n \<and> cl_in c = b @ r \<and> c' = c\<lparr>cl_in := r\<rparr>)"
proof -
  have "rd n c = (Inr b, c') \<longleftrightarrow> (\<exists>r. read_full n (cl_in c) = Inr (b, r) \<and> c' = c\<lparr>cl_in := r\<rparr>)"
    by (auto simp: rd_def split: sum.splits)
  then show ?thesis by (simp add: read_full_Inr)
qed

lemma wr_Inr: "wr b c = (Inr y, c') \<longleftrightarrow> write_outcome c = None \<and>
    c' = c\<lparr>cl_out := cl_out c @ b, cl_writes := tl (cl_writes c)\<rparr>"
  by (auto simp: wr_def split: option.splits)

lemma ret_Inr [io_results]: "ret x c = (Inr y, c') \<longleftrightarrow> y = x \<and> c' = c"
  by (auto simp: ret_def)

lemma failed_Inr [io_results]: "failed e c = (Inr y, c') \<longleftrightarrow> False"
  by (simp add: failed_def)

lemma refuse_Inr [io_results]: "refuse code e c = (Inr y, c') \<longleftrightarrow> False"
  by (simp add: refuse_def io_bind_def failed_def failureReply_def wr_ignored_def)

lemma target_Inr [io_results]:
  "(case r of Inl e \<Rightarrow> refuse code e | Inr t \<Rightarrow> ret t) c = (Inr y, c') \<longleftrightarrow> r = Inr y \<and> c' = c"
  by (auto simp: refuse_Inr ret_Inr split: sum.splits)

text \<open>A client whose writes all succeed; its input can be put back in front.\<close>

lemma wr_ok: "cl_writes c = [] \<Longrightarrow> wr b c = (Inr (), c\<lparr>cl_out := cl_out c @ b\<rparr>)"
  by (simp add: wr_def write_outcome_def)

lemma rd_ok: "rd n (c\<lparr>cl_in := b @ r\<rparr>) = (Inr b, c\<lparr>cl_in := r\<rparr>)" if "length b = n"
  using that by (simp add: rd_def)

section \<open>The grammar of an accepted client\<close>

definition length_byte :: "bytes \<Rightarrow> byte" where
  "length_byte b = of_nat (length b)"

definition credentials :: "Server \<Rightarrow> bytes \<Rightarrow> bool" where
  "credentials s b \<longleftrightarrow> (\<exists>u p. 0 < length u \<and> length u < 256 \<and> 0 < length p \<and> length p < 256 \<and> authenticate s u p \<and>
     b = [1, length_byte u] @ u @ [length_byte p] @ p)"

definition auth_prefix :: "Server \<Rightarrow> bytes \<Rightarrow> bool" where
  "auth_prefix s pre \<longleftrightarrow> (\<exists>methods auth. 0 < length methods \<and> length methods < 256 \<and>
     (if sv_auth s then passwordAuth else noAuth) \<in> set methods \<and>
     (if sv_auth s then credentials s auth else auth = []) \<and> pre = [Version, length_byte methods] @ methods @ auth)"

definition host_field :: "bytes \<Rightarrow> string \<Rightarrow> bool" where
  "host_field b host \<longleftrightarrow> (\<exists>a. b = ipv4Address # ip4_bytes a \<and> host = ip4_str a) \<or>
     (\<exists>name. 0 < length name \<and> length name < 256 \<and> b = [domainAddress, length_byte name] @ name \<and> host = bytes_str name)"

lemma length_byte_unat: "length b = unat x \<longleftrightarrow> x = length_byte b \<and> length b < 256"
proof
  assume "length b = unat x"
  then show "x = length_byte b \<and> length b < 256" using unat_byte_less [of x] by (simp add: length_byte_def)
next
  assume "x = length_byte b \<and> length b < 256"
  then show "length b = unat x" by (simp add: length_byte_def unat_of_nat_byte)
qed

lemma length_byte_zero: "length b < 256 \<Longrightarrow> length_byte b = 0 \<longleftrightarrow> length b = 0"
proof -
  assume "length b < 256"
  then have "unat (length_byte b) = length b" by (simp add: length_byte_def unat_of_nat_byte)
  moreover have "length_byte b = 0 \<longleftrightarrow> unat (length_byte b) = 0" by (simp add: unat_eq_zero)
  ultimately show ?thesis by simp
qed

lemma length_byte_Nil [simp]: "length_byte [] = 0"
  by (simp add: length_byte_def)

lemma list2: "length b = 2 \<longleftrightarrow> (\<exists>x y. b = [x, y])"
  by (auto simp: length_Suc_conv numeral_2_eq_2)

lemma list4: "length b = 4 \<longleftrightarrow> (\<exists>x y z w. b = [x, y, z, w])"
proof -
  have "4 = Suc (Suc (Suc (Suc 0)))" by simp
  then show ?thesis by (simp only: length_Suc_conv length_0_conv) blast
qed

lemma put16_be16: "put16 (be16 x y) = [x, y]"
  unfolding put16_def by (metis be16_inj be16_split)

text \<open>What a client must send, and what it is sent.\<close>

lemma negotiate_auth_Inr:
  assumes "negotiate_auth s c = (Inr y, c')"
  shows "\<exists>b. credentials s b \<and> cl_in c = b @ cl_in c' \<and> cl_out c' = cl_out c @ [1, 0]"
proof -
  obtain h0 h1 u l p where "cl_in c = [h0, h1] @ u @ [l] @ p @ cl_in c'" "h0 = 1" "h1 \<noteq> 0" "length u = unat h1"
      "length p = unat l" "p \<noteq> []" "authenticate s u p" "cl_out c' = cl_out c @ [1, 0]"
    using assms unfolding negotiate_auth_def
    by (auto simp: io_results wr_Inr Let_def list2 length_Suc_conv split: if_splits)
  moreover from this have "h1 = length_byte u" "length u < 256" "l = length_byte p" "length p < 256" "0 < length u" "0 < length p"
    by (auto simp: length_byte_unat unat_gt_0 length_byte_zero simp del: length_0_conv)
  ultimately have "credentials s ([1, length_byte u] @ u @ [length_byte p] @ p)" "cl_out c' = cl_out c @ [1, 0]"
      "cl_in c = ([1, length_byte u] @ u @ [length_byte p] @ p) @ cl_in c'"
    unfolding credentials_def by (blast, simp_all)
  then show ?thesis by blast
qed

lemma negotiate_Inr:
  assumes "negotiate s c = (Inr y, c')"
  shows "\<exists>pre. auth_prefix s pre \<and> cl_in c = pre @ cl_in c' \<and>
    cl_out c' = cl_out c @ (if sv_auth s then [Version, passwordAuth, 1, 0] else [Version, noAuth])"
proof (cases "sv_auth s")
  case True
  obtain h1 methods r where c: "cl_in c = [Version, h1] @ methods @ r" "h1 \<noteq> 0" "length methods = unat h1"
      and m: "passwordAuth \<in> set methods" and c1: "negotiate_auth s
        (c\<lparr>cl_in := r, cl_out := cl_out c @ [Version, passwordAuth], cl_writes := tl (cl_writes c)\<rparr>) = (Inr y, c')"
    using assms True unfolding negotiate_def by (auto simp: io_results wr_Inr Let_def list2 split: if_splits)
  then have l: "h1 = length_byte methods" "length methods < 256" "0 < length methods"
    by (auto simp: length_byte_unat unat_gt_0 length_byte_zero)
  obtain b where b: "credentials s b" and i: "r = b @ cl_in c'" "cl_out c' = (cl_out c @ [Version, passwordAuth]) @ [1, 0]"
    using negotiate_auth_Inr [OF c1] by auto
  then have "auth_prefix s ([Version, length_byte methods] @ methods @ b)"
    using True m l unfolding auth_prefix_def by auto
  then show ?thesis using c i l True by (intro exI conjI) auto
next
  case False
  obtain h1 methods where c: "cl_in c = [Version, h1] @ methods @ cl_in c'" "h1 \<noteq> 0" "length methods = unat h1"
      and m: "noAuth \<in> set methods" and o: "cl_out c' = cl_out c @ [Version, noAuth]"
    using assms False unfolding negotiate_def by (auto simp: io_results wr_Inr Let_def list2 split: if_splits)
  then have l: "h1 = length_byte methods" "length methods < 256" "0 < length methods"
    by (auto simp: length_byte_unat unat_gt_0 length_byte_zero)
  then have "auth_prefix s ([Version, length_byte methods] @ methods)"
    using False m unfolding auth_prefix_def by auto
  then show ?thesis using c o l False by (intro exI conjI) auto
qed

lemma read_host_Inr:
  assumes "read_host atype c = (Inr host, c')"
  shows "\<exists>b. host_field (atype # b) host \<and> cl_in c = b @ cl_in c' \<and> cl_out c' = cl_out c"
proof (cases "atype = ipv4Address")
  case True
  then obtain a0 a1 a2 a3 where "cl_in c = [a0, a1, a2, a3] @ cl_in c'" "host = ip4_str (a0, a1, a2, a3)" "cl_out c' = cl_out c"
    using assms by (auto simp: read_host_def io_results list4 get4_def)
  moreover from this True have "host_field (atype # [a0, a1, a2, a3]) host" by (auto simp: host_field_def ip4_bytes_def)
  ultimately show ?thesis by blast
next
  case False
  then obtain l name where n: "atype = domainAddress" "cl_in c = [l] @ name @ cl_in c'" "l \<noteq> 0" "length name = unat l"
      "host = bytes_str name" "cl_out c' = cl_out c"
    using assms by (auto simp: read_host_def io_results refuse_Inr length_Suc_conv split: if_splits)
  then have "l = length_byte name" "length name < 256" "0 < length name"
    by (auto simp: length_byte_unat unat_gt_0)
  with n have "host_field (atype # l # name) host" by (auto simp: host_field_def)
  with n show ?thesis by (intro exI [of _ "l # name"]) simp
qed

lemma handle_request_Inr:
  assumes "handle_request s deadline c = (Inr target, c')"
  shows "deadline = None \<and> (\<exists>pre hb host port. auth_prefix s pre \<and> host_field hb host \<and>
    cl_in c = pre @ [Version, connectCommand, 0] @ hb @ put16 port @ cl_in c' \<and> NewTCPTarget host port = Inr target) \<and>
    cl_out c' = cl_out c @ (if sv_auth s then [Version, passwordAuth, 1, 0] else [Version, noAuth])"
proof -
  obtain c1 c2 c3 atype host port where d: "deadline = None" "negotiate s c = (Inr (), c1)"
      and c1: "cl_in c1 = [Version, connectCommand, 0, atype] @ cl_in c2" "cl_out c2 = cl_out c1"
      and c2: "read_host atype c2 = (Inr host, c3)"
      and c3: "cl_in c3 = port @ cl_in c'" "length port = 2" "cl_out c' = cl_out c3" "NewTCPTarget host (get16 port 0) = Inr target"
    using assms unfolding handle_request_def
    by (clarsimp simp: io_results refuse_Inr list4 split: option.splits if_splits) (rule that; force)
  obtain pre where pre: "auth_prefix s pre" "cl_in c = pre @ cl_in c1"
      "cl_out c1 = cl_out c @ (if sv_auth s then [Version, passwordAuth, 1, 0] else [Version, noAuth])"
    using negotiate_Inr [OF d(2)] by blast
  obtain b where b: "host_field (atype # b) host" "cl_in c2 = b @ cl_in c3" "cl_out c3 = cl_out c2"
    using read_host_Inr [OF c2] by blast
  have p: "port = put16 (get16 port 0)" using c3(2) by (auto simp: list2 get16_def put16_be16)
  then have "cl_in c = pre @ [Version, connectCommand, 0] @ (atype # b) @ put16 (get16 port 0) @ cl_in c'"
    using pre(2) c1(1) b(2) c3(1) by simp
  with d(1) pre b c1(2) c3 show ?thesis by (intro conjI exI) auto
qed

section \<open>Every client of the grammar is served\<close>

lemma io_bind_step: "m c = (Inr x, c1) \<Longrightarrow> io_bind m f c = f x c1"
  by (simp add: io_bind_def)

lemma length_byte_back: "length b < 256 \<Longrightarrow> unat (length_byte b) = length b"
  by (simp add: length_byte_def unat_of_nat_byte)

abbreviation method_reply :: "Server \<Rightarrow> bytes" where
  "method_reply s \<equiv> (if sv_auth s then [Version, passwordAuth, 1, 0] else [Version, noAuth])"

lemma rd_take: "length b = n \<Longrightarrow> cl_in c = b @ r \<Longrightarrow> rd n c = (Inr b, c\<lparr>cl_in := r\<rparr>)"
  by (simp add: rd_Inr)

lemma negotiate_auth_ok:
  assumes "cl_writes c = []" "credentials s b" "cl_in c = b @ r"
  shows "negotiate_auth s c = (Inr (), c\<lparr>cl_in := r, cl_out := cl_out c @ [1, 0]\<rparr>)"
proof -
  obtain u p where u: "0 < length u" "length u < 256" "length_byte u \<noteq> 0" and p: "p \<noteq> []" "length p < 256" "authenticate s u p"
      and c: "cl_in c = [1, length_byte u] @ u @ [length_byte p] @ p @ r"
    using assms unfolding credentials_def by (auto simp: length_byte_zero)
  then show ?thesis
    using assms(1) unfolding negotiate_auth_def
    by (simp add: io_bind_def rd_take [of "[1, length_byte u]"] rd_take [of u _ _ "[length_byte p] @ p @ r"]
      rd_take [of "[length_byte p]" _ _ "p @ r"] rd_take [of p _ _ r] length_byte_back Let_def wr_ok ret_def)
qed

lemma negotiate_ok:
  assumes "cl_writes c = []" "auth_prefix s pre" "cl_in c = pre @ r"
  shows "negotiate s c = (Inr (), c\<lparr>cl_in := r, cl_out := cl_out c @ method_reply s\<rparr>)"
proof -
  obtain methods auth where m: "0 < length methods" "length methods < 256" "length_byte methods \<noteq> 0"
      "(if sv_auth s then passwordAuth else noAuth) \<in> set methods" and a: "if sv_auth s then credentials s auth else auth = []"
      and c: "cl_in c = [Version, length_byte methods] @ methods @ auth @ r"
    using assms(2,3) unfolding auth_prefix_def by (auto simp: length_byte_zero)
  have n: "negotiate s c = (let c1 = c\<lparr>cl_in := auth @ r, cl_out := cl_out c @ [Version, if sv_auth s then passwordAuth else noAuth]\<rparr> in
      if \<not> sv_auth s then (Inr (), c1) else negotiate_auth s c1)"
    using m c assms(1) unfolding negotiate_def
    by (simp add: io_bind_def rd_take [of "[Version, length_byte methods]"] rd_take [of methods _ _ "auth @ r"]
      length_byte_back Let_def wr_ok ret_def)
  show ?thesis
  proof (cases "sv_auth s")
    case True
    then show ?thesis using a assms(1) unfolding n Let_def by (simp add: negotiate_auth_ok [of _ s auth r])
  qed (use n a in simp)
qed

lemma read_host_ok:
  assumes "host_field (atype # b) host" "cl_in c = b @ r"
  shows "read_host atype c = (Inr host, c\<lparr>cl_in := r\<rparr>)"
  using assms(1) unfolding host_field_def
proof
  assume "\<exists>a. atype # b = ipv4Address # ip4_bytes a \<and> host = ip4_str a"
  then obtain a0 a1 a2 a3 where "atype = ipv4Address" "b = [a0, a1, a2, a3]" "host = ip4_str (a0, a1, a2, a3)"
    by (auto simp: ip4_bytes_def split: prod.splits)
  then show ?thesis using assms(2) by (simp add: read_host_def io_bind_def rd_take [of b] ret_def get4_def)
next
  assume "\<exists>name. 0 < length name \<and> length name < 256 \<and> atype # b = [domainAddress, length_byte name] @ name \<and> host = bytes_str name"
  then obtain name where n: "0 < length name" "length name < 256" "atype = domainAddress" "b = length_byte name # name"
      "host = bytes_str name" by auto
  then show ?thesis
    using assms(2) by (simp add: read_host_def io_bind_def rd_take [of "[length_byte name]" _ _ "name @ r"] rd_take [of name _ _ r]
      length_byte_zero length_byte_back ret_def)
qed

lemma handle_request_ok:
  assumes "cl_writes c = []" "auth_prefix s pre" "host_field hb host" "NewTCPTarget host port = Inr target"
    and "cl_in c = pre @ [Version, connectCommand, 0] @ hb @ put16 port @ r"
  shows "handle_request s None c = (Inr target, c\<lparr>cl_in := r, cl_out := cl_out c @ method_reply s\<rparr>)"
proof -
  obtain atype b where hb: "hb = atype # b" using assms(3) by (auto simp: host_field_def)
  let ?h = "[Version, connectCommand, 0, atype]"
  have "cl_in c = pre @ ?h @ b @ put16 port @ r" using assms(5) hb by simp
  note n = negotiate_ok [OF assms(1,2) this]
  have p: "get16 (put16 port) 0 = port" by simp
  show ?thesis
    unfolding handle_request_def option.case
    by (simp add: io_bind_def n rd_take [of ?h _ _ "b @ put16 port @ r"] rd_take [of "put16 port" _ _ r]
      read_host_ok [OF assms(3) [unfolded hb], of _ "put16 port @ r"] p assms(4) ret_def)
qed

text \<open>C21: the server reaches a dial exactly for the clients of its protocol: an offer of the one method it
  wants, with credentials configured those credentials and no others (compared as SHA-256
  values), then a CONNECT to an IPv4 address or a domain that is a valid target. What follows
  the request is left for the relay.\<close>

theorem socks_request_grammar:
  assumes "cl_writes c = []"
  shows "(\<exists>c'. handle_request s None c = (Inr target, c') \<and> cl_in c' = rest) \<longleftrightarrow>
    (\<exists>pre hb host port. auth_prefix s pre \<and> host_field hb host \<and> NewTCPTarget host port = Inr target \<and>
       cl_in c = pre @ [Version, connectCommand, 0] @ hb @ put16 port @ rest)"
proof
  assume "\<exists>c'. handle_request s None c = (Inr target, c') \<and> cl_in c' = rest"
  then show "\<exists>pre hb host port. auth_prefix s pre \<and> host_field hb host \<and> NewTCPTarget host port = Inr target \<and>
       cl_in c = pre @ [Version, connectCommand, 0] @ hb @ put16 port @ rest"
    using handle_request_Inr by blast
next
  assume "\<exists>pre hb host port. auth_prefix s pre \<and> host_field hb host \<and> NewTCPTarget host port = Inr target \<and>
       cl_in c = pre @ [Version, connectCommand, 0] @ hb @ put16 port @ rest"
  then obtain pre hb host port where "auth_prefix s pre" "host_field hb host" "NewTCPTarget host port = Inr target"
      "cl_in c = pre @ [Version, connectCommand, 0] @ hb @ put16 port @ rest" by blast
  from handle_request_ok [OF assms this] show "\<exists>c'. handle_request s None c = (Inr target, c') \<and> cl_in c' = rest" by simp
qed

definition open_server :: Server where
  "open_server = new_server \<lparr>op_Username = [], op_Password = [], op_MaxConnections = 2, op_MaxDials = 1, op_HandshakeTimeout = 0\<rparr> 1080"

theorem socks_request_grammar_witness:
  "\<exists>pre hb host port. auth_prefix open_server pre \<and> host_field hb host \<and>
     NewTCPTarget host port = Inr \<lparr>t_host = ''a.b'', t_port = 80\<rparr> \<and>
     [5, 1, 0, 5, 1, 0, 3, 3, 97, 46, 98, 0, 80, 7] = pre @ [Version, connectCommand, 0] @ hb @ put16 port @ [7]"
proof -
  let ?c = "\<lparr>cl_in = [5, 1, 0, 5, 1, 0, 3, 3, 97, 46, 98, 0, 80, 7], cl_out = [], cl_writes = []\<rparr>"
  have t: "NewTCPTarget ''a.b'' 80 = Inr \<lparr>t_host = ''a.b'', t_port = 80\<rparr>" "bytes_str [97, 46, 98] = ''a.b''" by code_simp+
  have "negotiate open_server ?c = (Inr (), \<lparr>cl_in = [5, 1, 0, 3, 3, 97, 46, 98, 0, 80, 7], cl_out = [5, 0], cl_writes = []\<rparr>)"
    by (simp add: negotiate_def open_server_def new_server_def io_bind_def rd_def read_full_def Let_def wr_def write_outcome_def ret_def)
  then have "\<exists>c'. handle_request open_server None ?c = (Inr \<lparr>t_host = ''a.b'', t_port = 80\<rparr>, c') \<and> cl_in c' = [7]"
    using t by (simp add: handle_request_def io_bind_def rd_def read_full_def read_host_def ret_def get16_def be16_def)
  then show ?thesis using socks_request_grammar [of ?c] by simp
qed

section \<open>What a client is told\<close>

text \<open>\<open>outputs W V m\<close>: on a connection whose writes succeed, \<open>m\<close> writes a member of \<open>W\<close> when it fails and one of
  \<open>V\<close> when it does not.\<close>

definition outputs :: "bytes set \<Rightarrow> bytes set \<Rightarrow> 'a io \<Rightarrow> bool" where
  "outputs W V m \<longleftrightarrow> (\<forall>c r c'. cl_writes c = [] \<longrightarrow> m c = (r, c') \<longrightarrow> cl_writes c' = [] \<and>
     (\<exists>w. cl_out c' = cl_out c @ w \<and> (case r of Inl _ \<Rightarrow> w \<in> W | Inr _ \<Rightarrow> w \<in> V)))"

named_theorems out_rules \<open>backward rules for what an operation writes\<close>

lemma outputs_ret [out_rules]: "[] \<in> V \<Longrightarrow> outputs W V (ret x)"
  by (auto simp: outputs_def ret_def)

lemma outputs_failed [out_rules]: "[] \<in> W \<Longrightarrow> outputs W V (failed e)"
  by (auto simp: outputs_def failed_def)

lemma outputs_refuse [out_rules]: "failure_bytes code \<in> W \<Longrightarrow> outputs W V (refuse code e)"
  by (auto simp: outputs_def refuse_def io_bind_def failureReply_def wr_ignored_def wr_ok failed_def)

lemma outputsD:
  assumes "outputs W V m" "cl_writes c = []" "m c = (r, c')"
  shows "cl_writes c' = [] \<and> (\<exists>w. cl_out c' = cl_out c @ w \<and> (case r of Inl _ \<Rightarrow> w \<in> W | Inr _ \<Rightarrow> w \<in> V))"
  using assms unfolding outputs_def by blast

lemma outputsI:
  assumes "\<And>c r c'. cl_writes c = [] \<Longrightarrow> m c = (r, c') \<Longrightarrow> cl_writes c' = [] \<and>
    (\<exists>w. cl_out c' = cl_out c @ w \<and> (case r of Inl _ \<Rightarrow> w \<in> W | Inr _ \<Rightarrow> w \<in> V))"
  shows "outputs W V m"
  using assms unfolding outputs_def by blast

lemma outputs_rd [out_rules]:
  assumes "[] \<in> W" "\<And>x. outputs W V (f x)"
  shows "outputs W V (io_bind (rd n) f)"
proof (rule outputsI)
  fix c r c'
  assume c: "cl_writes c = []" "io_bind (rd n) f c = (r, c')"
  show "cl_writes c' = [] \<and> (\<exists>w. cl_out c' = cl_out c @ w \<and> (case r of Inl _ \<Rightarrow> w \<in> W | Inr _ \<Rightarrow> w \<in> V))"
  proof (cases "read_full n (cl_in c)")
    case (Inl e)
    then show ?thesis using c assms(1) by (auto simp: io_bind_def rd_def)
  next
    case (Inr br)
    then obtain b q where "f b (c\<lparr>cl_in := q\<rparr>) = (r, c')" using c by (cases br) (auto simp: io_bind_def rd_def)
    from outputsD [OF assms(2) _ this] c(1) show ?thesis by simp
  qed
qed

lemma outputs_after:
  assumes "outputs {w. b @ w \<in> W} {v. b @ v \<in> V} (f ())"
    and "\<And>c. cl_writes c = [] \<Longrightarrow> m c = (Inr (), c\<lparr>cl_out := cl_out c @ b\<rparr>)"
  shows "outputs W V (io_bind m f)"
proof (rule outputsI)
  fix c r c'
  assume c: "cl_writes c = []" "io_bind m f c = (r, c')"
  then have "f () (c\<lparr>cl_out := cl_out c @ b\<rparr>) = (r, c')" by (simp add: io_bind_def assms(2))
  from outputsD [OF assms(1) _ this] c(1)
  obtain w where "cl_writes c' = []" "cl_out c' = cl_out c @ b @ w" "case r of Inl _ \<Rightarrow> b @ w \<in> W | Inr _ \<Rightarrow> b @ w \<in> V"
    by (cases r) auto
  then show "cl_writes c' = [] \<and> (\<exists>w. cl_out c' = cl_out c @ w \<and> (case r of Inl _ \<Rightarrow> w \<in> W | Inr _ \<Rightarrow> w \<in> V))"
    by blast
qed

lemma outputs_wr [out_rules]: "outputs {w. b @ w \<in> W} {v. b @ v \<in> V} (f ()) \<Longrightarrow> outputs W V (io_bind (wr b) f)"
  by (erule outputs_after) (rule wr_ok)

lemma outputs_wr_ignored [out_rules]:
  "outputs {w. b @ w \<in> W} {v. b @ v \<in> V} (f ()) \<Longrightarrow> outputs W V (io_bind (wr_ignored b) f)"
  by (erule outputs_after) (simp add: wr_ignored_def wr_ok)

lemma outputs_if [out_rules]:
  "(P \<Longrightarrow> outputs W V m) \<Longrightarrow> (\<not> P \<Longrightarrow> outputs W V n) \<Longrightarrow> outputs W V (if P then m else n)"
  by simp






lemma refuse_writes [out_rules]:
  "outputs W V (case r of Inl e \<Rightarrow> refuse code e | Inr t \<Rightarrow> ret t)" if "failure_bytes code \<in> W" "[] \<in> V"
  using that by (auto intro: out_rules split: sum.splits)









text \<open>The code of a dial's error is one of the refusals of RFC 1928, never success: a node's refusal is passed
  on only when it is one, and the errors of the network carry none.\<close>

definition no_reply :: "error \<Rightarrow> bool" where
  "no_reply e \<longleftrightarrow> err_as is_connect_error e = None"

definition reply_in_range :: "error \<Rightarrow> bool" where
  "reply_in_range e \<longleftrightarrow> (\<forall>x. err_as is_connect_error e = Some (TCPConnectError x) \<longrightarrow> 1 \<le> x \<and> x \<le> 8)"

lemma err_as_holds: "err_as T e = Some x \<Longrightarrow> T x"
  by (auto simp: err_as_def find_Some_iff)

lemma is_connect_errorE: "is_connect_error e \<Longrightarrow> \<exists>x. e = TCPConnectError x"
  by (cases e) auto

lemma replyCode_range:
  assumes "reply_in_range e"
  shows "1 \<le> replyCode e \<and> replyCode e \<le> 8"
proof (cases "err_as is_connect_error e")
  case None
  show ?thesis unfolding replyCode_def None option.case
    by (simp split: option.split)
next
  case (Some c)
  then obtain x where "c = TCPConnectError x" using err_as_holds is_connect_errorE by blast
  then show ?thesis using Some assms by (simp add: replyCode_def reply_in_range_def)
qed

lemma no_reply_in_range: "no_reply e \<Longrightarrow> reply_in_range e"
  by (simp add: no_reply_def reply_in_range_def)

lemma no_reply_simps [simp]:
  "no_reply (WrapError op e) \<longleftrightarrow> no_reply e" "no_reply (IOError i)" "no_reply (ProtocolError w)" "no_reply (ErrSessionGone g)"
  "no_reply ErrTCPAuthRejected" "no_reply ErrShortWrite" "no_reply ContextCanceled" "no_reply ErrResourcesUnavailable"
  "no_reply ErrTCPResourceUnmatched" "no_reply (read_err op io)"
  by (simp_all add: no_reply_def err_as_def read_err_def)

lemma readTCPReply_range:
  assumes "readTCPReply b = Inl e"
  shows "reply_in_range e"
proof -
  have b: "no_reply e" if "read_bound t q = Inl e" for t q
    using that by (auto simp: read_bound_def split: if_splits sum.splits prod.splits option.splits)
  have "no_reply e \<or> (\<exists>x. e = TCPConnectError x \<and> x \<noteq> 0 \<and> \<not> x > 8)"
    using assms b unfolding readTCPReply_def
    by (auto split: if_splits sum.splits prod.splits option.splits)
  then show ?thesis
  proof
    assume "\<exists>x. e = TCPConnectError x \<and> x \<noteq> 0 \<and> \<not> x > 8"
    then obtain x where x: "e = TCPConnectError x" "x \<noteq> 0" "x \<le> 8" by (auto simp: not_less)
    then have "1 \<le> x" by (metis word_le_less_eq word_less_1 not_less)
    then show ?thesis using x by (simp add: reply_in_range_def err_as_def)
  qed (rule no_reply_in_range)
qed

definition quiet_attempt :: "attempt_env \<Rightarrow> bool" where
  "quiet_attempt env \<longleftrightarrow> (\<forall>e. ae_dial env = Some e \<or> ae_deadline env = Some e \<or> snd (ae_write env) = Some e \<or>
     ae_ctx env = Some e \<or> ae_clear env = Some e \<longrightarrow> no_reply e)"

lemma dialTCPNode_range:
  assumes "dialTCPNode s route i env = Some (Inl e)" "quiet_attempt env"
  shows "reply_in_range e"
proof -
  have r: "no_reply e" if "tcpRequest s route i c = Some (Inl e)" for c
    using that by (auto simp: tcpRequest_def Let_def simp del: print_json.simps split: if_splits option.splits)
  have "no_reply e \<or> (\<exists>b. readTCPReply b = Inl e)"
    using assms r unfolding dialTCPNode_def quiet_attempt_def
    by (auto split: option.splits sum.splits prod.splits if_splits)
  then show ?thesis using no_reply_in_range readTCPReply_range by blast
qed

lemma dial_loop_range:
  assumes "dial_loop env route as count lastErr s = (s', Some (Inl (Some e)), made)"
    and "\<And>k. quiet_attempt (de_attempt env k)" "\<And>k e. de_ctx env k = Some e \<Longrightarrow> no_reply e"
    and "\<And>e. lastErr = Some e \<Longrightarrow> reply_in_range e"
  shows "reply_in_range e"
  using assms
proof (induction env route as count lastErr s arbitrary: s' made rule: dial_loop.induct)
  case (2 env route i node as count lastErr s)
  show ?case
  proof (cases "count \<ge> maxTCPDialAttempts")
    case False
    show ?thesis
    proof (cases "dialTCPNode s route i (de_attempt env count)")
      case (Some d)
      show ?thesis
      proof (cases d)
        case (Inl err)
        then have err: "reply_in_range err" using dialTCPNode_range Some "2.prems"(2) by blast
        show ?thesis
        proof (cases "err_as is_gone err = None \<and> de_ctx env count = None \<and> \<not> final_error err")
          case True
          then obtain made' where "dial_loop env route as (Suc count) (Some err) s = (s', Some (Inl (Some e)), made')"
            using "2.prems"(1) False Some Inl by (auto split: prod.splits)
          from "2.IH" [OF False Some Inl _ _ _ this] True err "2.prems"(2,3) show ?thesis by auto
        next
          case F: False
          have "no_reply g" if "err_as is_gone err = Some g" for g
            using err_as_holds [OF that] by (cases g) auto
          with F "2.prems"(1,3) False Some Inl err no_reply_in_range show ?thesis
            by (auto split: option.splits if_splits)
        qed
      next
        case (Inr conn)
        then show ?thesis using "2.prems"(1) False Some by (auto split: if_splits intro: no_reply_in_range)
      qed
    qed (use 2 False in simp)
  qed (use 2 in simp)
qed auto

text \<open>When the dial of a session fails, the code the client gets is a refusal of RFC 1928 (1 to 8): a
  failed dial is never reported as a success, whatever a node answers. The errors of the network
  and of the context are assumed not to be refusals of a node.\<close>

theorem socks_dial_refused:
  assumes "DialTCP env target s = (s', Some (Inl (Some e)), made)"
    and "\<And>k. quiet_attempt (de_attempt env k)" "\<And>k e. de_ctx env k = Some e \<Longrightarrow> no_reply e"
  shows "1 \<le> replyCode e \<and> replyCode e \<le> 8"
proof (rule replyCode_range)
  have l: "reply_in_range e" if "dial_loop env route as 0 None s = (s', Some (Inl (Some e)), made)" for route as
    using dial_loop_range [OF that assms(2,3)] by simp
  show "reply_in_range e"
    using assms(1) l no_reply_in_range by (auto simp: DialTCP_def Let_def split: if_splits option.splits)
qed

theorem socks_dial_refused_witness: "1 \<le> replyCode ErrShortWrite \<and> replyCode ErrShortWrite \<le> 8"
proof -
  obtain s' r made where d: "DialTCP example_env example_target example_session = (s', r, made)" by (metis prod_cases3)
  have "fst (snd (DialTCP example_env example_target example_session)) = Some (Inl (Some ErrShortWrite))" by code_simp
  then have "DialTCP example_env example_target example_session = (s', Some (Inl (Some ErrShortWrite)), made)" using d by simp
  from socks_dial_refused [OF this] show ?thesis by (auto simp: example_env_def quiet_attempt_def)
qed

end
