(* ===== verification/Socks_Budget.thy ===== *)
theory Socks_Budget
  imports Socks
begin

text \<open>
  The budgets of the SOCKS5 server under every interleaving of its accept loop, its handlers and its
  shutdown.
\<close>

definition is_dialing :: "phase option \<Rightarrow> bool" where
  "is_dialing p \<longleftrightarrow> (\<exists>t. p = Some (Dialing t))"

lemma is_dialing_simps [simp]:
  "\<not> is_dialing None" "\<not> is_dialing (Some Handshaking)" "\<not> is_dialing (Some Relaying)" "is_dialing (Some (Dialing t))"
  by (simp_all add: is_dialing_def)

definition dialing_count :: "phases \<Rightarrow> nat list \<Rightarrow> nat" where
  "dialing_count ph xs = length (filter (\<lambda>i. is_dialing (ph i)) xs)"

definition socks_inv :: "Server \<times> phases \<Rightarrow> bool" where
  "socks_inv = (\<lambda>(s, ph).
     distinct (sv_connections s) \<and> set (sv_connections s) = dom ph \<and>
     len (sv_connections s) \<le> sv_maxConnections s \<and> int (sv_dialing s) \<le> sv_maxDials s \<and>
     sv_dialing s = dialing_count ph (sv_connections s) \<and>
     (sv_connections s \<noteq> [] \<longrightarrow> sv_started s))"

lemma count_fresh: "i \<notin> set xs \<Longrightarrow> dialing_count (ph(i := p)) xs = dialing_count ph xs"
  unfolding dialing_count_def by (metis (mono_tags, lifting) filter_cong fun_upd_other)

lemma count_Cons: "dialing_count ph (i # xs) = (if is_dialing (ph i) then 1 else 0) + dialing_count ph xs"
  by (simp add: dialing_count_def)

lemma count_update:
  assumes "distinct xs" "i \<in> set xs"
  shows "dialing_count (ph(i := p)) xs + (if is_dialing (ph i) then 1 else 0) =
    dialing_count ph xs + (if is_dialing p then 1 else 0)"
  using assms
proof (induction xs)
  case (Cons x xs)
  then show ?case by (cases "x = i") (auto simp: count_Cons count_fresh [unfolded fun_upd_def])
qed simp

lemma count_remove:
  assumes "distinct xs" "i \<in> set xs"
  shows "dialing_count (ph(i := None)) (filter (\<lambda>j. j \<noteq> i) xs) + (if is_dialing (ph i) then 1 else 0) = dialing_count ph xs"
  using assms
proof (induction xs)
  case (Cons x xs)
  show ?case
  proof (cases "x = i")
    case True
    then have "filter (\<lambda>j. j \<noteq> i) xs = xs" using Cons.prems by (auto intro: filter_True)
    then show ?thesis using True Cons.prems by (simp add: count_Cons count_fresh [unfolded fun_upd_def])
  qed (use Cons in \<open>auto simp: count_Cons\<close>)
qed simp

lemma finish_inv:
  assumes "socks_inv (s, ph)" "ph i = Some p"
    and "sv_dialing s' + (if is_dialing (ph i) then 1 else 0) = sv_dialing s" "sv_connections s' = sv_connections s"
      "sv_maxConnections s' = sv_maxConnections s" "sv_maxDials s' = sv_maxDials s" "sv_started s' = sv_started s"
  shows "socks_inv (finish_conn i fail s', ph(i := None))"
proof -
  have i: "i \<in> set (sv_connections s)" using assms(1,2) by (auto simp: socks_inv_def)
  have "len (filter (\<lambda>j. j \<noteq> i) (sv_connections s)) \<le> sv_maxConnections s"
    by (rule order_trans [of _ "len (sv_connections s)"]) (use assms(1) in \<open>simp_all add: socks_inv_def\<close>)
  then show ?thesis
    using assms count_remove [of "sv_connections s" i ph] i
    by (auto simp: socks_inv_def finish_conn_def Let_def split: if_splits)
qed

lemma socks_step_inv: "socks_step a b \<Longrightarrow> socks_inv a \<Longrightarrow> socks_inv b"
proof (induction rule: socks_step.induct)
  case (start s s' ph)
  then show ?case by (auto simp: socks_inv_def run_start_def split: if_splits)
next
  case (accept s ph i s')
  have "i \<notin> set (sv_connections s)" using accept by (auto simp: socks_inv_def)
  then show ?case using accept by (auto simp: socks_inv_def accept_conn_def count_Cons count_fresh split: if_splits)
next
  case (accept_refused s i ph)
  then show ?case by (auto simp: socks_inv_def count_rejected_def)
next
  case (request_failed ph i s d c e c')
  then show ?case by (intro finish_inv) auto
next
  case (slot_taken ph i s d c target c' s')
  then have "i \<in> set (sv_connections s)" by (auto simp: socks_inv_def)
  then show ?case using slot_taken count_update [of "sv_connections s" i ph "Some (Dialing target)"]
    by (auto simp: socks_inv_def take_slot_def split: if_splits)
next
  case (slot_refused ph i s d c target c')
  then show ?case by (intro finish_inv [of s]) (auto simp: count_rejected_def)
next
  case (dial_failed ph i target s)
  then have "i \<in> set (filter (\<lambda>j. is_dialing (ph j)) (sv_connections s))" by (auto simp: socks_inv_def)
  then have "0 < dialing_count ph (sv_connections s)" unfolding dialing_count_def by (rule length_pos_if_in_set)
  then have "0 < sv_dialing s" using dial_failed by (simp add: socks_inv_def)
  with dial_failed show ?case by (intro finish_inv [of s]) (auto simp: release_slot_def)
next
  case (dialed ph i target s)
  then have i: "i \<in> set (sv_connections s)" by (auto simp: socks_inv_def)
  then show ?case using dialed count_update [of "sv_connections s" i ph "Some Relaying"]
    by (auto simp: socks_inv_def release_slot_def)
next
  case (relay_ended ph i s fail)
  then show ?case by (intro finish_inv) auto
next
  case (shut s s' closing ph)
  then show ?case by (auto simp: socks_inv_def shutdown_def split: if_splits)
qed

lemma new_server_inv: "New listen address opts = Inr s \<Longrightarrow> socks_inv (s, \<lambda>_. None)"
  by (auto simp: New_def new_server_def socks_inv_def dialing_count_def split: if_splits option.splits prod.splits addr.splits sum.splits)

lemma steps_keep_limits:
  "socks_step\<^sup>*\<^sup>* (s, ph) (s', ph') \<Longrightarrow> sv_maxConnections s' = sv_maxConnections s \<and> sv_maxDials s' = sv_maxDials s"
  by (induction rule: rtranclp_induct2)
    (auto elim!: socks_stepE simp: run_start_def accept_conn_def count_rejected_def finish_conn_def take_slot_def release_slot_def
      shutdown_def Let_def split: if_splits)

text \<open>C23: a server made by \<open>New\<close> never holds more connections than its budget (at most 4096) and never runs more
  dials at once than its dial budget (at most 128, nor more than the connections); the slots in
  use are exactly those of the handlers that are dialing, whatever the order of the steps.\<close>

theorem socks_budgets:
  assumes "New listen address opts = Inr s" "socks_step\<^sup>*\<^sup>* (s, \<lambda>_. None) (s', ph)"
  shows "len (sv_connections s') \<le> op_MaxConnections opts \<and> int (sv_dialing s') \<le> op_MaxDials opts \<and>
    op_MaxConnections opts \<le> 4096 \<and> op_MaxDials opts \<le> 128 \<and> op_MaxDials opts \<le> op_MaxConnections opts \<and>
    sv_dialing s' = dialing_count ph (sv_connections s') \<and> dom ph = set (sv_connections s')"
proof -
  have "socks_inv (s', ph)"
    using assms(2) by (induction rule: rtranclp_induct) (use new_server_inv [OF assms(1)] socks_step_inv in blast)+
  moreover have "sv_maxConnections s = op_MaxConnections opts" "sv_maxDials s = op_MaxDials opts" "op_MaxConnections opts \<le> 4096"
      "op_MaxDials opts \<le> 128" "op_MaxDials opts \<le> op_MaxConnections opts"
    using assms(1) by (auto simp: New_def new_server_def split: if_splits option.splits prod.splits addr.splits sum.splits)
  ultimately show ?thesis using steps_keep_limits [OF assms(2)] by (auto simp: socks_inv_def)
qed

definition example_options :: Options where
  "example_options = \<lparr>op_Username = [], op_Password = [], op_MaxConnections = 2, op_MaxDials = 1, op_HandshakeTimeout = 0\<rparr>"

lemma example_new: "New (\<lambda>_. Inr 1080) ''127.0.0.1:1080'' example_options = Inr (new_server example_options 1080)"
proof -
  have "SplitHostPort ''127.0.0.1:1080'' = Some (''127.0.0.1'', ''1080'')" "ParseAddr ''127.0.0.1'' = Some (Addr4 (127, 0, 0, 1))"
    by code_simp+
  then show ?thesis by (simp add: New_def example_options_def loopback4_def)
qed

theorem socks_budgets_witness:
  "\<exists>s ph. socks_step\<^sup>*\<^sup>* (new_server example_options 1080, \<lambda>_. None) (s, ph) \<and> sv_connections s = [7] \<and>
     int (sv_dialing s) \<le> op_MaxDials example_options"
proof -
  let ?s = "new_server example_options 1080"
  have "socks_step (?s, \<lambda>_. None) (?s\<lparr>sv_started := True\<rparr>, \<lambda>_. None)"
    by (rule start) (simp add: run_start_def new_server_def)
  moreover have "socks_step (?s\<lparr>sv_started := True\<rparr>, \<lambda>_. None)
      (?s\<lparr>sv_started := True, sv_connections := [7]\<rparr>, (\<lambda>_. None)(7 \<mapsto> Handshaking))"
    by (rule accept) (simp_all add: accept_conn_def new_server_def example_options_def)
  ultimately have r: "socks_step\<^sup>*\<^sup>* (?s, \<lambda>_. None)
      (?s\<lparr>sv_started := True, sv_connections := [7]\<rparr>, (\<lambda>_. None)(7 \<mapsto> Handshaking))"
    by (meson rtranclp.rtrancl_into_rtrancl rtranclp.rtrancl_refl)
  from socks_budgets [OF example_new r] r show ?thesis by fastforce
qed

end
