(* ===== verification/Service.thy ===== *)
theory Service
  imports Status Socks
begin

text \<open>
  \<open>internal/service/service.go\<close> and \<open>endpoints.go\<close>: the actor that owns the campus session, the tunnel task and
  the endpoints. Every command and every report of a task is one call of \<open>dispatch\<close>; the network is a
  parameter: the environment of a command says how the calls it makes end. Sessions and SOCKS5
  servers are numbered. Display texts are represented by ASCII keys.

  A handler is a state transformer that may panic: \<open>None\<close> is a panic, with the state it left behind.
\<close>

section \<open>State\<close>

abbreviation ErrNotRunning :: error where "ErrNotRunning \<equiv> OtherError 70"
abbreviation ErrBadState :: error where "ErrBadState \<equiv> OtherError 71"
abbreviation errAuthRequired :: error where "errAuthRequired \<equiv> OtherError 72"
abbreviation ErrShuttingDown :: error where "ErrShuttingDown \<equiv> OtherError 73"
abbreviation ErrStopRequested :: error where "ErrStopRequested \<equiv> OtherError 74"
abbreviation ErrEmptyCode :: error where "ErrEmptyCode \<equiv> OtherError 75"
abbreviation ErrMissingCredential :: error where "ErrMissingCredential \<equiv> OtherError 76"
abbreviation errSocksStart :: error where "errSocksStart \<equiv> OtherError 77"
abbreviation errInternal :: error where "errInternal \<equiv> OtherError 78"

text \<open>A login that waits for a code: for the tunnel, or (\<open>po_dev\<close>) for an operation on trusted devices.\<close>

record pendingOp =
  po_dev :: bool
  po_trust :: bool
  po_all :: bool
  po_sess :: "nat option"

text \<open>\<open>sv_run\<close> is the generation of the tunnel task that was started and not yet collected, \<open>sv_socksTask\<close> the
  server whose task was; \<open>sv_attached\<close> the session the WireGuard device is bound to, \<open>sv_rootWatch\<close> the task
  that waits for the end of the session. \<open>sv_opened\<close> and \<open>sv_released\<close> record the logins obtained and
  the ones closed.\<close>

record Service =
  sv_wgEnabled :: bool
  sv_socksEnabled :: bool
  sv_user :: string
  sv_pass :: string
  sv_status :: Status
  sv_br :: bool
  sv_brSnapshot :: bool
  sv_socks :: "nat option"
  sv_socksSnapshot :: "nat option"
  sv_socksTask :: "nat option"
  sv_session :: "nat option"
  sv_sessionSnapshot :: "nat option"
  sv_pending :: "pendingOp option"
  sv_run :: "u64 option"
  sv_attached :: "nat option"
  sv_rootWatch :: bool
  sv_gen :: u64
  sv_authSeq :: u64
  sv_authTimer :: "u64 option"
  sv_stopPending :: bool
  sv_closing :: bool
  sv_opened :: "nat list"
  sv_released :: "nat list"

datatype socks_start = Socks_started | Socks_ended | Socks_cancelled error

text \<open>How the calls of one command end: \<open>clientFor\<close>, \<open>Connect\<close> and \<open>OpenDevices\<close> (with the session they leave), \<open>Auth\<close>,
  the prompt, \<open>EnsureTrusted\<close>, the device operation with its summary, \<open>newBearer\<close>, \<open>StartL3\<close>, \<open>attach\<close>, \<open>newSOCKS\<close>,
  the start of the proxy task, \<open>ctx.Err()\<close> at the three places it is read, \<open>sess.Err()\<close>, whether the
  collected tasks have ended, and the logouts.\<close>

record sv_env =
  e_now :: time
  e_text :: "error \<Rightarrow> string"
  e_client :: "error option"
  e_connect :: "nat option \<times> error option"
  e_open :: "nat option \<times> error option"
  e_auth :: "error option"
  e_prompt :: string
  e_trust :: "error option"
  e_device :: "error + string"
  e_bearer :: "error option"
  e_startL3 :: "error option"
  e_attach :: "error option"
  e_newSocks :: "error + nat"
  e_socksStart :: socks_start
  e_ctx :: "nat \<Rightarrow> error option"
  e_sessErr :: "error option"
  e_runEnded :: bool
  e_socksEnded :: bool
  e_logout :: "nat \<Rightarrow> error option"

section \<open>Handlers\<close>

type_synonym 'a act = "Service \<Rightarrow> 'a option \<times> Service"

definition done_with :: "'a \<Rightarrow> 'a act" where
  "done_with x s = (Some x, s)"

definition panic :: "'a act" where
  "panic s = (None, s)"

definition act_bind :: "'a act \<Rightarrow> ('a \<Rightarrow> 'b act) \<Rightarrow> 'b act" where
  "act_bind m f s = (case m s of (None, s') \<Rightarrow> (None, s') | (Some x, s') \<Rightarrow> f x s')"

definition seq :: "unit act \<Rightarrow> 'b act \<Rightarrow> 'b act" where
  "seq m n = act_bind m (\<lambda>_. n)"

definition change :: "(Service \<Rightarrow> Service) \<Rightarrow> unit act" where
  "change f s = (Some (), f s)"

definition reading :: "(Service \<Rightarrow> 'a act) \<Rightarrow> 'a act" where
  "reading f s = f s s"

text \<open>\<open>defer\<close> of an action on the result: it runs after a panic as well, with no error.\<close>

definition deferring :: "(error option \<Rightarrow> unit act) \<Rightarrow> error option act \<Rightarrow> error option act" where
  "deferring d m s =
     (case m s of
        (None, s') \<Rightarrow> (None, snd (d None s'))
      | (Some err, s') \<Rightarrow> seq (d err) (done_with err) s')"

text \<open>The operations of the status store; an illegal transition panics.\<close>

definition on_status :: "(Status \<Rightarrow> Status option) \<Rightarrow> unit act" where
  "on_status g s = (case g (sv_status s) of None \<Rightarrow> (None, s) | Some st \<Rightarrow> (Some (), s\<lparr>sv_status := st\<rparr>))"

definition enter :: "State \<Rightarrow> string \<Rightarrow> sv_env \<Rightarrow> unit act" where
  "enter st detail env = on_status (set_state st detail (e_now env))"

definition set_detail :: "string \<Rightarrow> unit act" where
  "set_detail detail = on_status (\<lambda>st. Some (setDetail detail st))"

definition endpoint_status :: "bool \<Rightarrow> bool \<Rightarrow> error option \<Rightarrow> unit act" where
  "endpoint_status wg enabled err = on_status (\<lambda>st. Some (set_endpoint wg enabled err st))"

section \<open>Endpoints\<close>

definition stopL3 :: "Service \<Rightarrow> Service" where
  "stopL3 s = s\<lparr>sv_gen := sv_gen s + 1, sv_run := None, sv_attached := (if sv_br s then None else sv_attached s)\<rparr>"

definition detach :: "Service \<Rightarrow> Service" where
  "detach s = s\<lparr>sv_attached := None\<rparr>"

definition startL3_body :: "sv_env \<Rightarrow> error option act" where
  "startL3_body env =
     reading (\<lambda>s.
       case (if sv_br s then None else e_bearer env) of
         Some e \<Rightarrow> done_with (Some e)
       | None \<Rightarrow>
           seq (change (\<lambda>s. if sv_br s then s else s\<lparr>sv_br := True, sv_brSnapshot := True\<rparr>))
             (if sv_session s = None then panic
              else case e_startL3 env of
                Some e \<Rightarrow> done_with (Some e)
              | None \<Rightarrow>
                  (case e_attach env of
                     Some e \<Rightarrow> seq (change detach) (done_with (Some e))
                   | None \<Rightarrow>
                       seq (change (\<lambda>s. s\<lparr>sv_attached := sv_session s\<rparr>))
                         (case e_ctx env 0 of
                            Some e \<Rightarrow> seq (change detach) (done_with (Some e))
                          | None \<Rightarrow>
                              seq (change (\<lambda>s. s\<lparr>sv_gen := sv_gen s + 1, sv_run := Some (sv_gen s + 1)\<rparr>))
                                (seq (on_status (setRetrying False)) (done_with None))))))"

definition startL3 :: "sv_env \<Rightarrow> error option act" where
  "startL3 env =
     reading (\<lambda>s.
       if sv_run s \<noteq> None \<and> \<not> e_runEnded env then done_with None
       else seq (change (\<lambda>s. if sv_run s \<noteq> None then stopL3 s else s))
         (deferring (endpoint_status True True) (startL3_body env)))"

definition stopSOCKS :: "Service \<Rightarrow> Service" where
  "stopSOCKS s = s\<lparr>sv_socksSnapshot := None, sv_socks := None, sv_socksTask := None\<rparr>"

definition startSOCKS_body :: "sv_env \<Rightarrow> error option act" where
  "startSOCKS_body env =
     reading (\<lambda>s.
       case (case sv_socks s of Some n \<Rightarrow> Inr n | None \<Rightarrow> e_newSocks env) of
         Inl e \<Rightarrow> done_with (Some e)
       | Inr n \<Rightarrow>
           seq (change (\<lambda>s. s\<lparr>sv_socks := Some n, sv_socksTask := Some n\<rparr>))
             (case e_socksStart env of
                Socks_ended \<Rightarrow> seq (change stopSOCKS) (done_with (Some errSocksStart))
              | Socks_cancelled e \<Rightarrow> seq (change stopSOCKS) (done_with (Some e))
              | Socks_started \<Rightarrow>
                  (case e_ctx env 1 of
                     Some e \<Rightarrow> seq (change stopSOCKS) (done_with (Some e))
                   | None \<Rightarrow> seq (change (\<lambda>s. s\<lparr>sv_socksSnapshot := Some n\<rparr>)) (done_with None))))"

definition startSOCKS :: "sv_env \<Rightarrow> error option act" where
  "startSOCKS env =
     reading (\<lambda>s.
       if sv_socksTask s \<noteq> None \<and> \<not> e_socksEnded env then done_with None
       else seq (change (\<lambda>s. if sv_socksTask s \<noteq> None then stopSOCKS s else s))
         (deferring (endpoint_status False True) (startSOCKS_body env)))"

section \<open>Teardown\<close>

definition stopAuthTimer :: "Service \<Rightarrow> Service" where
  "stopAuthTimer s = s\<lparr>sv_authSeq := sv_authSeq s + 1, sv_authTimer := None\<rparr>"

definition startAuthTimer :: "Service \<Rightarrow> Service" where
  "startAuthTimer s = (let s = stopAuthTimer s in s\<lparr>sv_authTimer := Some (sv_authSeq s)\<rparr>)"

definition release :: "nat option \<Rightarrow> Service \<Rightarrow> Service" where
  "release i s = (case i of None \<Rightarrow> s | Some n \<Rightarrow> s\<lparr>sv_released := n # sv_released s\<rparr>)"

definition logout_error :: "sv_env \<Rightarrow> Service \<Rightarrow> error option" where
  "logout_error env s =
     (case sv_session s of
        Some n \<Rightarrow> e_logout env n
      | None \<Rightarrow> (case sv_pending s of Some p \<Rightarrow> Option.bind (po_sess p) (e_logout env) | None \<Rightarrow> None))"

definition drop_logins :: "Service \<Rightarrow> Service" where
  "drop_logins s =
     (let s = (case sv_pending s of None \<Rightarrow> s | Some p \<Rightarrow> (release (po_sess p) s)\<lparr>sv_pending := None\<rparr>)
      in (release (sv_session s) s)\<lparr>sv_session := None\<rparr>)"

definition teardown :: "string \<Rightarrow> sv_env \<Rightarrow> unit act" where
  "teardown detail env =
     seq (change (\<lambda>s. (stopAuthTimer s)\<lparr>sv_gen := sv_gen s + 1, sv_sessionSnapshot := None\<rparr>))
       (seq (reading (\<lambda>s. if st_State (sv_status s) \<noteq> StateIdle then enter StateIdle detail env else done_with ()))
         (seq (change (\<lambda>s. stopL3 (stopSOCKS (s\<lparr>sv_rootWatch := False\<rparr>))))
           (reading (\<lambda>s.
              seq (change drop_logins)
                (if logout_error env s \<noteq> None then set_detail (detail @ ''logout failed'') else done_with ())))))"

definition fail :: "error option \<Rightarrow> sv_env \<Rightarrow> error option act" where
  "fail err env =
     seq (teardown [] env)
       (case err of
          None \<Rightarrow> panic
        | Some e \<Rightarrow> seq (on_status (setError (e_text env e) err (e_now env))) (done_with err))"

section \<open>Login\<close>

definition attach :: "nat option \<Rightarrow> Service \<Rightarrow> Service" where
  "attach sess s =
     (case sess of
        None \<Rightarrow> s
      | Some n \<Rightarrow>
          let prev = sv_session s; s = s\<lparr>sv_session := Some n, sv_sessionSnapshot := Some n\<rparr> in
          if prev = None \<or> prev = Some n then s else release prev s)"

definition applyPassword :: "string \<Rightarrow> (error + string) act" where
  "applyPassword password =
     seq (change (\<lambda>s. if password \<noteq> [] then s\<lparr>sv_pass := password\<rparr> else s))
       (reading (\<lambda>s. done_with
          (if sv_user s = [] then Inl ErrMissingCredential
           else if sv_pass s = [] then Inl ErrMissingCredential
           else Inr (sv_pass s))))"

definition finish_checks :: "nat option \<Rightarrow> error option \<Rightarrow> error option \<Rightarrow> sv_env \<Rightarrow> error option act" where
  "finish_checks sess wgErr socksErr env =
     (case e_ctx env 2 of
        Some e \<Rightarrow> fail (Some e) env
      | None \<Rightarrow> reading (\<lambda>s.
          if sv_session s = None then fail (Some ErrNotRunning) env
          else if sess = None then panic
          else if e_sessErr env \<noteq> None then fail (e_sessErr env) env
          else if (wgErr \<noteq> None \<or> \<not> sv_wgEnabled s) \<and> (socksErr \<noteq> None \<or> \<not> sv_socksEnabled s)
          then fail (join_errors wgErr socksErr) env
          else seq (on_status (setRetrying False))
            (seq (set_detail (if wgErr \<noteq> None \<or> socksErr \<noteq> None then ''some endpoints failed'' else ''endpoints started''))
              (seq (change (\<lambda>s. s\<lparr>sv_rootWatch := True\<rparr>)) (done_with None)))))"

definition finishConnect :: "nat option \<Rightarrow> sv_env \<Rightarrow> error option act" where
  "finishConnect sess env =
     seq (change (attach sess))
       (seq (enter StateUp ''session up'' env)
         (reading (\<lambda>s.
            seq (endpoint_status True (sv_wgEnabled s) None)
              (seq (endpoint_status False (sv_socksEnabled s) None)
                (act_bind (if sv_socksEnabled s then startSOCKS env else done_with None) (\<lambda>socksErr.
                  act_bind (if sv_wgEnabled s then startL3 env else done_with None) (\<lambda>wgErr.
                    finish_checks sess wgErr socksErr env)))))))"

definition ensureTrusted :: "nat option \<Rightarrow> sv_env \<Rightarrow> error option act" where
  "ensureTrusted sess env =
     (if sess = None then panic
      else done_with (case e_trust env of None \<Rightarrow> None | Some e \<Rightarrow> err_as is_gone e))"

definition prompt :: "pendingOp \<Rightarrow> sv_env \<Rightarrow> string act" where
  "prompt p env = (if \<not> po_dev p \<and> po_sess p = None then panic else done_with (e_prompt env))"

definition awaitAuth :: "string \<Rightarrow> sv_env \<Rightarrow> error option act" where
  "awaitAuth hint env =
     reading (\<lambda>s.
       act_bind (case sv_pending s of None \<Rightarrow> done_with [] | Some p \<Rightarrow> prompt p env) (\<lambda>text.
         let hint = (if text \<noteq> [] then text else hint);
             hint = (if hint = [] then ''code required'' else hint) in
         seq (enter StateAuthPending hint env)
           (seq (change startAuthTimer) (done_with (Some errAuthRequired)))))"

fun is_auth_required :: "error \<Rightarrow> bool" where
  "is_auth_required (ErrAuthRequired _ _) = True"
| "is_auth_required _ = False"

definition auth_hint :: "error \<Rightarrow> string option" where
  "auth_hint e = (case err_as is_auth_required e of Some (ErrAuthRequired _ h) \<Rightarrow> Some h | _ \<Rightarrow> None)"

text \<open>\<open>sess, err := client.Connect(...)\<close>: a login obtained is recorded.\<close>

definition obtain_login :: "nat option \<Rightarrow> Service \<Rightarrow> Service" where
  "obtain_login i s = (case i of None \<Rightarrow> s | Some n \<Rightarrow> s\<lparr>sv_opened := n # sv_opened s\<rparr>)"

definition trust_then_connect :: "bool \<Rightarrow> nat option \<Rightarrow> sv_env \<Rightarrow> error option act" where
  "trust_then_connect trust sess env =
     act_bind (if trust then ensureTrusted sess env else done_with None) (\<lambda>err.
       if err \<noteq> None then seq (change (attach sess)) (fail err env)
       else finishConnect sess env)"

definition start_login :: "bool \<Rightarrow> sv_env \<Rightarrow> error option act" where
  "start_login trust env =
     (case e_connect env of (sess, err) \<Rightarrow>
        seq (change (obtain_login sess))
          (case err of
             Some e \<Rightarrow>
               (case auth_hint e of
                  Some hint \<Rightarrow>
                    seq (change (\<lambda>s. s\<lparr>sv_pending := Some \<lparr>po_dev = False, po_trust = trust, po_all = False, po_sess = sess\<rparr>\<rparr>))
                      (awaitAuth hint env)
                | None \<Rightarrow> seq (change (attach sess)) (fail err env))
           | None \<Rightarrow> trust_then_connect trust sess env))"

text \<open>Common to \<open>start\<close> and \<open>devices\<close>: password, client, the state \<open>logging_in\<close>.\<close>

definition with_client :: "string \<Rightarrow> sv_env \<Rightarrow> error option act \<Rightarrow> error option act" where
  "with_client password env go =
     act_bind (applyPassword password) (\<lambda>pw.
       case pw of
         Inl e \<Rightarrow> fail (Some e) env
       | Inr _ \<Rightarrow>
           (case e_client env of
              Some e \<Rightarrow> fail (Some e) env
            | None \<Rightarrow> seq (enter StateLoggingIn ''logging in'' env) go))"

definition start_tunnel :: "bool \<Rightarrow> string \<Rightarrow> sv_env \<Rightarrow> error option act" where
  "start_tunnel trust password env =
     reading (\<lambda>s.
       if \<not> sv_wgEnabled s \<and> \<not> sv_socksEnabled s then done_with (Some ErrBadState)
       else case st_State (sv_status s) of
         StateAuthPending \<Rightarrow> seq (teardown ''login again'' env) (with_client password env (start_login trust env))
       | StateIdle \<Rightarrow> seq (teardown [] env) (with_client password env (start_login trust env))
       | StateError \<Rightarrow> seq (teardown [] env) (with_client password env (start_login trust env))
       | _ \<Rightarrow> done_with (Some ErrBadState))"

section \<open>Trusted devices\<close>

text \<open>\<open>own\<close>: the login exists for this operation only and is closed at its end, whatever happens.\<close>

definition device_result :: "bool \<Rightarrow> sv_env \<Rightarrow> error option act" where
  "device_result own env =
     (case e_device env of
        Inl e \<Rightarrow> fail (Some e) env
      | Inr detail \<Rightarrow>
          if \<not> own then seq (set_detail detail) (done_with None)
          else seq (enter StateIdle detail env) (done_with None))"

definition runDeviceOp :: "bool \<Rightarrow> nat option \<Rightarrow> sv_env \<Rightarrow> error option act" where
  "runDeviceOp own sess env s =
     (case device_result own env s of (r, s') \<Rightarrow> (r, if own then release sess s' else s'))"

definition devices_login :: "bool \<Rightarrow> bool \<Rightarrow> sv_env \<Rightarrow> error option act" where
  "devices_login trust all env =
     (case e_open env of (sess, err) \<Rightarrow>
        seq (change (obtain_login sess))
          (case err of
             Some e \<Rightarrow>
               (case auth_hint e of
                  Some hint \<Rightarrow>
                    seq (change (\<lambda>s. s\<lparr>sv_pending := Some \<lparr>po_dev = True, po_trust = trust, po_all = all, po_sess = sess\<rparr>\<rparr>))
                      (awaitAuth hint env)
                | None \<Rightarrow> seq (change (release sess)) (fail err env))
           | None \<Rightarrow> runDeviceOp True sess env))"

definition devices :: "bool \<Rightarrow> bool \<Rightarrow> string \<Rightarrow> sv_env \<Rightarrow> error option act" where
  "devices trust all password env =
     reading (\<lambda>s.
       case st_State (sv_status s) of
         StateUp \<Rightarrow> if sv_session s = None then panic else runDeviceOp False (sv_session s) env
       | StateAuthPending \<Rightarrow> seq (teardown ''login again'' env) (with_client password env (devices_login trust all env))
       | _ \<Rightarrow> with_client password env (devices_login trust all env))"

section \<open>Codes\<close>

definition auth :: "string \<Rightarrow> sv_env \<Rightarrow> error option act" where
  "auth code env =
     reading (\<lambda>s.
       case sv_pending s of
         None \<Rightarrow> done_with (Some ErrBadState)
       | Some p \<Rightarrow>
           if st_State (sv_status s) \<noteq> StateAuthPending then done_with (Some ErrBadState)
           else if code = [] then done_with (Some ErrEmptyCode)
           else if \<not> po_dev p \<and> po_sess p = None then panic
           else case e_auth env of
             Some e \<Rightarrow>
               (case auth_hint e of
                  Some hint \<Rightarrow> awaitAuth hint env
                | None \<Rightarrow>
                    if err_as is_rejected e \<noteq> None then seq (set_detail (e_text env e)) (done_with (Some e))
                    else fail (Some e) env)
           | None \<Rightarrow>
               seq (change (\<lambda>s. (stopAuthTimer s)\<lparr>sv_pending := None\<rparr>))
                 (if po_dev p then runDeviceOp True (po_sess p) env
                  else trust_then_connect (po_trust p) (po_sess p) env))"

definition authTimeout :: "u64 \<Rightarrow> sv_env \<Rightarrow> error option act" where
  "authTimeout q env =
     reading (\<lambda>s.
       if q \<noteq> sv_authSeq s then done_with None
       else if st_State (sv_status s) \<noteq> StateAuthPending then done_with None
       else seq (teardown [] env)
         (seq (on_status (setError ''code wait timed out'' (Some ContextDeadline) (e_now env))) (done_with None)))"

definition stop_tunnel :: "sv_env \<Rightarrow> error option act" where
  "stop_tunnel env =
     seq (change (\<lambda>s. s\<lparr>sv_stopPending := False\<rparr>))
       (reading (\<lambda>s.
          if st_State (sv_status s) = StateIdle then done_with (Some ErrNotRunning)
          else seq (teardown ''tunnel stopped'' env) (done_with None)))"

section \<open>Reports\<close>

definition tunnelDown :: "u64 \<Rightarrow> error option \<Rightarrow> sv_env \<Rightarrow> error option act" where
  "tunnelDown gen err env =
     reading (\<lambda>s.
       if gen \<noteq> sv_gen s then done_with None
       else if (case err of None \<Rightarrow> True | Some e \<Rightarrow> err_as is_gone e = None) \<and> es_Enabled (st_SOCKS5 (sv_status s)) then
         seq (change stopL3)
           (seq (endpoint_status True True err)
             (seq (on_status (setRetrying False))
               (seq (set_detail ''L3 stopped, SOCKS5 continues'') (done_with None))))
       else seq (teardown [] env)
         (seq (on_status (setError (''tunnel down'' @ (case err of None \<Rightarrow> [] | Some e \<Rightarrow> e_text env e)) err (e_now env)))
           (done_with None)))"

definition tunnelRetry :: "u64 \<Rightarrow> error option \<Rightarrow> sv_env \<Rightarrow> error option act" where
  "tunnelRetry gen err env =
     reading (\<lambda>s.
       if gen \<noteq> sv_gen s then done_with None
       else if st_State (sv_status s) \<noteq> StateUp then done_with None
       else seq (on_status (setLinkFailure ''reconnecting'' err)) (done_with None))"

definition tunnelRestored :: "u64 \<Rightarrow> sv_env \<Rightarrow> error option act" where
  "tunnelRestored gen env =
     reading (\<lambda>s.
       if gen \<noteq> sv_gen s then done_with None
       else if st_State (sv_status s) \<noteq> StateUp then done_with None
       else seq (on_status (setRetrying False)) (seq (set_detail ''link restored'') (done_with None)))"

definition sessionEnded :: "nat \<Rightarrow> error option \<Rightarrow> sv_env \<Rightarrow> error option act" where
  "sessionEnded sess err env = reading (\<lambda>s. if sv_session s = Some sess then fail err env else done_with None)"

definition socksDown :: "nat \<Rightarrow> nat \<Rightarrow> error option \<Rightarrow> sv_env \<Rightarrow> error option act" where
  "socksDown sess socks err env =
     reading (\<lambda>s.
       if sv_session s = Some sess \<and> sv_socks s = Some socks then
         seq (change stopSOCKS)
           (seq (endpoint_status False True err)
             (if \<not> es_Enabled (st_WireGuard (sv_status s)) then fail err env else done_with None))
       else done_with None)"

definition startEndpoint :: "string \<Rightarrow> sv_env \<Rightarrow> error option act" where
  "startEndpoint name env =
     reading (\<lambda>s.
       if sv_session s = None \<or> st_State (sv_status s) \<noteq> StateUp \<or> e_sessErr env \<noteq> None then done_with (Some ErrNotRunning)
       else act_bind
         (if name = ''wireguard'' then (if sv_wgEnabled s then startL3 env else done_with (Some ErrBadState))
          else if name = ''socks5'' then (if sv_socksEnabled s then startSOCKS env else done_with (Some ErrBadState))
          else done_with (Some ErrBadState))
         (\<lambda>err. if err = None then seq (set_detail ''endpoint started'') (done_with None) else done_with err))"

definition stopEndpoint :: "string \<Rightarrow> error option act" where
  "stopEndpoint name =
     (if name = ''wireguard'' then
        seq (change (\<lambda>s. (stopL3 s)\<lparr>sv_brSnapshot := False, sv_br := False\<rparr>))
          (seq (endpoint_status True False None)
            (seq (on_status (setRetrying False)) (seq (set_detail ''endpoint stopped'') (done_with None))))
      else if name = ''socks5'' then
        seq (change stopSOCKS)
          (seq (endpoint_status False False None) (seq (set_detail ''endpoint stopped'') (done_with None)))
      else done_with (Some ErrBadState))"

section \<open>Commands\<close>

datatype command =
    Start bool string | Devices bool bool string | Auth string | AuthTimeout u64 | Stop
  | TunnelDown u64 "error option" | TunnelRetry u64 "error option" | TunnelRestored u64
  | SessionEnded nat "error option" | SOCKSDown nat nat "error option"
  | EndpointStart string | EndpointStop string

fun run_command :: "command \<Rightarrow> sv_env \<Rightarrow> error option act" where
  "run_command (Start trust password) env = start_tunnel trust password env"
| "run_command (Devices trust all password) env = devices trust all password env"
| "run_command (Auth code) env = auth code env"
| "run_command (AuthTimeout q) env = authTimeout q env"
| "run_command Stop env = stop_tunnel env"
| "run_command (TunnelDown gen err) env = tunnelDown gen err env"
| "run_command (TunnelRetry gen err) env = tunnelRetry gen err env"
| "run_command (TunnelRestored gen) env = tunnelRestored gen env"
| "run_command (SessionEnded sess err) env = sessionEnded sess err env"
| "run_command (SOCKSDown sess socks err) env = socksDown sess socks err env"
| "run_command (EndpointStart name) env = startEndpoint name env"
| "run_command (EndpointStop name) env = stopEndpoint name"

fun is_report :: "command \<Rightarrow> bool" where
  "is_report (TunnelDown _ _) = True"
| "is_report (TunnelRetry _ _) = True"
| "is_report (TunnelRestored _) = True"
| "is_report (SessionEnded _ _) = True"
| "is_report (SOCKSDown _ _ _) = True"
| "is_report _ = False"

fun is_login :: "command \<Rightarrow> bool" where
  "is_login (Start _ _) = True"
| "is_login (Devices _ _ _) = True"
| "is_login (Auth _) = True"
| "is_login (EndpointStart _) = True"
| "is_login _ = False"

text \<open>The recovery from a panic.\<close>

definition recover :: "sv_env \<Rightarrow> error option act" where
  "recover env =
     seq (teardown [] env)
       (seq (on_status (setError ''internal error'' (Some errInternal) (e_now env))) (done_with (Some errInternal)))"

text \<open>\<open>late\<close> is \<open>parent.Err()\<close> when the command is taken. The result \<open>None\<close> would be a panic of the recovery
  itself.\<close>

definition dispatch :: "command \<Rightarrow> error option \<Rightarrow> sv_env \<Rightarrow> error option act" where
  "dispatch c late env s =
     (if late \<noteq> None then (Some late, s)
      else if \<not> is_report c \<and> sv_closing s then (Some (Some ErrShuttingDown), s)
      else if sv_stopPending s \<and> is_login c then (Some (Some ErrStopRequested), s)
      else case run_command c env s of
        (Some r, s') \<Rightarrow> (Some r, s')
      | (None, s') \<Rightarrow> recover env s')"

section \<open>The process\<close>

definition new_service :: "bool \<Rightarrow> bool \<Rightarrow> string \<Rightarrow> string \<Rightarrow> Identity \<Rightarrow> time \<Rightarrow> error option \<Rightarrow> (error + nat) \<Rightarrow> Service" where
  "new_service wg sk user pass i now wgErr sock =
     (let st = newStatusStore i now;
          st = set_endpoint True wg (if wg then wgErr else None) st;
          st = set_endpoint False sk (case sock of Inl e \<Rightarrow> if sk then Some e else None | _ \<Rightarrow> None) st;
          sx = (case sock of Inr n \<Rightarrow> if sk then Some n else None | _ \<Rightarrow> None)
      in \<lparr>sv_wgEnabled = wg, sv_socksEnabled = sk, sv_user = user, sv_pass = pass, sv_status = st,
          sv_br = (wg \<and> wgErr = None), sv_brSnapshot = (wg \<and> wgErr = None), sv_socks = sx, sv_socksSnapshot = sx,
          sv_socksTask = None, sv_session = None, sv_sessionSnapshot = None, sv_pending = None, sv_run = None,
          sv_attached = None, sv_rootWatch = False, sv_gen = 0, sv_authSeq = 0, sv_authTimer = None,
          sv_stopPending = False, sv_closing = False, sv_opened = [], sv_released = []\<rparr>)"

text \<open>\<open>Stop\<close> marks the request before it queues its command; \<open>Close\<close> ends the loop.\<close>

definition request_stop :: "Service \<Rightarrow> Service" where
  "request_stop s = s\<lparr>sv_stopPending := True\<rparr>"

definition request_close :: "Service \<Rightarrow> Service" where
  "request_close s = s\<lparr>sv_closing := True\<rparr>"

definition shut_down :: "sv_env \<Rightarrow> unit act" where
  "shut_down env =
     seq (teardown ''process exits'' env) (change (\<lambda>s. s\<lparr>sv_brSnapshot := False, sv_br := False\<rparr>))"

inductive service_step :: "Service \<Rightarrow> Service \<Rightarrow> bool" where
  command: "dispatch c late env s = (r, s') \<Longrightarrow> service_step s s'"
| stop: "service_step s (request_stop s)"
| close: "service_step s (request_close s)"
| loop_end: "sv_closing s \<Longrightarrow> shut_down env s = (r, s') \<Longrightarrow> service_step s s'"

end
