(* ===== verification/Ipc.thy ===== *)
theory Ipc
  imports Go_Strings Errors
begin

text \<open>
  \<open>internal/ipc/protocol.go\<close> and \<open>client.go\<close>: the line protocol between the command line and the service
  process, and the client's exchange. A line is a text of bytes; the connection is the bytes it
  delivers before its end. Error texts and wrappers are not modelled.
\<close>

datatype ipc_error =
    EmptyRequest | BadField | ErrLineTooLong | BadResponse | ErrInstanceMismatch | ErrEmptyEndpoint
  | BadBoolArg | BadSecret | IpcIO error

section \<open>Requests\<close>

record Request =
  rq_Command :: string
  rq_Args :: "string list"

abbreviation MaxLineBytes :: int where "MaxLineBytes \<equiv> 64 * 1024"

definition ParseRequest :: "string \<Rightarrow> ipc_error + Request" where
  "ParseRequest line =
     (case Fields (TrimSpace line) of
        [] \<Rightarrow> Inl EmptyRequest
      | c # args \<Rightarrow> Inr \<lparr>rq_Command = c, rq_Args = args\<rparr>)"

text \<open>A character below or equal to the space, or the delete character, is a byte of its own.\<close>

definition bad_part :: "string \<Rightarrow> bool" where
  "bad_part part \<longleftrightarrow> part = [] \<or> list_ex (\<lambda>c. code_in 0 0x20 c \<or> code_in 0x7F 0x7F c) part"

definition WriteRequest :: "Request \<Rightarrow> ipc_error + string" where
  "WriteRequest req =
     (let parts = rq_Command req # rq_Args req in
      if list_ex bad_part parts then Inl BadField
      else let line = join '' '' parts @ [CHR 0x0A] in
        if len line > MaxLineBytes then Inl ErrLineTooLong else Inr line)"

definition Arg :: "string list \<Rightarrow> int \<Rightarrow> string" where
  "Arg args i = (if i < 0 \<or> i \<ge> len args then [] else args ! nat i)"

definition BoolArg :: "string \<Rightarrow> string \<Rightarrow> ipc_error + bool" where
  "BoolArg arg name =
     (if arg = [] then Inr False
      else if \<not> prefix (name @ ''='') arg then Inl BadBoolArg
      else let v = drop (length name + 1) arg in
        if v = ''1'' then Inr True else if v = ''0'' then Inr False else Inl BadBoolArg)"

section \<open>Responses\<close>

record Response =
  rs_Code :: int
  rs_Message :: string

abbreviation CodeOK :: int where "CodeOK \<equiv> 200"
abbreviation CodeBadRequest :: int where "CodeBadRequest \<equiv> 400"
abbreviation CodeRejected :: int where "CodeRejected \<equiv> 409"
abbreviation CodeAuthRequired :: int where "CodeAuthRequired \<equiv> 428"
abbreviation CodeServerError :: int where "CodeServerError \<equiv> 500"

definition sanitize :: "string \<Rightarrow> string" where
  "sanitize s = map (\<lambda>c. if c = CHR 0x0D \<or> c = CHR 0x0A then CHR '' '' else c) s"

text \<open>The text of an overlong response, in UTF-8.\<close>

definition too_long_text :: string where
  "too_long_text = concat (map utf8_enc [0x54CD, 0x5E94, 0x8D85, 0x8FC7, 0x957F, 0x5EA6, 0x4E0A, 0x9650])"

definition FormatResponse :: "Response \<Rightarrow> string" where
  "FormatResponse r =
     (let code = int_str (rs_Code r) in
      if len code + len (rs_Message r) + 2 > MaxLineBytes
      then int_str CodeServerError @ '' '' @ too_long_text @ [CHR 0x0A]
      else code @ '' '' @ sanitize (rs_Message r) @ [CHR 0x0A])"

definition trim_newlines :: "string \<Rightarrow> string" where
  "trim_newlines s = rev (dropWhile (\<lambda>c. c = CHR 0x0D \<or> c = CHR 0x0A) (rev s))"

definition ParseResponse :: "string \<Rightarrow> ipc_error + Response" where
  "ParseResponse line =
     (let line = trim_newlines line; code = takeWhile (\<lambda>c. c \<noteq> CHR '' '') line in
      if CHR '' '' \<notin> set line then Inl BadResponse
      else if length code < 3 \<or> length code > 4 then Inl BadResponse
      else case Atoi code of
        None \<Rightarrow> Inl BadResponse
      | Some n \<Rightarrow> Inr \<lparr>rs_Code = n, rs_Message = drop (length code + 1) line\<rparr>)"

section \<open>Reading a line\<close>

text \<open>\<open>bufio.Reader\<close> with its default buffer: a slice ends at a newline, at the size of the buffer, or at the
  end of the connection.\<close>

abbreviation bufferSize :: nat where "bufferSize \<equiv> 4096"

datatype slice_end = Slice_line | Slice_full | Slice_eof

definition ReadSlice :: "string \<Rightarrow> string \<times> string \<times> slice_end" where
  "ReadSlice s =
     (let l = takeWhile (\<lambda>c. c \<noteq> CHR 0x0A) s in
      if length l < bufferSize \<and> l \<noteq> s then (l @ [CHR 0x0A], drop (length l + 1) s, Slice_line)
      else if length s \<ge> bufferSize then (take bufferSize s, drop bufferSize s, Slice_full)
      else (s, [], Slice_eof))"

function readLine_loop :: "int \<Rightarrow> string \<Rightarrow> string \<Rightarrow> ipc_error + string \<times> string" where
  "readLine_loop limit acc s =
     (case ReadSlice s of (chunk, rest, e) \<Rightarrow>
        if len acc + len chunk > limit then Inl ErrLineTooLong
        else case e of
          Slice_line \<Rightarrow> Inr (acc @ chunk, rest)
        | Slice_full \<Rightarrow> readLine_loop limit (acc @ chunk) rest
        | Slice_eof \<Rightarrow> Inl (IpcIO (IOError EOF)))"
  by pat_completeness auto
termination
  by (relation "measure (\<lambda>(_, _, s). length s)") (auto simp: ReadSlice_def Let_def split: if_splits)

declare readLine_loop.simps [simp del]

definition readLine :: "int \<Rightarrow> string \<Rightarrow> ipc_error + string \<times> string" where
  "readLine limit s = readLine_loop limit [] s"

definition ReadRequest :: "string \<Rightarrow> ipc_error + Request \<times> string" where
  "ReadRequest s =
     (case readLine MaxLineBytes s of
        Inl e \<Rightarrow> Inl e
      | Inr (line, rest) \<Rightarrow> (case ParseRequest line of Inl e \<Rightarrow> Inl e | Inr req \<Rightarrow> Inr (req, rest)))"

definition ReadResponse :: "string \<Rightarrow> ipc_error + Response \<times> string" where
  "ReadResponse s =
     (case readLine MaxLineBytes s of
        Inl e \<Rightarrow> Inl e
      | Inr (line, rest) \<Rightarrow> (case ParseResponse line of Inl e \<Rightarrow> Inl e | Inr r \<Rightarrow> Inr (r, rest)))"

section \<open>Secrets\<close>

text \<open>Standard base64 with padding; \<open>sextet\<close> and its inverse go through the alphabet.\<close>

definition base64_chars :: string where
  "base64_chars = ''ABCDEFGHIJKLMNOPQRSTUVWXYZabcdefghijklmnopqrstuvwxyz0123456789+/''"

definition sextet_char :: "int \<Rightarrow> char" where
  "sextet_char n = base64_chars ! nat n"

definition char_sextet :: "char \<Rightarrow> int option" where
  "char_sextet c =
     (if code_in 0x41 0x5A c then Some (of_char c - 0x41)
      else if code_in 0x61 0x7A c then Some (of_char c - 0x61 + 26)
      else if code_in 0x30 0x39 c then Some (of_char c - 0x30 + 52)
      else if c = CHR ''+'' then Some 62 else if c = CHR ''/'' then Some 63 else None)"

abbreviation code :: "char \<Rightarrow> int" where "code c \<equiv> of_char c"

fun base64_encode :: "string \<Rightarrow> string" where
  "base64_encode [] = []"
| "base64_encode [a] = [sextet_char (code a div 4), sextet_char (code a mod 4 * 16), CHR ''='', CHR ''='']"
| "base64_encode [a, b] =
     [sextet_char (code a div 4), sextet_char (code a mod 4 * 16 + code b div 16), sextet_char (code b mod 16 * 4), CHR ''='']"
| "base64_encode (a # b # c # r) =
     [sextet_char (code a div 4), sextet_char (code a mod 4 * 16 + code b div 16),
      sextet_char (code b mod 16 * 4 + code c div 64), sextet_char (code c mod 64)] @ base64_encode r"

text \<open>Decoding skips newlines, takes four characters at a time, and accepts padding only at the end.\<close>

fun base64_quads :: "string \<Rightarrow> string option" where
  "base64_quads [] = Some []"
| "base64_quads (a # b # c # d # r) =
     (case (char_sextet a, char_sextet b) of
        (Some x, Some y) \<Rightarrow>
          let o1 = chr (x * 4 + y div 16) in
          if c = CHR ''='' then (if d = CHR ''='' \<and> r = [] then Some [o1] else None)
          else (case char_sextet c of
                  None \<Rightarrow> None
                | Some z \<Rightarrow>
                    let o2 = chr (y mod 16 * 16 + z div 4) in
                    if d = CHR ''='' then (if r = [] then Some [o1, o2] else None)
                    else (case (char_sextet d, base64_quads r) of
                            (Some w, Some rest) \<Rightarrow> Some (o1 # o2 # chr (z mod 4 * 64 + w) # rest)
                          | _ \<Rightarrow> None))
      | _ \<Rightarrow> None)"
| "base64_quads _ = None"

definition EncodeSecret :: "string \<Rightarrow> string" where
  "EncodeSecret s = base64_encode s"

definition DecodeSecret :: "string \<Rightarrow> ipc_error + string" where
  "DecodeSecret s =
     (case base64_quads (filter (\<lambda>c. c \<noteq> CHR 0x0D \<and> c \<noteq> CHR 0x0A) s) of None \<Rightarrow> Inl BadSecret | Some r \<Rightarrow> Inr r)"

section \<open>The client\<close>

record Client =
  cl_identity :: string
  cl_endpoint :: string

definition identity_json :: "string \<Rightarrow> string" where
  "identity_json path = print_json (JObj [(''config'', JStr path)])"

definition dec_identity :: "string \<Rightarrow> string decoder" where
  "dec_identity k v path = (if is_field ''config'' k then dec_string v path else (path, False))"

definition reported_identity :: "string \<Rightarrow> string option" where
  "reported_identity msg = unmarshal (dec_struct dec_identity) [] msg"

text \<open>What a call meets: the context before the dial and when it returns, the dial, the deadline, the writes,
  and the bytes the peer sends.\<close>

record call_env =
  ve_ctx :: "error option"
  ve_dial :: "error option"
  ve_deadline :: "error option"
  ve_write :: "nat \<Rightarrow> error option"
  ve_input :: string
  ve_expired :: "error option"

text \<open>One exchange: its result with the rest of the input, and the line it sent.\<close>

definition exchange :: "Request \<Rightarrow> error option \<Rightarrow> string \<Rightarrow> (ipc_error + Response \<times> string) \<times> string list" where
  "exchange req werr input =
     (case WriteRequest req of
        Inl e \<Rightarrow> (Inl e, [])
      | Inr line \<Rightarrow>
          (case werr of
             Some e \<Rightarrow> (Inl (IpcIO e), [])
           | None \<Rightarrow> (ReadResponse input, [line])))"

definition pingRequest :: Request where
  "pingRequest = \<lparr>rq_Command = ''ping'', rq_Args = []\<rparr>"

definition call_conn :: "Client \<Rightarrow> Request \<Rightarrow> call_env \<Rightarrow> (ipc_error + Response) \<times> string list" where
  "call_conn c req env =
     (case exchange pingRequest (ve_write env 0) (ve_input env) of
        (Inl e, sent) \<Rightarrow> (Inl e, sent)
      | (Inr (identity, rest), sent) \<Rightarrow>
          if rs_Code identity \<noteq> CodeOK \<or> reported_identity (rs_Message identity) \<noteq> Some (cl_identity c)
          then (Inl ErrInstanceMismatch, sent)
          else if rq_Command req = ''ping'' \<and> rq_Args req = [] then (Inr identity, sent)
          else (case exchange req (ve_write env 1) rest of
                  (Inl e, sent2) \<Rightarrow> (Inl e, sent @ sent2)
                | (Inr (r, _), sent2) \<Rightarrow> (Inr r, sent @ sent2)))"

definition CallContext :: "Client \<Rightarrow> Request \<Rightarrow> call_env \<Rightarrow> (ipc_error + Response) \<times> string list" where
  "CallContext c req env =
     (if cl_endpoint c = [] \<or> cl_identity c = [] then (Inl ErrEmptyEndpoint, [])
      else case ve_ctx env of
        Some e \<Rightarrow> (Inl (IpcIO e), [])
      | None \<Rightarrow>
          (case ve_dial env of
             Some e \<Rightarrow> (Inl (IpcIO e), [])
           | None \<Rightarrow>
               (case (case ve_deadline env of Some e \<Rightarrow> (Inl (IpcIO e), []) | None \<Rightarrow> call_conn c req env) of
                  (Inl err, sent) \<Rightarrow> (Inl (case ve_expired env of Some e \<Rightarrow> IpcIO e | None \<Rightarrow> err), sent)
                | (Inr r, sent) \<Rightarrow> (Inr r, sent))))"

end
