(* ===== verification/Server.thy ===== *)
theory Server
  imports Service Ipc Ipc_Resources
begin

text \<open>
  \<open>internal/service/server.go\<close>: the IPC side of the service process, and the parts of \<open>service.go\<close> it reads:
  \<open>Status\<close>, \<open>ResourcesJSON\<close> and \<open>call\<close>. A request becomes at most one command of the actor; what the actor
  meets while it runs, and whether the command is answered at all, are parameters. The display texts
  of the answers are ASCII keys, the two renderings of the status are parameters.
\<close>

section \<open>Status\<close>

text \<open>What the live objects report at the moment of the query: the SOCKS5 listener, the connection of the tunnel, the
  assigned address, \<open>sess.Err()\<close>, the configured peer, and the view of the session's resources.\<close>

record live =
  lv_socksListening :: bool
  lv_connected :: bool
  lv_clientIP :: "string option"
  lv_sessErr :: "error option"
  lv_peer :: string
  lv_view :: "error + ResourceView"

record StatusView =
  vw_stored :: Status
  vw_wgListening :: bool
  vw_socksListening :: bool
  vw_SessionReady :: bool
  vw_Tunnel :: "bool option"
  vw_PeerIP :: string
  vw_ClientIP :: string
  vw_Ready :: bool

definition status_ready :: "StatusView \<Rightarrow> bool" where
  "status_ready v =
     (let wg = st_WireGuard (vw_stored v); sk = st_SOCKS5 (vw_stored v) in
      vw_SessionReady v \<and> (es_Enabled wg \<or> es_Enabled sk) \<and>
      (\<not> es_Enabled wg \<or> vw_wgListening v \<and> vw_Tunnel v = Some True \<and> \<not> st_Retrying (vw_stored v)) \<and>
      (\<not> es_Enabled sk \<or> vw_socksListening v \<and> es_Failure sk = []))"

definition svc_status :: "live \<Rightarrow> Service \<Rightarrow> StatusView" where
  "svc_status lv s =
     (let st = sv_status s;
          ready = (sv_sessionSnapshot s \<noteq> None \<and> lv_sessErr lv = None \<and> st_State st = StateUp \<and> \<not> sv_closing s);
          tunnel = (if ready \<and> es_Enabled (st_WireGuard st) then Some (lv_connected lv) else None);
          v = \<lparr>vw_stored = st, vw_wgListening = sv_brSnapshot s,
               vw_socksListening = (sv_socksSnapshot s \<noteq> None \<and> lv_socksListening lv), vw_SessionReady = ready,
               vw_Tunnel = tunnel,
               vw_PeerIP = (if tunnel = Some True then lv_peer lv else []),
               vw_ClientIP = (if tunnel = Some True then (case lv_clientIP lv of Some ip \<Rightarrow> ip | None \<Rightarrow> []) else []),
               vw_Ready = False\<rparr>
      in v\<lparr>vw_Ready := status_ready v\<rparr>)"

fun state_name :: "State \<Rightarrow> string" where
  "state_name StateIdle = ''idle''"
| "state_name StateLoggingIn = ''logging_in''"
| "state_name StateAuthPending = ''auth_pending''"
| "state_name StateUp = ''up''"
| "state_name StateError = ''error''"

datatype resources_error = Unavailable | Too_large

definition ResourcesJSON :: "live \<Rightarrow> Service \<Rightarrow> int \<Rightarrow> resources_error + string" where
  "ResourcesJSON lv s limit =
     (if sv_sessionSnapshot s = None then Inl Unavailable
      else case lv_view lv of
        Inl _ \<Rightarrow> Inl Unavailable
      | Inr v \<Rightarrow> (case EncodeResources (resources_of_view v) limit of None \<Rightarrow> Inl Too_large | Some body \<Rightarrow> Inr body))"

section \<open>Calls of the actor\<close>

text \<open>How a call ends. The actor takes the command and its answer is received; or the queue is full; or the caller
  leaves first, because the process closes or its time is over. A caller that leaves does not stop the actor:
  the command may never be taken (\<open>None\<close>), or be taken with \<open>parent.Err()\<close> as given, and then the service has
  become what the actor made of it, though nobody reads the answer.\<close>

datatype call_fate = Answered | Queue_full | Gave_up bool "error option option"

definition svc_call :: "command \<Rightarrow> call_fate \<Rightarrow> sv_env \<Rightarrow> Service \<Rightarrow> error option \<times> Service" where
  "svc_call c fate env s =
     (let s = (if c = Stop then request_stop s else s) in
      case fate of
        Gave_up closing taken \<Rightarrow>
          (Some (if closing then ErrShuttingDown else ContextDeadline),
           case taken of None \<Rightarrow> s | Some late \<Rightarrow> snd (dispatch c late env s))
      | Queue_full \<Rightarrow> (Some (if c = Stop then ContextDeadline else ErrBadState), s)
      | Answered \<Rightarrow>
          (case dispatch c None env s of
             (Some r, s') \<Rightarrow> (r, s')
           | (None, s') \<Rightarrow> (Some errInternal, s')))"

section \<open>Requests\<close>

record server_texts =
  tx_line :: "StatusView \<Rightarrow> string"
  tx_json :: "StatusView \<Rightarrow> string"
  tx_error :: "error \<Rightarrow> string"
  tx_ipc :: "ipc_error \<Rightarrow> string"

definition response :: "int \<Rightarrow> string \<Rightarrow> Response" where
  "response n msg = \<lparr>rs_Code = n, rs_Message = msg\<rparr>"

definition detailOr :: "string \<Rightarrow> string \<Rightarrow> string" where
  "detailOr fallback detail = (if detail = [] then fallback else detail)"

definition errorResponse :: "server_texts \<Rightarrow> string \<Rightarrow> error \<Rightarrow> Response" where
  "errorResponse tx detail err =
     (if err_is err errAuthRequired then response CodeAuthRequired detail
      else if err_is err ErrEmptyCode then response CodeBadRequest (tx_error tx err)
      else if err_is err ErrMissingCredential then response CodeBadRequest (tx_error tx err)
      else if err_is err ErrBadState \<or> err_is err ErrNotRunning \<or> err_is err ErrStopRequested \<or> err_is err ErrShuttingDown
      then response CodeRejected (tx_error tx err)
      else if err_as is_rejected err \<noteq> None then response CodeBadRequest (tx_error tx err)
      else response CodeServerError (tx_error tx err))"

definition passwordArg :: "string list \<Rightarrow> int \<Rightarrow> ipc_error + string" where
  "passwordArg args i = (let a = Arg args i in if a = [] then Inr [] else DecodeSecret a)"

definition status_json_arg :: "string list \<Rightarrow> bool option" where
  "status_json_arg args = (if args = [] then Some False else if args = [''json''] then Some True else None)"

text \<open>The answer to a command of the actor.\<close>

definition call_response :: "server_texts \<Rightarrow> (string \<Rightarrow> string) \<Rightarrow> error option \<times> Service \<Rightarrow> Response \<times> Service" where
  "call_response tx ok r =
     (case r of
        (None, s') \<Rightarrow> (response CodeOK (ok (st_Detail (sv_status s'))), s')
      | (Some e, s') \<Rightarrow> (errorResponse tx (st_Detail (sv_status s')) e, s'))"

definition bad_request :: "server_texts \<Rightarrow> ipc_error \<Rightarrow> Service \<Rightarrow> Response \<times> Service" where
  "bad_request tx e s = (response CodeBadRequest (tx_ipc tx e), s)"

definition start_request :: "server_texts \<Rightarrow> string list \<Rightarrow> call_fate \<Rightarrow> sv_env \<Rightarrow> Service \<Rightarrow> Response \<times> Service" where
  "start_request tx args fate env s =
     (case BoolArg (Arg args 0) ''trust'' of
        Inl e \<Rightarrow> bad_request tx e s
      | Inr trust \<Rightarrow>
          (case passwordArg args 1 of
             Inl e \<Rightarrow> bad_request tx e s
           | Inr password \<Rightarrow>
               if st_State (sv_status s) = StateUp then
                 (if trust then call_response tx (\<lambda>d. ''already running, '' @ d) (svc_call (Devices True False []) fate env s)
                  else (response CodeOK ''already running'', s))
               else call_response tx (detailOr ''started'') (svc_call (Start trust password) fate env s)))"

definition stop_request :: "server_texts \<Rightarrow> call_fate \<Rightarrow> sv_env \<Rightarrow> Service \<Rightarrow> Response \<times> Service" where
  "stop_request tx fate env s =
     (case svc_call Stop fate env s of
        (Some e, s') \<Rightarrow>
          if err_is e ErrNotRunning then (response CodeOK ''was not running'', s')
          else (errorResponse tx (st_Detail (sv_status s')) e, s')
      | r \<Rightarrow> call_response tx (detailOr ''stopped'') r)"

definition endpoint_request :: "server_texts \<Rightarrow> (string \<Rightarrow> command) \<Rightarrow> string list \<Rightarrow> call_fate \<Rightarrow> sv_env \<Rightarrow> Service \<Rightarrow> Response \<times> Service" where
  "endpoint_request tx c args fate env s =
     (if args = [''wireguard''] \<or> args = [''socks5''] then call_response tx id (svc_call (c (hd args)) fate env s)
      else (response CodeBadRequest ''no such endpoint'', s))"

definition untrust_request :: "server_texts \<Rightarrow> string list \<Rightarrow> call_fate \<Rightarrow> sv_env \<Rightarrow> Service \<Rightarrow> Response \<times> Service" where
  "untrust_request tx args fate env s =
     (case BoolArg (Arg args 0) ''all'' of
        Inl e \<Rightarrow> bad_request tx e s
      | Inr all \<Rightarrow>
          (case passwordArg args 1 of
             Inl e \<Rightarrow> bad_request tx e s
           | Inr password \<Rightarrow> call_response tx (detailOr ''untrusted'') (svc_call (Devices False all password) fate env s)))"

definition trust_request :: "server_texts \<Rightarrow> string list \<Rightarrow> call_fate \<Rightarrow> sv_env \<Rightarrow> Service \<Rightarrow> Response \<times> Service" where
  "trust_request tx args fate env s =
     (case passwordArg args 0 of
        Inl e \<Rightarrow> bad_request tx e s
      | Inr password \<Rightarrow> call_response tx (detailOr ''trusted'') (svc_call (Devices True False password) fate env s))"

definition status_request :: "server_texts \<Rightarrow> live \<Rightarrow> string list \<Rightarrow> Service \<Rightarrow> Response" where
  "status_request tx lv args s =
     (case status_json_arg args of
        None \<Rightarrow> response CodeBadRequest ''status takes json once''
      | Some json \<Rightarrow>
          let v = svc_status lv s in
          response (if vw_Ready v then CodeOK else CodeRejected) (if json then tx_json tx v else tx_line tx v))"

definition resources_request :: "live \<Rightarrow> string list \<Rightarrow> Service \<Rightarrow> Response" where
  "resources_request lv args s =
     (if args \<noteq> [] then response CodeBadRequest ''resources takes no argument''
      else case ResourcesJSON lv s (MaxLineBytes - len ''200 '' - 1) of
        Inl Too_large \<Rightarrow> response CodeServerError ''resources too large''
      | Inl Unavailable \<Rightarrow> response CodeRejected ''resources unavailable''
      | Inr body \<Rightarrow> response CodeOK body)"

text \<open>One request. The second result says whether the process is asked to end. \<open>path\<close> is the configuration the
  server was created for.\<close>

definition server_dispatch ::
  "server_texts \<Rightarrow> string \<Rightarrow> live \<Rightarrow> Request \<Rightarrow> call_fate \<Rightarrow> sv_env \<Rightarrow> Service \<Rightarrow> (Response \<times> Service) \<times> bool" where
  "server_dispatch tx path lv req fate env s =
     (let c = rq_Command req; args = rq_Args req in
      if c = ''shutdown'' then ((response CodeOK ''exiting'', s), True)
      else (
        if c = ''ping'' then
          (if args \<noteq> [] then response CodeBadRequest ''ping takes no argument'' else response CodeOK (identity_json path), s)
        else if c = ''state'' then (response CodeOK (state_name (st_State (sv_status s))), s)
        else if c = ''status'' then (status_request tx lv args s, s)
        else if c = ''resources'' then (resources_request lv args s, s)
        else if c = ''start'' then start_request tx args fate env s
        else if c = ''endpoint-start'' then endpoint_request tx EndpointStart args fate env s
        else if c = ''endpoint-stop'' then endpoint_request tx EndpointStop args fate env s
        else if c = ''auth'' then call_response tx (detailOr ''verified'') (svc_call (Auth (TrimSpace (concat args))) fate env s)
        else if c = ''trust'' then trust_request tx args fate env s
        else if c = ''untrust'' then untrust_request tx args fate env s
        else if c = ''stop'' then stop_request tx fate env s
        else (response CodeBadRequest ''unknown command'', s), False))"

section \<open>A connection\<close>

text \<open>The loop of \<open>handle\<close> on the bytes a client sends before it closes: \<open>closing k\<close> is whether the server is
  closing before request \<open>k\<close>, \<open>werr k\<close> how the write of response \<open>k\<close> ends. The result is the lines written.\<close>

definition malformed_response :: "ipc_error \<Rightarrow> Response" where
  "malformed_response e = response CodeBadRequest (if e = ErrLineTooLong then ''request too long'' else ''malformed request'')"

lemma ReadSlice_decreases:
  assumes "ReadSlice s = (chunk, rest, e)" "e \<noteq> Slice_eof"
  shows "length rest < length s"
proof (cases s)
  case Nil
  then show ?thesis using assms by (simp add: ReadSlice_def Let_def)
next
  case (Cons x xs)
  then have "0 < length s" by simp
  then show ?thesis using assms unfolding ReadSlice_def Let_def
    by (cases "length (takeWhile (\<lambda>c. c \<noteq> CHR 0x0A) s) < bufferSize \<and> takeWhile (\<lambda>c. c \<noteq> CHR 0x0A) s \<noteq> s";
        cases "length s \<ge> bufferSize") auto
qed

lemma readLine_loop_decreases: "readLine_loop limit acc s = Inr (line, rest) \<Longrightarrow> length rest < length s"
proof (induction limit acc s rule: readLine_loop.induct)
  case (1 limit acc s)
  obtain chunk tl e where r: "ReadSlice s = (chunk, tl, e)" by (cases "ReadSlice s")
  show ?case
  proof (cases e)
    case Slice_full
    then have "length rest < length tl"
      using 1 r by (simp add: readLine_loop.simps [of limit acc s] split: if_splits)
    then show ?thesis using ReadSlice_decreases [OF r] Slice_full by simp
  qed (use 1(2) r ReadSlice_decreases [OF r] in \<open>simp_all add: readLine_loop.simps [of limit acc s] split: if_splits\<close>)
qed

lemma ReadRequest_decreases: "ReadRequest s = Inr (req, rest) \<Longrightarrow> length rest < length s"
  using readLine_loop_decreases by (auto simp: ReadRequest_def readLine_def split: sum.splits prod.splits)

function serve ::
  "(Request \<Rightarrow> 's \<Rightarrow> Response \<times> 's) \<Rightarrow> (nat \<Rightarrow> bool) \<Rightarrow> (nat \<Rightarrow> error option) \<Rightarrow> nat \<Rightarrow> string \<Rightarrow> 's \<Rightarrow> string list \<times> 's" where
  "serve reply closing werr k input s =
     (if closing k then ([], s)
      else case ReadRequest input of
        Inl e \<Rightarrow>
          (if e = IpcIO (IOError EOF) \<or> werr k \<noteq> None then [] else [FormatResponse (malformed_response e)], s)
      | Inr (req, rest) \<Rightarrow>
          (case reply req s of (resp, s') \<Rightarrow>
             if werr k \<noteq> None then ([], s')
             else (case serve reply closing werr (k + 1) rest s' of (out, s'') \<Rightarrow> (FormatResponse resp # out, s''))))"
  by pat_completeness auto
termination
  by (relation "measure (\<lambda>(_, _, _, _, input, _). length input)") (auto dest: ReadRequest_decreases)

declare serve.simps [simp del]

section \<open>Connections and the resource slot\<close>

text \<open>\<open>Serve\<close> and \<open>reply\<close>: at most \<open>maxConnections\<close> handlers run, and one of them may be encoding or sending the
  resource listing. A connection is a number; its phase is whether its request holds the slot.\<close>

abbreviation maxIpcConnections :: nat where "maxIpcConnections \<equiv> 64"

datatype conn_phase = Reading | Replying | Replying_resources

record IpcServer =
  srv_connections :: "(nat \<times> conn_phase) list"
  srv_closing :: bool
  srv_resourceReply :: bool
  srv_quit :: bool

definition NewServer :: IpcServer where
  "NewServer = \<lparr>srv_connections = [], srv_closing = False, srv_resourceReply = False, srv_quit = False\<rparr>"

text \<open>\<open>Accept\<close> returned the connection \<open>c\<close>: it is closed at once, or a handler starts.\<close>

definition serve_accept :: "nat \<Rightarrow> IpcServer \<Rightarrow> IpcServer" where
  "serve_accept c srv =
     (if srv_closing srv \<or> length (srv_connections srv) \<ge> maxIpcConnections then srv
      else srv\<lparr>srv_connections := (c, Reading) # srv_connections srv\<rparr>)"

definition is_resources :: "Request \<Rightarrow> bool" where
  "is_resources req = (rq_Command req = ''resources'' \<and> rq_Args req = [])"

text \<open>The second result: the request is answered with a refusal, as the slot is taken.\<close>

definition begin_reply :: "nat \<Rightarrow> Request \<Rightarrow> IpcServer \<Rightarrow> IpcServer \<times> bool" where
  "begin_reply c req srv =
     (if map_of (srv_connections srv) c \<noteq> Some Reading then (srv, False)
      else if is_resources req then
        (if srv_resourceReply srv then (srv\<lparr>srv_connections := AList.update c Replying (srv_connections srv)\<rparr>, True)
         else (srv\<lparr>srv_connections := AList.update c Replying_resources (srv_connections srv), srv_resourceReply := True\<rparr>, False))
      else (srv\<lparr>srv_connections := AList.update c Replying (srv_connections srv)\<rparr>, False))"

definition end_reply :: "nat \<Rightarrow> IpcServer \<Rightarrow> IpcServer" where
  "end_reply c srv =
     (case map_of (srv_connections srv) c of
        Some Replying \<Rightarrow> srv\<lparr>srv_connections := AList.update c Reading (srv_connections srv)\<rparr>
      | Some Replying_resources \<Rightarrow>
          srv\<lparr>srv_connections := AList.update c Reading (srv_connections srv), srv_resourceReply := False\<rparr>
      | _ \<Rightarrow> srv)"

text \<open>\<open>reply\<close> for a request of connection \<open>c\<close>, up to the line it writes: a listing that finds the slot taken is refused, any
  other request is dispatched; the deferred function gives the slot back.\<close>

definition server_reply ::
  "nat \<Rightarrow> server_texts \<Rightarrow> string \<Rightarrow> live \<Rightarrow> call_fate \<Rightarrow> sv_env \<Rightarrow> Request \<Rightarrow> Service \<times> IpcServer \<Rightarrow>
     Response \<times> Service \<times> IpcServer" where
  "server_reply c tx path lv fate env req st =
     (case begin_reply c req (snd st) of
        (srv, True) \<Rightarrow> (response CodeRejected ''resources in progress'', fst st, end_reply c srv)
      | (srv, False) \<Rightarrow>
          (case server_dispatch tx path lv req fate env (fst st) of
             ((resp, s), quit) \<Rightarrow> (resp, s, end_reply c (if quit then srv\<lparr>srv_quit := True\<rparr> else srv))))"

text \<open>The handler of \<open>c\<close> returns; the deferred functions of a reply have run before.\<close>

definition conn_done :: "nat \<Rightarrow> IpcServer \<Rightarrow> IpcServer" where
  "conn_done c srv = (let srv = end_reply c srv in srv\<lparr>srv_connections := AList.delete c (srv_connections srv)\<rparr>)"

definition requestShutdown :: "IpcServer \<Rightarrow> IpcServer" where
  "requestShutdown srv = srv\<lparr>srv_quit := True\<rparr>"

definition Shutdown :: "IpcServer \<Rightarrow> IpcServer" where
  "Shutdown srv = srv\<lparr>srv_closing := True\<rparr>"

inductive server_step :: "IpcServer \<Rightarrow> IpcServer \<Rightarrow> bool" where
  accept: "c \<notin> fst ` set (srv_connections srv) \<Longrightarrow> server_step srv (serve_accept c srv)"
| request: "server_step srv (fst (begin_reply c req srv))"
| reply: "server_step srv (end_reply c srv)"
| finish: "server_step srv (conn_done c srv)"
| quit: "server_step srv (requestShutdown srv)"
| shutdown: "server_step srv (Shutdown srv)"

end
