(* ===== verification/Service_Props.thy ===== *)
theory Service_Props
  imports Service
begin

text \<open>
  The service actor: a calculus of weakest preconditions for its handlers (with a second postcondition for a
  panic), the invariant that holds between commands, and what follows from it about logins and the
  stop request.
\<close>

section \<open>Weakest preconditions\<close>

definition wp :: "'a act \<Rightarrow> ('a \<Rightarrow> Service \<Rightarrow> bool) \<Rightarrow> (Service \<Rightarrow> bool) \<Rightarrow> Service \<Rightarrow> bool" where
  "wp m Q R s = (case m s of (None, s') \<Rightarrow> R s' | (Some x, s') \<Rightarrow> Q x s')"

named_theorems wp_rules

lemma wp_done [wp_rules]: "wp (done_with x) Q R = Q x"
  by (rule ext) (simp add: wp_def done_with_def)

lemma wp_panic [wp_rules]: "wp panic Q R s = R s"
  by (simp add: wp_def panic_def)

lemma wp_bind [wp_rules]: "wp (act_bind m f) Q R s = wp m (\<lambda>x. wp (f x) Q R) R s"
  by (simp add: wp_def act_bind_def split: prod.splits option.splits)

lemma wp_seq [wp_rules]: "wp (seq m n) Q R s = wp m (\<lambda>_. wp n Q R) R s"
  by (simp add: seq_def wp_bind)

lemma wp_change [wp_rules]: "wp (change f) Q R s = Q () (f s)"
  by (simp add: wp_def change_def)

lemma wp_reading [wp_rules]: "wp (reading f) Q R s = wp (f s) Q R s"
  by (simp add: wp_def reading_def)

lemma wp_if [wp_rules]: "wp (if b then m else n) Q R s = (if b then wp m Q R s else wp n Q R s)"
  by simp

lemma wp_mono:
  assumes "wp m Q R s" "\<And>x s'. Q x s' \<Longrightarrow> Q' x s'" "\<And>s'. R s' \<Longrightarrow> R' s'"
  shows "wp m Q' R' s"
  using assms by (auto simp: wp_def split: prod.splits option.splits)

lemma wp_on_status [wp_rules]:
  "wp (on_status g) Q R s = (case g (sv_status s) of None \<Rightarrow> R s | Some st \<Rightarrow> Q () (s\<lparr>sv_status := st\<rparr>))"
  by (simp add: wp_def on_status_def split: option.splits)

lemma wp_enter [wp_rules]:
  "wp (enter st d env) Q R s =
     (if validTransition (st_State (sv_status s)) st
      then Q () (s\<lparr>sv_status := applyLocked st d (e_now env) (sv_status s)\<rparr>) else R s)"
  by (simp add: enter_def wp_on_status set_state_def)

lemma wp_set_detail [wp_rules]: "wp (set_detail d) Q R s = Q () (s\<lparr>sv_status := setDetail d (sv_status s)\<rparr>)"
  by (simp add: set_detail_def wp_on_status)

lemma wp_endpoint_status [wp_rules]:
  "wp (endpoint_status w b err) Q R s = Q () (s\<lparr>sv_status := set_endpoint w b err (sv_status s)\<rparr>)"
  by (simp add: endpoint_status_def wp_on_status)

lemma wp_deferring [wp_rules]:
  "wp (deferring (endpoint_status w b) m) Q R s =
     wp m (\<lambda>err s'. Q err (s'\<lparr>sv_status := set_endpoint w b err (sv_status s')\<rparr>))
       (\<lambda>s'. R (s'\<lparr>sv_status := set_endpoint w b None (sv_status s')\<rparr>)) s"
  by (simp add: wp_def deferring_def endpoint_status_def on_status_def seq_def act_bind_def done_with_def
      split: prod.splits option.splits)

section \<open>The status under the operations of the actor\<close>

lemma st_State_simps [simp]:
  "st_State (applyLocked st d now x) = st" "st_State (setDetail d x) = st_State x"
  "st_State (set_endpoint w b e x) = st_State x"
  by (auto simp: applyLocked_def setDetail_def set_endpoint_def Let_def)

lemma status_inv_applyLocked [simp]:
  "validTransition (st_State x) st \<Longrightarrow> status_inv x \<Longrightarrow> status_inv (applyLocked st d now x)"
  using status_step_inv [OF status_step.state, of st d now x "applyLocked st d now x"] by (simp add: set_state_def)

lemma status_inv_setDetail [simp]: "status_inv x \<Longrightarrow> status_inv (setDetail d x)"
  using status_step_inv [OF status_step.detail, of x d] by simp

lemma status_inv_set_endpoint [simp]: "status_inv x \<Longrightarrow> status_inv (set_endpoint w b e x)"
  using status_step_inv [OF status_step.endpoint, of x w b e] by simp

lemma setRetrying_False [simp]:
  "setRetrying False x = Some (x\<lparr>st_Retrying := False, st_Failure := []\<rparr>)"
  by (simp add: setRetrying_def Let_def)

lemma setError_Some:
  "validTransition (st_State x) StateError \<Longrightarrow>
   \<exists>y. setError d e now x = Some y \<and> st_State y = StateError \<and> (status_inv x \<longrightarrow> status_inv y)"
  using status_step_inv [of x] status_step.error [of d e now x] by (auto simp: setError_def)

lemma status_inv_quiet [simp]: "status_inv (x\<lparr>st_Retrying := False, st_Failure := []\<rparr>)"
  by (simp add: status_inv_def)

section \<open>The invariant\<close>

text \<open>Every login obtained is closed, or held where teardown finds it, or (inside a handler) one of \<open>X\<close>.\<close>

definition held :: "Service \<Rightarrow> nat set" where
  "held s = set_option (sv_session s) \<union> (case sv_pending s of None \<Rightarrow> {} | Some p \<Rightarrow> set_option (po_sess p))"

definition sound :: "nat set \<Rightarrow> Service \<Rightarrow> bool" where
  "sound X s \<longleftrightarrow>
     sv_brSnapshot s = sv_br s \<and> (sv_attached s \<noteq> None \<longrightarrow> sv_br s) \<and>
     (sv_socksSnapshot s \<noteq> None \<longrightarrow> sv_socksSnapshot s = sv_socks s) \<and> status_inv (sv_status s) \<and>
     set (sv_opened s) \<subseteq> set (sv_released s) \<union> held s \<union> X"

text \<open>Nothing runs and nothing is held.\<close>

definition quiet :: "nat set \<Rightarrow> Service \<Rightarrow> bool" where
  "quiet X s \<longleftrightarrow> sound X s \<and> sv_pending s = None \<and> sv_session s = None \<and> sv_sessionSnapshot s = None \<and>
     sv_run s = None \<and> sv_attached s = None \<and> sv_socksTask s = None \<and> \<not> sv_rootWatch s \<and> sv_authTimer s = None"

text \<open>A session is held: the tasks that run are those of this session and of the current generation.\<close>

definition serving :: "Service \<Rightarrow> bool" where
  "serving s \<longleftrightarrow> sound {} s \<and> sv_pending s = None \<and> sv_session s \<noteq> None \<and> sv_sessionSnapshot s = sv_session s \<and>
     (sv_run s = None \<or> sv_run s = Some (sv_gen s)) \<and>
     sv_attached s = (if sv_run s = None then None else sv_session s) \<and>
     (sv_socksTask s \<noteq> None \<longrightarrow> sv_socksTask s = sv_socks s) \<and> sv_authTimer s = None"

definition waiting :: "Service \<Rightarrow> bool" where
  "waiting s \<longleftrightarrow> sound {} s \<and> sv_pending s \<noteq> None \<and> sv_session s = None \<and> sv_sessionSnapshot s = None \<and>
     sv_run s = None \<and> sv_attached s = None \<and> sv_socksTask s = None \<and> \<not> sv_rootWatch s"

definition service_inv :: "Service \<Rightarrow> bool" where
  "service_inv s \<longleftrightarrow>
     (case st_State (sv_status s) of
        StateIdle \<Rightarrow> quiet {} s
      | StateError \<Rightarrow> quiet {} s
      | StateAuthPending \<Rightarrow> waiting s \<and> sv_authTimer s = Some (sv_authSeq s)
      | StateUp \<Rightarrow> serving s \<and> sv_rootWatch s
      | StateLoggingIn \<Rightarrow> False)"

text \<open>What no handler but the one named changes.\<close>

definition same_process :: "Service \<Rightarrow> Service \<Rightarrow> bool" where
  "same_process s s' \<longleftrightarrow> sv_opened s' = sv_opened s \<and> sv_wgEnabled s' = sv_wgEnabled s \<and>
     sv_socksEnabled s' = sv_socksEnabled s \<and> sv_user s' = sv_user s \<and> sv_pass s' = sv_pass s \<and>
     sv_stopPending s' = sv_stopPending s \<and> sv_closing s' = sv_closing s"

lemmas handler_defs = stopL3_def stopSOCKS_def stopAuthTimer_def startAuthTimer_def detach_def release_def
  drop_logins_def Let_def

lemma validTransition_Idle [simp]: "validTransition st StateIdle" "validTransition st st"
  by (cases st; simp)+

lemma validTransition_Error: "st \<noteq> StateError \<Longrightarrow> validTransition StateIdle StateError"
  by simp

definition torn :: "Status \<Rightarrow> Service \<Rightarrow> Service" where
  "torn st s = drop_logins (stopL3 (stopSOCKS ((stopAuthTimer s)\<lparr>sv_gen := sv_gen s + 1, sv_sessionSnapshot := None, sv_status := st, sv_rootWatch := False\<rparr>)))"

lemma quiet_torn:
  assumes "sound X s" "status_inv st" 
  shows "quiet X (torn st s)" 
  using assms unfolding torn_def
  by (cases "sv_pending s"; cases "sv_session s")
    (auto simp: handler_defs quiet_def sound_def held_def split: option.splits)

lemma torn_simps [simp]:
  "sv_status (torn st s) = st" "same_process s (torn st s)"
  unfolding torn_def by (cases "sv_pending s"; cases "sv_session s"; simp add: handler_defs same_process_def split: option.split)+

lemma quiet_set_status [simp]: "quiet X s \<Longrightarrow> status_inv st \<Longrightarrow> quiet X (s\<lparr>sv_status := st\<rparr>)"
  by (auto simp: quiet_def sound_def held_def)

lemma stopAuthTimer_status [simp]: "sv_status (stopAuthTimer s) = sv_status s"
  by (simp add: stopAuthTimer_def)

lemma same_process_set_status [simp]: "same_process s (t\<lparr>sv_status := st\<rparr>) = same_process s t"
  by (simp add: same_process_def)

lemma wp_teardown:
  assumes "sound X s"
  shows "wp (teardown d env) (\<lambda>_ s'. quiet X s' \<and> st_State (sv_status s') = StateIdle \<and> same_process s s') R s"
proof -
  have "status_inv (sv_status s)" using assms by (simp add: sound_def)
  moreover have "drop_logins (stopL3 (stopSOCKS ((stopAuthTimer s)\<lparr>sv_gen := sv_gen s + 1, sv_sessionSnapshot := None, sv_rootWatch := False\<rparr>)))
     = torn (sv_status s) s"
    by (simp add: torn_def handler_defs)
  ultimately show ?thesis
    using quiet_torn [OF assms]
    by (auto simp: teardown_def wp_rules torn_def [symmetric])
qed

section \<open>Handlers\<close>

lemma wp_post: "wp m Q R s \<Longrightarrow> (\<And>x s'. Q x s' \<Longrightarrow> Q' x s') \<Longrightarrow> (\<And>s'. R s' \<Longrightarrow> R' s') \<Longrightarrow> wp m Q' R' s"
  by (rule wp_mono)

lemma quiet_sound: "quiet X s \<Longrightarrow> sound X s"
  by (simp add: quiet_def)

lemma sound_status: "sound X s \<Longrightarrow> status_inv (sv_status s)"
  by (simp add: sound_def)

lemma sound_set_status [simp]: "sound X s \<Longrightarrow> status_inv st \<Longrightarrow> sound X (s\<lparr>sv_status := st\<rparr>)"
  by (auto simp: sound_def held_def)

lemma same_process_trans [trans]: "same_process s t \<Longrightarrow> same_process t u \<Longrightarrow> same_process s u"
  by (simp add: same_process_def)

lemma same_process_refl [simp]: "same_process s s"
  by (simp add: same_process_def)

definition failed_state :: "nat set \<Rightarrow> Service \<Rightarrow> Service \<Rightarrow> bool" where
  "failed_state X s s' \<longleftrightarrow> quiet X s' \<and> st_State (sv_status s') = StateError \<and> same_process s s'"

definition idle_state :: "nat set \<Rightarrow> Service \<Rightarrow> Service \<Rightarrow> bool" where
  "idle_state X s s' \<longleftrightarrow> quiet X s' \<and> st_State (sv_status s') = StateIdle \<and> same_process s s'"

lemma wp_setError:
  assumes "idle_state X s t"
  shows "wp (on_status (setError d e now)) (\<lambda>_. failed_state X s) R t"
proof -
  have t: "quiet X t" "st_State (sv_status t) = StateIdle" "same_process s t"
    using assms by (auto simp: idle_state_def)
  obtain y where y: "setError d e now (sv_status t) = Some y" "st_State y = StateError" "status_inv y"
    using setError_Some [of "sv_status t" d e now] t sound_status [OF quiet_sound [OF t(1)]] by auto
  show ?thesis using y t by (simp add: wp_rules failed_state_def)
qed

lemma wp_teardown_setError:
  assumes "sound X s"
  shows "wp (seq (teardown d env) (seq (on_status (setError d' e now)) (done_with x))) (\<lambda>r s'. r = x \<and> failed_state X s s') R s"
  unfolding wp_seq
  by (rule wp_mono [OF wp_teardown [OF assms]], rule wp_mono [OF wp_setError])
    (auto simp: idle_state_def wp_done)

lemma wp_fail:
  assumes "sound X s"
  shows "wp (fail err env) (\<lambda>r s'. r = err \<and> err \<noteq> None \<and> failed_state X s s') (idle_state X s) s"
proof (cases err)
  case None
  then show ?thesis unfolding fail_def
    by (simp add: wp_seq, intro wp_mono [OF wp_teardown [OF assms]]) (auto simp: idle_state_def wp_panic)
next
  case (Some e)
  then show ?thesis unfolding fail_def
    by (auto intro: wp_mono [OF wp_teardown_setError [OF assms]])
qed

text \<open>The endpoints keep the session and its state.\<close>

definition keeps :: "Service \<Rightarrow> Service \<Rightarrow> bool" where
  "keeps s s' \<longleftrightarrow> same_process s s' \<and> st_State (sv_status s') = st_State (sv_status s) \<and>
     sv_session s' = sv_session s \<and> sv_rootWatch s' = sv_rootWatch s \<and> sv_authSeq s' = sv_authSeq s"

lemmas serving_defs = serving_def sound_def held_def keeps_def same_process_def

lemma serving_stopL3: "serving s \<Longrightarrow> serving (stopL3 s) \<and> keeps s (stopL3 s) \<and> sv_run (stopL3 s) = None"
  by (auto simp: serving_defs stopL3_def)

lemma serving_stopSOCKS: "serving s \<Longrightarrow> serving (stopSOCKS s) \<and> keeps s (stopSOCKS s)"
  by (auto simp: serving_defs stopSOCKS_def)

lemma serving_status: "serving s \<Longrightarrow> status_inv st \<Longrightarrow> serving (s\<lparr>sv_status := st\<rparr>)"
  by (auto simp: serving_defs)

lemma keeps_trans: "keeps s t \<Longrightarrow> keeps t u \<Longrightarrow> keeps s u"
  by (simp add: keeps_def same_process_def)

lemma keeps_status: "st_State st = st_State (sv_status s) \<Longrightarrow> keeps s (s\<lparr>sv_status := st\<rparr>)"
  by (simp add: keeps_def same_process_def)

lemma wp_startL3_body:
  assumes "serving s" "sv_run s = None"
  shows "wp (startL3_body env) (\<lambda>_ s'. serving s' \<and> keeps s s') R s"
  using assms
  by (cases "sv_br s"; cases "e_bearer env"; cases "e_startL3 env"; cases "e_attach env"; cases "e_ctx env 0")
    (auto simp: startL3_body_def wp_rules detach_def serving_defs)

lemma wp_startSOCKS_body:
  assumes "serving s" "sv_socksTask s = None"
  shows "wp (startSOCKS_body env) (\<lambda>_ s'. serving s' \<and> keeps s s') R s"
  using assms
  by (cases "sv_socks s"; cases "e_newSocks env"; cases "e_socksStart env"; cases "e_ctx env 1")
    (auto simp: startSOCKS_body_def wp_rules stopSOCKS_def serving_defs)

lemma serving_set_endpoint:
  "serving t \<and> keeps s t \<Longrightarrow>
   serving (t\<lparr>sv_status := set_endpoint w b e (sv_status t)\<rparr>) \<and> keeps s (t\<lparr>sv_status := set_endpoint w b e (sv_status t)\<rparr>)"
proof (elim conjE, intro conjI)
  assume t: "serving t" and k: "keeps s t"
  have "status_inv (sv_status t)" using t by (simp add: serving_def sound_def)
  then show "serving (t\<lparr>sv_status := set_endpoint w b e (sv_status t)\<rparr>)"
    by (intro serving_status [OF t] status_inv_set_endpoint)
  show "keeps s (t\<lparr>sv_status := set_endpoint w b e (sv_status t)\<rparr>)"
    by (rule keeps_trans [OF k keeps_status]) simp
qed

lemma wp_startL3:
  assumes "serving s"
  shows "wp (startL3 env) (\<lambda>_ s'. serving s' \<and> keeps s s') R s"
proof -
  let ?s = "if sv_run s \<noteq> None then stopL3 s else s"
  have s: "serving ?s" "keeps s ?s" "sv_run ?s = None"
    using serving_stopL3 [OF assms] assms by (auto simp: keeps_def)
  have "wp (startL3_body env) (\<lambda>err s'. serving (s'\<lparr>sv_status := set_endpoint True True err (sv_status s')\<rparr>) \<and>
      keeps s (s'\<lparr>sv_status := set_endpoint True True err (sv_status s')\<rparr>)) R' ?s" for R'
    by (rule wp_mono [OF wp_startL3_body [OF s(1,3)]])
      (intro serving_set_endpoint conjI; (elim conjE)?; (intro keeps_trans [OF s(2)])?; assumption)+
  then show ?thesis
    using assms by (simp add: startL3_def wp_rules keeps_def)
qed

lemma wp_startSOCKS:
  assumes "serving s"
  shows "wp (startSOCKS env) (\<lambda>_ s'. serving s' \<and> keeps s s') R s"
proof -
  let ?s = "if sv_socksTask s \<noteq> None then stopSOCKS s else s"
  have s: "serving ?s" "keeps s ?s" "sv_socksTask ?s = None"
    using serving_stopSOCKS [OF assms] assms by (auto simp: keeps_def stopSOCKS_def)
  have "wp (startSOCKS_body env) (\<lambda>err s'. serving (s'\<lparr>sv_status := set_endpoint False True err (sv_status s')\<rparr>) \<and>
      keeps s (s'\<lparr>sv_status := set_endpoint False True err (sv_status s')\<rparr>)) R' ?s" for R'
    by (rule wp_mono [OF wp_startSOCKS_body [OF s(1,3)]])
      (intro serving_set_endpoint conjI; (elim conjE)?; (intro keeps_trans [OF s(2)])?; assumption)+
  then show ?thesis
    using assms by (simp add: startSOCKS_def wp_rules keeps_def)
qed

lemma wp_endpoints_keep:
  assumes "serving t \<and> keeps u t"
  shows "wp (startSOCKS env) (\<lambda>_ s'. serving s' \<and> keeps u s') R t"
    and "wp (startL3 env) (\<lambda>_ s'. serving s' \<and> keeps u s') R t"
proof -
  have t: "serving t" and k: "keeps u t" using assms by auto
  have *: "serving s' \<and> keeps u s'" if "serving s' \<and> keeps t s'" for s'
    using that keeps_trans [OF k] by simp
  show "wp (startSOCKS env) (\<lambda>_ s'. serving s' \<and> keeps u s') R t"
    by (rule wp_mono [OF wp_startSOCKS [OF t, where R = R] *])
  show "wp (startL3 env) (\<lambda>_ s'. serving s' \<and> keeps u s') R t"
    by (rule wp_mono [OF wp_startL3 [OF t, where R = R] *])
qed

text \<open>Without a session the endpoints cannot come up, and nothing is lost.\<close>

definition unserved :: "Service \<Rightarrow> Service \<Rightarrow> bool" where
  "unserved s s' \<longleftrightarrow> sound {} s' \<and> sv_session s' = None \<and> same_process s s'"

lemma unserved_status: "unserved s t \<Longrightarrow> status_inv st \<Longrightarrow> unserved s (t\<lparr>sv_status := st\<rparr>)"
  by (auto simp: unserved_def)

lemma unserved_set_endpoint:
  "unserved s t \<Longrightarrow> unserved s (t\<lparr>sv_status := set_endpoint w b e (sv_status t)\<rparr>)"
  by (rule unserved_status) (auto simp: unserved_def sound_def)

lemma wp_startSOCKS_unserved:
  assumes "unserved t s"
  shows "wp (startSOCKS env) (\<lambda>_. unserved t) R s"
proof -
  let ?s = "if sv_socksTask s \<noteq> None then stopSOCKS s else s"
  have "unserved t ?s"
    using assms by (auto simp: unserved_def sound_def held_def stopSOCKS_def same_process_def)
  then have "wp (startSOCKS_body env) (\<lambda>_. unserved t) R' ?s" for R'
    by (cases "sv_socks ?s"; cases "e_newSocks env"; cases "e_socksStart env"; cases "e_ctx env 1")
      (auto simp: startSOCKS_body_def wp_rules stopSOCKS_def unserved_def sound_def held_def same_process_def)
  then have "wp (startSOCKS_body env) (\<lambda>err s'. unserved t (s'\<lparr>sv_status := set_endpoint False True err (sv_status s')\<rparr>)) R' ?s" for R'
    by (rule wp_mono) (auto intro: unserved_set_endpoint)
  then show ?thesis using assms by (simp add: startSOCKS_def wp_rules)
qed

lemma wp_startL3_unserved:
  assumes "unserved t s"
  shows "wp (startL3 env) (\<lambda>_. unserved t) (unserved t) s"
proof -
  let ?s = "if sv_run s \<noteq> None then stopL3 s else s"
  have "unserved t ?s"
    using assms by (auto simp: unserved_def sound_def held_def stopL3_def same_process_def)
  then have "wp (startL3_body env) (\<lambda>_. unserved t) (unserved t) ?s"
    by (cases "sv_br ?s"; cases "e_bearer env")
      (auto simp: startL3_body_def wp_rules unserved_def sound_def held_def same_process_def)
  then have "wp (startL3_body env) (\<lambda>err s'. unserved t (s'\<lparr>sv_status := set_endpoint True True err (sv_status s')\<rparr>))
      (\<lambda>s'. unserved t (s'\<lparr>sv_status := set_endpoint True True None (sv_status s')\<rparr>)) ?s"
    by (rule wp_mono) (auto intro: unserved_set_endpoint)
  then show ?thesis using assms by (simp add: startL3_def wp_rules)
qed

section \<open>Logins\<close>

lemma failed_inv: "failed_state {} s s' \<Longrightarrow> service_inv s'"
  by (simp add: failed_state_def service_inv_def)

lemma failed_same: "failed_state X s s' \<Longrightarrow> same_process s s'"
  by (simp add: failed_state_def)

lemma idle_sound: "idle_state X s s' \<Longrightarrow> sound X s' \<and> same_process s s'"
  by (simp add: idle_state_def quiet_def)

abbreviation settled :: "Service \<Rightarrow> 'a \<Rightarrow> Service \<Rightarrow> bool" where
  "settled s \<equiv> \<lambda>_ s'. service_inv s' \<and> same_process s s'"

abbreviation panicked :: "Service \<Rightarrow> Service \<Rightarrow> bool" where
  "panicked s \<equiv> \<lambda>s'. sound {} s' \<and> same_process s s'"

text \<open>A command that logs in answers without an error exactly when the session is up afterwards.\<close>

abbreviation answered :: "Service \<Rightarrow> error option \<Rightarrow> Service \<Rightarrow> bool" where
  "answered s \<equiv> \<lambda>r s'. service_inv s' \<and> same_process s s' \<and> (r = None \<longleftrightarrow> st_State (sv_status s') = StateUp)"

lemma wp_fail_answered:
  assumes "sound {} t" "same_process s t"
  shows "wp (fail err env) (answered s) (panicked s) t"
  by (rule wp_mono [OF wp_fail [OF assms(1)]])
    (auto dest: failed_inv failed_same idle_sound intro: same_process_trans [OF assms(2)] simp: failed_state_def service_inv_def)

lemma wp_fail_settled:
  assumes "sound {} t" "same_process s t"
  shows "wp (fail err env) (settled s) (panicked s) t"
  by (rule wp_mono [OF wp_fail [OF assms(1)]])
    (auto dest: failed_inv failed_same idle_sound intro: same_process_trans [OF assms(2)])

lemma wp_finish_unserved:
  assumes "unserved s t"
  shows "wp (finish_checks sess wgErr socksErr env) (answered s) (panicked s) t"
proof -
  have t: "sound {} t" "same_process s t" "sv_session t = None" using assms by (auto simp: unserved_def)
  then show ?thesis
    by (auto simp: finish_checks_def wp_reading intro: wp_fail_answered split: option.splits)
qed

lemma wp_finish_serving:
  assumes t: "serving t" "same_process s t" and up: "st_State (sv_status t) = StateUp" and "sess \<noteq> None"
  shows "wp (finish_checks sess wgErr socksErr env) (answered s) (panicked s) t"
proof -
  have snd: "sound {} t" using t by (simp add: serving_def)
  have "service_inv (t\<lparr>sv_status := setDetail d ((sv_status t)\<lparr>st_Retrying := False, st_Failure := []\<rparr>), sv_rootWatch := True\<rparr>)" for d
    using t(1) up by (auto simp: service_inv_def serving_def sound_def held_def setDetail_def status_inv_def)
  moreover have "same_process s (t\<lparr>sv_status := st, sv_rootWatch := True\<rparr>)" for st
    using t(2) by (simp add: same_process_def)
  ultimately show ?thesis
    using assms(4) up by (auto simp: finish_checks_def wp_rules intro: wp_fail_answered [OF snd t(2)] split: option.splits)
qed

lemma wp_start_endpoints:
  assumes "\<And>t. P t \<Longrightarrow> wp (startSOCKS env) (\<lambda>_. P) R t" "\<And>t. P t \<Longrightarrow> wp (startL3 env) (\<lambda>_. P) R t"
    "\<And>t wgErr socksErr. P t \<Longrightarrow> wp (finish_checks sess wgErr socksErr env) Q R t" "P t"
  shows "wp (act_bind (if sk then startSOCKS env else done_with None) (\<lambda>socksErr.
     act_bind (if wg then startL3 env else done_with None) (\<lambda>wgErr. finish_checks sess wgErr socksErr env))) Q R t"
proof -
  have wg: "wp (act_bind (if wg then startL3 env else done_with None) (\<lambda>wgErr. finish_checks sess wgErr socksErr env)) Q R t"
    if "P t" for t socksErr
    using wp_mono [OF assms(2) [OF that]] assms(3) that by (simp add: wp_bind wp_done)
  show ?thesis
    unfolding wp_bind [of "if sk then _ else _"]
    using wp_mono [OF assms(1) [OF assms(4)]] wg assms(4) by (simp add: wp_done)
qed

lemma wp_finishConnect:
  assumes s: "quiet X s" "X \<subseteq> set_option sess" and st: "validTransition (st_State (sv_status s)) StateUp"
  shows "wp (finishConnect sess env) (answered s) (panicked s) s"
proof (cases sess)
  case None
  let ?t = "s\<lparr>sv_status := set_endpoint False (sv_socksEnabled s) None (set_endpoint True (sv_wgEnabled s) None
       (applyLocked StateUp ''session up'' (e_now env) (sv_status s)))\<rparr>"
  have "quiet {} s" using s None by simp
  then have "unserved s ?t"
    using st by (auto simp: unserved_def quiet_def sound_def held_def same_process_def)
  then have "wp (act_bind (if sv_socksEnabled s then startSOCKS env else done_with None) (\<lambda>socksErr.
     act_bind (if sv_wgEnabled s then startL3 env else done_with None) (\<lambda>wgErr. finish_checks sess wgErr socksErr env)))
     (answered s) (panicked s) ?t"
    by (intro wp_start_endpoints [where P = "unserved s"] wp_finish_unserved wp_startSOCKS_unserved
        wp_mono [OF wp_startL3_unserved]) (auto simp: unserved_def)
  then show ?thesis
    using st None by (simp add: finishConnect_def wp_seq wp_change wp_enter wp_reading wp_endpoint_status attach_def)
next
  case (Some n)
  let ?t = "(s\<lparr>sv_session := Some n, sv_sessionSnapshot := Some n\<rparr>)\<lparr>sv_status := set_endpoint False (sv_socksEnabled s) None (set_endpoint True (sv_wgEnabled s) None
       (applyLocked StateUp ''session up'' (e_now env) (sv_status s)))\<rparr>"
  let ?P = "\<lambda>t. serving t \<and> keeps ?t t"
  have "serving ?t"
    using s st Some by (auto simp: serving_def quiet_def sound_def held_def)
  then have P: "?P ?t" by (simp add: keeps_def)
  have fin: "wp (finish_checks sess wgErr socksErr env) (answered s) (panicked s) t" if "?P t" for t wgErr socksErr
    using that Some by (intro wp_finish_serving) (auto simp: keeps_def same_process_def)
  have "wp (act_bind (if sv_socksEnabled s then startSOCKS env else done_with None) (\<lambda>socksErr.
     act_bind (if sv_wgEnabled s then startL3 env else done_with None) (\<lambda>wgErr. finish_checks sess wgErr socksErr env)))
     (answered s) (panicked s) ?t"
    by (intro wp_start_endpoints [where P = ?P] wp_endpoints_keep fin P)
  then show ?thesis
    using st Some s(1) by (simp add: finishConnect_def wp_seq wp_change wp_enter wp_reading wp_endpoint_status attach_def quiet_def)
qed

text \<open>What a command may change beyond \<open>same_process\<close>: a login adds the session it obtained.\<close>

lemma quiet_obtain [simp]: "quiet {} s \<Longrightarrow> quiet (set_option i) (obtain_login i s)"
  by (cases i) (auto simp: obtain_login_def quiet_def sound_def held_def)

lemma obtain_status [simp]: "sv_status (obtain_login i s) = sv_status s"
  by (simp add: obtain_login_def split: option.splits)

lemma attach_sound:
  assumes "quiet X s" "X \<subseteq> set_option i"
  shows "sound {} (attach i s)"
  using assms by (cases i) (auto simp: attach_def quiet_def sound_def held_def)

lemma attach_same [simp]: "sv_session s = None \<Longrightarrow> same_process s (attach i s)"
  by (simp add: attach_def same_process_def split: option.splits)

lemma quiet_release [simp]: "quiet X s \<Longrightarrow> X \<subseteq> set_option i \<Longrightarrow> quiet {} (release i s)"
  by (cases i) (auto simp: release_def quiet_def sound_def held_def)

lemma sound_release: "sound X s \<Longrightarrow> X \<subseteq> set_option i \<Longrightarrow> sound {} (release i s)"
  by (cases i) (auto simp: release_def sound_def held_def)

lemma release_simps [simp]: "sv_status (release i s) = sv_status s" "same_process s (release i s)"
  by (simp_all add: release_def same_process_def split: option.splits)

lemma wp_trust_then_connect:
  assumes s: "quiet X s" "X \<subseteq> set_option sess" and st: "validTransition (st_State (sv_status s)) StateUp"
  shows "wp (trust_then_connect trust sess env) (answered s) (panicked s) s"
proof -
  have "sv_session s = None" using s by (simp add: quiet_def)
  then have att: "wp (seq (change (attach sess)) (fail err env)) (answered s) (panicked s) s" for err
    unfolding wp_seq wp_change using attach_sound [OF s] attach_same by (intro wp_fail_answered) auto
  have "sound {} s" if "sess = None" using s that by (simp add: quiet_def)
  then show ?thesis
    using att wp_finishConnect [OF s st]
    by (auto simp: trust_then_connect_def wp_bind wp_if ensureTrusted_def wp_panic wp_done split: option.splits)
qed

lemma startAuthTimer_status [simp]: "sv_status (startAuthTimer s) = sv_status s"
  by (simp add: startAuthTimer_def Let_def)

lemma wp_awaitAuth:
  assumes "waiting s" "validTransition (st_State (sv_status s)) StateAuthPending"
  shows "wp (awaitAuth hint env) (answered s) (panicked s) s"
proof -
  have "sound {} s" "status_inv (sv_status s)" using assms by (auto simp: waiting_def sound_def)
  moreover have "service_inv (startAuthTimer (s\<lparr>sv_status := applyLocked StateAuthPending d now (sv_status s)\<rparr>))" for d now
    using assms by (auto simp: service_inv_def startAuthTimer_def stopAuthTimer_def waiting_def sound_def held_def Let_def)
  moreover have "same_process s (startAuthTimer (s\<lparr>sv_status := st\<rparr>))" for st
    by (simp add: startAuthTimer_def stopAuthTimer_def same_process_def Let_def)
  ultimately show ?thesis
    using assms by (simp add: awaitAuth_def prompt_def wp_rules Let_def split: option.splits)
qed

lemma waiting_pending:
  assumes "quiet X s" "X \<subseteq> set_option (po_sess p)"
  shows "waiting (s\<lparr>sv_pending := Some p\<rparr>)"
  using assms by (auto simp: waiting_def quiet_def sound_def held_def)

lemma same_process_pending [simp]: "same_process s (s\<lparr>sv_pending := p\<rparr>)"
  by (simp add: same_process_def)

lemma wp_await_pending:
  assumes s: "quiet X s" "X \<subseteq> set_option (po_sess p)" and st: "validTransition (st_State (sv_status s)) StateAuthPending"
  shows "wp (seq (change (\<lambda>s. s\<lparr>sv_pending := Some p\<rparr>)) (awaitAuth hint env)) (answered s) (panicked s) s"
  unfolding wp_seq wp_change
  by (rule wp_mono [OF wp_awaitAuth [OF waiting_pending [OF s]]])
    (use st in \<open>auto intro: same_process_trans [OF same_process_pending]\<close>)

lemma wp_runDeviceOp_own:
  assumes s: "quiet X s" "X \<subseteq> set_option sess"
  shows "wp (runDeviceOp True sess env) (settled s) (panicked s) s"
proof -
  have Q: "wp (device_result True env) (\<lambda>_ s'. quiet X s' \<and> same_process s s' \<and> st_State (sv_status s') \<in> {StateIdle, StateError})
      (\<lambda>s'. sound X s' \<and> same_process s s') s"
  proof (cases "e_device env")
    case (Inl e)
    show ?thesis
      unfolding device_result_def Inl
      by (simp, rule wp_mono [OF wp_fail [OF quiet_sound [OF s(1)]]]) (auto simp: failed_state_def dest: idle_sound)
  next
    case (Inr d)
    have "status_inv (sv_status s)" using s by (simp add: quiet_def sound_def)
    then show ?thesis using Inr s by (simp add: device_result_def wp_rules)
  qed
  have inv: "service_inv (release sess s')" if "quiet X s'" "st_State (sv_status s') \<in> {StateIdle, StateError}" for s'
    using quiet_release [OF that(1) s(2)] that(2) by (auto simp: service_inv_def)
  show ?thesis
    using Q inv s(2)
    by (auto simp: runDeviceOp_def wp_def intro: sound_release same_process_trans split: prod.splits option.splits)
qed

section \<open>Commands\<close>

lemma inv_sound: "service_inv s \<Longrightarrow> sound {} s"
  by (auto simp: service_inv_def quiet_def waiting_def serving_def split: State.splits)

lemma inv_quiet: "service_inv s \<Longrightarrow> st_State (sv_status s) \<in> {StateIdle, StateError} \<Longrightarrow> quiet {} s"
  by (auto simp: service_inv_def)

lemma inv_serving:
  "service_inv s \<Longrightarrow> st_State (sv_status s) = StateUp \<Longrightarrow> serving s \<and> sv_rootWatch s"
  by (auto simp: service_inv_def)

lemma inv_waiting:
  "service_inv s \<Longrightarrow> st_State (sv_status s) = StateAuthPending \<Longrightarrow> waiting s \<and> sv_authTimer s = Some (sv_authSeq s)"
  by (auto simp: service_inv_def)

lemma inv_not_logging_in [simp]: "service_inv s \<Longrightarrow> st_State (sv_status s) \<noteq> StateLoggingIn"
  by (auto simp: service_inv_def)

abbreviation inv_post :: "'a \<Rightarrow> Service \<Rightarrow> bool" where
  "inv_post \<equiv> \<lambda>_. service_inv"

abbreviation up_post :: "error option \<Rightarrow> Service \<Rightarrow> bool" where
  "up_post \<equiv> \<lambda>r s'. service_inv s' \<and> (r = None \<longleftrightarrow> st_State (sv_status s') = StateUp)"

lemma answered_settled: "wp m (answered s) R t \<Longrightarrow> wp m (settled s) R t"
  by (erule wp_mono) auto

lemma wp_answered: "wp m (answered s) (panicked s) t \<Longrightarrow> wp m up_post (sound {}) t"
  by (erule wp_mono) auto

lemma wp_fail_up: "sound {} s \<Longrightarrow> wp (fail err env) up_post (sound {}) s"
  by (rule wp_answered [OF wp_fail_answered [of s s]]) auto

lemma wp_settled: "wp m (settled s) (panicked s) t \<Longrightarrow> wp m inv_post (sound {}) t"
  by (erule wp_mono) auto

lemma wp_fail_inv: "sound {} s \<Longrightarrow> wp (fail err env) inv_post (sound {}) s"
  by (rule wp_settled [OF wp_fail_settled [of s s]]) auto

lemma quiet_pass [simp]: "quiet X s \<Longrightarrow> quiet X (s\<lparr>sv_pass := p\<rparr>)"
  by (auto simp: quiet_def sound_def held_def)

lemma wp_with_client:
  assumes s: "quiet {} s" "st_State (sv_status s) \<in> {StateIdle, StateError}"
    and err: "\<And>e t. sound {} t \<Longrightarrow> wp (fail e env) Q (sound {}) t"
    and go: "\<And>t. quiet {} t \<Longrightarrow> st_State (sv_status t) = StateLoggingIn \<Longrightarrow> wp go Q (sound {}) t"
  shows "wp (with_client password env go) Q (sound {}) s"
proof -
  let ?s = "if password \<noteq> [] then s\<lparr>sv_pass := password\<rparr> else s"
  have q: "quiet {} ?s" and st: "sv_status ?s = sv_status s" using s by auto
  have inv: "status_inv (sv_status s)" using s by (simp add: quiet_def sound_def)
  have "wp (enter StateLoggingIn ''logging in'' env) (\<lambda>_. wp go Q (sound {})) (sound {}) ?s"
    using s(2) q go inv by (auto simp: wp_enter st)
  then show ?thesis
    using err [OF quiet_sound [OF q]]
    by (cases "password = []"; cases "e_client env")
      (simp_all add: with_client_def applyPassword_def wp_bind wp_seq wp_change wp_reading wp_done)
qed

lemma obtain_session [simp]: "sv_session (obtain_login i s) = sv_session s"
  by (simp add: obtain_login_def split: option.splits)

lemma wp_start_login:
  assumes s: "quiet {} s" "st_State (sv_status s) = StateLoggingIn"
  shows "wp (start_login trust env) up_post (sound {}) s"
proof -
  obtain sess err where c: "e_connect env = (sess, err)" by (cases "e_connect env")
  let ?t = "obtain_login sess s"
  have q: "quiet (set_option sess) ?t" using s by simp
  have "sv_session ?t = None" using q by (simp add: quiet_def)
  then have att: "wp (seq (change (attach sess)) (fail err env)) (answered ?t) (panicked ?t) ?t" for err
    unfolding wp_seq wp_change using attach_sound [OF q] by (intro wp_fail_answered) auto
  have "wp (seq (change (\<lambda>s. s\<lparr>sv_pending := Some \<lparr>po_dev = False, po_trust = trust, po_all = False, po_sess = sess\<rparr>\<rparr>))
      (awaitAuth hint env)) (answered ?t) (panicked ?t) ?t" for hint
    by (rule wp_await_pending [OF q]) (use s in auto)
  moreover have "wp (trust_then_connect trust sess env) (answered ?t) (panicked ?t) ?t"
    by (rule wp_trust_then_connect [OF q]) (use s in auto)
  ultimately have "wp (start_login trust env) (answered ?t) (panicked ?t) s"
    using att by (simp add: start_login_def c wp_seq wp_change split: option.splits)
  then show ?thesis by (rule wp_answered)
qed

lemma wp_devices_login:
  assumes s: "quiet {} s" "st_State (sv_status s) = StateLoggingIn"
  shows "wp (devices_login trust all env) inv_post (sound {}) s"
proof -
  obtain sess err where c: "e_open env = (sess, err)" by (cases "e_open env")
  let ?t = "obtain_login sess s"
  have q: "quiet (set_option sess) ?t" using s by simp
  have rel: "wp (seq (change (release sess)) (fail err env)) (settled ?t) (panicked ?t) ?t" for err
    unfolding wp_seq wp_change using sound_release [OF quiet_sound [OF q]] by (intro wp_fail_settled) auto
  have "wp (seq (change (\<lambda>s. s\<lparr>sv_pending := Some \<lparr>po_dev = True, po_trust = trust, po_all = all, po_sess = sess\<rparr>\<rparr>))
      (awaitAuth hint env)) (settled ?t) (panicked ?t) ?t" for hint
    by (rule answered_settled, rule wp_await_pending [OF q]) (use s in auto)
  moreover have "wp (runDeviceOp True sess env) (settled ?t) (panicked ?t) ?t"
    by (rule wp_runDeviceOp_own [OF q]) auto
  ultimately have "wp (devices_login trust all env) (settled ?t) (panicked ?t) s"
    using rel by (simp add: devices_login_def c wp_seq wp_change split: option.splits)
  then show ?thesis by (rule wp_settled)
qed

lemma wp_relogin:
  assumes "sound {} s"
    and err: "\<And>e t. sound {} t \<Longrightarrow> wp (fail e env) Q (sound {}) t"
    and go: "\<And>t. quiet {} t \<Longrightarrow> st_State (sv_status t) = StateLoggingIn \<Longrightarrow> wp go Q (sound {}) t"
  shows "wp (seq (teardown d env) (with_client password env go)) Q (sound {}) s"
  unfolding wp_seq
  by (rule wp_mono [OF wp_teardown [OF assms(1), where R = "sound {}"]]) (auto intro!: wp_with_client err go)

lemma wp_start_up:
  assumes "service_inv s" "st_State (sv_status s) \<noteq> StateUp"
  shows "wp (start_tunnel trust password env) up_post (sound {}) s"
  using wp_relogin [OF inv_sound [OF assms(1)], of env up_post "start_login trust env"] wp_start_login wp_fail_up assms
  by (cases "st_State (sv_status s)") (auto simp: start_tunnel_def wp_reading wp_if wp_done)

lemma wp_start:
  assumes "service_inv s"
  shows "wp (start_tunnel trust password env) inv_post (sound {}) s"
proof (cases "st_State (sv_status s) = StateUp")
  case True
  then show ?thesis using assms by (simp add: start_tunnel_def wp_reading wp_if wp_done)
next
  case False
  show ?thesis by (rule wp_mono [OF wp_start_up [OF assms False]]) auto
qed

lemma wp_runDeviceOp_shared:
  assumes "service_inv s" "st_State (sv_status s) = StateUp"
  shows "wp (runDeviceOp False sess env) (settled s) (panicked s) s"
proof -
  have st: "status_inv (sv_status s)" using inv_sound [OF assms(1)] by (simp add: sound_def)
  have "serving (s\<lparr>sv_status := setDetail d (sv_status s)\<rparr>)" for d
    using inv_serving [OF assms] st by (intro serving_status) auto
  then have "service_inv (s\<lparr>sv_status := setDetail d (sv_status s)\<rparr>)" for d
    using inv_serving [OF assms] assms(2) by (simp add: service_inv_def)
  then show ?thesis
    using wp_fail_settled [OF inv_sound [OF assms(1)] same_process_refl]
    by (auto simp: runDeviceOp_def device_result_def wp_def set_detail_def on_status_def seq_def act_bind_def done_with_def
        split: sum.splits prod.splits option.splits)
qed

lemma wp_devices:
  assumes "service_inv s"
  shows "wp (devices trust all password env) inv_post (sound {}) s"
  using assms wp_relogin [OF inv_sound [OF assms], of env inv_post "devices_login trust all env"] wp_devices_login wp_fail_inv
    wp_with_client [OF inv_quiet [OF assms], of env inv_post "devices_login trust all env"] wp_settled [OF wp_runDeviceOp_shared [OF assms]]
    inv_serving [OF assms]
  by (cases "st_State (sv_status s)") (auto simp: devices_def wp_reading serving_def)

lemma inv_set_status:
  assumes "service_inv s" "status_inv st" "st_State st = st_State (sv_status s)"
  shows "service_inv (s\<lparr>sv_status := st\<rparr>)" "same_process s (s\<lparr>sv_status := st\<rparr>)"
  using assms serving_status [of s st] sound_set_status [of "{}" s st]
  by (cases "st_State (sv_status s)"; simp add: service_inv_def waiting_def)+

lemma wp_auth:
  assumes "service_inv s"
  shows "wp (auth code env) (settled s) (panicked s) s"
proof (cases "sv_pending s = None \<or> st_State (sv_status s) \<noteq> StateAuthPending \<or> code = []")
  case True
  then show ?thesis using assms by (auto simp: auth_def wp_reading wp_done split: option.splits)
next
  case False
  then obtain p where p: "sv_pending s = Some p" and st: "st_State (sv_status s) = StateAuthPending" by auto
  have w: "waiting s" using inv_waiting [OF assms st] by simp
  have snd: "sound {} s" by (rule inv_sound [OF assms])
  let ?t = "(stopAuthTimer s)\<lparr>sv_pending := None\<rparr>"
  have q: "quiet (set_option (po_sess p)) ?t"
    using w p by (auto simp: waiting_def quiet_def sound_def held_def stopAuthTimer_def)
  have same: "same_process s ?t" by (simp add: same_process_def stopAuthTimer_def)
  have "wp (awaitAuth hint env) (settled s) (panicked s) s" for hint
    by (rule answered_settled, rule wp_awaitAuth [OF w]) (simp add: st)
  moreover have "wp (seq (set_detail d) (done_with x)) (settled s) (panicked s) s" for d and x :: "error option"
    using inv_set_status [OF assms] snd by (simp add: wp_seq wp_set_detail wp_done sound_def)
  moreover have "wp (fail err env) (settled s) (panicked s) s" for err
    by (rule wp_fail_settled [OF snd]) simp
  moreover have "wp (runDeviceOp True (po_sess p) env) (settled s) (panicked s) ?t"
    by (rule wp_mono [OF wp_runDeviceOp_own [OF q]]) (auto intro: same_process_trans [OF same])
  moreover have "wp (trust_then_connect (po_trust p) (po_sess p) env) (settled s) (panicked s) ?t"
    by (rule wp_mono [OF wp_trust_then_connect [OF q]]) (use st in \<open>auto intro: same_process_trans [OF same]\<close>)
  ultimately show ?thesis
    using False p st snd by (simp add: auth_def wp_reading wp_seq wp_change wp_if wp_panic split: option.splits)
qed

lemma wp_teardown_error:
  assumes "service_inv s"
  shows "wp (seq (teardown d env) (seq (on_status (setError d' e now)) (done_with x))) (settled s) (panicked s) s"
  by (rule wp_mono [OF wp_teardown_setError [OF inv_sound [OF assms], where R = "panicked s"]])
    (auto dest: failed_inv failed_same)

lemma wp_authTimeout:
  assumes "service_inv s"
  shows "wp (authTimeout q env) (settled s) (panicked s) s"
  using assms wp_teardown_error [OF assms] by (auto simp: authTimeout_def wp_reading wp_done)

lemma inv_stopL3:
  assumes "service_inv s"
  shows "service_inv (stopL3 s)" "same_process s (stopL3 s)"
  using assms serving_stopL3 [of s]
  by (auto simp: service_inv_def stopL3_def same_process_def quiet_def waiting_def sound_def held_def split: State.splits)

lemma inv_stopSOCKS:
  assumes "service_inv s"
  shows "service_inv (stopSOCKS s)" "same_process s (stopSOCKS s)"
  using assms serving_stopSOCKS [of s]
  by (auto simp: service_inv_def stopSOCKS_def same_process_def quiet_def waiting_def sound_def held_def split: State.splits)

lemma wp_tunnelDown:
  assumes "service_inv s"
  shows "wp (tunnelDown gen err env) (settled s) (panicked s) s"
proof -
  have "wp (seq (change stopL3) (seq (endpoint_status True True err)
       (seq (on_status (setRetrying False)) (seq (set_detail d) (done_with (None :: error option)))))) (settled s) (panicked s) s" for d
    using inv_set_status(1) [OF inv_stopL3(1) [OF assms],
        of "setDetail d ((set_endpoint True True err (sv_status (stopL3 s)))\<lparr>st_Retrying := False, st_Failure := []\<rparr>)"]
      inv_stopL3(2) [OF assms]
    by (simp add: wp_rules)
  then show ?thesis
    using assms wp_teardown_error [OF assms] by (auto simp: tunnelDown_def wp_reading wp_done)
qed

lemma wp_tunnelRetry:
  assumes "service_inv s"
  shows "wp (tunnelRetry gen err env) (settled s) (panicked s) s"
proof -
  have "status_inv (sv_status s)" using inv_sound [OF assms] by (simp add: sound_def)
  then have "status_inv y" if "setLinkFailure d err (sv_status s) = Some y" for d y
    using status_step_inv [OF status_step.link [OF that]] by simp
  then show ?thesis
    using assms inv_set_status [OF assms] by (auto simp: tunnelRetry_def wp_rules setLinkFailure_def)
qed

lemma wp_tunnelRestored:
  assumes "service_inv s"
  shows "wp (tunnelRestored gen env) (settled s) (panicked s) s"
  using assms inv_set_status [OF assms] by (simp add: tunnelRestored_def wp_rules)

lemma wp_sessionEnded:
  assumes "service_inv s"
  shows "wp (sessionEnded sess err env) (settled s) (panicked s) s"
  using assms wp_fail_settled [OF inv_sound [OF assms]] by (simp add: sessionEnded_def wp_reading wp_if wp_done)

lemma wp_socksDown:
  assumes "service_inv s"
  shows "wp (socksDown sess socks err env) (settled s) (panicked s) s"
proof -
  let ?t = "(stopSOCKS s)\<lparr>sv_status := set_endpoint False True err (sv_status (stopSOCKS s))\<rparr>"
  have st: "status_inv (sv_status (stopSOCKS s))"
    using inv_sound [OF inv_stopSOCKS(1) [OF assms]] by (rule sound_status)
  have t: "service_inv ?t"
    by (rule inv_set_status(1) [OF inv_stopSOCKS(1) [OF assms] status_inv_set_endpoint [OF st]]) simp
  have same: "same_process s ?t" using inv_stopSOCKS(2) [OF assms] by simp
  show ?thesis
    using wp_fail_settled [OF inv_sound [OF t] same, of err env] t same assms
    by (simp add: socksDown_def wp_reading wp_if wp_seq wp_change wp_endpoint_status wp_done)
qed

lemma held_flags [simp]:
  "held (s\<lparr>sv_stopPending := b\<rparr>) = held s" "held (s\<lparr>sv_closing := b\<rparr>) = held s"
  "held (s\<lparr>sv_brSnapshot := b, sv_br := b'\<rparr>) = held s"
  by (simp_all add: held_def)

lemma inv_stopPending [simp]: "service_inv s \<Longrightarrow> service_inv (s\<lparr>sv_stopPending := b\<rparr>)"
  by (cases "st_State (sv_status s)"; simp add: service_inv_def quiet_def waiting_def serving_def sound_def)

lemma inv_closing [simp]: "service_inv s \<Longrightarrow> service_inv (s\<lparr>sv_closing := b\<rparr>)"
  by (cases "st_State (sv_status s)"; simp add: service_inv_def quiet_def waiting_def serving_def sound_def)

lemma inv_no_br:
  "service_inv s \<Longrightarrow> sv_run s = None \<Longrightarrow> service_inv (s\<lparr>sv_brSnapshot := False, sv_br := False\<rparr>)"
  by (cases "st_State (sv_status s)"; simp add: service_inv_def quiet_def waiting_def serving_def sound_def)

lemma wp_stop:
  assumes "service_inv s"
  shows "wp (stop_tunnel env)
     (\<lambda>_ s'. service_inv s' \<and> st_State (sv_status s') = StateIdle \<and> \<not> sv_stopPending s' \<and> same_process (s\<lparr>sv_stopPending := False\<rparr>) s')
     (\<lambda>_. False) s"
proof -
  let ?s = "s\<lparr>sv_stopPending := False\<rparr>"
  have inv: "service_inv ?s"
    using assms by simp
  have td: "wp (teardown ''tunnel stopped'' env)
      (\<lambda>_ s'. service_inv s' \<and> st_State (sv_status s') = StateIdle \<and> \<not> sv_stopPending s' \<and> same_process ?s s') (\<lambda>_. False) ?s"
    by (rule wp_mono [OF wp_teardown [OF inv_sound [OF inv]]]) (auto simp: service_inv_def same_process_def)
  then show ?thesis
    using inv by (simp add: stop_tunnel_def wp_seq wp_change wp_reading wp_if wp_done)
qed

lemma wp_startEndpoint:
  assumes "service_inv s"
  shows "wp (startEndpoint name env) (settled s) (panicked s) s"
proof (cases "sv_session s = None \<or> st_State (sv_status s) \<noteq> StateUp \<or> e_sessErr env \<noteq> None")
  case True
  then show ?thesis using assms by (simp add: startEndpoint_def wp_reading wp_if wp_done)
next
  case False
  then have st: "st_State (sv_status s) = StateUp" by simp
  have sv: "serving s" "sv_rootWatch s" using inv_serving [OF assms st] by auto
  let ?P = "\<lambda>t. serving t \<and> keeps s t"
  have inv: "service_inv t \<and> same_process s t" if "?P t" for t
    using that sv st by (auto simp: service_inv_def keeps_def)
  have P0: "?P s" using sv by (simp add: keeps_def)
  have fin: "wp (if err = None then seq (set_detail d) (done_with None) else done_with err) (settled s) (panicked s) t"
    if "?P t" for t d and err :: "error option"
  proof -
    have t: "service_inv t" "same_process s t" using inv [OF that] by auto
    have "status_inv (sv_status t)" using inv_sound [OF t(1)] by (rule sound_status)
    then have "service_inv (t\<lparr>sv_status := setDetail d (sv_status t)\<rparr>)"
      by (intro inv_set_status(1) [OF t(1)] status_inv_setDetail) auto
    then show ?thesis using t by (simp add: wp_seq wp_set_detail wp_done)
  qed
  have step: "wp (act_bind m (\<lambda>err. if err = None then seq (set_detail d) (done_with None) else done_with err)) (settled s) (panicked s) s"
    if "wp m (\<lambda>_. ?P) (\<lambda>_. False) s" for m :: "error option act" and d
    unfolding wp_bind by (rule wp_mono [OF that]) (use fin in blast)+
  have ends: "wp (startSOCKS env) (\<lambda>_. ?P) (\<lambda>_. False) s" "wp (startL3 env) (\<lambda>_. ?P) (\<lambda>_. False) s"
    "wp (done_with x) (\<lambda>_. ?P) (\<lambda>_. False) s" for x :: "error option"
    using wp_endpoints_keep [OF P0] P0 by (simp_all add: wp_done)
  show ?thesis
    using False unfolding startEndpoint_def wp_reading
    by (simp del: not_None_eq, intro impI conjI step) (simp_all add: ends)
qed

lemma wp_stopEndpoint:
  assumes "service_inv s"
  shows "wp (stopEndpoint name) (settled s) (panicked s) s"
proof -
  let ?l3 = "(stopL3 s)\<lparr>sv_brSnapshot := False, sv_br := False\<rparr>"
  have l3: "service_inv ?l3"
    by (rule inv_no_br [OF inv_stopL3(1) [OF assms]]) (simp add: stopL3_def)
  have l3s: "same_process s ?l3" by (simp add: stopL3_def same_process_def)
  have set: "service_inv (t\<lparr>sv_status := setDetail d ((set_endpoint w b e (sv_status t)))\<rparr>)"
    "service_inv (t\<lparr>sv_status := setDetail d ((set_endpoint w b e (sv_status t))\<lparr>st_Retrying := False, st_Failure := []\<rparr>)\<rparr>)"
    if t: "service_inv t" for t d w b e
    using sound_status [OF inv_sound [OF t]] by (auto intro!: inv_set_status(1) [OF t])
  show ?thesis
    using set(2) [OF l3, of "''endpoint stopped''" True False None] l3s
      set(1) [OF inv_stopSOCKS(1) [OF assms], of "''endpoint stopped''" False False None] inv_stopSOCKS(2) [OF assms] assms
    by (simp add: stopEndpoint_def wp_seq wp_change wp_endpoint_status wp_set_detail wp_on_status wp_done wp_if)
qed

section \<open>Runs of the actor\<close>

lemma wp_run_command:
  assumes "service_inv s"
  shows "wp (run_command c env) inv_post (sound {}) s"
proof (cases c)
  case Stop
  then show ?thesis using wp_mono [OF wp_stop [OF assms]] by simp
qed (use assms in \<open>auto intro!: wp_start wp_devices intro: wp_settled wp_auth wp_authTimeout wp_tunnelDown wp_tunnelRetry
  wp_tunnelRestored wp_sessionEnded wp_socksDown wp_startEndpoint wp_stopEndpoint\<close>)

lemma recover_returns:
  assumes "sound {} s" "recover env s = (r, s')"
  shows "r = Some (Some errInternal) \<and> failed_state {} s s'"
  using wp_teardown_setError [OF assms(1), of "[]" env "''internal error''" "Some errInternal" "e_now env" "Some errInternal" "\<lambda>_. False"]
    assms(2)
  by (auto simp: recover_def wp_def split: option.splits)

lemma dispatch_keeps_inv:
  assumes "service_inv s" "dispatch c late env s = (r, s')"
  shows "service_inv s' \<and> r \<noteq> None"
proof -
  obtain q t where run: "run_command c env s = (q, t)" by (cases "run_command c env s")
  have "service_inv s' \<and> r \<noteq> None" if "recover env t = (r, s')" "q = None"
    using wp_run_command [OF assms(1), of c env] recover_returns [OF _ that(1)] run that(2)
    by (auto simp: wp_def dest: failed_inv)
  moreover have "service_inv t" if "q \<noteq> None"
    using wp_run_command [OF assms(1), of c env] run that by (auto simp: wp_def)
  ultimately show ?thesis
    using assms run by (auto simp: dispatch_def split: if_splits option.splits)
qed

lemma shut_down_quiet:
  assumes "service_inv s" "shut_down env s = (r, s')"
  shows "r = Some () \<and> quiet {} s' \<and> st_State (sv_status s') = StateIdle \<and> \<not> sv_br s' \<and> sv_opened s' = sv_opened s"
proof -
  have "wp (shut_down env) (\<lambda>_ t. quiet {} t \<and> st_State (sv_status t) = StateIdle \<and> \<not> sv_br t \<and> sv_opened t = sv_opened s) (\<lambda>_. False) s"
    unfolding shut_down_def wp_seq wp_change
    by (rule wp_mono [OF wp_teardown [OF inv_sound [OF assms(1)]]])
      (auto simp: quiet_def sound_def held_def same_process_def)
  then show ?thesis using assms(2) by (auto simp: wp_def split: option.splits)
qed

lemma new_service_inv: "service_inv (new_service wg sk user pass i now wgErr sock)"
proof -
  have st: "status_inv (newStatusStore i now)" "st_State (newStatusStore i now) = StateIdle"
    by (simp_all add: newStatusStore_def status_inv_def)
  show ?thesis
    by (simp add: service_inv_def new_service_def Let_def st quiet_def sound_def held_def)
qed

lemma service_step_inv: "service_step s s' \<Longrightarrow> service_inv s \<Longrightarrow> service_inv s'"
proof (induction rule: service_step.induct)
  case (command c late env s r s')
  then show ?case using dispatch_keeps_inv by blast
next
  case (loop_end s env r s')
  then show ?case using shut_down_quiet [of s env r s'] by (auto simp: service_inv_def)
qed (simp_all add: request_stop_def request_close_def)

lemma reachable_inv:
  assumes "service_step\<^sup>*\<^sup>* (new_service wg sk user pass i now wgErr sock) s"
  shows "service_inv s"
  using assms by (induction rule: rtranclp_induct) (auto simp: new_service_inv intro: service_step_inv)

text \<open>A command that neither logs in nor stops leaves the logins and the flags alone.\<close>

lemma wp_other_command:
  assumes "service_inv s" "\<not> is_login c" "c \<noteq> Stop"
  shows "wp (run_command c env) (settled s) (panicked s) s"
  using assms by (cases c) (auto intro: wp_authTimeout wp_tunnelDown wp_tunnelRetry
      wp_tunnelRestored wp_sessionEnded wp_socksDown wp_stopEndpoint)

lemma run_command_opened:
  assumes "service_inv s" "\<not> is_login c" "run_command c env s = (q, t)"
  shows "sv_opened t = sv_opened s \<and> sound {} t \<and> (c \<noteq> Stop \<longrightarrow> sv_stopPending t = sv_stopPending s) \<and> sv_closing t = sv_closing s"
proof (cases "c = Stop")
  case True
  then show ?thesis using wp_stop [OF assms(1), of env] assms(3) inv_sound
    by (auto simp: wp_def same_process_def split: option.splits)
next
  case False
  then show ?thesis using wp_other_command [OF assms(1,2) False, of env] assms(3) inv_sound
    by (auto simp: wp_def same_process_def split: option.splits)
qed

lemma dispatch_opened:
  assumes "service_inv s" "sv_stopPending s \<or> sv_closing s" "dispatch c late env s = (r, s')"
  shows "sv_opened s' = sv_opened s"
proof -
  obtain q t where run: "run_command c env s = (q, t)" by (cases "run_command c env s")
  have "\<not> is_login c" if "is_report c" using that by (cases c) auto
  then show ?thesis
    using run_command_opened [OF assms(1) _ run] recover_returns [of t env] assms(2,3) run
    by (auto simp: dispatch_def failed_state_def same_process_def split: if_splits option.splits prod.splits)
qed

section \<open>Properties of the actor\<close>

definition example_identity :: Identity where
  "example_identity = \<lparr>id_PID = 1, id_ConfigPath = [], id_Endpoint = [], id_Username = []\<rparr>"

text \<open>Every call succeeds; the login is the session 7.\<close>

definition sv_example_env :: sv_env where
  "sv_example_env =
     \<lparr>e_now = 5, e_text = (\<lambda>_. ''failed''), e_client = None, e_connect = (Some 7, None), e_open = (Some 7, None), e_auth = None,
      e_prompt = [], e_trust = None, e_device = Inr ''done'', e_bearer = None, e_startL3 = None, e_attach = None,
      e_newSocks = Inr 3, e_socksStart = Socks_started, e_ctx = (\<lambda>_. None), e_sessErr = None, e_runEnded = False,
      e_socksEnded = False, e_logout = (\<lambda>_. None)\<rparr>"

definition sv_example_idle :: Service where
  "sv_example_idle = new_service True True ''user'' ''word'' example_identity 0 None (Inr 2)"

definition sv_example_up :: Service where
  "sv_example_up = snd (dispatch (Start False []) None sv_example_env sv_example_idle)"

lemma sv_example_up_reachable: "service_step\<^sup>*\<^sup>* sv_example_idle sv_example_up"
  unfolding sv_example_up_def
  by (rule r_into_rtranclp, rule service_step.command) (rule prod.collapse [symmetric])

lemma held_at_most_one:
  assumes "service_inv s"
  shows "finite (held s) \<and> card (held s) \<le> 1"
proof -
  have "sv_session s = None \<or> sv_pending s = None"
    using assms by (cases "st_State (sv_status s)") (simp_all add: service_inv_def quiet_def waiting_def serving_def)
  moreover have "finite (set_option x) \<and> card (set_option x) \<le> 1" for x :: "nat option"
    by (cases x) simp_all
  ultimately show ?thesis
    by (cases "sv_session s"; cases "sv_pending s") (simp_all add: held_def)
qed

text \<open>C26: in every state the actor reaches, whatever the network answers, whatever panics inside a handler and
  however commands, reports, stop and close requests are interleaved, the service is idle or failed with nothing running and
  nothing held, or waits for a code with the half-finished login held and the timer of this round
  running, or is up with a session whose tasks are those of the current generation; and no
  command, nor the recovery from a panic, takes the actor down.\<close>

theorem service_invariant:
  assumes "service_step\<^sup>*\<^sup>* (new_service wg sk user pass i now wgErr sock) s"
  shows "service_inv s \<and> fst (dispatch c late env s) \<noteq> None"
  using reachable_inv [OF assms] dispatch_keeps_inv [OF reachable_inv [OF assms], of c late env] by (cases "dispatch c late env s") auto

theorem service_invariant_witness:
  "service_inv sv_example_up \<and> fst (dispatch Stop None sv_example_env sv_example_up) \<noteq> None \<and>
   st_State (sv_status sv_example_up) = StateUp \<and> sv_run sv_example_up \<noteq> None"
proof -
  have "st_State (sv_status sv_example_up) = StateUp" by code_simp
  moreover have "sv_run sv_example_up = Some 3" by code_simp
  ultimately show ?thesis
    using service_invariant [of True True "''user''" "''word''" example_identity 0 None "Inr 2" sv_example_up Stop None sv_example_env]
      sv_example_up_reachable
    unfolding sv_example_idle_def [symmetric] by simp
qed

text \<open>C27: no login is ever lost. At most one campus login is outstanding between commands, the one the service holds;
  when it is idle or failed every login it obtained was closed, and so it is when the process ends.\<close>

theorem logins_accounted:
  assumes "service_step\<^sup>*\<^sup>* (new_service wg sk user pass i now wgErr sock) s"
  shows "set (sv_opened s) - set (sv_released s) \<subseteq> held s \<and> card (set (sv_opened s) - set (sv_released s)) \<le> 1 \<and>
    (st_State (sv_status s) = StateIdle \<or> st_State (sv_status s) = StateError \<longrightarrow> set (sv_opened s) \<subseteq> set (sv_released s)) \<and>
    (let s' = snd (shut_down env s) in set (sv_opened s) \<subseteq> set (sv_released s'))"
proof -
  have inv: "service_inv s" by (rule reachable_inv [OF assms])
  have sub: "set (sv_opened s) - set (sv_released s) \<subseteq> held s"
    using inv_sound [OF inv] by (auto simp: sound_def)
  moreover have "card (set (sv_opened s) - set (sv_released s)) \<le> 1"
    using held_at_most_one [OF inv] card_mono [OF _ sub] by fastforce
  moreover have "st_State (sv_status s) = StateIdle \<or> st_State (sv_status s) = StateError \<Longrightarrow> held s = {}"
    using inv_quiet [OF inv] by (auto simp: quiet_def held_def)
  moreover have "set (sv_opened s) \<subseteq> set (sv_released (snd (shut_down env s)))"
    using shut_down_quiet [OF inv, of env] by (cases "shut_down env s") (auto simp: quiet_def sound_def held_def)
  ultimately show ?thesis by (auto simp: Let_def)
qed

theorem logins_accounted_witness:
  "set (sv_opened sv_example_up) = {7} \<and> set (sv_opened sv_example_up) - set (sv_released sv_example_up) \<subseteq> held sv_example_up \<and>
   set (sv_opened sv_example_up) \<subseteq> set (sv_released (snd (shut_down sv_example_env sv_example_up)))"
proof -
  have "set (sv_opened sv_example_up) = {7}" by code_simp
  then show ?thesis
    using logins_accounted [of True True "''user''" "''word''" example_identity 0 None "Inr 2" sv_example_up sv_example_env]
      sv_example_up_reachable
    unfolding sv_example_idle_def [symmetric] by (simp add: Let_def)
qed

text \<open>C28: once a stop is requested, or the process is closing, no command that was queued before obtains a login any more;
  and the stop command itself, when it is taken, leaves the service idle with every login closed and
  the request cleared.\<close>

theorem stop_request_wins:
  assumes "service_step\<^sup>*\<^sup>* (new_service wg sk user pass i now wgErr sock) s" "sv_stopPending s \<or> sv_closing s"
  shows "sv_opened (snd (dispatch c late env s)) = sv_opened s \<and>
    (\<not> sv_closing s \<longrightarrow> (let s' = snd (dispatch Stop None env s) in
       st_State (sv_status s') = StateIdle \<and> set (sv_opened s) \<subseteq> set (sv_released s') \<and> \<not> sv_stopPending s'))"
proof -
  have inv: "service_inv s" by (rule reachable_inv [OF assms(1)])
  have "sv_opened (snd (dispatch c late env s)) = sv_opened s"
    using dispatch_opened [OF inv assms(2), of c late env] by (cases "dispatch c late env s") auto
  moreover have "st_State (sv_status s') = StateIdle \<and> set (sv_opened s) \<subseteq> set (sv_released s') \<and> \<not> sv_stopPending s'"
    if "dispatch Stop None env s = (r, s')" "\<not> sv_closing s" for r s'
  proof -
    obtain q t where run: "stop_tunnel env s = (q, t)" by (cases "stop_tunnel env s")
    have t: "service_inv t" "st_State (sv_status t) = StateIdle" "\<not> sv_stopPending t" "sv_opened t = sv_opened s" "q \<noteq> None"
      using wp_stop [OF inv, of env] run by (auto simp: wp_def same_process_def split: option.splits)
    have "s' = t" using that run t(5) by (auto simp: dispatch_def)
    moreover have "quiet {} t" using inv_quiet [OF t(1)] t(2) by simp
    ultimately show ?thesis using t by (auto simp: quiet_def sound_def held_def)
  qed
  ultimately show ?thesis by (cases "dispatch Stop None env s") (auto simp: Let_def)
qed

theorem stop_request_wins_witness:
  "sv_opened (snd (dispatch (Devices True False ''w'') None sv_example_env (request_stop sv_example_up))) = [7] \<and>
   st_State (sv_status (snd (dispatch Stop None sv_example_env (request_stop sv_example_up)))) = StateIdle"
proof -
  have "sv_opened (request_stop sv_example_up) = [7]" by code_simp
  moreover have "service_step\<^sup>*\<^sup>* sv_example_idle (request_stop sv_example_up)"
    using sv_example_up_reachable service_step.stop by (rule rtranclp.rtrancl_into_rtrancl)
  moreover have "\<not> sv_closing (request_stop sv_example_up)" by code_simp
  ultimately show ?thesis
    using stop_request_wins [of True True "''user''" "''word''" example_identity 0 None "Inr 2" "request_stop sv_example_up"
        "Devices True False ''w''" None sv_example_env]
    unfolding sv_example_idle_def [symmetric] by (simp add: Let_def request_stop_def)
qed

end
