(* ===== verification/Ipc_Props.thy ===== *)
theory Ipc_Props
  imports Ipc
begin

text \<open>
  The line protocol: reading a line does not depend on the buffer, requests and responses survive the
  way to the other side, and a client sends its request only to the service of its own
  configuration.
\<close>

section \<open>Lines\<close>

abbreviation nl :: char where "nl \<equiv> CHR 0x0A"

text \<open>What reading a line means: the line up to its newline when it is within the limit.\<close>

definition line_spec :: "int \<Rightarrow> string \<Rightarrow> ipc_error + string \<times> string" where
  "line_spec limit s =
     (let l = takeWhile (\<lambda>c. c \<noteq> nl) s in
      if nl \<in> set s then
        (if len l + 1 \<le> limit then Inr (l @ [nl], drop (length l + 1) s) else Inl ErrLineTooLong)
      else if len s > limit then Inl ErrLineTooLong else Inl (IpcIO (IOError EOF)))"

lemma takeWhile_nl: "takeWhile (\<lambda>c. c \<noteq> nl) s = s \<longleftrightarrow> nl \<notin> set s"
  by (auto simp: takeWhile_eq_all_conv)

lemma takeWhile_drop:
  "n \<le> length (takeWhile P s) \<Longrightarrow> takeWhile P s = take n s @ takeWhile P (drop n s)"
proof (induction s arbitrary: n)
  case (Cons c s)
  then show ?case by (cases n) (auto split: if_splits)
qed simp

lemma readLine_loop_spec:
  "readLine_loop limit acc s = (case line_spec (limit - len acc) s of Inl e \<Rightarrow> Inl e | Inr (l, r) \<Rightarrow> Inr (acc @ l, r))"
  if "len acc \<le> limit"
  using that
proof (induction limit acc s rule: readLine_loop.induct)
  case (1 limit acc s)
  let ?l = "takeWhile (\<lambda>c. c \<noteq> nl) s"
  have tw: "?l \<noteq> s \<longleftrightarrow> nl \<in> set s" using takeWhile_nl by blast
  show ?case
  proof (cases "length ?l < bufferSize \<and> ?l \<noteq> s")
    case True
    then have "ReadSlice s = (?l @ [nl], drop (length ?l + 1) s, Slice_line)" by (simp add: ReadSlice_def Let_def)
    then show ?thesis using True tw by (subst readLine_loop.simps) (simp add: line_spec_def Let_def)
  next
    case F: False
    show ?thesis
    proof (cases "length s \<ge> bufferSize")
      case True
      have big: "bufferSize \<le> length ?l"
        using F True by (metis not_less)
      have r: "ReadSlice s = (take bufferSize s, drop bufferSize s, Slice_full)" using F True by (simp add: ReadSlice_def Let_def)
      have t: "?l = take bufferSize s @ takeWhile (\<lambda>c. c \<noteq> nl) (drop bufferSize s)" using takeWhile_drop [OF big] .
      have m: "nl \<in> set s \<longleftrightarrow> nl \<in> set (drop bufferSize s)"
      proof -
        have "set (take bufferSize s) \<subseteq> set ?l" using t by (metis set_append Un_upper1)
        then have "nl \<notin> set (take bufferSize s)" by (auto dest: set_takeWhileD)
        then show ?thesis by (metis append_take_drop_id Un_iff set_append)
      qed
      have ls: "len (take bufferSize s) = int bufferSize" using True by simp
      show ?thesis
      proof (cases "len acc + len (take bufferSize s) > limit")
        case True
        have "len ?l \<ge> int bufferSize" "len s \<ge> int bufferSize" using big \<open>length s \<ge> bufferSize\<close> by simp_all
        then have "line_spec (limit - len acc) s = Inl ErrLineTooLong" using True ls by (auto simp: line_spec_def Let_def)
        then show ?thesis using True r by (subst readLine_loop.simps) simp
      next
        case False
        then have "readLine_loop limit acc s = readLine_loop limit (acc @ take bufferSize s) (drop bufferSize s)"
          using r by (subst readLine_loop.simps) simp
        also have "\<dots> = (case line_spec (limit - len (acc @ take bufferSize s)) (drop bufferSize s) of
            Inl e \<Rightarrow> Inl e | Inr (l, q) \<Rightarrow> Inr ((acc @ take bufferSize s) @ l, q))"
          using "1.IH" [OF r [symmetric] refl False refl] False by simp
        also have "\<dots> = (case line_spec (limit - len acc) s of Inl e \<Rightarrow> Inl e | Inr (l, q) \<Rightarrow> Inr (acc @ l, q))"
          using t m True ls by (auto simp: line_spec_def Let_def algebra_simps of_nat_diff)
        finally show ?thesis .
      qed
    next
      case False
      then have "nl \<notin> set s" "ReadSlice s = (s, [], Slice_eof)"
        using F tw le_less_trans [OF length_takeWhile_le, of s bufferSize "\<lambda>c. c \<noteq> nl"]
        by (auto simp: ReadSlice_def Let_def)
      then show ?thesis by (subst readLine_loop.simps) (auto simp: line_spec_def Let_def)
    qed
  qed
qed

lemma readLine_spec: "0 \<le> limit \<Longrightarrow> readLine limit s = line_spec limit s"
  unfolding readLine_def by (subst readLine_loop_spec) (auto split: sum.splits)

lemma readLine_line:
  assumes "nl \<notin> set l" "len l + 1 \<le> limit"
  shows "readLine limit (l @ nl # r) = Inr (l @ [nl], r)"
proof -
  have "takeWhile (\<lambda>c. c \<noteq> nl) (l @ nl # r) = l" using assms(1) by (auto simp: takeWhile_append)
  then show ?thesis using assms readLine_spec [of limit] by (simp add: line_spec_def Let_def)
qed

section \<open>Requests\<close>

text \<open>A text without white space that no character of it starts.\<close>

definition solid :: "string \<Rightarrow> bool" where
  "solid s \<longleftrightarrow> s \<noteq> [] \<and> list_all (code_in 0x21 0x7E) s"

lemma space_len_solid: "code_in 0x21 0x7E c \<Longrightarrow> space_len (c # r) = 0 \<and> utf8_len (c # r) = 1"
proof -
  assume c: "code_in 0x21 0x7E c"
  have u: "utf8_len (c # r) = 1"
    using c by (cases "(c # r)" rule: utf8_len.cases) (auto simp: code_in_def)
  have "[c] \<notin> set space_runes"
  proof
    assume "[c] \<in> set space_runes"
    moreover have "list_all (\<lambda>s. \<not> (length s = 1 \<and> list_all (code_in 0x21 0x7E) s)) space_runes" by code_simp
    ultimately show False using c by (force simp: list_all_iff)
  qed
  then show ?thesis using u by (simp add: space_len_def Let_def)
qed

lemma fields_solid: "list_all (code_in 0x21 0x7E) s \<Longrightarrow> fields_loop cur (s @ r) = fields_loop (cur @ s) r"
proof (induction s arbitrary: cur)
  case (Cons c s)
  then have "space_len (c # s @ r) = 0" "utf8_len (c # s @ r) = 1" using space_len_solid by auto
  then show ?case using Cons by (subst fields_loop.simps) (simp add: Let_def)
qed simp

lemma fields_space: "fields_loop cur (CHR '' '' # r) = (if cur = [] then [] else [cur]) @ fields_loop [] r"
  and fields_nl: "fields_loop cur (nl # r) = (if cur = [] then [] else [cur]) @ fields_loop [] r"
proof -
  have u: "utf8_len (CHR '' '' # r) = 1" "utf8_len (nl # r) = 1"
    by (cases "(CHR '' '' # r)" rule: utf8_len.cases; simp add: code_in_def)
      (cases "(nl # r)" rule: utf8_len.cases; simp add: code_in_def)
  have "CHR '' '' # [] \<in> set space_runes" "nl # [] \<in> set space_runes" by code_simp+
  then have "space_len (CHR '' '' # r) = 1" "space_len (nl # r) = 1" using u by (simp_all add: space_len_def Let_def)
  then show "fields_loop cur (CHR '' '' # r) = (if cur = [] then [] else [cur]) @ fields_loop [] r"
    and "fields_loop cur (nl # r) = (if cur = [] then [] else [cur]) @ fields_loop [] r"
    by (subst fields_loop.simps, simp add: Let_def)+
qed

lemma fields_nil [simp]: "fields_loop cur [] = (if cur = [] then [] else [cur])"
  by (subst fields_loop.simps) simp

lemma fields_join:
  assumes "list_all solid parts" "parts \<noteq> []"
  shows "Fields (join '' '' parts) = parts"
  unfolding Fields_def
  using assms
proof (induction "'' ''" parts rule: join.induct)
  case (2 s)
  then show ?case using fields_solid [of s "[]" "[]"] by (simp add: solid_def)
next
  case (3 s t r)
  then have "list_all (code_in 0x21 0x7E) s" "s \<noteq> []" by (auto simp: solid_def)
  then show ?case using 3 fields_solid [of s "[]" "'' '' @ join '' '' (t # r)"] by (simp add: fields_space)
qed simp

lemma no_space_prefix:
  assumes "code_in 0x21 0x7E c"
  shows "List.find (\<lambda>p. prefix p (c # r)) space_runes = None" "List.find (\<lambda>p. prefix p (c # r)) (map rev space_runes) = None"
proof -
  have "list_all (\<lambda>s. s \<noteq> [] \<and> \<not> code_in 0x21 0x7E (hd s)) (space_runes @ map rev space_runes)" by code_simp
  then have h: "p \<noteq> [] \<and> \<not> code_in 0x21 0x7E (hd p)" if "p \<in> set space_runes \<or> p \<in> set (map rev space_runes)" for p
    using that by (auto simp only: list_all_iff set_append Un_iff)
  have "\<not> prefix p (c # r)" if "p \<in> set space_runes \<or> p \<in> set (map rev space_runes)" for p
    using h [OF that] assms by (cases p) auto
  then show "List.find (\<lambda>p. prefix p (c # r)) space_runes = None" "List.find (\<lambda>p. prefix p (c # r)) (map rev space_runes) = None"
    by (auto simp: find_None_iff)
qed

lemma trim_solid:
  assumes "code_in 0x21 0x7E c"
  shows "trim_by n space_runes (c # r) = c # r" "trim_by n (map rev space_runes) (c # r) = c # r"
  using no_space_prefix [OF assms, of r] by (cases n; simp)+

lemma TrimSpace_line:
  assumes "s = c # r" "code_in 0x21 0x7E c" "code_in 0x21 0x7E (last s)"
  shows "TrimSpace (s @ [nl]) = s"
proof -
  have "s \<noteq> []" using assms(1) by simp
  then have d: "rev s = last s # rev (butlast s)" by (metis append_butlast_last_id rev.simps(2) rev_rev_ident rev_swap)
  have t: "trim_by (length s) (map rev space_runes) (rev s) = rev s" unfolding d by (rule trim_solid(2) [OF assms(3)])
  have "prefix [nl] (nl # rev s)" by simp
  moreover have "List.find (\<lambda>p. prefix p (nl # rev s)) (map rev space_runes) = Some [nl]"
    by (simp add: space_runes_def)
  ultimately have "trim_by (length (s @ [nl])) (map rev space_runes) (nl # rev s) = rev s"
    using t by simp
  moreover have "trim_by (length (s @ [nl])) space_runes (s @ [nl]) = s @ [nl]"
    using trim_solid [OF assms(2)] assms(1) by simp
  ultimately show ?thesis by (simp add: TrimSpace_def Let_def)
qed

lemma join_ends:
  assumes "list_all solid parts" "parts \<noteq> []"
  shows "\<exists>c r. join '' '' parts = c # r \<and> code_in 0x21 0x7E c \<and> code_in 0x21 0x7E (last (join '' '' parts))"
  using assms
proof (induction "'' ''" parts rule: join.induct)
  case (2 s)
  then show ?case by (cases s) (auto simp: solid_def list_all_iff split: if_splits)
next
  case (3 s t r)
  then obtain c q where s: "s = c # q" "code_in 0x21 0x7E c" by (cases s) (auto simp: solid_def)
  with 3 show ?case by auto
qed simp

lemma parse_request_line: "list_all solid (c # args) \<Longrightarrow> ParseRequest (join '' '' (c # args) @ [nl]) = Inr \<lparr>rq_Command = c, rq_Args = args\<rparr>"
  using join_ends [of "c # args"] TrimSpace_line fields_join [of "c # args"] by (fastforce simp: ParseRequest_def)

lemma solid_no_nl: "list_all solid parts \<Longrightarrow> nl \<notin> set (join '' '' parts)"
proof (induction "'' ''" parts rule: join.induct)
  case (2 s)
  then show ?case by (auto simp: solid_def list_all_iff code_in_def)
next
  case (3 s t r)
  then show ?case by (auto simp: solid_def list_all_iff code_in_def)
qed simp

lemma solid_part_ok: "solid s \<Longrightarrow> \<not> bad_part s"
  by (auto simp: solid_def bad_part_def list_all_iff list_ex_iff code_in_def)

text \<open>A request whose parts are printable ASCII is read back unchanged.\<close>

lemma request_roundtrip:
  assumes "list_all solid (rq_Command req # rq_Args req)" "len (join '' '' (rq_Command req # rq_Args req)) < MaxLineBytes"
  shows "\<exists>line. WriteRequest req = Inr line \<and> (\<forall>rest. ReadRequest (line @ rest) = Inr (req, rest))"
proof -
  let ?parts = "rq_Command req # rq_Args req"
  have w: "WriteRequest req = Inr (join '' '' ?parts @ [nl])"
  proof -
    have "\<not> list_ex bad_part ?parts" using assms(1) solid_part_ok by (auto simp: list_ex_iff list_all_iff)
    then show ?thesis using assms(2) by (simp add: WriteRequest_def Let_def)
  qed
  have "ReadRequest ((join '' '' ?parts @ [nl]) @ rest) = Inr (req, rest)" for rest
    using readLine_line [OF solid_no_nl [OF assms(1)], of MaxLineBytes rest] assms parse_request_line [OF assms(1)]
    by (simp add: ReadRequest_def)
  then show ?thesis using w by blast
qed

text \<open>The writer refuses white space only in ASCII, the reader splits at every white space of Unicode: an
  argument with a no-break space is accepted and arrives as two.\<close>

lemma unicode_space_splits:
  defines "arg \<equiv> [CHR ''a'', CHR 0xC2, CHR 0xA0, CHR ''b'']"
  shows "\<exists>line. WriteRequest \<lparr>rq_Command = ''auth'', rq_Args = [arg]\<rparr> = Inr line \<and>
    ReadRequest line = Inr (\<lparr>rq_Command = ''auth'', rq_Args = [''a'', ''b'']\<rparr>, [])"
proof -
  let ?line = "''auth '' @ arg @ [nl]"
  have w: "WriteRequest \<lparr>rq_Command = ''auth'', rq_Args = [arg]\<rparr> = Inr ?line"
    by (simp add: WriteRequest_def arg_def bad_part_def code_in_def Let_def)
  have "Fields (TrimSpace ?line) = [''auth'', ''a'', ''b'']" unfolding arg_def by code_simp
  moreover have "readLine MaxLineBytes (''auth '' @ arg @ nl # []) = Inr (?line, [])"
    using readLine_line [of "''auth '' @ arg" MaxLineBytes "[]"] by (simp add: arg_def)
  ultimately show ?thesis using w by (simp add: ReadRequest_def ParseRequest_def)
qed

section \<open>Responses\<close>

lemma sanitize_no_newline: "c \<in> set (sanitize s) \<Longrightarrow> c \<noteq> CHR 0x0D \<and> c \<noteq> nl"
  by (auto simp: sanitize_def)

lemma sanitize_length [simp]: "length (sanitize s) = length s"
  by (simp add: sanitize_def)

lemma trim_newlines_line: "(\<And>c. c \<in> set s \<Longrightarrow> c \<noteq> CHR 0x0D \<and> c \<noteq> nl) \<Longrightarrow> trim_newlines (s @ [nl]) = s"
proof -
  assume a: "\<And>c. c \<in> set s \<Longrightarrow> c \<noteq> CHR 0x0D \<and> c \<noteq> nl"
  have "dropWhile (\<lambda>c. c = CHR 0x0D \<or> c = nl) (rev s) = rev s"
    using a by (cases s rule: rev_cases) auto
  then show ?thesis by (simp add: trim_newlines_def)
qed

lemma int_str_code:
  assumes "100 \<le> n" "n \<le> 9999"
  shows "3 \<le> length (int_str n)" "length (int_str n) \<le> 4" "list_all is_digit (int_str n)" "Atoi (int_str n) = Some n"
proof -
  have i: "int_str n = nat_str (nat n)" using assms by (simp add: int_str_def)
  have d: "list_all is_digit (nat_str (nat n))" by (rule nat_str_digits)
  have l: "length (nat_str (nat n)) \<le> 4" using nat_str_length [of 4 "nat n"] assms by simp
  have big: "3 \<le> length (nat_str m)" if "100 \<le> m" for m
  proof -
    have "nat_str m = nat_str (m div 10) @ [digit_char (m mod 10)]" "nat_str (m div 10) = nat_str (m div 10 div 10) @ [digit_char (m div 10 mod 10)]"
      using that by (subst nat_str.simps, simp)+
    moreover have "nat_str (m div 10 div 10) \<noteq> []" by (subst nat_str.simps) simp
    ultimately show ?thesis by (cases "nat_str (m div 10 div 10)") auto
  qed
  have "100 \<le> nat n" using assms by simp
  note b = big [OF this]
  show "3 \<le> length (int_str n)" "length (int_str n) \<le> 4" "list_all is_digit (int_str n)" using b l d i by simp_all
  obtain c r where cr: "nat_str (nat n) = c # r" using b by (cases "nat_str (nat n)") auto
  have "c \<noteq> CHR ''-''" "c \<noteq> CHR ''+''" using d cr by (auto simp: is_digit_def code_in_def)
  then show "Atoi (int_str n) = Some n"
    using d cr digits_val_nat_str [of "nat n"] assms by (simp add: Atoi_def i all_digits_def Let_def)
qed

definition sent_response :: "Response \<Rightarrow> Response" where
  "sent_response r =
     (if len (int_str (rs_Code r)) + len (rs_Message r) + 2 > MaxLineBytes then \<lparr>rs_Code = CodeServerError, rs_Message = too_long_text\<rparr>
      else \<lparr>rs_Code = rs_Code r, rs_Message = sanitize (rs_Message r)\<rparr>)"

lemma parse_line:
  assumes "100 \<le> n" "n \<le> 9999" "\<And>c. c \<in> set m \<Longrightarrow> c \<noteq> CHR 0x0D \<and> c \<noteq> nl"
    and "len (int_str n) + len m + 2 \<le> MaxLineBytes"
  shows "ReadResponse ((int_str n @ '' '' @ m @ [nl]) @ rest) = Inr (\<lparr>rs_Code = n, rs_Message = m\<rparr>, rest)"
proof -
  note c = int_str_code [OF assms(1,2)]
  have d: "x \<noteq> CHR '' '' \<and> x \<noteq> CHR 0x0D \<and> x \<noteq> nl" if "x \<in> set (int_str n)" for x
    using c(3) that by (auto simp: list_all_iff is_digit_def code_in_def)
  let ?l = "int_str n @ '' '' @ m"
  have no: "x \<noteq> CHR 0x0D \<and> x \<noteq> nl" if "x \<in> set ?l" for x using d assms(3) that by auto
  have "readLine MaxLineBytes (?l @ nl # rest) = Inr (?l @ [nl], rest)"
    using no assms(4) by (intro readLine_line) auto
  note line = this
  have "takeWhile (\<lambda>c. c \<noteq> CHR '' '') ?l = int_str n" using d by (subst takeWhile_append2) auto
  moreover have "trim_newlines (?l @ [nl]) = ?l" using no by (rule trim_newlines_line)
  ultimately have "ParseResponse (?l @ [nl]) = Inr \<lparr>rs_Code = n, rs_Message = m\<rparr>"
    using c unfolding ParseResponse_def Let_def by simp
  then show ?thesis using line by (simp add: ReadResponse_def)
qed

text \<open>A response is one line within the limit and is read back as it was sent: the message on one line, or
  the fixed refusal when it was too long.\<close>

lemma response_roundtrip:
  assumes "100 \<le> rs_Code r" "rs_Code r \<le> 9999"
  shows "ReadResponse (FormatResponse r @ rest) = Inr (sent_response r, rest)"
proof (cases "len (int_str (rs_Code r)) + len (rs_Message r) + 2 > MaxLineBytes")
  case True
  have t: "c \<noteq> CHR 0x0D \<and> c \<noteq> nl" if "c \<in> set too_long_text" for c
  proof -
    have "list_all (\<lambda>c. c \<noteq> CHR 0x0D \<and> c \<noteq> nl) too_long_text" by code_simp
    then show ?thesis using that by (simp add: list_all_iff)
  qed
  have "length (int_str CodeServerError) = 3" "length too_long_text = 24" by code_simp+
  then have "len (int_str CodeServerError) + len too_long_text + 2 \<le> MaxLineBytes" by simp
  from parse_line [OF _ _ t this, of rest] True show ?thesis by (simp add: FormatResponse_def sent_response_def Let_def)
next
  case False
  have m: "c \<noteq> CHR 0x0D \<and> c \<noteq> nl" if "c \<in> set (sanitize (rs_Message r))" for c
    using that by (rule sanitize_no_newline)
  show ?thesis
    using False parse_line [OF assms, of "sanitize (rs_Message r)" rest, OF m] by (simp add: FormatResponse_def sent_response_def Let_def)
qed

section \<open>Secrets\<close>

lemma char_sextet_char:
  assumes "n \<in> {0..63}"
  shows "char_sextet (sextet_char n) = Some n" "sextet_char n \<noteq> CHR ''=''" "sextet_char n \<noteq> CHR 0x0D" "sextet_char n \<noteq> nl"
proof -
  have "list_all (\<lambda>n. char_sextet (sextet_char n) = Some n \<and> sextet_char n \<noteq> CHR ''='' \<and>
    sextet_char n \<noteq> CHR 0x0D \<and> sextet_char n \<noteq> nl) [0..63]" by code_simp
  then have "\<forall>n\<in>{0..63}. char_sextet (sextet_char n) = Some n \<and> sextet_char n \<noteq> CHR ''='' \<and>
    sextet_char n \<noteq> CHR 0x0D \<and> sextet_char n \<noteq> nl" by (simp only: list_all_iff set_upto)
  with assms show "char_sextet (sextet_char n) = Some n" "sextet_char n \<noteq> CHR ''=''" "sextet_char n \<noteq> CHR 0x0D" "sextet_char n \<noteq> nl"
    by blast+
qed

lemma code_range: "0 \<le> code c" "code c < 256"
proof -
  have "code c = code c mod 256" by simp
  then show "0 \<le> code c" "code c < 256" by (metis pos_mod_sign pos_mod_bound zero_less_numeral)+
qed

lemma base64_sextets:
  assumes "0 \<le> a" "a < (256::int)" "0 \<le> b" "b < 256" "0 \<le> c" "c < 256"
  shows "a div 4 \<in> {0..63}" "a mod 4 * 16 + b div 16 \<in> {0..63}" "b mod 16 * 4 + c div 64 \<in> {0..63}" "c mod 64 \<in> {0..63}"
    "a mod 4 * 16 \<in> {0..63}" "b mod 16 * 4 \<in> {0..63}"
  unfolding atLeastAtMost_iff using assms by linarith+

lemma digit_split:
  assumes "0 \<le> x" "x < (n::int)"
  shows "(y * n + x) div n = y" "(y * n + x) mod n = x"
  using assms by simp_all

lemma base64_octets:
  assumes "0 \<le> b" "b < (256::int)" "0 \<le> c" "c < 256"
  shows "a div 4 * 4 + (a mod 4 * 16 + b div 16) div 16 = (a::int)" "a div 4 * 4 + (a mod 4 * 16) div 16 = a"
    "(a mod 4 * 16 + b div 16) mod 16 * 16 + (b mod 16 * 4 + c div 64) div 4 = b"
    "(a mod 4 * 16 + b div 16) mod 16 * 16 + (b mod 16 * 4) div 4 = b"
    "(b mod 16 * 4 + c div 64) mod 4 * 64 + c mod 64 = c"
proof -
  have b: "0 \<le> b div 16" "b div 16 < 16" "0 \<le> c div 64" "c div 64 < 4"
    using assms by (auto simp only: pos_imp_zdiv_nonneg_iff pos_imp_zdiv_neg_iff zero_less_numeral div_less_iff_less_mult)
  have d: "(a mod 4 * 16 + b div 16) div 16 = a mod 4" "(a mod 4 * 16 + b div 16) mod 16 = b div 16"
    by (rule digit_split [OF b(1,2)])+
  have e: "(b mod 16 * 4 + c div 64) div 4 = b mod 16" "(b mod 16 * 4 + c div 64) mod 4 = c div 64"
    by (rule digit_split [OF b(3,4)])+
  show "a div 4 * 4 + (a mod 4 * 16 + b div 16) div 16 = (a::int)" "a div 4 * 4 + (a mod 4 * 16) div 16 = a"
    "(a mod 4 * 16 + b div 16) mod 16 * 16 + (b mod 16 * 4 + c div 64) div 4 = b"
    "(a mod 4 * 16 + b div 16) mod 16 * 16 + (b mod 16 * 4) div 4 = b"
    "(b mod 16 * 4 + c div 64) mod 4 * 64 + c mod 64 = c"
    unfolding d e by simp_all
qed
lemma code_sextets:
  "code a div 4 \<in> {0..63}" "code a mod 4 * 16 + code b div 16 \<in> {0..63}"
  "code b mod 16 * 4 + code c div 64 \<in> {0..63}" "code c mod 64 \<in> {0..63}"
  "code a mod 4 * 16 \<in> {0..63}" "code b mod 16 * 4 \<in> {0..63}"
  by (rule base64_sextets [OF code_range code_range code_range])+

lemmas sextet_values = code_sextets [THEN char_sextet_char(1)] code_sextets [THEN char_sextet_char(2)]
lemmas sextet_solid = code_sextets [THEN char_sextet_char(3)] code_sextets [THEN char_sextet_char(4)]

lemma octet_values:
  "chr (code a div 4 * 4 + (code a mod 4 * 16 + code b div 16) div 16) = a"
  "chr (code a div 4 * 4 + (code a mod 4 * 16) div 16) = a"
  "chr ((code a mod 4 * 16 + code b div 16) mod 16 * 16 + (code b mod 16 * 4 + code c div 64) div 4) = b"
  "chr ((code a mod 4 * 16 + code b div 16) mod 16 * 16 + (code b mod 16 * 4) div 4) = b"
  "chr ((code b mod 16 * 4 + code c div 64) mod 4 * 64 + code c mod 64) = c"
  using base64_octets(1,3,4) [of "code b" "code c" "code a"] base64_octets(2) [of "code b" "code c" "code a"]
    base64_octets(5) [of "code b" "code c"] code_range by (simp_all only: chr_of_char)

lemma base64_roundtrip: "base64_quads (base64_encode s) = Some s"
  by (induction s rule: base64_encode.induct)
    (simp_all only: base64_encode.simps append.simps base64_quads.simps sextet_values octet_values Let_def option.case prod.case
      if_True if_False refl simp_thms)

lemma base64_solid: "filter (\<lambda>c. c \<noteq> CHR 0x0D \<and> c \<noteq> nl) (base64_encode s) = base64_encode s"
  by (induction s rule: base64_encode.induct)
    (simp_all only: base64_encode.simps filter.simps append.simps sextet_solid if_True simp_thms, simp_all)

lemma secret_roundtrip: "DecodeSecret (EncodeSecret s) = Inr s"
  by (simp add: DecodeSecret_def EncodeSecret_def base64_solid base64_roundtrip)

section \<open>The exchange\<close>

text \<open>The service's answer to a ping and to the request that follows it.\<close>

definition server_stream :: "string \<Rightarrow> Response \<Rightarrow> string" where
  "server_stream path r = FormatResponse \<lparr>rs_Code = CodeOK, rs_Message = identity_json path\<rparr> @ FormatResponse r"

lemma identity_decodes:
  assumes "ascii path"
  shows "reported_identity (identity_json path) = Some path"
proof -
  have "plain (JObj [(''config'', JStr path)])" "json_depth (JObj [(''config'', JStr path)]) \<le> maxNestingDepth"
    using assms by (simp_all add: maxNestingDepth_def code_in_def)
  then have "parse_json (identity_json path) = Some (JObj [(''config'', JStr path)])"
    unfolding identity_json_def by (rule parse_print_json)
  moreover have "is_field ''config'' ''config''" by code_simp
  ultimately show ?thesis
    by (simp add: reported_identity_def unmarshal_def unmarshal_value_def dec_identity_def)
qed

lemma quote_printable:
  assumes "ascii s" "c \<in> set (quote s)"
  shows "c \<noteq> CHR 0x0D \<and> c \<noteq> nl"
proof -
  have q: "x \<noteq> CHR 0x0D \<and> x \<noteq> nl" if "x \<in> set (quote_char y)" for x y
  proof -
    have "list_all (\<lambda>n. list_all (\<lambda>x. x \<noteq> CHR 0x0D \<and> x \<noteq> nl) (quote_char (chr n))) [0..255]" by code_simp
    then have "\<forall>n\<in>{0..255}. list_all (\<lambda>x. x \<noteq> CHR 0x0D \<and> x \<noteq> nl) (quote_char (chr n))" by (simp only: list_all_iff set_upto)
    moreover have "code y \<in> {0..255}" using code_range [of y] by simp
    ultimately have "list_all (\<lambda>x. x \<noteq> CHR 0x0D \<and> x \<noteq> nl) (quote_char (chr (code y)))" by blast
    then show ?thesis using that by (simp add: list_all_iff)
  qed
  have "x \<noteq> CHR 0x0D \<and> x \<noteq> nl" if "x \<in> set (quote_chars s)" for x
    using assms(1) that q by (induction s) auto
  then show ?thesis using assms(2) by (auto simp: quote_def)
qed

lemma identity_one_line:
  assumes "ascii path"
  shows "sanitize (identity_json path) = identity_json path"
proof -
  have "c \<noteq> CHR 0x0D \<and> c \<noteq> nl" if "c \<in> set (identity_json path)" for c
    using that quote_printable [OF assms, of c] quote_printable [of "''config''" c]
    by (auto simp: identity_json_def code_in_def)
  then show ?thesis unfolding sanitize_def by (intro map_idI) auto
qed

lemma ping_line: "WriteRequest pingRequest = Inr (''ping'' @ [nl])"
  by (simp add: WriteRequest_def pingRequest_def bad_part_def code_in_def Let_def)

lemma exchange_ok: "WriteRequest req = Inr line \<Longrightarrow> exchange req None input = (ReadResponse input, [line])"
  by (simp add: exchange_def)

lemma call_conn_sent:
  assumes "call_conn c req env = (r, sent)"
  shows "sent = [] \<or> sent = [''ping'' @ [nl]] \<or>
    (\<exists>line identity rest. WriteRequest req = Inr line \<and> sent = [''ping'' @ [nl], line] \<and>
       ReadResponse (ve_input env) = Inr (identity, rest) \<and> rs_Code identity = CodeOK \<and>
       reported_identity (rs_Message identity) = Some (cl_identity c))"
  using assms
  by (auto simp: call_conn_def exchange_def ping_line split: option.splits sum.splits prod.splits if_splits)

definition quiet_call :: "string \<Rightarrow> call_env" where
  "quiet_call input = \<lparr>ve_ctx = None, ve_dial = None, ve_deadline = None, ve_write = (\<lambda>_. None), ve_input = input, ve_expired = None\<rparr>"

text \<open>C25: a request leaves the client only after the service behind the connection has identified itself with
  the client's own configuration: before that only the ping is sent, and the requests that
  carry passwords never reach another instance.\<close>

theorem request_needs_identity:
  assumes "CallContext c req env = (r, sent)"
  shows "sent = [] \<or> sent = [''ping'' @ [nl]] \<or>
    (\<exists>line identity rest. WriteRequest req = Inr line \<and> sent = [''ping'' @ [nl], line] \<and>
       ReadResponse (ve_input env) = Inr (identity, rest) \<and> rs_Code identity = CodeOK \<and>
       reported_identity (rs_Message identity) = Some (cl_identity c) \<and> cl_identity c \<noteq> [])"
proof -
  consider "sent = []" | r' where "cl_identity c \<noteq> []" "call_conn c req env = (r', sent)"
    using assms by (auto simp: CallContext_def split: if_splits option.splits prod.splits sum.splits)
  then show ?thesis
  proof cases
    case (2 r')
    then show ?thesis using call_conn_sent [OF 2(2)] by blast
  qed simp
qed

theorem request_needs_identity_witness:
  "\<exists>sent. snd (CallContext \<lparr>cl_identity = ''a'', cl_endpoint = ''e''\<rparr> \<lparr>rq_Command = ''stop'', rq_Args = []\<rparr>
     (quiet_call (server_stream ''b'' \<lparr>rs_Code = 200, rs_Message = []\<rparr>))) = sent \<and> (sent = [] \<or> sent = [''ping'' @ [nl]])"
proof -
  let ?c = "\<lparr>cl_identity = ''a'', cl_endpoint = ''e''\<rparr>" and ?req = "\<lparr>rq_Command = ''stop'', rq_Args = []\<rparr>"
  let ?r = "\<lparr>rs_Code = CodeOK, rs_Message = identity_json ''b''\<rparr>"
  let ?env = "quiet_call (server_stream ''b'' \<lparr>rs_Code = 200, rs_Message = []\<rparr>)"
  obtain r sent where s: "CallContext ?c ?req ?env = (r, sent)" by (cases "CallContext ?c ?req ?env") auto
  have i: "identity_json ''b'' = ''{\"config\":\"b\"}''" "len (int_str CodeOK) = 3" by code_simp+
  then have "sent_response ?r = ?r" using identity_one_line [of "''b''"] by (simp add: sent_response_def code_in_def)
  then have "\<exists>rest. ReadResponse (ve_input ?env) = Inr (?r, rest)"
    unfolding server_stream_def quiet_call_def using response_roundtrip [of ?r] by simp
  moreover have "reported_identity (identity_json ''b'') = Some ''b''" by (rule identity_decodes) (simp add: code_in_def)
  ultimately show ?thesis using request_needs_identity [OF s] s by auto
qed

text \<open>Between a client and the service of the same configuration a call is an exchange of values: the
  service reads the ping and the request as they were given, and the client gets the response,
  its message on one line (or the fixed refusal of an overlong one).\<close>

theorem ipc_call_roundtrip:
  assumes "cl_identity c = path" "cl_endpoint c \<noteq> []" "path \<noteq> []" "ascii path" "len (identity_json path) + 5 \<le> MaxLineBytes"
    and "list_all solid (rq_Command req # rq_Args req)" "len (join '' '' (rq_Command req # rq_Args req)) < MaxLineBytes"
    and "req \<noteq> pingRequest" "100 \<le> rs_Code resp" "rs_Code resp \<le> 9999"
  shows "\<exists>line. CallContext c req (quiet_call (server_stream path resp)) = (Inr (sent_response resp), [''ping'' @ [nl], line]) \<and>
    ReadRequest (''ping'' @ [nl] @ line) = Inr (pingRequest, line) \<and> ReadRequest line = Inr (req, [])"
proof -
  obtain line where l: "WriteRequest req = Inr line" "\<forall>rest. ReadRequest (line @ rest) = Inr (req, rest)"
    using request_roundtrip [OF assms(6,7)] by blast
  have "len (int_str CodeOK) = 3" by code_simp
  then have i: "sent_response \<lparr>rs_Code = CodeOK, rs_Message = identity_json path\<rparr> = \<lparr>rs_Code = CodeOK, rs_Message = identity_json path\<rparr>"
    using assms(5) identity_one_line [OF assms(4)] by (simp add: sent_response_def)
  have r1: "ReadResponse (server_stream path resp) = Inr (\<lparr>rs_Code = CodeOK, rs_Message = identity_json path\<rparr>, FormatResponse resp)"
    unfolding server_stream_def using response_roundtrip [of "\<lparr>rs_Code = CodeOK, rs_Message = identity_json path\<rparr>"] i by simp
  have r2: "ReadResponse (FormatResponse resp) = Inr (sent_response resp, [])"
    using response_roundtrip [OF assms(9,10), of "[]"] by simp
  have np: "\<not> (rq_Command req = ''ping'' \<and> rq_Args req = [])" using assms(8) by (cases req) (auto simp: pingRequest_def)
  have "call_conn c req (quiet_call (server_stream path resp)) = (Inr (sent_response resp), [''ping'' @ [nl], line])"
    using exchange_ok [OF ping_line] exchange_ok [OF l(1)] r1 r2 identity_decodes [OF assms(4)] assms(1) np
    by (auto simp: call_conn_def quiet_call_def)
  then have "CallContext c req (quiet_call (server_stream path resp)) = (Inr (sent_response resp), [''ping'' @ [nl], line])"
    using assms(1-3) by (simp add: CallContext_def quiet_call_def)
  moreover have "ReadRequest (''ping'' @ [nl] @ line) = Inr (pingRequest, line)"
  proof -
    have "list_all solid (rq_Command pingRequest # rq_Args pingRequest)" by (simp add: pingRequest_def solid_def code_in_def)
    from request_roundtrip [OF this] ping_line show ?thesis by (simp add: pingRequest_def)
  qed
  ultimately show ?thesis using l(2) [rule_format, of "[]"] by auto
qed

theorem ipc_call_roundtrip_witness:
  "\<exists>line. CallContext \<lparr>cl_identity = ''/a'', cl_endpoint = ''e''\<rparr> \<lparr>rq_Command = ''state'', rq_Args = []\<rparr>
     (quiet_call (server_stream ''/a'' \<lparr>rs_Code = 200, rs_Message = ''up''\<rparr>)) =
       (Inr (sent_response \<lparr>rs_Code = 200, rs_Message = ''up''\<rparr>), [''ping'' @ [nl], line])"
proof -
  have "identity_json ''/a'' = ''{\"config\":\"/a\"}''" by code_simp
  then have "len (identity_json ''/a'') + 5 \<le> MaxLineBytes" by simp
  with ipc_call_roundtrip [of "\<lparr>cl_identity = ''/a'', cl_endpoint = ''e''\<rparr>" "''/a''" "\<lparr>rq_Command = ''state'', rq_Args = []\<rparr>"
    "\<lparr>rs_Code = 200, rs_Message = ''up''\<rparr>"] show ?thesis
    by (auto simp: code_in_def solid_def pingRequest_def)
qed

end
