(* ===== verification/Server_Props.thy ===== *)
theory Server_Props
  imports Server Service_Props Ipc_Props
begin

text \<open>
  The IPC server: what a client of the same configuration gets for a request, that the answers to start and stop
  tell what the service has become, and the bounds on its connections.
\<close>

section \<open>Response codes\<close>

lemma response_simps [simp]: "rs_Code (response n msg) = n" "rs_Message (response n msg) = msg"
  by (simp_all add: response_def)

lemma errorResponse_code: "rs_Code (errorResponse tx d e) \<in> {CodeAuthRequired, CodeBadRequest, CodeRejected, CodeServerError}"
  by (simp add: errorResponse_def)

lemma errorResponse_not_ok [simp]: "rs_Code (errorResponse tx d e) \<noteq> CodeOK"
  by (simp add: errorResponse_def)

lemma call_response_code: "rs_Code (fst (call_response tx ok r)) \<in> {CodeOK, CodeAuthRequired, CodeBadRequest, CodeRejected, CodeServerError}"
  using errorResponse_code by (auto simp: call_response_def split: prod.splits option.splits)

lemma call_response_ok:
  "rs_Code (fst (call_response tx ok r)) = CodeOK \<longleftrightarrow> fst r = None" "snd (call_response tx ok r) = snd r"
  by (auto simp: call_response_def split: prod.splits option.splits)

abbreviation response_codes :: "int set" where
  "response_codes \<equiv> {CodeOK, CodeAuthRequired, CodeBadRequest, CodeRejected, CodeServerError}"

lemma start_request_code: "rs_Code (fst (start_request tx args fate env s)) \<in> response_codes"
  using call_response_code by (auto simp: start_request_def bad_request_def split: sum.splits)

lemma untrust_request_code: "rs_Code (fst (untrust_request tx args fate env s)) \<in> response_codes"
  using call_response_code by (auto simp: untrust_request_def bad_request_def split: sum.splits)

lemma trust_request_code: "rs_Code (fst (trust_request tx args fate env s)) \<in> response_codes"
  using call_response_code by (auto simp: trust_request_def bad_request_def split: sum.splits)

lemma endpoint_request_code: "rs_Code (fst (endpoint_request tx f args fate env s)) \<in> response_codes"
  using call_response_code by (auto simp: endpoint_request_def)

lemma stop_request_code: "rs_Code (fst (stop_request tx fate env s)) \<in> response_codes"
  using call_response_code errorResponse_code by (auto simp: stop_request_def split: prod.splits option.splits)

lemma status_request_code: "rs_Code (status_request tx lv args s) \<in> response_codes"
  by (auto simp: status_request_def Let_def split: option.splits)

lemma resources_request_code: "rs_Code (resources_request lv args s) \<in> response_codes"
  by (auto simp: resources_request_def split: sum.splits resources_error.splits)

lemma server_dispatch_code: "rs_Code (fst (fst (server_dispatch tx path lv req fate env s))) \<in> response_codes"
  unfolding server_dispatch_def Let_def
  by (simp add: call_response_code start_request_code untrust_request_code trust_request_code endpoint_request_code
      stop_request_code status_request_code resources_request_code del: insert_iff split: if_split) simp

section \<open>The client and the service\<close>

text \<open>A reply of a connection that waits for requests leaves the connections and, but for a shutdown, the server
  as they were.\<close>

lemma update_back: "map_of cs c = Some v \<Longrightarrow> AList.update c v (AList.update c w cs) = cs"
  by (induction cs) (auto split: if_splits)

lemma end_begin:
  assumes "map_of (srv_connections srv) c = Some Reading"
  shows "end_reply c (fst (begin_reply c req srv)) = srv"
  using assms update_back [OF assms]
  by (auto simp: begin_reply_def end_reply_def update_conv')

lemma server_reply_simp:
  assumes "map_of (srv_connections srv) c = Some Reading"
  shows "server_reply c tx path lv fate env req (s, srv) =
    (if is_resources req \<and> srv_resourceReply srv then (response CodeRejected ''resources in progress'', s, srv)
     else case server_dispatch tx path lv req fate env s of
       ((resp, s'), quit) \<Rightarrow> (resp, s', if quit then srv\<lparr>srv_quit := True\<rparr> else srv))"
proof -
  have q: "end_reply c (u\<lparr>srv_quit := True\<rparr>) = (end_reply c u)\<lparr>srv_quit := True\<rparr>" for u
    by (simp add: end_reply_def split: option.split conn_phase.split)
  have b: "snd (begin_reply c req srv) = (is_resources req \<and> srv_resourceReply srv)"
    using assms by (simp add: begin_reply_def)
  show ?thesis
    using end_begin [OF assms, of req] b q
    by (auto simp: server_reply_def split: prod.splits bool.splits)
qed

lemma server_reply_ping:
  assumes "map_of (srv_connections srv) c = Some Reading"
  shows "server_reply c tx path lv fate env pingRequest (s, srv) = (response CodeOK (identity_json path), s, srv)"
  using assms by (simp add: server_reply_simp server_dispatch_def pingRequest_def is_resources_def)

lemma serve_step:
  assumes "ReadRequest input = Inr (req, rest)" "\<not> closing k" "werr k = None"
  shows "serve reply closing werr k input s =
    (case reply req s of (resp, s') \<Rightarrow> case serve reply closing werr (k + 1) rest s' of (out, s'') \<Rightarrow> (FormatResponse resp # out, s''))"
  using assms by (subst serve.simps) simp

lemma serve_end: "serve reply closing werr k [] s = ([], s)"
proof -
  have "readLine_loop MaxLineBytes [] [] = Inl (IpcIO (IOError EOF))"
    by (subst readLine_loop.simps) (simp add: ReadSlice_def)
  then show ?thesis by (subst serve.simps) (simp add: ReadRequest_def readLine_def)
qed

text \<open>C29: a client and a service of the same configuration. The client's call sends the identity check and its
  request, the loop of the server answers both on this connection, and the call returns the answer to this request,
  with the service changed by this request alone. The answer is a refusal when the request asks for the listing
  of the resources while another connection has the slot for it, and else what the dispatch of the request gives;
  it comes back as it can be sent: its message on one line, and an error in place of a line that is too long. This holds for an ASCII path
  of the configuration, a request whose words are printable ASCII and that fits a line, a server that is not
  closing, and a link on which nothing fails.\<close>

theorem client_reaches_service:
  assumes "cl_identity c = path" "cl_endpoint c \<noteq> []" "path \<noteq> []" "ascii path" "len (identity_json path) + 5 \<le> MaxLineBytes"
    and "list_all solid (rq_Command req # rq_Args req)" "len (join '' '' (rq_Command req # rq_Args req)) < MaxLineBytes"
    and "req \<noteq> pingRequest" "\<not> closing 0" "\<not> closing 1" "werr 0 = None" "werr 1 = None"
    and "map_of (srv_connections srv) conn = Some Reading"
  shows "\<exists>line out resp s' quit.
    serve (server_reply conn tx path lv fate env) closing werr 0 (''ping'' @ [nl] @ line) (s, srv) =
      (out, s', if quit then srv\<lparr>srv_quit := True\<rparr> else srv) \<and>
    ((resp, s'), quit) = (if is_resources req \<and> srv_resourceReply srv
      then ((response CodeRejected ''resources in progress'', s), False) else server_dispatch tx path lv req fate env s) \<and>
    CallContext c req (quiet_call (concat out)) = (Inr (sent_response resp), [''ping'' @ [nl], line])"
proof -
  let ?reply = "server_reply conn tx path lv fate env"
  obtain resp s' quit where r: "((resp, s'), quit) = (if is_resources req \<and> srv_resourceReply srv
      then ((response CodeRejected ''resources in progress'', s), False) else server_dispatch tx path lv req fate env s)"
    by (metis prod.collapse)
  have reply: "?reply req (s, srv) = (resp, s', if quit then srv\<lparr>srv_quit := True\<rparr> else srv)"
    using r server_reply_simp [OF assms(13)] by (auto split: if_splits prod.splits)
  have "resp = (if is_resources req \<and> srv_resourceReply srv then response CodeRejected ''resources in progress''
      else fst (fst (server_dispatch tx path lv req fate env s)))"
    using arg_cong [OF r, of "\<lambda>x. fst (fst x)"] by (simp split: if_splits)
  then have "rs_Code resp \<in> response_codes"
    using server_dispatch_code [of tx path lv req fate env s] by (simp split: if_splits)
  then have n: "100 \<le> rs_Code resp" "rs_Code resp \<le> 9999" by auto
  obtain line where l: "CallContext c req (quiet_call (server_stream path resp)) = (Inr (sent_response resp), [''ping'' @ [nl], line])"
    "ReadRequest (''ping'' @ [nl] @ line) = Inr (pingRequest, line)" "ReadRequest line = Inr (req, [])"
    using ipc_call_roundtrip [OF assms(1-8) n] by blast
  have "serve ?reply closing werr 0 (''ping'' @ [nl] @ line) (s, srv) =
      ([FormatResponse (response CodeOK (identity_json path)), FormatResponse resp], s', if quit then srv\<lparr>srv_quit := True\<rparr> else srv)"
    using serve_step [of "''ping'' @ [nl] @ line" pingRequest line closing 0 werr ?reply "(s, srv)"]
      serve_step [of line req "[]" closing 1 werr ?reply "(s, srv)"] l reply server_reply_ping [OF assms(13)] assms(9-12)
    by (simp add: serve_end)
  moreover have "concat [FormatResponse (response CodeOK (identity_json path)), FormatResponse resp] = server_stream path resp"
    by (simp add: server_stream_def response_def)
  ultimately show ?thesis using l(1) r by metis
qed

definition example_texts :: server_texts where
  "example_texts = \<lparr>tx_line = (\<lambda>v. state_name (st_State (vw_stored v))), tx_json = (\<lambda>_. ''{}''), tx_error = (\<lambda>_. ''failed''), tx_ipc = (\<lambda>_. ''bad'')\<rparr>"

definition example_live :: live where
  "example_live = \<lparr>lv_socksListening = True, lv_connected = True, lv_clientIP = Some ''10.0.0.2'', lv_sessErr = None, lv_peer = ''10.9.0.2'',
     lv_view = Inl ErrResourcesUnavailable\<rparr>"

definition example_server :: IpcServer where
  "example_server = serve_accept 4 NewServer"

theorem client_reaches_service_witness:
  "\<exists>line out resp s' quit. ((resp, s'), quit) = server_dispatch example_texts ''/a'' example_live \<lparr>rq_Command = ''stop'', rq_Args = []\<rparr> Answered
       sv_example_env sv_example_idle \<and>
     CallContext \<lparr>cl_identity = ''/a'', cl_endpoint = ''e''\<rparr> \<lparr>rq_Command = ''stop'', rq_Args = []\<rparr> (quiet_call (concat out)) =
       (Inr (sent_response resp), [''ping'' @ [nl], line])"
proof -
  have "identity_json ''/a'' = ''{\"config\":\"/a\"}''" by code_simp
  then have "len (identity_json ''/a'') + 5 \<le> MaxLineBytes" by simp
  moreover have "map_of (srv_connections example_server) 4 = Some Reading" by code_simp
  ultimately show ?thesis
    using client_reaches_service [of "\<lparr>cl_identity = ''/a'', cl_endpoint = ''e''\<rparr>" "''/a''" "\<lparr>rq_Command = ''stop'', rq_Args = []\<rparr>"
      "\<lambda>_. False" "\<lambda>_. None" example_server 4 example_texts example_live Answered sv_example_env sv_example_idle]
    by (simp add: code_in_def solid_def pingRequest_def is_resources_def) blast
qed

section \<open>Start and stop\<close>

lemma dispatch_up:
  assumes "wp (run_command c env) up_post (sound {}) s" "\<not> sv_closing s" "\<not> sv_stopPending s"
    "dispatch c None env s = (Some r, s')"
  shows "r = None \<longleftrightarrow> st_State (sv_status s') = StateUp"
proof -
  obtain q t where run: "run_command c env s = (q, t)" by (cases "run_command c env s")
  show ?thesis
  proof (cases q)
    case None
    then have "sound {} t" using assms(1) run by (simp add: wp_def)
    then have "fst (recover env t) = Some (Some errInternal) \<and> failed_state {} t (snd (recover env t))"
      using recover_returns [of t env] by (cases "recover env t") auto
    then show ?thesis using assms(2-4) None run by (auto simp: dispatch_def failed_state_def)
  next
    case (Some e)
    then have "e = None \<longleftrightarrow> st_State (sv_status t) = StateUp" using assms(1) run by (simp add: wp_def)
    then show ?thesis using assms(2-4) Some run by (auto simp: dispatch_def)
  qed
qed

lemma svc_call_up:
  assumes "service_inv s" "wp (run_command c env) up_post (sound {}) s" "\<not> sv_closing s" "is_login c"
    "svc_call c fate env s = (r, s')"
  shows "r = None \<Longrightarrow> st_State (sv_status s') = StateUp"
    and "fate = Answered \<Longrightarrow> \<not> sv_stopPending s \<or> st_State (sv_status s) \<noteq> StateUp \<Longrightarrow>
      r = None \<longleftrightarrow> st_State (sv_status s') = StateUp"
proof -
  have c: "c \<noteq> Stop" using assms(4) by auto
  have ans: "if sv_stopPending s then r = Some ErrStopRequested \<and> s' = s
      else (r = None \<longleftrightarrow> st_State (sv_status s') = StateUp)" if "fate = Answered"
  proof (cases "sv_stopPending s")
    case True
    then show ?thesis using assms(3-5) c that by (simp add: svc_call_def dispatch_def)
  next
    case False
    obtain q t where d: "dispatch c None env s = (q, t)" by (cases "dispatch c None env s")
    then obtain x where "q = Some x" using dispatch_keeps_inv [OF assms(1) d] by auto
    with d False dispatch_up [OF assms(2,3) False, of x t] assms(5) c that show ?thesis
      by (simp add: svc_call_def)
  qed
  have "r \<noteq> None" if "fate \<noteq> Answered" using that assms(5) by (cases fate) (auto simp: svc_call_def Let_def)
  with ans show "r = None \<Longrightarrow> st_State (sv_status s') = StateUp"
    by (cases fate) (auto split: if_splits)
  show "fate = Answered \<Longrightarrow> \<not> sv_stopPending s \<or> st_State (sv_status s) \<noteq> StateUp \<Longrightarrow>
      r = None \<longleftrightarrow> st_State (sv_status s') = StateUp"
    using ans by (auto split: if_splits)
qed

text \<open>The devices command of a session that is up leaves it up or fails.\<close>

lemma wp_devices_up:
  assumes "service_inv s" "st_State (sv_status s) = StateUp"
  shows "wp (devices trust all password env) up_post (sound {}) s"
proof -
  have se: "sv_session s \<noteq> None" using inv_serving [OF assms] by (auto simp: serving_def)
  have inv: "service_inv (s\<lparr>sv_status := setDetail d (sv_status s)\<rparr>)" for d
    using sound_status [OF inv_sound [OF assms(1)]] by (intro inv_set_status(1) [OF assms(1)] status_inv_setDetail) auto
  have "wp (runDeviceOp False (sv_session s) env) up_post (sound {}) s"
    using wp_fail_up [OF inv_sound [OF assms(1)]] inv assms(2)
    by (auto simp: runDeviceOp_def device_result_def wp_def set_detail_def on_status_def seq_def act_bind_def done_with_def
        split: sum.splits prod.splits option.splits)
  then show ?thesis using se assms(2) by (auto simp: devices_def wp_reading)
qed

lemma svc_call_stop:
  assumes "service_inv s" "\<not> sv_closing s" "svc_call Stop Answered env s = (r, s')"
  shows "(r = None \<or> r = Some ErrNotRunning) \<and> st_State (sv_status s') = StateIdle \<and> set (sv_opened s') \<subseteq> set (sv_released s')"
proof -
  let ?s = "request_stop s"
  have inv: "service_inv ?s" using assms(1) by (simp add: request_stop_def)
  obtain q t where run: "stop_tunnel env ?s = (q, t)" by (cases "stop_tunnel env ?s")
  have t: "service_inv t" "st_State (sv_status t) = StateIdle" "q \<noteq> None"
    using wp_stop [OF inv, of env] run by (auto simp: wp_def split: option.splits)
  have "quiet {} t" using inv_quiet [OF t(1)] t(2) by simp
  then have "set (sv_opened t) \<subseteq> set (sv_released t)" by (auto simp: quiet_def sound_def held_def)
  moreover have "q = Some None \<or> q = Some (Some ErrNotRunning)"
  proof -
    have "wp (stop_tunnel env) (\<lambda>r _. r = None \<or> r = Some ErrNotRunning) (\<lambda>_. False) ?s"
      using wp_mono [OF wp_teardown [of "{}" "?s\<lparr>sv_stopPending := False\<rparr>" "''tunnel stopped''" env]] inv_sound [OF inv_stopPending [OF inv]]
      by (auto simp: stop_tunnel_def wp_seq wp_change wp_reading wp_if wp_done)
    then show ?thesis using run by (auto simp: wp_def split: option.splits)
  qed
  moreover have "\<not> sv_closing ?s" using assms(2) by (simp add: request_stop_def)
  then have "r = the q" "s' = t" using assms(3) run t(3) by (auto simp: svc_call_def Let_def dispatch_def)
  ultimately show ?thesis using t(2) by auto
qed

lemma svc_call_stop_answered:
  assumes "svc_call Stop fate env s = (r, s')" "fate \<noteq> Answered"
  shows "\<exists>e. r = Some e \<and> \<not> err_is e ErrNotRunning"
  using assms by (cases fate) (auto simp: svc_call_def Let_def err_is_def)

text \<open>The arguments of a start request, read.\<close>

definition start_args :: "string list \<Rightarrow> (bool \<times> string) option" where
  "start_args args =
     (case (BoolArg (Arg args 0) ''trust'', passwordArg args 1) of
        (Inr trust, Inr password) \<Rightarrow> Some (trust, password)
      | _ \<Rightarrow> None)"

lemma start_request_bad:
  "start_args args = None \<Longrightarrow>
     rs_Code (fst (start_request tx args fate env s)) = CodeBadRequest \<and> snd (start_request tx args fate env s) = s"
  by (auto simp: start_request_def start_args_def bad_request_def split: sum.splits)

lemma start_request_good:
  "start_args args = Some (trust, password) \<Longrightarrow>
     start_request tx args fate env s =
       (if st_State (sv_status s) = StateUp then
          (if trust then call_response tx (\<lambda>d. ''already running, '' @ d) (svc_call (Devices True False []) fate env s)
           else (response CodeOK ''already running'', s))
        else call_response tx (detailOr ''started'') (svc_call (Start trust password) fate env s))"
  by (auto simp: start_request_def start_args_def simp del: append.simps split: sum.splits)

lemma start_request_ok:
  assumes "service_inv s" "\<not> sv_closing s" "start_request tx args fate env s = (resp, s')"
  shows "rs_Code resp = CodeOK \<Longrightarrow> st_State (sv_status s') = StateUp"
    and "fate = Answered \<Longrightarrow> st_State (sv_status s) \<noteq> StateUp \<Longrightarrow>
      rs_Code resp = CodeOK \<longleftrightarrow> st_State (sv_status s') = StateUp"
    and "start_args args = None \<Longrightarrow> rs_Code resp = CodeBadRequest \<and> s' = s"
    and "start_args args = Some (False, password) \<Longrightarrow> st_State (sv_status s) = StateUp \<Longrightarrow>
      rs_Code resp = CodeOK \<and> s' = s"
proof -
  have ok: "rs_Code (fst (call_response tx m x)) = CodeOK \<longleftrightarrow> fst x = None" "snd (call_response tx m x) = snd x" for m x
    by (rule call_response_ok)+
  show bad: "start_args args = None \<Longrightarrow> rs_Code resp = CodeBadRequest \<and> s' = s"
    using start_request_bad [of args tx fate env s] assms(3) by simp
  show up0: "start_args args = Some (False, password) \<Longrightarrow> st_State (sv_status s) = StateUp \<Longrightarrow>
      rs_Code resp = CodeOK \<and> s' = s" for password
    using start_request_good [of args False password tx fate env s] assms(3) by simp
  have down: "(rs_Code resp = CodeOK \<longrightarrow> st_State (sv_status s') = StateUp) \<and>
      (fate = Answered \<longrightarrow> (rs_Code resp = CodeOK \<longleftrightarrow> st_State (sv_status s') = StateUp))"
    if "start_args args = Some (trust, password)" "st_State (sv_status s) \<noteq> StateUp" for trust password
  proof -
    obtain r t where rt: "svc_call (Start trust password) fate env s = (r, t)" by fastforce
    have "call_response tx (detailOr ''started'') (r, t) = (resp, s')"
      using start_request_good [OF that(1), of tx fate env s] that(2) assms(3) rt by simp
    then have "rs_Code resp = CodeOK \<longleftrightarrow> r = None" "s' = t"
      using ok [of "detailOr ''started''" "(r, t)"] by simp_all
    with svc_call_up [OF assms(1) _ assms(2) _ rt] wp_start_up [OF assms(1) that(2)] that(2) show ?thesis by simp
  qed
  have up1: "rs_Code resp = CodeOK \<longrightarrow> st_State (sv_status s') = StateUp"
    if "start_args args = Some (True, password)" "st_State (sv_status s) = StateUp" for password
  proof -
    obtain r t where rt: "svc_call (Devices True False []) fate env s = (r, t)" by fastforce
    have "call_response tx (\<lambda>d. ''already running, '' @ d) (r, t) = (resp, s')"
      using start_request_good [OF that(1), of tx fate env s] that(2) assms(3) rt by (simp del: append.simps)
    then have "rs_Code resp = CodeOK \<longleftrightarrow> r = None" "s' = t"
      using ok [of "\<lambda>d. ''already running, '' @ d" "(r, t)"] by (simp_all del: append.simps)
    with svc_call_up(1) [OF assms(1) _ assms(2) _ rt] wp_devices_up [OF assms(1) that(2)] show ?thesis by simp
  qed
  show "rs_Code resp = CodeOK \<Longrightarrow> st_State (sv_status s') = StateUp"
  proof (cases "start_args args")
    case (Some tp)
    obtain trust password where tp: "tp = (trust, password)" by (cases tp)
    assume "rs_Code resp = CodeOK"
    with Some tp down up1 up0 show ?thesis by (cases trust; cases "st_State (sv_status s) = StateUp") auto
  qed (use bad in simp)
  show "fate = Answered \<Longrightarrow> st_State (sv_status s) \<noteq> StateUp \<Longrightarrow>
      rs_Code resp = CodeOK \<longleftrightarrow> st_State (sv_status s') = StateUp"
    using bad down by (cases "start_args args") auto
qed

lemma dispatch_start_stop:
  "server_dispatch tx path lv \<lparr>rq_Command = ''start'', rq_Args = args\<rparr> fate env s = (start_request tx args fate env s, False)"
  "server_dispatch tx path lv \<lparr>rq_Command = ''stop'', rq_Args = args\<rparr> fate env s = (stop_request tx fate env s, False)"
  by (simp_all add: server_dispatch_def)

text \<open>C30: what the code of an answer tells of the service, from any reachable state in which the process is not closing
  and whatever becomes of the call (answered, queue full, or the caller gone while the actor may or may
  not have run the command). A start request that is answered 200 leaves the session up. When the actor's answer is
  received, a start that found no session up is answered 200 exactly when the session is up afterwards; a start that
  found it up and does not ask for trust is answered 200 and changes nothing; bad arguments are answered 400 and change
  nothing. A stop request is answered 200 exactly when the actor's answer is received, whatever state it
  finds, and then the service is idle and every login has been closed.\<close>

theorem start_stop_answers:
  assumes "service_step\<^sup>*\<^sup>* (new_service wg sk user pass i now wgErr sock) s" "\<not> sv_closing s"
  shows "(case server_dispatch tx path lv \<lparr>rq_Command = ''start'', rq_Args = args\<rparr> fate env s of
      ((resp, s'), quit) \<Rightarrow> \<not> quit \<and>
        (rs_Code resp = CodeOK \<longrightarrow> st_State (sv_status s') = StateUp) \<and>
        (fate = Answered \<and> st_State (sv_status s) \<noteq> StateUp \<longrightarrow>
           (rs_Code resp = CodeOK \<longleftrightarrow> st_State (sv_status s') = StateUp)) \<and>
        (st_State (sv_status s) = StateUp \<and> start_args args = Some (False, password) \<longrightarrow> rs_Code resp = CodeOK \<and> s' = s) \<and>
        (start_args args = None \<longrightarrow> rs_Code resp = CodeBadRequest \<and> s' = s)) \<and>
    (case server_dispatch tx path lv \<lparr>rq_Command = ''stop'', rq_Args = args\<rparr> fate env s of
      ((resp, s'), quit) \<Rightarrow> \<not> quit \<and> (rs_Code resp = CodeOK \<longleftrightarrow> fate = Answered) \<and>
        (rs_Code resp = CodeOK \<longrightarrow> st_State (sv_status s') = StateIdle \<and> set (sv_opened s') \<subseteq> set (sv_released s')))"
proof -
  have inv: "service_inv s" by (rule reachable_inv [OF assms(1)])
  obtain resp s1 where st: "start_request tx args fate env s = (resp, s1)" by fastforce
  note start = start_request_ok [OF inv assms(2) st]
  obtain r s2 where c: "svc_call Stop fate env s = (r, s2)" by fastforce
  have stop: "rs_Code (fst (stop_request tx fate env s)) = CodeOK \<longleftrightarrow> fate = Answered" "snd (stop_request tx fate env s) = s2"
    using c svc_call_stop [OF inv assms(2), of env r s2] svc_call_stop_answered [OF c]
      call_response_ok [of tx "detailOr ''stopped''" "(r, s2)"]
    by (cases fate; cases r; auto simp: stop_request_def)+
  have "fate = Answered \<Longrightarrow> st_State (sv_status s2) = StateIdle \<and> set (sv_opened s2) \<subseteq> set (sv_released s2)"
    using svc_call_stop [OF inv assms(2), of env r s2] c by blast
  with stop start st show ?thesis
    unfolding dispatch_start_stop by (cases "stop_request tx fate env s") simp
qed

theorem start_stop_answers_witness:
  "rs_Code (fst (fst (server_dispatch example_texts ''/a'' example_live \<lparr>rq_Command = ''stop'', rq_Args = []\<rparr> Answered sv_example_env sv_example_up))) = CodeOK \<and>
   rs_Code (fst (fst (server_dispatch example_texts ''/a'' example_live \<lparr>rq_Command = ''start'', rq_Args = [''trust=0'']\<rparr> Answered sv_example_env sv_example_up))) = CodeOK"
proof -
  have s: "\<not> sv_closing sv_example_up" "st_State (sv_status sv_example_up) = StateUp" by code_simp+
  have a: "start_args [''trust=0''] = Some (False, [])" by code_simp
  note run = start_stop_answers [where wg = True and sk = True and user = "''user''" and pass = "''word''" and i = example_identity
      and now = 0 and wgErr = None and sock = "Inr 2", unfolded sv_example_idle_def [symmetric], OF sv_example_up_reachable s(1)]
  from run [where args = "[''trust=0'']" and fate = Answered and password = "[]" and tx = example_texts and path = "''/a''"
      and lv = example_live and env = sv_example_env]
  have "rs_Code (fst (fst (server_dispatch example_texts ''/a'' example_live \<lparr>rq_Command = ''start'', rq_Args = [''trust=0'']\<rparr> Answered
      sv_example_env sv_example_up))) = CodeOK"
    using s(2) a by (simp add: case_prod_beta)
  moreover from run [where args = "[]" and fate = Answered and password = "[]" and tx = example_texts and path = "''/a''"
      and lv = example_live and env = sv_example_env]
  have "rs_Code (fst (fst (server_dispatch example_texts ''/a'' example_live \<lparr>rq_Command = ''stop'', rq_Args = []\<rparr> Answered
      sv_example_env sv_example_up))) = CodeOK"
    by (simp add: case_prod_beta)
  ultimately show ?thesis by blast
qed

section \<open>Connections\<close>

definition holders :: "(nat \<times> conn_phase) list \<Rightarrow> nat" where
  "holders cs = length (filter (\<lambda>(_, p). p = Replying_resources) cs)"

definition server_inv :: "IpcServer \<Rightarrow> bool" where
  "server_inv srv \<longleftrightarrow> length (srv_connections srv) \<le> maxIpcConnections \<and> distinct (map fst (srv_connections srv)) \<and>
     holders (srv_connections srv) = (if srv_resourceReply srv then 1 else 0)"

lemma update_keys: "map_of cs c = Some p \<Longrightarrow> map fst (AList.update c q cs) = map fst cs"
  by (induction cs) (auto split: if_splits)

lemma update_length: "map_of cs c = Some p \<Longrightarrow> length (AList.update c q cs) = length cs"
  using arg_cong [OF update_keys, of cs c p length q] by simp

lemma update_holders:
  "map_of cs c = Some p \<Longrightarrow> distinct (map fst cs) \<Longrightarrow>
   holders (AList.update c q cs) + (if p = Replying_resources then 1 else 0) = holders cs + (if q = Replying_resources then 1 else 0)"
  by (induction cs) (auto simp: holders_def split: if_splits)

lemma delete_holders: "(c, Replying_resources) \<notin> set cs \<Longrightarrow> holders (AList.delete c cs) = holders cs"
  by (induction cs) (auto simp: holders_def AList.delete_eq split: if_splits)

lemma end_reply_inv:
  assumes "server_inv srv"
  shows "server_inv (end_reply c srv) \<and> (c, Replying_resources) \<notin> set (srv_connections (end_reply c srv))"
proof (cases "map_of (srv_connections srv) c")
  case None
  then have "(c, Replying_resources) \<notin> set (srv_connections srv)" by (auto simp: map_of_eq_None_iff image_iff)
  then show ?thesis using None assms by (simp add: end_reply_def)
next
  case (Some p)
  let ?cs = "srv_connections srv"
  have d: "distinct (map fst ?cs)" using assms by (simp add: server_inv_def)
  have new: "(c, Replying_resources) \<notin> set (AList.update c Reading ?cs)"
    using map_of_is_SomeI [of "AList.update c Reading ?cs" c Replying_resources] distinct_update [OF d] by (auto simp: update_conv')
  have old: "p \<noteq> Replying_resources \<Longrightarrow> (c, Replying_resources) \<notin> set ?cs"
    using map_of_is_SomeI [OF d] Some by fastforce
  show ?thesis
    using assms Some new old update_holders [OF Some d, of Reading] update_keys [OF Some, of Reading] update_length [OF Some, of Reading]
    by (cases p) (auto simp: server_inv_def end_reply_def split: if_splits simp del: map_of_eq_Some_iff)
qed

lemma server_step_inv: "server_step srv srv' \<Longrightarrow> server_inv srv \<Longrightarrow> server_inv srv'"
proof (induction rule: server_step.induct)
  case (accept c srv)
  then show ?case by (auto simp: server_inv_def serve_accept_def holders_def)
next
  case (request srv c req)
  show ?case
  proof (cases "map_of (srv_connections srv) c = Some Reading")
    case True
    have d: "distinct (map fst (srv_connections srv))" using request by (simp add: server_inv_def)
    show ?thesis
      using request True update_holders [OF True d] update_keys [OF True] update_length [OF True]
      by (auto simp: server_inv_def begin_reply_def simp del: map_of_eq_Some_iff split: if_splits)
  qed (use request in \<open>simp add: begin_reply_def\<close>)
next
  case (reply srv c)
  then show ?case using end_reply_inv by blast
next
  case (finish srv c)
  let ?cs = "srv_connections (end_reply c srv)"
  have inv: "server_inv (end_reply c srv)" using end_reply_inv [OF finish] by blast
  then have "holders (AList.delete c ?cs) = holders ?cs"
    using delete_holders end_reply_inv [OF finish] by blast
  moreover have "length (AList.delete c ?cs) \<le> length ?cs" by (rule length_delete_le)
  ultimately show ?case using inv distinct_delete [of ?cs c] by (simp add: server_inv_def conn_done_def Let_def)
qed (simp_all add: server_inv_def requestShutdown_def Shutdown_def)

text \<open>C31: under every interleaving of accepts, requests, answers, ends of connections and the shutdown, at most 64
  connections are held, and the slot for the resource listing is taken exactly while one connection
  is encoding or sending it: two listings are never in memory, and the slot is never lost.\<close>

theorem server_bounds:
  assumes "server_step\<^sup>*\<^sup>* NewServer srv"
  shows "length (srv_connections srv) \<le> 64 \<and> holders (srv_connections srv) \<le> 1 \<and>
    (srv_resourceReply srv \<longleftrightarrow> (\<exists>c. map_of (srv_connections srv) c = Some Replying_resources))"
proof -
  have inv: "server_inv srv"
    using assms
  proof (induction rule: rtranclp_induct)
    case base
    then show ?case by (simp add: server_inv_def NewServer_def holders_def)
  qed (rule server_step_inv)
  have "0 < holders cs \<longleftrightarrow> (\<exists>c. map_of cs c = Some Replying_resources)" if "distinct (map fst cs)" for cs
    using that by (auto simp: holders_def filter_empty_conv)
  from this [of "srv_connections srv"] show ?thesis
    using inv by (simp add: server_inv_def del: map_of_eq_Some_iff split: if_splits)
qed

theorem server_bounds_witness:
  "length (srv_connections (fst (begin_reply 4 \<lparr>rq_Command = ''resources'', rq_Args = []\<rparr> (serve_accept 4 NewServer)))) \<le> 64 \<and>
   srv_resourceReply (fst (begin_reply 4 \<lparr>rq_Command = ''resources'', rq_Args = []\<rparr> (serve_accept 4 NewServer)))"
proof -
  have "server_step NewServer (serve_accept 4 NewServer)" by (rule accept) (simp add: NewServer_def)
  then have "server_step\<^sup>*\<^sup>* NewServer (fst (begin_reply 4 \<lparr>rq_Command = ''resources'', rq_Args = []\<rparr> (serve_accept 4 NewServer)))"
    using request by (meson rtranclp.rtrancl_into_rtrancl r_into_rtranclp)
  moreover have "srv_resourceReply (fst (begin_reply 4 \<lparr>rq_Command = ''resources'', rq_Args = []\<rparr> (serve_accept 4 NewServer)))" by code_simp
  ultimately show ?thesis using server_bounds by blast
qed

end
