(* ===== verification/Control.thy ===== *)
theory Control
  imports Json Errors
begin

text \<open>
  \<open>internal/ztna/control.go\<close> and \<open>trust.go\<close>: the control plane client, from the outcome of an HTTP exchange to
  the values of the program. The exchange itself (connection, TLS, headers, cookies) and the encryption of
  the password are calls of libraries: an outcome says how it ended. Display texts are not modelled. An array a
  document names twice is decoded afresh.
\<close>

section \<open>Exchanges\<close>

abbreviation maxControlBytes :: int where "maxControlBytes \<equiv> 8 * 2 ^ 20"
abbreviation codeSessionGone :: int where "codeSessionGone \<equiv> 75500002"
abbreviation codeSMSAlreadySent :: int where "codeSMSAlreadySent \<equiv> 75500401"
abbreviation errHTTPStatus :: error where "errHTTPStatus \<equiv> OtherError 80"

text \<open>\<open>Http_failed e cert\<close>: \<open>hc.Do\<close> failed, \<open>cert\<close> when the chain holds a certificate error; a reply has its
  status and its body, as far as it could be read.\<close>

datatype http_outcome = Http_failed error bool | Http_reply int "error + string"

fun do_response :: "http_outcome \<Rightarrow> error + string" where
  "do_response (Http_failed e cert) = Inl (WrapError Op_control_request (if cert then JoinError ErrControlTLS e else e))"
| "do_response (Http_reply status (Inl e)) = Inl (WrapError Op_control_read e)"
| "do_response (Http_reply status (Inr raw)) =
     (if len raw > maxControlBytes then Inl (ProtocolError W_control_long)
      else if status \<noteq> 200 then Inl errHTTPStatus
      else Inr raw)"

section \<open>Envelopes\<close>

definition decodeEnvelope :: "string \<Rightarrow> bool \<Rightarrow> error + json" where
  "decodeEnvelope raw sessionCodes =
     (case unmarshal (dec_struct dec_envelope) \<lparr>env_code = None, env_data = None\<rparr> raw of
        None \<Rightarrow> Inl (ProtocolError W_control_not_json)
      | Some e \<Rightarrow>
          (case env_code e of
             None \<Rightarrow> Inl (ProtocolError W_control_no_code)
           | Some c \<Rightarrow>
               if c = 0 then
                 (case env_data e of
                    None \<Rightarrow> Inl (ProtocolError W_control_no_data)
                  | Some d \<Rightarrow> if d = JNull then Inl (ProtocolError W_control_no_data) else Inr d)
               else if sessionCodes \<and> c = codeSessionGone then Inl (ErrSessionGone c)
               else Inl (ErrCodeRejected c)))"

definition envelopeData :: "string \<Rightarrow> error + json" where
  "envelopeData raw = decodeEnvelope raw True"

definition envelopeDataAuth :: "string \<Rightarrow> error + json" where
  "envelopeDataAuth raw = decodeEnvelope raw False"

text \<open>An exchange, its envelope, and the decoding of the data.\<close>

definition exchange_data :: "(string \<Rightarrow> error + json) \<Rightarrow> protocol_what \<Rightarrow> 'a decoder \<Rightarrow> 'a \<Rightarrow> http_outcome \<Rightarrow> error + 'a" where
  "exchange_data env what dec zero h =
     (case do_response h of
        Inl e \<Rightarrow> Inl e
      | Inr raw \<Rightarrow>
          (case env raw of
             Inl e \<Rightarrow> Inl e
           | Inr data \<Rightarrow> (case unmarshal_value dec zero data of None \<Rightarrow> Inl (ProtocolError what) | Some d \<Rightarrow> Inr d)))"

definition exchange_only :: "http_outcome \<Rightarrow> error option" where
  "exchange_only h =
     (case do_response h of
        Inl e \<Rightarrow> Some e
      | Inr raw \<Rightarrow> (case envelopeData raw of Inl e \<Rightarrow> Some e | Inr _ \<Rightarrow> None))"

section \<open>Decoders\<close>

fun dec_int :: "int decoder" where
  "dec_int JNull a = (a, False)"
| "dec_int (JNum l) a = (case parse_int64 l of Some n \<Rightarrow> (n, False) | None \<Rightarrow> (a, True))"
| "dec_int _ a = (a, True)"

fun dec_bool :: "bool decoder" where
  "dec_bool JNull a = (a, False)"
| "dec_bool (JBool b) a = (b, False)"
| "dec_bool _ a = (a, True)"

fun dec_list :: "'a decoder \<Rightarrow> 'a \<Rightarrow> 'a list decoder" where
  "dec_list d zero JNull a = ([], False)"
| "dec_list d zero (JArr vs) a = (let rs = map (\<lambda>v. d v zero) vs in (map fst rs, list_ex snd rs))"
| "dec_list d zero _ a = (a, True)"

text \<open>One field of a struct.\<close>

definition into :: "'b decoder \<Rightarrow> ('a \<Rightarrow> 'b) \<Rightarrow> ('b \<Rightarrow> 'a \<Rightarrow> 'a) \<Rightarrow> 'a decoder" where
  "into d get put v a = (case d v (get a) of (x, e) \<Rightarrow> (put x a, e))"

section \<open>Service information and login methods\<close>

text \<open>\<open>manifest\<close> accepts any JSON object, and null.\<close>

definition manifest :: "http_outcome \<Rightarrow> error option" where
  "manifest h =
     (case do_response h of
        Inl e \<Rightarrow> Some e
      | Inr raw \<Rightarrow> (case parse_json raw of Some (JObj _) \<Rightarrow> None | Some JNull \<Rightarrow> None | _ \<Rightarrow> Some (ProtocolError W_manifest)))"

record authMethod =
  am_LoginDomain :: string
  am_AuthType :: string
  am_SubType :: string
  am_AuthName :: string
  am_AuthID :: string

definition no_method :: authMethod where
  "no_method = \<lparr>am_LoginDomain = [], am_AuthType = [], am_SubType = [], am_AuthName = [], am_AuthID = []\<rparr>"

definition dec_method :: "string \<Rightarrow> authMethod decoder" where
  "dec_method k =
     (if is_field ''loginDomain'' k then into dec_string am_LoginDomain (\<lambda>x. am_LoginDomain_update (\<lambda>_. x))
      else if is_field ''authType'' k then into dec_string am_AuthType (\<lambda>x. am_AuthType_update (\<lambda>_. x))
      else if is_field ''subType'' k then into dec_string am_SubType (\<lambda>x. am_SubType_update (\<lambda>_. x))
      else if is_field ''authName'' k then into dec_string am_AuthName (\<lambda>x. am_AuthName_update (\<lambda>_. x))
      else if is_field ''authId'' k then into dec_string am_AuthID (\<lambda>x. am_AuthID_update (\<lambda>_. x))
      else (\<lambda>v a. (a, False)))"

record authConfig_data =
  ac_list :: "authMethod list"
  ac_isLogin :: int
  ac_csrf :: string
  ac_security_csrf :: string
  ac_pubKey :: string
  ac_pubKeyExp :: string
  ac_antiReplayRand :: string

definition dec_security :: "string \<Rightarrow> string decoder" where
  "dec_security k = (if is_field ''csrfToken'' k then dec_string else (\<lambda>v a. (a, False)))"

definition dec_authConfig :: "string \<Rightarrow> authConfig_data decoder" where
  "dec_authConfig k =
     (if is_field ''authServerInfoList'' k
      then into (dec_list (dec_struct dec_method) no_method) ac_list (\<lambda>x. ac_list_update (\<lambda>_. x))
      else if is_field ''isLogin'' k then into dec_int ac_isLogin (\<lambda>x. ac_isLogin_update (\<lambda>_. x))
      else if is_field ''csrfToken'' k then into dec_string ac_csrf (\<lambda>x. ac_csrf_update (\<lambda>_. x))
      else if is_field ''security'' k then into (dec_struct dec_security) ac_security_csrf (\<lambda>x. ac_security_csrf_update (\<lambda>_. x))
      else if is_field ''pubKey'' k then into dec_string ac_pubKey (\<lambda>x. ac_pubKey_update (\<lambda>_. x))
      else if is_field ''pubKeyExp'' k then into dec_string ac_pubKeyExp (\<lambda>x. ac_pubKeyExp_update (\<lambda>_. x))
      else if is_field ''antiReplayRand'' k then into dec_string ac_antiReplayRand (\<lambda>x. ac_antiReplayRand_update (\<lambda>_. x))
      else (\<lambda>v a. (a, False)))"

text \<open>What later requests use: the CSRF token and the public key of the control object.\<close>

record authConfig =
  cfg_Methods :: "authMethod list"
  cfg_IsLogin :: bool
  cfg_csrf :: string
  cfg_PubKey :: string
  cfg_PubKeyExp :: string
  cfg_AntiReplayRand :: string

definition authConfig_of :: "authConfig_data \<Rightarrow> authConfig" where
  "authConfig_of d =
     \<lparr>cfg_Methods = ac_list d, cfg_IsLogin = (ac_isLogin d = 1),
      cfg_csrf = (if ac_csrf d = [] then ac_security_csrf d else ac_csrf d),
      cfg_PubKey = ac_pubKey d, cfg_PubKeyExp = ac_pubKeyExp d, cfg_AntiReplayRand = ac_antiReplayRand d\<rparr>"

definition fetch_authConfig :: "http_outcome \<Rightarrow> error + authConfig" where
  "fetch_authConfig h =
     map_sum id authConfig_of
       (exchange_data envelopeData W_auth_config (dec_struct dec_authConfig)
          \<lparr>ac_list = [], ac_isLogin = 0, ac_csrf = [], ac_security_csrf = [], ac_pubKey = [], ac_pubKeyExp = [], ac_antiReplayRand = []\<rparr> h)"

section \<open>Login\<close>

text \<open>The answer, and what the caller gets of it.\<close>

record password_data =
  pd_ticket :: string
  pd_nextService :: string
  pd_antiReplayRand :: string
  pd_graphCheckCodeEnable :: int

record passwordResult =
  pr_Ticket :: string
  pr_NextService :: string
  pr_AntiReplayRand :: string
  pr_GraphCheckCode :: bool

definition dec_password :: "string \<Rightarrow> password_data decoder" where
  "dec_password k =
     (if is_field ''ticket'' k then into dec_string pd_ticket (\<lambda>x. pd_ticket_update (\<lambda>_. x))
      else if is_field ''nextService'' k then into dec_string pd_nextService (\<lambda>x. pd_nextService_update (\<lambda>_. x))
      else if is_field ''antiReplayRand'' k then into dec_string pd_antiReplayRand (\<lambda>x. pd_antiReplayRand_update (\<lambda>_. x))
      else if is_field ''graphCheckCodeEnable'' k then into dec_int pd_graphCheckCodeEnable (\<lambda>x. pd_graphCheckCodeEnable_update (\<lambda>_. x))
      else (\<lambda>v a. (a, False)))"

text \<open>\<open>key_error\<close> is the error of reading the public key or of encrypting the password.\<close>

definition passwordLogin :: "error option \<Rightarrow> http_outcome \<Rightarrow> error + passwordResult" where
  "passwordLogin key_error h =
     (case key_error of
        Some e \<Rightarrow> Inl e
      | None \<Rightarrow>
          (case exchange_data envelopeDataAuth W_password_response (dec_struct dec_password)
                  \<lparr>pd_ticket = [], pd_nextService = [], pd_antiReplayRand = [], pd_graphCheckCodeEnable = 0\<rparr> h of
             Inl e \<Rightarrow> Inl e
           | Inr d \<Rightarrow>
               if pd_ticket d = [] \<or> length (pd_ticket d) > 4096 then Inl (ProtocolError W_no_ticket)
               else Inr \<lparr>pr_Ticket = pd_ticket d, pr_NextService = pd_nextService d,
                         pr_AntiReplayRand = pd_antiReplayRand d, pr_GraphCheckCode = (pd_graphCheckCodeEnable d = 1)\<rparr>))"

section \<open>The authentication chain\<close>

record authStep =
  as_Service :: string
  as_AuthID :: string

record chain_data =
  cd_next :: string
  cd_list :: "(string \<times> string) list"

definition dec_next_entry :: "string \<Rightarrow> (string \<times> string) decoder" where
  "dec_next_entry k =
     (if is_field ''authType'' k then into dec_string fst (\<lambda>x. apfst (\<lambda>_. x))
      else if is_field ''authId'' k then into dec_string snd (\<lambda>x. apsnd (\<lambda>_. x))
      else (\<lambda>v a. (a, False)))"

definition dec_chain :: "string \<Rightarrow> chain_data decoder" where
  "dec_chain k =
     (if is_field ''nextService'' k then into dec_string cd_next (\<lambda>x. cd_next_update (\<lambda>_. x))
      else if is_field ''nextServiceList'' k
      then into (dec_list (dec_struct dec_next_entry) ([], [])) cd_list (\<lambda>x. cd_list_update (\<lambda>_. x))
      else (\<lambda>v a. (a, False)))"

fun chain_authID :: "string \<Rightarrow> (string \<times> string) list \<Rightarrow> string \<Rightarrow> string" where
  "chain_authID service [] found = found"
| "chain_authID service ((t, i) # r) found =
     (if service \<noteq> [] \<and> t = service then i else chain_authID service r (if found = [] then i else found))"

definition step_of_chain :: "chain_data \<Rightarrow> authStep" where
  "step_of_chain d =
     (let i = chain_authID (cd_next d) (cd_list d) [];
          s = (if cd_next d = ''auth/sendSms'' then ''auth/sms'' else cd_next d);
          s = (if s = [] \<and> i \<noteq> [] then ''auth/sms'' else s)
      in \<lparr>as_Service = s, as_AuthID = i\<rparr>)"

definition authStepFromData :: "json \<Rightarrow> error + authStep" where
  "authStepFromData data =
     (case unmarshal_value (dec_struct dec_chain) \<lparr>cd_next = [], cd_list = []\<rparr> data of
        None \<Rightarrow> Inl (ProtocolError W_auth_chain_response)
      | Some d \<Rightarrow> Inr (step_of_chain d))"

text \<open>\<open>authCheck\<close> and \<open>submitSMS\<close> read their answer alike.\<close>

definition chain_response :: "http_outcome \<Rightarrow> error + authStep" where
  "chain_response h =
     (case do_response h of
        Inl e \<Rightarrow> Inl e
      | Inr raw \<Rightarrow> (case envelopeData raw of Inl e \<Rightarrow> Inl e | Inr data \<Rightarrow> authStepFromData data))"

section \<open>Codes by SMS\<close>

record phone_data =
  ph_number :: "json option"
  ph_mask :: string

definition dec_phone :: "string \<Rightarrow> phone_data decoder" where
  "dec_phone k =
     (if is_field ''phoneNumber'' k then into dec_raw ph_number (\<lambda>x. ph_number_update (\<lambda>_. x))
      else if is_field ''maskIdentifierValue'' k then into dec_string ph_mask (\<lambda>x. ph_mask_update (\<lambda>_. x))
      else (\<lambda>v a. (a, False)))"

definition phones_of :: "phone_data \<Rightarrow> string list" where
  "phones_of d =
     (let out = (case ph_number d of
                   Some (JArr vs) \<Rightarrow> fst (dec_strings (JArr vs) [])
                 | Some (JStr s) \<Rightarrow> (if s \<noteq> [] then [s] else [])
                 | _ \<Rightarrow> [])
      in if out = [] \<and> ph_mask d \<noteq> [] then [ph_mask d] else out)"

definition phoneNumber :: "http_outcome \<Rightarrow> error + string list" where
  "phoneNumber h =
     map_sum id phones_of (exchange_data envelopeData W_phone_response (dec_struct dec_phone) \<lparr>ph_number = None, ph_mask = []\<rparr> h)"

record sms_data =
  sm_code :: "int option"
  sm_message :: string
  sm_tips :: string

definition dec_tips :: "string \<Rightarrow> string decoder" where
  "dec_tips k = (if is_field ''tips'' k then dec_string else (\<lambda>v a. (a, False)))"

definition dec_sms :: "string \<Rightarrow> sms_data decoder" where
  "dec_sms k =
     (if is_field ''code'' k then into dec_int_ptr sm_code (\<lambda>x. sm_code_update (\<lambda>_. x))
      else if is_field ''message'' k then into dec_string sm_message (\<lambda>x. sm_message_update (\<lambda>_. x))
      else if is_field ''data'' k then into (dec_struct dec_tips) sm_tips (\<lambda>x. sm_tips_update (\<lambda>_. x))
      else (\<lambda>v a. (a, False)))"

definition sendSMS :: "http_outcome \<Rightarrow> error option" where
  "sendSMS h =
     (case do_response h of
        Inl e \<Rightarrow> Some e
      | Inr raw \<Rightarrow>
          (case unmarshal (dec_struct dec_sms) \<lparr>sm_code = None, sm_message = [], sm_tips = []\<rparr> raw of
             None \<Rightarrow> Some (ProtocolError W_sms_response)
           | Some d \<Rightarrow>
               (case sm_code d of
                  None \<Rightarrow> Some (ProtocolError W_sms_no_code)
                | Some c \<Rightarrow> if c \<noteq> 0 \<and> c \<noteq> codeSMSAlreadySent then Some (ErrCodeRejected c) else None)))"

section \<open>Online information and resources\<close>

definition dec_online :: "string \<Rightarrow> string decoder" where
  "dec_online k = (if is_field ''username'' k then dec_string else (\<lambda>v a. (a, False)))"

definition onlineInfo :: "http_outcome \<Rightarrow> error + string" where
  "onlineInfo h = exchange_data envelopeData W_online_info (dec_struct dec_online) [] h"

definition clientResource :: "http_outcome \<Rightarrow> error + string" where
  "clientResource h =
     (case do_response h of
        Inl e \<Rightarrow> Inl e
      | Inr raw \<Rightarrow> (case envelopeData raw of Inl e \<Rightarrow> Inl e | Inr _ \<Rightarrow> Inr raw))"

section \<open>Trusted devices\<close>

record DeviceRecord =
  dr_ID :: string
  dr_DevDbID :: string

record DeviceStatus =
  ds_SelfID :: string
  ds_Trusted :: bool
  ds_Count :: int
  ds_Max :: int
  ds_TrustEnabled :: bool
  ds_Devices :: "DeviceRecord list"

text \<open>The other fields of a device record are decoded for display only; \<open>dec_other\<close> checks their types.\<close>

definition dec_other :: "'b decoder \<Rightarrow> 'b \<Rightarrow> DeviceRecord decoder" where
  "dec_other d zero v a = (a, snd (d v zero))"

definition dec_device :: "string \<Rightarrow> DeviceRecord decoder" where
  "dec_device k =
     (if is_field ''id'' k then into dec_string dr_ID (\<lambda>x. dr_ID_update (\<lambda>_. x))
      else if is_field ''devDbId'' k then into dec_string dr_DevDbID (\<lambda>x. dr_DevDbID_update (\<lambda>_. x))
      else if list_ex (\<lambda>f. is_field f k) [''trusDevDbId'', ''deviceName'', ''deviceType'', ''os'', ''username'',
                ''lastLoginIp'', ''lastLoginTime'', ''lastNetworkZone'']
      then dec_other dec_string []
      else if is_field ''onlineStatus'' k then dec_other dec_bool False
      else if is_field ''trustStatus'' k then dec_other dec_int 0
      else (\<lambda>v a. (a, False)))"

definition dec_enable :: "string \<Rightarrow> bool decoder" where
  "dec_enable k = (if is_field ''enable'' k then dec_bool else (\<lambda>v a. (a, False)))"

definition dec_status :: "string \<Rightarrow> DeviceStatus decoder" where
  "dec_status k =
     (if is_field ''selfId'' k then into dec_string ds_SelfID (\<lambda>x. ds_SelfID_update (\<lambda>_. x))
      else if is_field ''deviceTrusted'' k then into dec_bool ds_Trusted (\<lambda>x. ds_Trusted_update (\<lambda>_. x))
      else if is_field ''currentTrustDeviceCount'' k then into dec_int ds_Count (\<lambda>x. ds_Count_update (\<lambda>_. x))
      else if is_field ''maxDeviceCount'' k then into dec_int ds_Max (\<lambda>x. ds_Max_update (\<lambda>_. x))
      else if is_field ''trustDeviceConfig'' k then into (dec_struct dec_enable) ds_TrustEnabled (\<lambda>x. ds_TrustEnabled_update (\<lambda>_. x))
      else if is_field ''data'' k
      then into (dec_list (dec_struct dec_device) \<lparr>dr_ID = [], dr_DevDbID = []\<rparr>) ds_Devices (\<lambda>x. ds_Devices_update (\<lambda>_. x))
      else (\<lambda>v a. (a, False)))"

definition queryDevice :: "http_outcome \<Rightarrow> error + DeviceStatus" where
  "queryDevice h =
     exchange_data envelopeData W_device_list (dec_struct dec_status)
       \<lparr>ds_SelfID = [], ds_Trusted = False, ds_Count = 0, ds_Max = 0, ds_TrustEnabled = False, ds_Devices = []\<rparr> h"

definition managementID :: "DeviceRecord \<Rightarrow> string" where
  "managementID d = (if dr_ID d \<noteq> [] then dr_ID d else dr_DevDbID d)"

definition hasTrustedDevices :: "DeviceStatus \<Rightarrow> bool" where
  "hasTrustedDevices s \<longleftrightarrow> ds_Trusted s \<or> ds_Count s \<noteq> 0 \<or> ds_Devices s \<noteq> []"

definition TrustedIDs :: "DeviceStatus \<Rightarrow> string list" where
  "TrustedIDs s = filter (\<lambda>i. i \<noteq> []) (map managementID (ds_Devices s))"

definition id_list_json :: "string list \<Rightarrow> string" where
  "id_list_json ids = print_json (JObj [(''idList'', JArr (map JStr ids))])"

end
