(* ===== verification/Probe.thy ===== *)
theory Probe
  imports Control
begin

text \<open>
  \<open>internal/ztna/node.go\<close>: the concurrent choice of a tunnel node. The goroutines (at most eight workers and
  the caller), the channel of jobs, the channel of results with its one place and the context are a state;
  a move is one step of one goroutine or of the outside (a dial that returns, the end of the context), and a
  schedule of moves is an interleaving. Connections are numbered. \<open>pb_answers\<close> and \<open>pb_shut\<close> record what the
  dials returned and which connections were closed.
\<close>

section \<open>State\<close>

abbreviation maxConcurrentProbes :: nat where "maxConcurrentProbes \<equiv> 8"

type_synonym probeResult = "string \<times> (error + nat)"

datatype probe_worker =
    W_ready
  | W_job string
  | W_dialing string
  | W_dialed probeResult
  | W_sending probeResult
  | W_done

type_synonym probe_return = "string \<times> nat option \<times> error option"

text \<open>The caller in its loop with the rounds left and the last error, with a result just received in a round, in
  the deferred function, or back at its own caller.\<close>

datatype probe_caller =
    P_loop nat "error option"
  | P_received probeResult nat "error option"
  | P_deferred probe_return
  | P_returned probe_return

record probing =
  pb_jobs :: "string list"
  pb_workers :: "probe_worker list"
  pb_results :: "probeResult list"
  pb_ctx :: "error option"
  pb_caller :: probe_caller
  pb_answers :: "probeResult list"
  pb_shut :: "(string \<times> nat) list"

definition probe_start :: "string list \<Rightarrow> probing" where
  "probe_start addrs =
     \<lparr>pb_jobs = addrs, pb_workers = replicate (min maxConcurrentProbes (length addrs)) W_ready, pb_results = [],
      pb_ctx = None, pb_caller = P_loop (length addrs) None, pb_answers = [], pb_shut = []\<rparr>"

section \<open>Moves\<close>

fun result_conn :: "probeResult \<Rightarrow> (string \<times> nat) list" where
  "result_conn (addr, Inr c) = [(addr, c)]"
| "result_conn (addr, Inl e) = []"

definition shut_result :: "probeResult \<Rightarrow> probing \<Rightarrow> probing" where
  "shut_result r s = s\<lparr>pb_shut := result_conn r @ pb_shut s\<rparr>"

definition set_worker :: "nat \<Rightarrow> probe_worker \<Rightarrow> probing \<Rightarrow> probing" where
  "set_worker i w s = s\<lparr>pb_workers := (pb_workers s)[i := w]\<rparr>"

text \<open>The next step of a worker that does not wait for its dial; at the \<open>select\<close> it can send while the channel
  has room.\<close>

definition worker_step :: "nat \<Rightarrow> probing \<Rightarrow> probing option" where
  "worker_step i s =
     (case pb_workers s ! i of
        W_ready \<Rightarrow>
          (case pb_jobs s of
             [] \<Rightarrow> Some (set_worker i W_done s)
           | addr # rest \<Rightarrow> Some (set_worker i (W_job addr) (s\<lparr>pb_jobs := rest\<rparr>)))
      | W_job addr \<Rightarrow> Some (set_worker i (if pb_ctx s \<noteq> None then W_done else W_dialing addr) s)
      | W_dialed r \<Rightarrow>
          Some (if pb_ctx s \<noteq> None then set_worker i W_done (shut_result r s) else set_worker i (W_sending r) s)
      | W_sending r \<Rightarrow>
          if pb_results s = [] then Some (set_worker i W_ready (s\<lparr>pb_results := [r]\<rparr>)) else None
      | _ \<Rightarrow> None)"

text \<open>The other branch of the worker's \<open>select\<close>.\<close>

definition worker_leaves :: "nat \<Rightarrow> probing \<Rightarrow> probing option" where
  "worker_leaves i s =
     (case pb_workers s ! i of
        W_sending r \<Rightarrow> if pb_ctx s \<noteq> None then Some (set_worker i W_done (shut_result r s)) else None
      | _ \<Rightarrow> None)"

definition dial_returns :: "nat \<Rightarrow> error + nat \<Rightarrow> probing \<Rightarrow> probing option" where
  "dial_returns i r s =
     (case pb_workers s ! i of
        W_dialing addr \<Rightarrow> Some (set_worker i (W_dialed (addr, r)) (s\<lparr>pb_answers := (addr, r) # pb_answers s\<rparr>))
      | _ \<Rightarrow> None)"

text \<open>A \<open>return\<close> of the caller: the deferred function starts with \<open>cancel\<close>.\<close>

definition caller_returns :: "probe_return \<Rightarrow> probing \<Rightarrow> probing" where
  "caller_returns res s =
     s\<lparr>pb_caller := P_deferred res, pb_ctx := (if pb_ctx s = None then Some ContextCanceled else pb_ctx s)\<rparr>"

text \<open>The next step of the caller: receive a result, judge it, return after the last round; then wait for the
  workers, empty the channel and return.\<close>

definition caller_step :: "probing \<Rightarrow> probing option" where
  "caller_step s =
     (case pb_caller s of
        P_loop 0 recent \<Rightarrow> Some (caller_returns ([], None, Wrap Op_probe recent) s)
      | P_loop (Suc n) recent \<Rightarrow>
          (case pb_results s of
             [] \<Rightarrow> None
           | r # rest \<Rightarrow> Some (s\<lparr>pb_results := rest, pb_caller := P_received r n recent\<rparr>))
      | P_received (addr, r) n recent \<Rightarrow>
          Some (if pb_ctx s \<noteq> None
                then caller_returns ([], None, Wrap Op_probe (pb_ctx s)) (shut_result (addr, r) s)
                else case r of
                  Inr c \<Rightarrow> caller_returns (addr, Some c, None) s
                | Inl e \<Rightarrow> (shut_result (addr, r) s)\<lparr>pb_caller := P_loop n (Some e)\<rparr>)
      | P_deferred res \<Rightarrow>
          if \<not> list_all (\<lambda>w. w = W_done) (pb_workers s) then None
          else (case pb_results s of
                  [] \<Rightarrow> Some (s\<lparr>pb_caller := P_returned res\<rparr>)
                | r # rest \<Rightarrow> Some (shut_result r (s\<lparr>pb_results := rest\<rparr>)))
      | P_returned res \<Rightarrow> None)"

text \<open>The other branch of the caller's \<open>select\<close>.\<close>

definition caller_quits :: "probing \<Rightarrow> probing option" where
  "caller_quits s =
     (case pb_caller s of
        P_loop (Suc n) recent \<Rightarrow>
          if pb_ctx s \<noteq> None then Some (caller_returns ([], None, Wrap Op_probe (pb_ctx s)) s) else None
      | _ \<Rightarrow> None)"

datatype probe_move = Work nat | Leave nat | Answer nat "error + nat" | Caller | Quit | Context_over error

text \<open>A move in a state in which it cannot be made is \<open>None\<close>.\<close>

definition probe_step :: "probe_move \<Rightarrow> probing \<Rightarrow> probing option" where
  "probe_step m s =
     (case m of
        Work i \<Rightarrow> if i < length (pb_workers s) then worker_step i s else None
      | Leave i \<Rightarrow> if i < length (pb_workers s) then worker_leaves i s else None
      | Answer i r \<Rightarrow> if i < length (pb_workers s) then dial_returns i r s else None
      | Caller \<Rightarrow> caller_step s
      | Quit \<Rightarrow> caller_quits s
      | Context_over e \<Rightarrow> if pb_ctx s = None then Some (s\<lparr>pb_ctx := Some e\<rparr>) else None)"

text \<open>The moves of a schedule that can be made, in its order.\<close>

fun probe_run :: "probe_move list \<Rightarrow> probing \<Rightarrow> probing" where
  "probe_run [] s = s"
| "probe_run (m # ms) s = probe_run ms (case probe_step m s of None \<Rightarrow> s | Some s' \<Rightarrow> s')"

section \<open>\<open>probeNodes\<close>\<close>

text \<open>A schedule that ends before the probe does is continued by its timeout: the context ends, every dial under
  way fails with it, and workers and caller run to their end.\<close>

definition probe_timeout :: "string list \<Rightarrow> probe_move list" where
  "probe_timeout addrs =
     Context_over ContextDeadline #
     concat (map (\<lambda>i. [Answer i (Inl ContextDeadline), Leave i, Work i, Work i]) [0..<min maxConcurrentProbes (length addrs)]) @
     [Quit, Caller, Caller, Caller]"

definition probe_states :: "string list \<Rightarrow> probe_move list \<Rightarrow> probing" where
  "probe_states addrs sched = probe_run (sched @ probe_timeout addrs) (probe_start addrs)"

definition probeNodes :: "string list \<Rightarrow> probe_move list \<Rightarrow> probe_return" where
  "probeNodes addrs sched =
     (if addrs = [] then ([], None, Some (ProtocolError W_no_tunnel_node))
      else case pb_caller (probe_states addrs sched) of P_returned res \<Rightarrow> res | _ \<Rightarrow> ([], None, None))"

end
