(* ===== verification/Probe_Props.thy ===== *)
theory Probe_Props
  imports Probe "HOL-Library.Multiset"
begin

text \<open>
  The probe of the tunnel nodes under every interleaving: where each connection is, how many are open at once,
  that the probe comes to its end, and what its result says.
\<close>

section \<open>The moves, one by one\<close>

lemma probe_step_cases [consumes 1]:
  assumes "probe_step m s = Some s'"
  obtains
    (finish) i where "m = Work i" "i < length (pb_workers s)" "pb_workers s ! i = W_ready" "pb_jobs s = []"
      "s' = set_worker i W_done s"
  | (take) i addr rest where "m = Work i" "i < length (pb_workers s)" "pb_workers s ! i = W_ready"
      "pb_jobs s = addr # rest" "s' = set_worker i (W_job addr) (s\<lparr>pb_jobs := rest\<rparr>)"
  | (refuse) i addr where "m = Work i" "i < length (pb_workers s)" "pb_workers s ! i = W_job addr"
      "pb_ctx s \<noteq> None" "s' = set_worker i W_done s"
  | (dial) i addr where "m = Work i" "i < length (pb_workers s)" "pb_workers s ! i = W_job addr"
      "pb_ctx s = None" "s' = set_worker i (W_dialing addr) s"
  | (late) i r where "m = Work i" "i < length (pb_workers s)" "pb_workers s ! i = W_dialed r"
      "pb_ctx s \<noteq> None" "s' = set_worker i W_done (shut_result r s)"
  | (offer) i r where "m = Work i" "i < length (pb_workers s)" "pb_workers s ! i = W_dialed r"
      "pb_ctx s = None" "s' = set_worker i (W_sending r) s"
  | (send) i r where "m = Work i" "i < length (pb_workers s)" "pb_workers s ! i = W_sending r"
      "pb_results s = []" "s' = set_worker i W_ready (s\<lparr>pb_results := [r]\<rparr>)"
  | (leave) i r where "m = Leave i" "i < length (pb_workers s)" "pb_workers s ! i = W_sending r"
      "pb_ctx s \<noteq> None" "s' = set_worker i W_done (shut_result r s)"
  | (answer) i addr r where "m = Answer i r" "i < length (pb_workers s)" "pb_workers s ! i = W_dialing addr"
      "s' = set_worker i (W_dialed (addr, r)) (s\<lparr>pb_answers := (addr, r) # pb_answers s\<rparr>)"
  | (exhausted) recent where "m = Caller" "pb_caller s = P_loop 0 recent"
      "s' = caller_returns ([], None, Wrap Op_probe recent) s"
  | (receive) n recent r rest where "m = Caller" "pb_caller s = P_loop (Suc n) recent" "pb_results s = r # rest"
      "s' = s\<lparr>pb_results := rest, pb_caller := P_received r n recent\<rparr>"
  | (overdue) r n recent x where "m = Caller" "pb_caller s = P_received r n recent" "pb_ctx s = Some x"
      "s' = caller_returns ([], None, Some (WrapError Op_probe x)) (shut_result r s)"
  | (chosen) addr c n recent where "m = Caller" "pb_caller s = P_received (addr, Inr c) n recent" "pb_ctx s = None"
      "s' = caller_returns (addr, Some c, None) s"
  | (failed) addr e n recent where "m = Caller" "pb_caller s = P_received (addr, Inl e) n recent" "pb_ctx s = None"
      "s' = s\<lparr>pb_caller := P_loop n (Some e)\<rparr>"
  | (drain) res r rest where "m = Caller" "pb_caller s = P_deferred res" "set (pb_workers s) \<subseteq> {W_done}"
      "pb_results s = r # rest" "s' = shut_result r (s\<lparr>pb_results := rest\<rparr>)"
  | (home) res where "m = Caller" "pb_caller s = P_deferred res" "set (pb_workers s) \<subseteq> {W_done}"
      "pb_results s = []" "s' = s\<lparr>pb_caller := P_returned res\<rparr>"
  | (quit) n recent x where "m = Quit" "pb_caller s = P_loop (Suc n) recent" "pb_ctx s = Some x"
      "s' = caller_returns ([], None, Some (WrapError Op_probe x)) s"
  | (over) e where "m = Context_over e" "pb_ctx s = None" "s' = s\<lparr>pb_ctx := Some e\<rparr>"
proof (cases m)
  case (Work i)
  with assms have i: "i < length (pb_workers s)" "worker_step i s = Some s'"
    by (auto simp: probe_step_def split: if_splits)
  show ?thesis
    using i Work that(1-7)
    by (cases "pb_workers s ! i") (auto simp: worker_step_def split: list.splits if_splits)
next
  case (Leave i)
  with assms that(8) show ?thesis
    by (auto simp: probe_step_def worker_leaves_def split: if_splits probe_worker.splits)
next
  case (Answer i r)
  with assms that(9) show ?thesis
    by (auto simp: probe_step_def dial_returns_def split: if_splits probe_worker.splits)
next
  case Caller
  then have c: "caller_step s = Some s'" using assms by (simp add: probe_step_def)
  show ?thesis
  proof (cases "pb_caller s")
    case (P_loop n recent)
    with c Caller that(10,11) show ?thesis
      by (cases n) (auto simp: caller_step_def split: list.splits)
  next
    case (P_received r n recent)
    obtain addr x where r: "r = (addr, x)" by (cases r)
    show ?thesis
    proof (cases "pb_ctx s")
      case None
      with P_received r c Caller that(13,14) show ?thesis
        by (cases x) (auto simp: caller_step_def shut_result_def)
    qed (use P_received r c Caller that(12) in \<open>simp add: caller_step_def Wrap_def\<close>)
  next
    case (P_deferred res)
    with c Caller that(15,16) show ?thesis
      by (auto simp: caller_step_def list_all_iff subset_iff split: list.splits if_splits)
  qed (use c in \<open>simp add: caller_step_def\<close>)
next
  case Quit
  with assms that(17) show ?thesis
    by (auto simp: probe_step_def caller_quits_def Wrap_def split: probe_caller.splits nat.splits if_splits)
next
  case (Context_over e)
  with assms that(18) show ?thesis by (auto simp: probe_step_def split: if_splits)
qed

lemmas probe_state_simps = set_worker_def shut_result_def caller_returns_def

section \<open>Every connection is somewhere\<close>

definition opened :: "probing \<Rightarrow> (string \<times> nat) list" where
  "opened s = concat (map result_conn (pb_answers s))"

fun worker_conns :: "probe_worker \<Rightarrow> (string \<times> nat) list" where
  "worker_conns (W_dialed r) = result_conn r"
| "worker_conns (W_sending r) = result_conn r"
| "worker_conns _ = []"

fun return_conns :: "probe_return \<Rightarrow> (string \<times> nat) list" where
  "return_conns (addr, Some c, err) = [(addr, c)]"
| "return_conns (addr, None, err) = []"

fun caller_conns :: "probe_caller \<Rightarrow> (string \<times> nat) list" where
  "caller_conns (P_loop n recent) = []"
| "caller_conns (P_received r n recent) = result_conn r"
| "caller_conns (P_deferred res) = return_conns res"
| "caller_conns (P_returned res) = return_conns res"

definition held :: "probing \<Rightarrow> (string \<times> nat) list" where
  "held s = concat (map worker_conns (pb_workers s)) @ concat (map result_conn (pb_results s)) @
     caller_conns (pb_caller s)"

definition conns_ok :: "probing \<Rightarrow> bool" where
  "conns_ok s \<longleftrightarrow> mset (opened s) = mset (held s) + mset (pb_shut s) \<and> length (pb_results s) \<le> 1"

lemma mset_concat_update:
  assumes "i < length ws"
  shows "mset (concat (map f (ws[i := w]))) + mset (f (ws ! i)) = mset (concat (map f ws)) + mset (f w)"
  using assms
proof (induction ws arbitrary: i)
  case (Cons x xs)
  show ?case
  proof (cases i)
    case (Suc j)
    with Cons have "mset (concat (map f (xs[j := w]))) + mset (f (xs ! j)) = mset (concat (map f xs)) + mset (f w)"
      by simp
    with Suc show ?thesis by (simp add: union_assoc)
  qed simp
qed simp

lemma conns_ok_step:
  assumes "probe_step m s = Some s'" "conns_ok s"
  shows "conns_ok s'"
proof -
  note upd = mset_concat_update [of _ "pb_workers s" worker_conns]
  show ?thesis
    using assms
  proof (cases rule: probe_step_cases)
    case (send i r)
    with assms(2) upd [of i W_ready] show ?thesis
      by (simp add: conns_ok_def held_def opened_def probe_state_simps ac_simps)
  next
    case (leave i r)
    with assms(2) upd [of i W_done] show ?thesis
      by (simp add: conns_ok_def held_def opened_def probe_state_simps ac_simps)
  next
    case (late i r)
    with assms(2) upd [of i W_done] show ?thesis
      by (simp add: conns_ok_def held_def opened_def probe_state_simps ac_simps)
  next
    case (answer i addr r)
    with assms(2) upd [of i "W_dialed (addr, r)"] show ?thesis
      by (simp add: conns_ok_def held_def opened_def probe_state_simps ac_simps)
  next
    case (finish i)
    with assms(2) upd [of i W_done] show ?thesis
      by (simp add: conns_ok_def held_def opened_def probe_state_simps)
  next
    case (take i addr rest)
    with assms(2) upd [of i "W_job addr"] show ?thesis
      by (simp add: conns_ok_def held_def opened_def probe_state_simps)
  next
    case (refuse i addr)
    with assms(2) upd [of i W_done] show ?thesis
      by (simp add: conns_ok_def held_def opened_def probe_state_simps)
  next
    case (dial i addr)
    with assms(2) upd [of i "W_dialing addr"] show ?thesis
      by (simp add: conns_ok_def held_def opened_def probe_state_simps)
  next
    case (offer i r)
    with assms(2) upd [of i "W_sending r"] show ?thesis
      by (simp add: conns_ok_def held_def opened_def probe_state_simps)
  qed (use assms(2) in \<open>auto simp: conns_ok_def held_def opened_def probe_state_simps ac_simps\<close>)
qed

lemma workers_step: "probe_step m s = Some s' \<Longrightarrow> length (pb_workers s') = length (pb_workers s)"
  by (cases rule: probe_step_cases) (assumption, auto simp: probe_state_simps)

section \<open>Every probe ends\<close>

text \<open>A bound on the moves still to come.\<close>

fun worker_left :: "probe_worker \<Rightarrow> nat" where
  "worker_left W_ready = 1"
| "worker_left (W_job _) = 6"
| "worker_left (W_dialing _) = 5"
| "worker_left (W_dialed _) = 4"
| "worker_left (W_sending _) = 3"
| "worker_left W_done = 0"

fun caller_left :: "probe_caller \<Rightarrow> nat" where
  "caller_left (P_loop n recent) = 2 * n + 2"
| "caller_left (P_received r n recent) = 2 * n + 3"
| "caller_left (P_deferred res) = 1"
| "caller_left (P_returned res) = 0"

definition probe_left :: "probing \<Rightarrow> nat" where
  "probe_left s = 6 * length (pb_jobs s) + sum_list (map worker_left (pb_workers s)) + length (pb_results s) +
     caller_left (pb_caller s) + (if pb_ctx s = None then 1 else 0)"

lemma sum_list_map_update:
  fixes f :: "'a \<Rightarrow> nat"
  assumes "i < length ws"
  shows "sum_list (map f (ws[i := w])) + f (ws ! i) = sum_list (map f ws) + f w"
  using assms
proof (induction ws arbitrary: i)
  case (Cons x xs)
  then show ?case by (cases i) (auto simp: add.commute add.left_commute)
qed simp

lemma probe_left_step:
  assumes "probe_step m s = Some s'"
  shows "probe_left s' < probe_left s"
proof -
  note upd = sum_list_map_update [of _ "pb_workers s" worker_left]
  show ?thesis
    using assms
  proof (cases rule: probe_step_cases)
    case (finish i)
    with upd [of i W_done] show ?thesis by (simp add: probe_left_def probe_state_simps)
  next
    case (take i addr rest)
    with upd [of i "W_job addr"] show ?thesis by (simp add: probe_left_def probe_state_simps)
  next
    case (refuse i addr)
    with upd [of i W_done] show ?thesis by (simp add: probe_left_def probe_state_simps)
  next
    case (dial i addr)
    with upd [of i "W_dialing addr"] show ?thesis by (simp add: probe_left_def probe_state_simps)
  next
    case (late i r)
    with upd [of i W_done] show ?thesis by (simp add: probe_left_def probe_state_simps)
  next
    case (offer i r)
    with upd [of i "W_sending r"] show ?thesis by (simp add: probe_left_def probe_state_simps)
  next
    case (send i r)
    with upd [of i W_ready] show ?thesis by (simp add: probe_left_def probe_state_simps)
  next
    case (leave i r)
    with upd [of i W_done] show ?thesis by (simp add: probe_left_def probe_state_simps)
  next
    case (answer i addr r)
    with upd [of i "W_dialed (addr, r)"] show ?thesis by (simp add: probe_left_def probe_state_simps)
  qed (auto simp: probe_left_def probe_state_simps)
qed

section \<open>Addresses and answers\<close>

fun worker_addr :: "probe_worker \<Rightarrow> string list" where
  "worker_addr (W_job addr) = [addr]"
| "worker_addr (W_dialing addr) = [addr]"
| "worker_addr _ = []"

fun worker_result :: "probe_worker \<Rightarrow> probeResult list" where
  "worker_result (W_dialed r) = [r]"
| "worker_result (W_sending r) = [r]"
| "worker_result _ = []"

abbreviation assigned :: "probing \<Rightarrow> string list" where
  "assigned s \<equiv> concat (map worker_addr (pb_workers s))"

abbreviation in_hand :: "probing \<Rightarrow> probeResult list" where
  "in_hand s \<equiv> concat (map worker_result (pb_workers s))"

fun rounds_left :: "probe_caller \<Rightarrow> nat option" where
  "rounds_left (P_loop n recent) = Some n"
| "rounds_left (P_received r n recent) = Some n"
| "rounds_left _ = None"

text \<open>While the context lives nothing is closed, each round left has its result to come, and every address is
  still queued, in a worker's hands, or answered.\<close>

definition live_ok :: "string list \<Rightarrow> probing \<Rightarrow> bool" where
  "live_ok addrs s \<longleftrightarrow> (pb_ctx s = None \<longrightarrow> pb_shut s = [] \<and>
     rounds_left (pb_caller s) = Some (length (pb_jobs s) + length (assigned s) + length (in_hand s) + length (pb_results s)) \<and>
     mset addrs = mset (pb_jobs s) + mset (assigned s) + mset (map fst (pb_answers s)) \<and>
     (pb_jobs s \<noteq> [] \<longrightarrow> W_done \<notin> set (pb_workers s)))"

fun recent_ok :: "nat \<Rightarrow> probeResult list \<Rightarrow> probe_caller \<Rightarrow> bool" where
  "recent_ok rounds answers (P_loop n None) = (n = rounds)"
| "recent_ok rounds answers (P_loop n (Some e)) = (\<exists>a. (a, Inl e) \<in> set answers)"
| "recent_ok rounds answers (P_received r n None) = (Suc n = rounds \<and> r \<in> set answers)"
| "recent_ok rounds answers (P_received r n (Some e)) = (r \<in> set answers \<and> (\<exists>a. (a, Inl e) \<in> set answers))"
| "recent_ok rounds answers _ = True"

definition answers_ok :: "string list \<Rightarrow> probing \<Rightarrow> bool" where
  "answers_ok addrs s \<longleftrightarrow> set (pb_jobs s) \<union> set (assigned s) \<union> fst ` set (pb_answers s) \<subseteq> set addrs \<and>
     set (in_hand s) \<union> set (pb_results s) \<subseteq> set (pb_answers s) \<and>
     recent_ok (length addrs) (pb_answers s) (pb_caller s)"

text \<open>Every address was dialed and none gave a connection; no worker has anything left to do.\<close>

definition all_failed :: "string list \<Rightarrow> probing \<Rightarrow> bool" where
  "all_failed addrs s \<longleftrightarrow> mset (map fst (pb_answers s)) = mset addrs \<and> opened s = [] \<and> pb_jobs s = [] \<and>
     assigned s = [] \<and> in_hand s = []"

definition failure_ok :: "string list \<Rightarrow> probe_move list \<Rightarrow> probing \<Rightarrow> error \<Rightarrow> bool" where
  "failure_ok addrs ms s err \<longleftrightarrow>
     (\<exists>x. err = WrapError Op_probe x \<and> (Context_over x \<in> set ms \<or> (\<exists>a. (a, Inl x) \<in> set (pb_answers s)))) \<and>
     ((\<forall>x. Context_over x \<notin> set ms) \<longrightarrow> all_failed addrs s)"

fun outcome_ok :: "(error \<Rightarrow> bool) \<Rightarrow> probe_return \<Rightarrow> bool" where
  "outcome_ok F (addr, Some c, None) = True"
| "outcome_ok F (addr, None, Some err) = (addr = [] \<and> F err)"
| "outcome_ok F _ = False"

definition end_ok :: "string list \<Rightarrow> probe_move list \<Rightarrow> probing \<Rightarrow> bool" where
  "end_ok addrs ms s \<longleftrightarrow>
     (case pb_caller s of
        P_deferred res \<Rightarrow> pb_ctx s \<noteq> None \<and> outcome_ok (failure_ok addrs ms s) res
      | P_returned res \<Rightarrow> pb_ctx s \<noteq> None \<and> outcome_ok (failure_ok addrs ms s) res \<and> pb_results s = [] \<and>
          set (pb_workers s) \<subseteq> {W_done}
      | _ \<Rightarrow> (\<forall>x. pb_ctx s = Some x \<longrightarrow> Context_over x \<in> set ms))"

lemma concat_update_subset:
  "set (concat (map f (ws[i := w]))) \<subseteq> set (f w) \<union> set (concat (map f ws))"
  using set_update_subset_insert [of ws i w] by auto

lemma done_update: "i < length ws \<Longrightarrow> w \<noteq> W_done \<Longrightarrow> W_done \<in> set (ws[i := w]) \<Longrightarrow> W_done \<in> set ws"
  using set_update_subset_insert [of ws i w] by auto

lemma in_concat_nth: "i < length ws \<Longrightarrow> x \<in> set (f (ws ! i)) \<Longrightarrow> x \<in> set (concat (map f ws))"
  by (auto intro!: bexI [of _ "ws ! i"])

lemma live_ok_step:
  assumes "probe_step m s = Some s'" "live_ok addrs s"
  shows "live_ok addrs s'"
proof -
  note a = mset_concat_update [of _ "pb_workers s" worker_addr]
  note l = arg_cong [where f = size, OF a, simplified]
  note h = arg_cong [where f = size, OF mset_concat_update [of _ "pb_workers s" worker_result]]
  show ?thesis
    using assms
  proof (cases rule: probe_step_cases)
    case (finish i)
    then show ?thesis
      using assms(2) a [of i W_done] l [of i W_done] h [of i W_done]
      by (simp add: live_ok_def probe_state_simps)
  next
    case (take i addr rest)
    then show ?thesis
      using assms(2) a [of i "W_job addr"] l [of i "W_job addr"] h [of i "W_job addr"]
        done_update [of i "pb_workers s" "W_job addr"]
      by (auto simp: live_ok_def probe_state_simps)
  next
    case (dial i addr)
    then show ?thesis
      using assms(2) a [of i "W_dialing addr"] l [of i "W_dialing addr"] h [of i "W_dialing addr"]
        done_update [of i "pb_workers s" "W_dialing addr"]
      by (auto simp: live_ok_def probe_state_simps)
  next
    case (offer i r)
    then show ?thesis
      using assms(2) a [of i "W_sending r"] l [of i "W_sending r"] h [of i "W_sending r"]
        done_update [of i "pb_workers s" "W_sending r"]
      by (auto simp: live_ok_def probe_state_simps)
  next
    case (send i r)
    then show ?thesis
      using assms(2) a [of i W_ready] l [of i W_ready] h [of i W_ready]
        done_update [of i "pb_workers s" W_ready]
      by (auto simp: live_ok_def probe_state_simps)
  next
    case (answer i addr r)
    then show ?thesis
      using assms(2) a [of i "W_dialed (addr, r)"] l [of i "W_dialed (addr, r)"] h [of i "W_dialed (addr, r)"]
        done_update [of i "pb_workers s" "W_dialed (addr, r)"]
      by (auto simp: live_ok_def probe_state_simps)
  qed (use assms(2) in \<open>auto simp: live_ok_def probe_state_simps\<close>)
qed

lemma recent_ok_Cons: "recent_ok rounds answers c \<Longrightarrow> recent_ok rounds (r # answers) c"
  by (induction rounds answers c rule: recent_ok.induct) auto

lemma recent_okD:
  "recent_ok rounds answers (P_received r n recent) \<Longrightarrow> r \<in> set answers"
  "recent_ok rounds answers (P_loop (Suc n) recent) \<Longrightarrow> r \<in> set answers \<Longrightarrow>
    recent_ok rounds answers (P_received r n recent)"
  by (cases recent; simp)+

lemma answers_ok_step:
  assumes "probe_step m s = Some s'" "answers_ok addrs s"
  shows "answers_ok addrs s'"
proof -
  note a = concat_update_subset [of worker_addr "pb_workers s"]
  note h = concat_update_subset [of worker_result "pb_workers s"]
  note addr = in_concat_nth [of _ "pb_workers s" _ worker_addr]
  note res = in_concat_nth [of _ "pb_workers s" _ worker_result]
  have A: "set (pb_jobs s) \<union> set (assigned s) \<union> fst ` set (pb_answers s) \<subseteq> set addrs"
    "set (in_hand s) \<union> set (pb_results s) \<subseteq> set (pb_answers s)"
    using assms(2) by (auto simp: answers_ok_def)
  show ?thesis
    using assms(1)
  proof (cases rule: probe_step_cases)
    case (finish i)
    then show ?thesis using assms(2) a [of i W_done] h [of i W_done]
      by (auto simp: answers_ok_def probe_state_simps simp del: set_concat)
  next
    case (take i addr rest)
    then show ?thesis using assms(2) a [of i "W_job addr"] h [of i "W_job addr"]
      by (auto simp: answers_ok_def probe_state_simps simp del: set_concat)
  next
    case (refuse i addr)
    then show ?thesis using assms(2) a [of i W_done] h [of i W_done]
      by (auto simp: answers_ok_def probe_state_simps simp del: set_concat)
  next
    case (dial i addr)
    then have "addr \<in> set (assigned s)" by (intro in_concat_nth [of i]) simp_all
    then show ?thesis using dial assms(2) a [of i "W_dialing addr"] h [of i "W_dialing addr"]
      by (auto simp: answers_ok_def probe_state_simps simp del: set_concat)
  next
    case (late i r)
    then show ?thesis using assms(2) a [of i W_done] h [of i W_done]
      by (auto simp: answers_ok_def probe_state_simps simp del: set_concat)
  next
    case (offer i r)
    then have "r \<in> set (in_hand s)" by (intro in_concat_nth [of i]) simp_all
    then show ?thesis using offer assms(2) a [of i "W_sending r"] h [of i "W_sending r"]
      by (auto simp: answers_ok_def probe_state_simps simp del: set_concat)
  next
    case (send i r)
    then have "r \<in> set (in_hand s)" by (intro in_concat_nth [of i]) simp_all
    then show ?thesis using send assms(2) a [of i W_ready] h [of i W_ready]
      by (auto simp: answers_ok_def probe_state_simps simp del: set_concat)
  next
    case (leave i r)
    then show ?thesis using assms(2) a [of i W_done] h [of i W_done]
      by (auto simp: answers_ok_def probe_state_simps simp del: set_concat)
  next
    case (answer i addr r)
    then have "addr \<in> set (assigned s)" by (intro in_concat_nth [of i]) simp_all
    then show ?thesis
      using answer assms(2) a [of i "W_dialed (addr, r)"] h [of i "W_dialed (addr, r)"]
      by (auto simp: answers_ok_def probe_state_simps recent_ok_Cons simp del: set_concat)
  qed (use assms(2) in \<open>auto simp: answers_ok_def probe_state_simps dest: recent_okD\<close>)
qed

text \<open>Once every address has failed nothing more is dialed.\<close>

lemma all_failed_step:
  assumes "probe_step m s = Some s'" "all_failed addrs s"
  shows "all_failed addrs s'"
proof -
  note a = concat_update_subset [of worker_addr "pb_workers s"]
  note h = concat_update_subset [of worker_result "pb_workers s"]
  note addr = in_concat_nth [of _ "pb_workers s" _ worker_addr]
  note res = in_concat_nth [of _ "pb_workers s" _ worker_result]
  show ?thesis
    using assms(1)
  proof (cases rule: probe_step_cases)
    case (finish i)
    then show ?thesis using assms(2) a [of i W_done] h [of i W_done]
      by (simp add: all_failed_def opened_def probe_state_simps)
  next
    case (refuse i x)
    then show ?thesis using assms(2) addr [of i x] by (simp add: all_failed_def)
  next
    case (dial i x)
    then show ?thesis using assms(2) addr [of i x] by (simp add: all_failed_def)
  next
    case (answer i x r)
    then show ?thesis using assms(2) addr [of i x] by (simp add: all_failed_def)
  next
    case (late i r)
    then show ?thesis using assms(2) res [of i r] by (simp add: all_failed_def)
  next
    case (offer i r)
    then show ?thesis using assms(2) res [of i r] by (simp add: all_failed_def)
  next
    case (send i r)
    then show ?thesis using assms(2) res [of i r] by (simp add: all_failed_def)
  next
    case (leave i r)
    then show ?thesis using assms(2) res [of i r] by (simp add: all_failed_def)
  qed (use assms(2) in \<open>auto simp: all_failed_def opened_def probe_state_simps\<close>)
qed

lemma answers_grow: "probe_step m s = Some s' \<Longrightarrow> set (pb_answers s) \<subseteq> set (pb_answers s')"
  by (cases rule: probe_step_cases) (assumption, auto simp: probe_state_simps)

lemma failure_ok_step:
  assumes "probe_step m s = Some s'" "failure_ok addrs ms s err"
  shows "failure_ok addrs (ms @ [m]) s' err"
  using assms(2) all_failed_step [OF assms(1), of addrs] answers_grow [OF assms(1)]
  by (auto simp: failure_ok_def)

lemma outcome_ok_mono: "outcome_ok F res \<Longrightarrow> (\<And>e. F e \<Longrightarrow> G e) \<Longrightarrow> outcome_ok G res"
  by (induction F res rule: outcome_ok.induct) auto

lemma worker_conns_result: "worker_conns w = concat (map result_conn (worker_result w))"
  by (cases w) simp_all

lemma held_in_hand: "concat (map worker_conns ws) = concat (map result_conn (concat (map worker_result ws)))"
  by (induction ws) (simp_all add: worker_conns_result)

lemma exhausted_all_failed:
  assumes "conns_ok s" "live_ok addrs s" "pb_ctx s = None" "pb_caller s = P_loop 0 recent"
  shows "all_failed addrs s"
proof -
  have l: "pb_jobs s = []" "assigned s = []" "in_hand s = []" "pb_results s = []" "pb_shut s = []"
    "mset addrs = mset (map fst (pb_answers s))"
    using assms(2-4) by (auto simp: live_ok_def)
  then have "held s = []" using assms(4) unfolding held_def held_in_hand by simp
  then have "opened s = []" using assms(1) l(5) by (simp add: conns_ok_def)
  with l show ?thesis by (simp add: all_failed_def)
qed

lemma end_ok_worker:
  assumes "probe_step m s = Some s'" "end_ok addrs ms s" "pb_caller s' = pb_caller s" "pb_ctx s' = pb_ctx s"
    "i < length (pb_workers s)" "pb_workers s ! i \<noteq> W_done"
  shows "end_ok addrs (ms @ [m]) s'"
proof -
  have "\<not> set (pb_workers s) \<subseteq> {W_done}" using assms(5,6) nth_mem by blast
  with assms(2-4) outcome_ok_mono [OF _ failure_ok_step [OF assms(1)]] show ?thesis
    by (auto simp: end_ok_def split: probe_caller.splits)
qed

lemma end_ok_step:
  assumes "probe_step m s = Some s'" "end_ok addrs ms s" "conns_ok s" "live_ok addrs s" "answers_ok addrs s"
    "addrs \<noteq> []"
  shows "end_ok addrs (ms @ [m]) s'"
proof -
  have mono: "outcome_ok (failure_ok addrs ms s) res \<Longrightarrow> outcome_ok (failure_ok addrs (ms @ [m]) s') res" for res
    by (erule outcome_ok_mono) (rule failure_ok_step [OF assms(1)])
  note worker = end_ok_worker [OF assms(1,2)]
  show ?thesis
    using assms(1)
  proof (cases rule: probe_step_cases)
    case (exhausted recent)
    then obtain e where e: "recent = Some e" "\<exists>a. (a, Inl e) \<in> set (pb_answers s)"
      using assms(5,6) by (cases recent) (auto simp: answers_ok_def)
    have "failure_ok addrs ms s (WrapError Op_probe e)"
    proof (cases "pb_ctx s")
      case None
      with e exhausted_all_failed [OF assms(3,4)] exhausted show ?thesis by (auto simp: failure_ok_def)
    next
      case (Some x)
      then have "Context_over x \<in> set ms" using assms(2) exhausted by (simp add: end_ok_def)
      with e show ?thesis by (auto simp: failure_ok_def)
    qed
    with failure_ok_step [OF assms(1) this] exhausted e show ?thesis
      by (auto simp: end_ok_def caller_returns_def Wrap_def)
  next
    case (overdue r n recent x)
    then have "Context_over x \<in> set ms" using assms(2) by (simp add: end_ok_def)
    then have "failure_ok addrs ms s (WrapError Op_probe x)" by (auto simp: failure_ok_def)
    from failure_ok_step [OF assms(1) this] overdue show ?thesis
      by (simp add: end_ok_def caller_returns_def shut_result_def)
  next
    case (quit n recent x)
    then have "Context_over x \<in> set ms" using assms(2) by (simp add: end_ok_def)
    then have "failure_ok addrs ms s (WrapError Op_probe x)" by (auto simp: failure_ok_def)
    from failure_ok_step [OF assms(1) this] quit show ?thesis
      by (simp add: end_ok_def caller_returns_def)
  next
    case (receive n recent r rest)
    with assms(2) show ?thesis by (simp add: end_ok_def)
  next
    case (chosen addr c n recent)
    then show ?thesis by (simp add: end_ok_def caller_returns_def)
  next
    case (failed addr e n recent)
    with assms(2) show ?thesis by (simp add: end_ok_def)
  next
    case (drain res r rest)
    with assms(2) mono [of res] show ?thesis by (simp add: end_ok_def shut_result_def)
  next
    case (home res)
    with assms(2) mono [of res] show ?thesis by (simp add: end_ok_def)
  next
    case (over e)
    with assms(2) show ?thesis by (auto simp: end_ok_def split: probe_caller.splits)
  qed (rule worker, simp add: probe_state_simps, simp add: probe_state_simps, assumption, simp)+
qed

section \<open>Runs\<close>

definition probe_inv :: "string list \<Rightarrow> probe_move list \<Rightarrow> probing \<Rightarrow> bool" where
  "probe_inv addrs ms s \<longleftrightarrow> conns_ok s \<and> live_ok addrs s \<and> answers_ok addrs s \<and> end_ok addrs ms s \<and>
     length (pb_workers s) = min maxConcurrentProbes (length addrs)"

lemma concat_replicate_Nil: "concat (replicate n []) = []"
  by (induction n) simp_all

lemma probe_start_inv: "addrs \<noteq> [] \<Longrightarrow> probe_inv addrs [] (probe_start addrs)"
  by (simp add: probe_inv_def conns_ok_def live_ok_def answers_ok_def end_ok_def probe_start_def opened_def
      held_def concat_replicate_Nil)

lemma probe_step_inv:
  "addrs \<noteq> [] \<Longrightarrow> probe_step m s = Some s' \<Longrightarrow> probe_inv addrs ms s \<Longrightarrow> probe_inv addrs (ms @ [m]) s'"
  using conns_ok_step live_ok_step answers_ok_step end_ok_step workers_step by (simp add: probe_inv_def)

lemma end_ok_more: "end_ok addrs ms s \<Longrightarrow> end_ok addrs (ms @ [m]) s"
proof -
  assume e: "end_ok addrs ms s"
  have f: "failure_ok addrs ms s err \<Longrightarrow> failure_ok addrs (ms @ [m]) s err" for err
    by (auto simp: failure_ok_def)
  show ?thesis using e outcome_ok_mono [OF _ f] by (auto simp: end_ok_def split: probe_caller.splits)
qed

lemma probe_run_snoc:
  "probe_run (ms @ [m]) s = (case probe_step m (probe_run ms s) of None \<Rightarrow> probe_run ms s | Some s' \<Rightarrow> s')"
  by (induction ms arbitrary: s) (simp_all split: option.split)

lemma probe_run_append: "probe_run (ms @ ns) s = probe_run ns (probe_run ms s)"
  by (induction ms arbitrary: s) simp_all

lemma probe_run_inv:
  assumes "addrs \<noteq> []"
  shows "probe_inv addrs ms (probe_run ms (probe_start addrs))"
proof (induction ms rule: rev_induct)
  case (snoc m ms)
  then show ?case
    using probe_step_inv [OF assms _ snoc.IH, of m] end_ok_more [of addrs ms _ m]
    by (cases "probe_step m (probe_run ms (probe_start addrs))") (simp_all add: probe_run_snoc probe_inv_def)
qed (simp add: probe_start_inv assms)

text \<open>As long as the probe has not returned, some goroutine can move or waits for its dial.\<close>

lemma worker_can_move:
  assumes "i < length (pb_workers s)" "pb_workers s ! i \<noteq> W_done"
    "pb_ctx s \<noteq> None \<or> pb_results s = []"
  shows "\<exists>m s'. (\<forall>e. m \<noteq> Context_over e) \<and> probe_step m s = Some s'"
proof (cases "pb_workers s ! i")
  case (W_dialing addr)
  then show ?thesis using assms(1)
    by (intro exI [of _ "Answer i (Inl ContextDeadline)"]) (simp add: probe_step_def dial_returns_def)
next
  case (W_sending r)
  show ?thesis
  proof (cases "pb_ctx s")
    case None
    then show ?thesis using W_sending assms by (intro exI [of _ "Work i"]) (simp add: probe_step_def worker_step_def)
  next
    case (Some x)
    then show ?thesis using W_sending assms by (intro exI [of _ "Leave i"]) (simp add: probe_step_def worker_leaves_def)
  qed
qed (use assms in \<open>auto intro!: exI [of _ "Work i"] simp: probe_step_def worker_step_def split: list.split\<close>)

lemma probe_can_move:
  assumes "probe_inv addrs ms s" "addrs \<noteq> []" "\<And>res. pb_caller s \<noteq> P_returned res"
  shows "\<exists>m s'. (\<forall>e. m \<noteq> Context_over e) \<and> probe_step m s = Some s'"
proof (cases "\<exists>s'. probe_step Caller s = Some s' \<or> probe_step Quit s = Some s'")
  case True
  then show ?thesis by blast
next
  case stuck: False
  then have st: "caller_step s = None" "caller_quits s = None"
    by (cases "caller_step s"; cases "caller_quits s"; auto simp: probe_step_def)+
  show ?thesis
  proof (cases "pb_caller s")
    case (P_loop n recent)
    with st obtain k where k: "n = Suc k" "pb_results s = []" "pb_ctx s = None"
      by (cases n) (auto simp: caller_step_def caller_quits_def split: list.splits if_splits)
    then have l: "Suc k = length (pb_jobs s) + length (assigned s) + length (in_hand s)"
      "pb_jobs s \<noteq> [] \<longrightarrow> W_done \<notin> set (pb_workers s)"
      using assms(1) P_loop by (auto simp: probe_inv_def live_ok_def)
    have ne: "pb_workers s \<noteq> []" using assms(1,2) by (auto simp: probe_inv_def min_def split: if_splits)
    have "\<not> set (pb_workers s) \<subseteq> {W_done}"
    proof
      assume d: "set (pb_workers s) \<subseteq> {W_done}"
      then have "pb_workers s = replicate (length (pb_workers s)) W_done" by (simp add: replicate_length_same subset_iff)
      then have "assigned s = []" "in_hand s = []"
        by (metis concat_replicate_Nil map_replicate worker_addr.simps(6), metis concat_replicate_Nil map_replicate worker_result.simps(6))
      with l(1) have "Suc k = length (pb_jobs s)" by (simp only: list.size add_0_right)
      with l(2) d ne show False by (cases "pb_workers s") auto
    qed
    then obtain i where "i < length (pb_workers s)" "pb_workers s ! i \<noteq> W_done"
      by (auto simp: in_set_conv_nth subset_iff)
    with k(2) show ?thesis by (intro worker_can_move) auto
  next
    case (P_deferred res)
    with st have "\<not> set (pb_workers s) \<subseteq> {W_done}"
      by (auto simp: caller_step_def list_all_iff subset_iff split: list.splits if_splits)
    then obtain i where "i < length (pb_workers s)" "pb_workers s ! i \<noteq> W_done"
      by (auto simp: in_set_conv_nth subset_iff)
    moreover have "pb_ctx s \<noteq> None" using assms(1) P_deferred by (simp add: probe_inv_def end_ok_def)
    ultimately show ?thesis by (intro worker_can_move) auto
  qed (use st assms(3) in \<open>auto simp: caller_step_def split: prod.splits\<close>)
qed

section \<open>The end of a schedule\<close>

text \<open>With its context over, a probe ends when its dials return: \<open>probe_timeout\<close> takes it there.\<close>

lemma worker_ends:
  assumes "pb_ctx s \<noteq> None" "i < length (pb_workers s)"
  shows "\<exists>s'. probe_run [Answer i (Inl e), Leave i, Work i, Work i] s = s' \<and> pb_ctx s' = pb_ctx s \<and>
    pb_caller s' = pb_caller s \<and> pb_results s' = pb_results s \<and> pb_workers s' = (pb_workers s)[i := W_done]"
proof (cases "pb_workers s ! i")
  case W_done
  then have "(pb_workers s)[i := W_done] = pb_workers s" using list_update_id [of "pb_workers s" i] by simp
  with W_done show ?thesis
    using assms by (simp add: probe_step_def worker_step_def worker_leaves_def dial_returns_def)
next
  case W_ready
  with assms show ?thesis
    by (cases "pb_jobs s")
       (simp_all add: probe_step_def worker_step_def worker_leaves_def dial_returns_def probe_state_simps)
qed (use assms in \<open>simp_all add: probe_step_def worker_step_def worker_leaves_def dial_returns_def
       probe_state_simps\<close>)

lemma workers_end:
  assumes "pb_ctx s \<noteq> None" "n \<le> length (pb_workers s)"
  shows "\<exists>s'. probe_run (concat (map (\<lambda>i. [Answer i (Inl e), Leave i, Work i, Work i]) [0..<n])) s = s' \<and>
    pb_ctx s' = pb_ctx s \<and> pb_caller s' = pb_caller s \<and> pb_results s' = pb_results s \<and>
    pb_workers s' = replicate n W_done @ drop n (pb_workers s)"
  using assms(2)
proof (induction n)
  case (Suc n)
  then obtain s1 where s1: "probe_run (concat (map (\<lambda>i. [Answer i (Inl e), Leave i, Work i, Work i]) [0..<n])) s = s1"
    "pb_ctx s1 = pb_ctx s" "pb_caller s1 = pb_caller s" "pb_results s1 = pb_results s"
    "pb_workers s1 = replicate n W_done @ drop n (pb_workers s)" by auto
  have "\<exists>s'. probe_run [Answer n (Inl e), Leave n, Work n, Work n] s1 = s' \<and> pb_ctx s' = pb_ctx s1 \<and>
    pb_caller s' = pb_caller s1 \<and> pb_results s' = pb_results s1 \<and> pb_workers s' = (pb_workers s1)[n := W_done]"
    using Suc.prems assms(1) s1(2,5) by (intro worker_ends) auto
  moreover have "(pb_workers s1)[n := W_done] = replicate (Suc n) W_done @ drop (Suc n) (pb_workers s)"
    using Suc.prems s1(5)
    by (simp add: list_update_append Cons_nth_drop_Suc [symmetric] replicate_append_same)
  ultimately show ?case using s1 by (simp add: probe_run_append del: probe_run.simps)
qed simp

lemma caller_ends:
  assumes "pb_ctx s \<noteq> None" "set (pb_workers s) \<subseteq> {W_done}" "length (pb_results s) \<le> 1"
  shows "\<exists>res. pb_caller (probe_run [Quit, Caller, Caller, Caller] s) = P_returned res"
proof -
  have d: "list_all (\<lambda>w. w = W_done) (pb_workers s)" using assms(2) by (auto simp: list_all_iff)
  show ?thesis
  proof (cases "pb_caller s")
    case (P_loop n recent)
    then show ?thesis using assms(1,3) d
      by (cases n; cases "pb_results s")
         (auto simp: probe_step_def caller_step_def caller_quits_def probe_state_simps)
  next
    case (P_received r n recent)
    then show ?thesis using assms(1,3) d
      by (cases r; cases "pb_results s")
         (auto simp: probe_step_def caller_step_def caller_quits_def probe_state_simps)
  next
    case (P_deferred res)
    then show ?thesis using assms(1,3) d
      by (cases res; cases "pb_results s") (auto simp: probe_step_def caller_step_def caller_quits_def probe_state_simps)
  qed (auto simp: probe_step_def caller_step_def caller_quits_def split_paired_Ex [symmetric] simp del: split_paired_Ex)
qed

lemma timeout_ends:
  assumes "probe_inv addrs ms s"
  shows "\<exists>res. pb_caller (probe_run (probe_timeout addrs) s) = P_returned res"
proof -
  let ?s = "case probe_step (Context_over ContextDeadline) s of None \<Rightarrow> s | Some s' \<Rightarrow> s'"
  let ?n = "min maxConcurrentProbes (length addrs)"
  have n: "length (pb_workers s) = ?n" "length (pb_results s) \<le> 1"
    using assms by (auto simp: probe_inv_def conns_ok_def)
  have s: "pb_ctx ?s \<noteq> None" "pb_workers ?s = pb_workers s" "pb_results ?s = pb_results s"
    by (auto simp: probe_step_def)
  obtain s2 where s2: "probe_run (concat (map (\<lambda>i. [Answer i (Inl ContextDeadline), Leave i, Work i, Work i]) [0..<?n])) ?s = s2"
    "pb_ctx s2 = pb_ctx ?s" "pb_results s2 = pb_results ?s" "pb_workers s2 = replicate ?n W_done @ drop ?n (pb_workers ?s)"
    using workers_end [OF s(1), of ?n ContextDeadline] n s(2) by auto
  have "\<exists>res. pb_caller (probe_run [Quit, Caller, Caller, Caller] s2) = P_returned res"
    using s s2(2-4) n by (intro caller_ends) auto
  then show ?thesis using s2(1)
    by (simp only: probe_timeout_def probe_run.simps(2) probe_run_append)
qed

lemma returned_stays:
  assumes "pb_caller s = P_returned res"
  shows "pb_caller (probe_run ms s) = P_returned res"
  using assms
proof (induction ms arbitrary: s)
  case (Cons m ms)
  have "pb_caller s' = P_returned res" if "probe_step m s = Some s'" for s'
    using that
  proof (cases rule: probe_step_cases)
  qed (use Cons.prems in \<open>simp_all add: probe_state_simps\<close>)
  with Cons show ?case by (simp split: option.split)
qed simp

section \<open>The result\<close>

lemma result_conn_le: "length (result_conn r) \<le> 1"
  by (cases r rule: result_conn.cases) simp_all

lemma result_connD: "(a, c) \<in> set (result_conn r) \<Longrightarrow> r = (a, Inr c)"
  by (cases r rule: result_conn.cases) simp_all

lemma held_le:
  assumes "length (pb_results s) \<le> 1"
  shows "length (held s) \<le> length (pb_workers s) + 2"
proof -
  have c: "length (concat (map f xs)) \<le> length xs" if "\<And>x. length (f x) \<le> 1" for f :: "'c \<Rightarrow> 'd list" and xs
    using that by (induction xs) (auto intro: add_le_mono [of "length (f _)" 1, simplified])
  have "length (worker_conns w) \<le> 1" for w using result_conn_le by (cases w) simp_all
  moreover have "length (caller_conns b) \<le> 1" for b
  proof (cases b)
    case (P_deferred res)
    then show ?thesis by (cases res rule: return_conns.cases) simp_all
  next
    case (P_returned res)
    then show ?thesis by (cases res rule: return_conns.cases) simp_all
  qed (use result_conn_le in simp_all)
  then have "length (caller_conns (pb_caller s)) \<le> 1" .
  ultimately show ?thesis
    using assms c [of worker_conns "pb_workers s"] c [of result_conn "pb_results s", OF result_conn_le]
    by (simp add: held_def)
qed

lemma returned_held:
  assumes "probe_inv addrs ms s" "pb_caller s = P_returned res"
  shows "held s = return_conns res" and "outcome_ok (failure_ok addrs ms s) res"
proof -
  have e: "outcome_ok (failure_ok addrs ms s) res \<and> pb_results s = [] \<and> set (pb_workers s) \<subseteq> {W_done}"
    using assms by (simp add: probe_inv_def end_ok_def)
  then have "pb_workers s = replicate (length (pb_workers s)) W_done" by (simp add: replicate_length_same subset_iff)
  then have "concat (map worker_conns (pb_workers s)) = []"
    by (metis concat_replicate_Nil map_replicate worker_conns.simps(6))
  with e assms(2) show "held s = return_conns res" by (simp add: held_def)
  show "outcome_ok (failure_ok addrs ms s) res" using e by blast
qed

lemma all_failed_answers: "all_failed addrs s \<Longrightarrow> (a, r) \<in> set (pb_answers s) \<Longrightarrow> \<exists>e. r = Inl e"
  by (cases r) (auto simp: all_failed_def opened_def)

lemma returned_success:
  assumes "probe_inv addrs ms s" "pb_caller s = P_returned (node, conn, None)"
  shows "\<exists>c. conn = Some c \<and> node \<in> set addrs \<and> mset (opened s) = add_mset (node, c) (mset (pb_shut s))"
proof -
  note h = returned_held [OF assms]
  obtain c where c: "conn = Some c" using h(2) by (cases conn) auto
  with assms(1) h(1) have m: "mset (opened s) = add_mset (node, c) (mset (pb_shut s))"
    by (simp add: probe_inv_def conns_ok_def)
  then have "(node, c) \<in> set (opened s)" by (metis set_mset_mset union_single_eq_member)
  then have "(node, Inr c) \<in> set (pb_answers s)"
    by (auto simp: opened_def dest: result_connD)
  then have "fst (node, Inr c :: error + nat) \<in> fst ` set (pb_answers s)" by (rule imageI)
  moreover have "fst ` set (pb_answers s) \<subseteq> set addrs" using assms(1) by (simp add: probe_inv_def answers_ok_def)
  ultimately have "node \<in> set addrs" by auto
  with c m show ?thesis by blast
qed

lemma returned_failure:
  assumes "probe_inv addrs ms s" "pb_caller s = P_returned (node, conn, Some e)"
  shows "conn = None \<and> mset (opened s) = mset (pb_shut s) \<and>
    (\<exists>x. e = WrapError Op_probe x \<and> (Context_over x \<in> set ms \<or> (\<exists>a. (a, Inl x) \<in> set (pb_answers s)))) \<and>
    ((\<forall>x. Context_over x \<notin> set ms) \<longrightarrow> mset (map fst (pb_answers s)) = mset addrs \<and>
       (\<forall>(a, r) \<in> set (pb_answers s). \<exists>e. r = Inl e))"
proof -
  note h = returned_held [OF assms]
  have c: "conn = None" "failure_ok addrs ms s e" using h(2) by (cases conn; simp)+
  with assms(1) h(1) have "mset (opened s) = mset (pb_shut s)"
    by (simp add: probe_inv_def conns_ok_def)
  with c all_failed_answers [of addrs s] show ?thesis by (auto simp: failure_ok_def all_failed_def)
qed

text \<open>C35: the probe of the nodes, under every interleaving of its workers, its caller, the dials and the end of
  its context. At any moment at most eight workers run and at most ten connections are open. When it has
  returned, every connection the dials opened has been closed but the one it returns, which is one of the
  addresses'; a failure leaves none open and names the context's end or a dial's error, and without an end of
  the context it means that each address was dialed once and failed. Until it has returned some goroutine
  can go on (or waits for its dial), and every move brings the end nearer, so it does return.\<close>

theorem probe_accounts:
  assumes "addrs \<noteq> []" "s = probe_run sched (probe_start addrs)"
  shows "length (pb_workers s) \<le> 8 \<and> length (opened s) \<le> length (pb_shut s) + 10 \<and>
    (case pb_caller s of
       P_returned (node, conn, err) \<Rightarrow>
         probeNodes addrs sched = (node, conn, err) \<and>
         (case err of
            None \<Rightarrow> \<exists>c. conn = Some c \<and> node \<in> set addrs \<and> mset (opened s) = add_mset (node, c) (mset (pb_shut s))
          | Some e \<Rightarrow> conn = None \<and> mset (opened s) = mset (pb_shut s) \<and>
              (\<exists>x. e = WrapError Op_probe x \<and>
                 (Context_over x \<in> set sched \<or> (\<exists>a. (a, Inl x) \<in> set (pb_answers s)))) \<and>
              ((\<forall>x. Context_over x \<notin> set sched) \<longrightarrow> mset (map fst (pb_answers s)) = mset addrs \<and>
                 (\<forall>(a, r) \<in> set (pb_answers s). \<exists>e. r = Inl e)))
     | _ \<Rightarrow> \<exists>m s'. (\<forall>e. m \<noteq> Context_over e) \<and> probe_step m s = Some s') \<and>
    (\<forall>m s'. probe_step m s = Some s' \<longrightarrow> probe_left s' < probe_left s) \<and>
    pb_caller (probe_states addrs sched) = P_returned (probeNodes addrs sched)"
proof -
  have inv: "probe_inv addrs sched s" unfolding assms(2) by (rule probe_run_inv [OF assms(1)])
  then have b: "length (pb_workers s) \<le> 8" "length (pb_results s) \<le> 1"
    "mset (opened s) = mset (held s) + mset (pb_shut s)"
    by (auto simp: probe_inv_def conns_ok_def)
  have "length (opened s) = length (held s) + length (pb_shut s)"
    using arg_cong [OF b(3), of size] by simp
  then have open_le: "length (opened s) \<le> length (pb_shut s) + 10" using held_le [OF b(2)] b(1) by simp
  have st: "probe_states addrs sched = probe_run (probe_timeout addrs) s"
    by (simp add: probe_states_def probe_run_append assms(2))
  obtain res where res: "pb_caller (probe_states addrs sched) = P_returned res"
    using timeout_ends [OF inv] st by auto
  then have pn: "probeNodes addrs sched = res" using assms(1) by (simp add: probeNodes_def)
  have "case pb_caller s of
       P_returned (node, conn, err) \<Rightarrow>
         probeNodes addrs sched = (node, conn, err) \<and>
         (case err of
            None \<Rightarrow> \<exists>c. conn = Some c \<and> node \<in> set addrs \<and> mset (opened s) = add_mset (node, c) (mset (pb_shut s))
          | Some e \<Rightarrow> conn = None \<and> mset (opened s) = mset (pb_shut s) \<and>
              (\<exists>x. e = WrapError Op_probe x \<and>
                 (Context_over x \<in> set sched \<or> (\<exists>a. (a, Inl x) \<in> set (pb_answers s)))) \<and>
              ((\<forall>x. Context_over x \<notin> set sched) \<longrightarrow> mset (map fst (pb_answers s)) = mset addrs \<and>
                 (\<forall>(a, r) \<in> set (pb_answers s). \<exists>e. r = Inl e)))
     | _ \<Rightarrow> \<exists>m s'. (\<forall>e. m \<noteq> Context_over e) \<and> probe_step m s = Some s'"
  proof (cases "pb_caller s")
    case (P_returned r)
    obtain node conn err where r: "r = (node, conn, err)" by (cases r)
    have p: "probeNodes addrs sched = (node, conn, err)"
      using returned_stays [OF P_returned, of "probe_timeout addrs"] res pn st r by simp
    show ?thesis
    proof (cases err)
      case None
      with P_returned r p returned_success [OF inv, of node conn] show ?thesis by simp
    next
      case (Some e)
      with P_returned r p returned_failure [OF inv, of node conn e] show ?thesis by simp
    qed
  qed (use probe_can_move [OF inv assms(1)] in simp_all)
  with b(1) open_le probe_left_step res pn show ?thesis by blast
qed

text \<open>Two nodes: the second answers after the first was taken, and is closed.\<close>

definition probe_example :: "probe_move list" where
  "probe_example = [Work 0, Work 1, Work 0, Work 1, Answer 0 (Inr 7), Answer 1 (Inr 8), Work 0, Work 1, Work 0,
     Caller, Work 1, Caller, Work 0, Work 0, Work 1, Work 1, Caller, Caller]"

theorem probe_accounts_witness:
  "probeNodes [''a'', ''b''] probe_example = (''a'', Some 7, None) \<and>
   pb_shut (probe_run probe_example (probe_start [''a'', ''b''])) = [(''b'', 8)]"
proof -
  have "pb_caller (probe_run probe_example (probe_start [''a'', ''b''])) = P_returned (''a'', Some 7, None)"
    "pb_shut (probe_run probe_example (probe_start [''a'', ''b''])) = [(''b'', 8)]"
    by code_simp+
  with probe_accounts [of "[''a'', ''b'']" _ probe_example] show ?thesis by simp
qed

end
