(* ===== verification/Session.thy ===== *)
theory Session
  imports Probe Tcp Resource_Parse
begin

text \<open>
  \<open>internal/ztna/session.go\<close> and \<open>device.go\<close>: a campus session from its login to its logout, the
  maintenance of its tunnel, and the operations on trusted devices. Tunnel connections and streams are
  numbered; what the control plane, the nodes and the other goroutines do is the environment of each
  operation. \<open>ss_logouts\<close> counts the logout requests and \<open>ss_dropped\<close> lists the tunnel connections closed.
\<close>

section \<open>State\<close>

record Session =
  ss_devicesOnly :: bool
  ss_table :: "resourceTable option"
  ss_username :: string
  ss_step :: authStep
  ss_withAuthID :: bool
  ss_ticket :: string
  ss_node :: string
  ss_l3MTU :: int
  ss_signKey :: bytes
  ss_active :: "nat option"
  ss_closed :: bool
  ss_failure :: "error option"
  ss_cancelled :: bool
  ss_streams :: "nat list"
  ss_running :: bool
  ss_closeDone :: bool
  ss_closeErr :: "error option"
  ss_logouts :: nat
  ss_dropped :: "nat list"

text \<open>How the calls of a login end, by what the request carries: the login domain and the nonce, the ticket, the
  identifier of the authentication and the code. \<open>le_document\<close> decodes the resource document.\<close>

record login_env =
  le_deviceID :: string
  le_server :: string
  le_domain :: string
  le_control :: "error option"
  le_config :: http_outcome
  le_key :: "error option"
  le_password :: "string \<Rightarrow> string \<Rightarrow> http_outcome"
  le_report :: "string \<Rightarrow> http_outcome"
  le_check :: "nat \<Rightarrow> http_outcome"
  le_submit :: "bool \<Rightarrow> string \<Rightarrow> string \<Rightarrow> http_outcome"
  le_phone :: "string \<Rightarrow> http_outcome"
  le_online :: http_outcome
  le_resource :: http_outcome
  le_document :: "string \<Rightarrow> error + resourceDocument"
  le_signKey :: bytes
  le_logout :: http_outcome

definition new_session :: "bool \<Rightarrow> Session" where
  "new_session devicesOnly =
     \<lparr>ss_devicesOnly = devicesOnly, ss_table = None, ss_username = [], ss_step = \<lparr>as_Service = [], as_AuthID = []\<rparr>,
      ss_withAuthID = False, ss_ticket = [], ss_node = [], ss_l3MTU = 0, ss_signKey = [], ss_active = None,
      ss_closed = False, ss_failure = None, ss_cancelled = False, ss_streams = [], ss_running = False,
      ss_closeDone = False, ss_closeErr = None, ss_logouts = 0, ss_dropped = []\<rparr>"

section \<open>Ending\<close>

definition drop_conn :: "nat option \<Rightarrow> Session \<Rightarrow> Session" where
  "drop_conn c s = (case c of None \<Rightarrow> s | Some n \<Rightarrow> s\<lparr>ss_dropped := n # ss_dropped s\<rparr>)"

text \<open>\<open>Close\<close>, once.\<close>

definition close_session :: "http_outcome \<Rightarrow> Session \<Rightarrow> error option \<times> Session" where
  "close_session logout s =
     (if ss_closeDone s then (ss_closeErr s, s)
      else let conn = ss_active s;
               s = drop_conn conn (s\<lparr>ss_closeDone := True, ss_closed := True, ss_cancelled := True, ss_active := None, ss_streams := []\<rparr>);
               s = (if ss_ticket s \<noteq> [] then s\<lparr>ss_logouts := ss_logouts s + 1, ss_closeErr := exchange_only logout\<rparr> else s)
           in (ss_closeErr s, s))"

definition invalidate_session :: "error \<Rightarrow> Session \<Rightarrow> Session" where
  "invalidate_session err s =
     (if ss_failure s \<noteq> None \<or> ss_closed s then s
      else drop_conn (ss_active s) (s\<lparr>ss_failure := Some err, ss_cancelled := True, ss_streams := []\<rparr>))"

definition session_err :: "Session \<Rightarrow> error option" where
  "session_err s = (if ss_failure s \<noteq> None then ss_failure s else if ss_cancelled s then Some ContextCanceled else None)"

section \<open>Login\<close>

fun password_method :: "string \<Rightarrow> authMethod list \<Rightarrow> authMethod option \<Rightarrow> error + authMethod" where
  "password_method domain [] fallback =
     (if domain \<noteq> [] then Inl (ProtocolError W_login_domain)
      else case fallback of Some m \<Rightarrow> Inr m | None \<Rightarrow> Inl (ProtocolError W_no_password_method))"
| "password_method domain (m # ms) fallback =
     (if am_AuthType m \<noteq> ''auth/psw'' then password_method domain ms fallback
      else if domain \<noteq> [] \<and> am_LoginDomain m = domain then Inr m
      else password_method domain ms (if fallback = None then Some m else fallback))"

definition pickPasswordMethod :: "authMethod list \<Rightarrow> string \<Rightarrow> error + authMethod" where
  "pickPasswordMethod methods domain = password_method domain methods None"

abbreviation auth_chain_limit :: nat where "auth_chain_limit \<equiv> 8"

text \<open>\<open>n\<close> rounds of the loop are left; round \<open>i\<close> counts from the end.\<close>

fun continueAuth :: "(nat \<Rightarrow> http_outcome) \<Rightarrow> nat \<Rightarrow> Session \<Rightarrow> error option \<times> Session" where
  "continueAuth check 0 s = (Some (ProtocolError W_auth_chain_long), s)"
| "continueAuth check (Suc n) s =
     (let service = as_Service (ss_step s) in
      if service = [] then (None, s)
      else if service = ''auth/authCheck'' then
        (case chain_response (check n) of
           Inl e \<Rightarrow> (Some e, s)
         | Inr step \<Rightarrow> continueAuth check n (s\<lparr>ss_step := step\<rparr>))
      else if service = ''auth/sms'' then (None, s\<lparr>ss_withAuthID := (as_AuthID (ss_step s) \<noteq> [])\<rparr>)
      else (Some (ProtocolError W_second_factor), s))"

text \<open>The request for the manifest comes first; its failure is only logged.\<close>

definition beginLogin :: "login_env \<Rightarrow> Session \<Rightarrow> error option \<times> Session" where
  "beginLogin env s =
     (case fetch_authConfig (le_config env) of
        Inl e \<Rightarrow> (Some e, s)
      | Inr cfg \<Rightarrow>
          if cfg_IsLogin cfg then (None, s)
          else case pickPasswordMethod (cfg_Methods cfg) (le_domain env) of
            Inl e \<Rightarrow> (Some e, s)
          | Inr method \<Rightarrow>
              (case passwordLogin (le_key env) (le_password env (am_LoginDomain method) (cfg_AntiReplayRand cfg)) of
                 Inl e \<Rightarrow> (Some e, s)
               | Inr res \<Rightarrow>
                   let s = s\<lparr>ss_ticket := pr_Ticket res\<rparr> in
                   (case exchange_only (le_report env (pr_Ticket res)) of
                      Some e \<Rightarrow> (Some e, s)
                    | None \<Rightarrow> continueAuth (le_check env) auth_chain_limit
                                (s\<lparr>ss_step := \<lparr>as_Service = pr_NextService res, as_AuthID = []\<rparr>\<rparr>))))"

definition is_digit_char :: "char \<Rightarrow> bool" where
  "is_digit_char c = code_in 0x30 0x39 c"

definition maskPhone :: "string \<Rightarrow> string" where
  "maskPhone raw =
     (let digits = filter is_digit_char raw in
      if length digits < 4 then ''registered phone'' else ''***'' @ drop (length digits - 4) digits)"

definition smsHint :: "http_outcome \<Rightarrow> string" where
  "smsHint h =
     (case phoneNumber h of
        Inr (p # ps) \<Rightarrow> ''code goes to '' @ maskPhone p
      | _ \<Rightarrow> ''code required'')"

definition auth_required :: "login_env \<Rightarrow> Session \<Rightarrow> error" where
  "auth_required env s = ErrAuthRequired (as_Service (ss_step s)) (smsHint (le_phone env (as_AuthID (ss_step s))))"

definition newSession :: "login_env \<Rightarrow> bool \<Rightarrow> Session option \<times> error option" where
  "newSession env devicesOnly =
     (if le_deviceID env = [] then (None, Some (ProtocolError W_no_device_id))
      else if le_control env \<noteq> None then (None, le_control env)
      else case beginLogin env (new_session devicesOnly) of
        (Some e, s) \<Rightarrow> (Some (snd (close_session (le_logout env) s)), Some e)
      | (None, s) \<Rightarrow>
          if as_Service (ss_step s) \<noteq> [] then (Some s, Some (auth_required env s)) else (Some s, None))"

definition prepare :: "login_env \<Rightarrow> Session \<Rightarrow> error option \<times> Session" where
  "prepare env s =
     (case onlineInfo (le_online env) of
        Inl e \<Rightarrow> (Some e, s)
      | Inr user \<Rightarrow>
          let s = s\<lparr>ss_username := user\<rparr> in
          (case clientResource (le_resource env) of
             Inl e \<Rightarrow> (Some e, s)
           | Inr raw \<Rightarrow>
               (case le_document env raw of
                  Inl e \<Rightarrow> (Some e, s)
                | Inr doc \<Rightarrow>
                    (case parseResourceTable doc (le_server env) of
                       Inl e \<Rightarrow> (Some e, s)
                     | Inr (table, stats) \<Rightarrow>
                         if ss_closed s then (Some ContextCanceled, s)
                         else (None, s\<lparr>ss_signKey := le_signKey env, ss_table := Some table\<rparr>)))))"

definition Connect :: "login_env \<Rightarrow> Session option \<times> error option" where
  "Connect env =
     (case newSession env False of
        (None, err) \<Rightarrow> (None, err)
      | (Some s, Some e) \<Rightarrow> (Some s, Some e)
      | (Some s, None) \<Rightarrow>
          (case prepare env s of
             (Some e, s) \<Rightarrow> (Some (snd (close_session (le_logout env) s)), Some e)
           | (None, s) \<Rightarrow> (Some s, None)))"

definition submit_code :: "login_env \<Rightarrow> string \<Rightarrow> Session \<Rightarrow> error option \<times> Session" where
  "submit_code env given s =
     (if as_Service (ss_step s) \<noteq> ''auth/sms'' then (Some (ProtocolError W_no_code_expected), s)
      else case chain_response (le_submit env (ss_withAuthID s) (as_AuthID (ss_step s)) given) of
        Inl e \<Rightarrow> (Some e, s)
      | Inr step \<Rightarrow>
          (case continueAuth (le_check env) auth_chain_limit (s\<lparr>ss_step := step\<rparr>) of
             (Some e, s) \<Rightarrow> (Some e, s)
           | (None, s) \<Rightarrow>
               if as_Service (ss_step s) \<noteq> [] then (Some (auth_required env s), s)
               else if ss_devicesOnly s then (None, s)
               else prepare env s))"

section \<open>Layer 3\<close>

text \<open>\<open>l3_probe\<close> is the schedule of the probe of the nodes; \<open>l3_handshake\<close> is the tunnel connection that a handshake over the probed connection made; \<open>l3_stopped\<close> whether
  the session or the operation was stopped meanwhile.\<close>

record l3_env =
  l3_probe :: "probe_move list"
  l3_handshake :: "string \<Rightarrow> error + nat"
  l3_stopped :: bool

abbreviation errL3Started :: error where "errL3Started \<equiv> OtherError 81"

definition session_startL3 :: "l3_env \<Rightarrow> int \<Rightarrow> Session \<Rightarrow> error option \<times> Session" where
  "session_startL3 env mtu s =
     (if mtu < 20 \<or> mtu > 65535 then (Some (ProtocolError W_mtu_range), s)
      else case ss_table s of
        None \<Rightarrow> (Some ErrResourcesUnavailable, s)
      | Some table \<Rightarrow>
      if ss_closed s \<or> ss_cancelled s then (Some ErrResourcesUnavailable, s)
      else if ss_active s \<noteq> None \<or> ss_running s then (Some errL3Started, s)
      else let s = s\<lparr>ss_l3MTU := mtu\<rparr> in
        case probeNodes (candidateNodes table (majorGroup table)) (l3_probe env) of
          (_, _, Some e) \<Rightarrow> (Some e, s)
        | (node, _, None) \<Rightarrow>
            let s = s\<lparr>ss_node := node\<rparr> in
            (case l3_handshake env node of
               Inl e \<Rightarrow> (Some e, (case err_as is_gone e of Some g \<Rightarrow> invalidate_session g s | None \<Rightarrow> s))
             | Inr conn \<Rightarrow>
                 if l3_stopped env then (Some ContextCanceled, s\<lparr>ss_dropped := conn # ss_dropped s\<rparr>)
                 else (None, s\<lparr>ss_active := Some conn\<rparr>)))"

definition session_stopL3 :: "Session \<Rightarrow> Session" where
  "session_stopL3 s = drop_conn (ss_active s) (s\<lparr>ss_active := None, ss_running := False\<rparr>)"

section \<open>Reconnection\<close>

abbreviation maxReconnectFailures :: nat where "maxReconnectFailures \<equiv> 3"
abbreviation maxReconnectBackoff :: int where "maxReconnectBackoff \<equiv> 30 * 10 ^ 9"

definition reconnectNodes :: "Session \<Rightarrow> string list" where
  "reconnectNodes s =
     (case ss_table s of
        None \<Rightarrow> [ss_node s]
      | Some t \<Rightarrow> foldl (\<lambda>out a. if a \<in> set out then out else out @ [a]) [ss_node s] (candidateNodes t (majorGroup t)))"

text \<open>One loss of the link: why the tunnel ended (or the end of the context instead), \<open>ctx.Err()\<close> after it, in the wait
  before attempt \<open>k\<close> and after attempt \<open>k\<close>, how attempt \<open>k\<close> ended, and whether the session was stopped
  before the new connection was published.\<close>

record link_loss =
  ll_ctx :: "error option"
  ll_reason :: "error option"
  ll_after :: "error option"
  ll_wait :: "nat \<Rightarrow> error option"
  ll_dial :: "nat \<Rightarrow> error + nat"
  ll_dialCtx :: "nat \<Rightarrow> error option"
  ll_stopped :: bool

datatype reconnect_end = Reconnected nat string | Reconnect_cancelled error | Reconnect_gone error | Reconnect_failed error

text \<open>The inner loop: the waits and the nodes tried, the end, and the failures counted.\<close>

function reconnect :: "link_loss \<Rightarrow> string list \<Rightarrow> nat \<Rightarrow> int \<Rightarrow> nat \<Rightarrow> (int \<times> string) list \<times> reconnect_end" where
  "reconnect l nodes next backoff failures =
     (case ll_wait l next of
        Some e \<Rightarrow> ([], Reconnect_cancelled e)
      | None \<Rightarrow>
          let node = nodes ! (next mod length nodes); try = (backoff, node) in
          (case ll_dial l next of
             Inr conn \<Rightarrow> ([try], Reconnected conn node)
           | Inl err \<Rightarrow>
               (case ll_dialCtx l next of
                  Some e \<Rightarrow> ([try], Reconnect_cancelled e)
                | None \<Rightarrow>
                    (case err_as is_gone err of
                       Some g \<Rightarrow> ([try], Reconnect_gone g)
                     | None \<Rightarrow>
                         if failures + 1 \<ge> maxReconnectFailures then ([try], Reconnect_failed err)
                         else (case reconnect l nodes (next + 1) (if backoff < maxReconnectBackoff then backoff * 2 else backoff)
                                  (failures + 1) of
                                 (tries, e) \<Rightarrow> (try # tries, e))))))"
  by pat_completeness auto
termination
  by (relation "measure (\<lambda>(_, _, _, _, failures). maxReconnectFailures - failures)") auto

declare reconnect.simps [simp del]

datatype link_event = Dropped int "error option" | Tried int string | Restored

abbreviation errNoTunnel :: error where "errNoTunnel \<equiv> OtherError 82"

definition tries_events :: "(int \<times> string) list \<Rightarrow> link_event list" where
  "tries_events ts = map (\<lambda>(w, n). Tried w n) ts"

text \<open>One round of the outer loop: the events, the result if it ends the loop, and the session.\<close>

definition lose_link ::
  "link_loss \<Rightarrow> int \<Rightarrow> int \<Rightarrow> nat \<Rightarrow> Session \<Rightarrow> link_event list \<times> error option option \<times> Session" where
  "lose_link l attempt backoff failures s =
     (case ss_active s of
        None \<Rightarrow> ([], Some (Some errNoTunnel), s)
      | Some conn \<Rightarrow>
          let s = s\<lparr>ss_dropped := conn # ss_dropped s\<rparr> in
          if ll_ctx l \<noteq> None then ([], Some (ll_ctx l), s)
          else if ll_after l \<noteq> None then ([], Some (ll_after l), s)
          else case Option.bind (ll_reason l) (err_as is_gone) of
            Some g \<Rightarrow> ([], Some (Some g), invalidate_session g s)
          | None \<Rightarrow>
              (case reconnect l (reconnectNodes s) 0 backoff failures of
                 (tries, e) \<Rightarrow>
                   let ev = Dropped (attempt + 1) (ll_reason l) # tries_events tries in
                   (case e of
                      Reconnect_cancelled c \<Rightarrow> (ev, Some (Some c), s)
                    | Reconnect_gone g \<Rightarrow> (ev, Some (Some g), invalidate_session g s)
                    | Reconnect_failed err \<Rightarrow> (ev, Some (Some err), s\<lparr>ss_active := None\<rparr>)
                    | Reconnected new node \<Rightarrow>
                        if ll_stopped l then (ev, Some (Some ContextCanceled), s\<lparr>ss_dropped := new # ss_dropped s\<rparr>)
                        else (ev @ [Restored], None, s\<lparr>ss_active := Some new, ss_node := node\<rparr>))))"

text \<open>The outer loop on the link losses still to come; \<open>None\<close> when it still runs after them.\<close>

fun run_loop :: "int \<Rightarrow> link_loss list \<Rightarrow> int \<Rightarrow> int \<Rightarrow> nat \<Rightarrow> Session \<Rightarrow> link_event list \<times> error option option \<times> Session" where
  "run_loop base [] attempt backoff failures s = ([], None, s)"
| "run_loop base (l # ls) attempt backoff failures s =
     (case lose_link l attempt backoff failures s of
        (ev, Some r, s) \<Rightarrow> (ev, Some r, s)
      | (ev, None, s) \<Rightarrow> (case run_loop base ls 0 base 0 s of (ev', r, s) \<Rightarrow> (ev @ ev', r, s)))"

abbreviation errAlreadyRunning :: error where "errAlreadyRunning \<equiv> OtherError 83"

definition run_session :: "int \<Rightarrow> link_loss list \<Rightarrow> Session \<Rightarrow> link_event list \<times> error option option \<times> Session" where
  "run_session base ls s =
     (if ss_closed s then ([], Some (Some ContextCanceled), s)
      else if ss_running s then ([], Some (Some errAlreadyRunning), s)
      else run_loop base ls 0 base 0 (s\<lparr>ss_running := True\<rparr>))"

section \<open>Trusted devices\<close>

text \<open>\<open>dv_query k\<close> is the answer to query \<open>k\<close>, \<open>dv_post body\<close> the answer to the request that binds or releases
  the devices of its list. The status returned beside an error is not modelled.\<close>

record device_env =
  dv_query :: "nat \<Rightarrow> http_outcome"
  dv_post :: "string \<Rightarrow> http_outcome"

record DeviceSession =
  dv_sess :: "Session option"
  dv_own :: bool

definition Devices :: "Session \<Rightarrow> DeviceSession" where
  "Devices s = \<lparr>dv_sess = Some s, dv_own = False\<rparr>"

definition OpenDevices :: "login_env \<Rightarrow> DeviceSession \<times> error option" where
  "OpenDevices env = (case newSession env True of (s, err) \<Rightarrow> (\<lparr>dv_sess = s, dv_own = True\<rparr>, err))"

definition device_status :: "DeviceSession \<Rightarrow> http_outcome \<Rightarrow> error + DeviceStatus" where
  "device_status d h = (if dv_sess d = None then Inl (ProtocolError W_no_session) else queryDevice h)"

definition device_auth :: "login_env \<Rightarrow> string \<Rightarrow> DeviceSession \<Rightarrow> error option \<times> DeviceSession" where
  "device_auth env given d =
     (case dv_sess d of
        None \<Rightarrow> (Some (ProtocolError W_no_session), d)
      | Some s \<Rightarrow> (case submit_code env given s of (err, s) \<Rightarrow> (err, d\<lparr>dv_sess := Some s\<rparr>)))"

definition device_close :: "http_outcome \<Rightarrow> DeviceSession \<Rightarrow> error option \<times> DeviceSession" where
  "device_close logout d =
     (case dv_sess d of
        Some s \<Rightarrow>
          if dv_own d then (case close_session logout s of (err, s) \<Rightarrow> (err, d\<lparr>dv_sess := Some s\<rparr>)) else (None, d)
      | None \<Rightarrow> (None, d))"

definition trust_device :: "DeviceSession \<Rightarrow> device_env \<Rightarrow> error + DeviceStatus" where
  "trust_device d env =
     (case device_status d (dv_query env 0) of
        Inl e \<Rightarrow> Inl e
      | Inr st \<Rightarrow>
          if ds_Trusted st then Inr st
          else if ds_SelfID st = [] then Inl (ProtocolError W_no_self_id)
          else case exchange_only (dv_post env (id_list_json [ds_SelfID st])) of
            Some e \<Rightarrow> Inl e
          | None \<Rightarrow> device_status d (dv_query env 1))"

definition self_id_list :: "DeviceStatus \<Rightarrow> string list" where
  "self_id_list st =
     (case List.find (\<lambda>d. dr_ID d = ds_SelfID st \<or> dr_DevDbID d = ds_SelfID st) (ds_Devices st) of
        Some d \<Rightarrow> [managementID d]
      | None \<Rightarrow> [ds_SelfID st])"

definition untrust_ids :: "DeviceSession \<Rightarrow> DeviceStatus \<Rightarrow> string list \<Rightarrow> bool \<Rightarrow> device_env \<Rightarrow> error + DeviceStatus" where
  "untrust_ids d st ids all env =
     (if ids = [] then (if hasTrustedDevices st then Inl (ProtocolError W_no_device_ids) else Inr st)
      else case exchange_only (dv_post env (id_list_json ids)) of
        Some e \<Rightarrow> Inl e
      | None \<Rightarrow>
          (case device_status d (dv_query env 1) of
             Inl e \<Rightarrow> Inl e
           | Inr st \<Rightarrow>
               if ds_Trusted st \<or> all \<and> hasTrustedDevices st then Inl (ProtocolError W_still_trusted) else Inr st))"

definition untrust_device :: "DeviceSession \<Rightarrow> bool \<Rightarrow> device_env \<Rightarrow> error + DeviceStatus" where
  "untrust_device d all env =
     (case device_status d (dv_query env 0) of
        Inl e \<Rightarrow> Inl e
      | Inr st \<Rightarrow>
          if all then untrust_ids d st (TrustedIDs st) True env
          else if \<not> ds_Trusted st then Inr st
          else if ds_SelfID st = [] then Inl (ProtocolError W_no_self_id)
          else untrust_ids d st (self_id_list st) False env)"

text \<open>\<open>EnsureTrusted\<close> queries once itself; the queries of \<open>Trust\<close> follow.\<close>

definition EnsureTrusted :: "Session \<Rightarrow> http_outcome \<Rightarrow> device_env \<Rightarrow> error option" where
  "EnsureTrusted s h env =
     (case device_status (Devices s) h of
        Inl e \<Rightarrow> Some e
      | Inr st \<Rightarrow> if ds_Trusted st then None else (case trust_device (Devices s) env of Inl e \<Rightarrow> Some e | Inr _ \<Rightarrow> None))"

end
