(* ===== verification/Session_Props.thy ===== *)
theory Session_Props
  imports Session
begin

text \<open>
  Properties of the sessions of \<open>Session\<close>: how a login ends, the logout every ticket is owed, the bounded effort of
  the reconnection, and the operations on trusted devices.
\<close>

section \<open>Logging in\<close>

text \<open>A session before its first \<open>Close\<close>.\<close>

definition session_live :: "Session \<Rightarrow> bool" where
  "session_live s \<longleftrightarrow> \<not> ss_closeDone s \<and> \<not> ss_closed s \<and> ss_logouts s = 0 \<and> ss_active s = None"

definition session_ready :: "Session \<Rightarrow> error option \<Rightarrow> bool" where
  "session_ready s err \<longleftrightarrow> err = None \<and> session_live s \<and> as_Service (ss_step s) = [] \<and> (\<exists>t. ss_table s = Some t)"

definition session_awaits :: "login_env \<Rightarrow> Session \<Rightarrow> error option \<Rightarrow> bool" where
  "session_awaits env s err \<longleftrightarrow>
     err = Some (ErrAuthRequired ''auth/sms'' (smsHint (le_phone env (as_AuthID (ss_step s))))) \<and> session_live s \<and>
     as_Service (ss_step s) = ''auth/sms''"

definition session_ended :: "Session \<Rightarrow> error option \<Rightarrow> bool" where
  "session_ended s err \<longleftrightarrow>
     (\<exists>e. err = Some e) \<and> ss_closed s \<and> ss_closeDone s \<and> ss_active s = None \<and> ss_logouts s = (if ss_ticket s = [] then 0 else 1)"

lemma drop_conn_simps [simp]:
  "ss_ticket (drop_conn c s) = ss_ticket s" "ss_logouts (drop_conn c s) = ss_logouts s"
  "ss_closed (drop_conn c s) = ss_closed s" "ss_closeDone (drop_conn c s) = ss_closeDone s"
  "ss_active (drop_conn c s) = ss_active s" "ss_closeErr (drop_conn c s) = ss_closeErr s"
  "ss_cancelled (drop_conn c s) = ss_cancelled s" "ss_step (drop_conn c s) = ss_step s"
  by (simp_all add: drop_conn_def split: option.split)

lemma new_session_live: "session_live (new_session d)"
  by (simp add: session_live_def new_session_def)

lemma close_session_ended: "session_live s \<Longrightarrow> session_ended (snd (close_session h s)) (Some e)"
  by (simp add: close_session_def session_live_def session_ended_def Let_def)

text \<open>The steps of a login leave the ending of a session alone.\<close>

definition same_end :: "Session \<Rightarrow> Session \<Rightarrow> bool" where
  "same_end s t \<longleftrightarrow>
     ss_closeDone t = ss_closeDone s \<and> ss_closed t = ss_closed s \<and> ss_logouts t = ss_logouts s \<and> ss_active t = ss_active s"

lemma same_end_refl [simp]: "same_end s s"
  by (simp add: same_end_def)

lemma same_end_trans: "same_end s t \<Longrightarrow> same_end t u \<Longrightarrow> same_end s u"
  by (simp add: same_end_def)

lemma same_end_live: "same_end s t \<Longrightarrow> session_live s \<Longrightarrow> session_live t"
  by (simp add: same_end_def session_live_def)

lemma continueAuth_keeps:
  "same_end s (snd (continueAuth check n s)) \<and> ss_ticket (snd (continueAuth check n s)) = ss_ticket s"
proof (induction check n s rule: continueAuth.induct)
  case (2 check n s)
  show ?case
    using 2 [OF refl] by (auto simp: Let_def same_end_def split: sum.split)
qed simp

lemma continueAuth_stops:
  "continueAuth check n s = (None, t) \<Longrightarrow> as_Service (ss_step t) = [] \<or> as_Service (ss_step t) = ''auth/sms''"
  by (induction check n s rule: continueAuth.induct) (auto simp: Let_def split: if_splits sum.splits)

lemma beginLogin_keeps: "same_end s (snd (beginLogin env s))"
proof -
  have "same_end s (snd (continueAuth check n (s\<lparr>ss_ticket := t, ss_step := st\<rparr>)))" for check n t st
    using continueAuth_keeps [of "s\<lparr>ss_ticket := t, ss_step := st\<rparr>" check n] by (simp add: same_end_def)
  then show ?thesis
    by (auto simp: beginLogin_def Let_def same_end_def split: sum.split option.split)
qed

lemma beginLogin_stops:
  assumes "beginLogin env (new_session d) = (None, s)"
  shows "as_Service (ss_step s) = [] \<or> as_Service (ss_step s) = ''auth/sms''"
  using assms continueAuth_stops
  by (auto simp: beginLogin_def new_session_def Let_def split: sum.splits option.splits if_splits)

lemma prepare_keeps: "same_end s (snd (prepare env s)) \<and> ss_ticket (snd (prepare env s)) = ss_ticket s \<and> ss_step (snd (prepare env s)) = ss_step s"
  by (simp add: prepare_def same_end_def Let_def split: sum.split prod.split)

lemma prepare_table: "prepare env s = (None, t) \<Longrightarrow> \<exists>r. ss_table t = Some r"
  by (auto simp: prepare_def Let_def split: sum.splits prod.splits if_splits)

lemma newSession_cases:
  assumes "newSession env d = (Some s, err)"
  shows "(err = None \<and> session_live s \<and> as_Service (ss_step s) = []) \<or> session_awaits env s err \<or> session_ended s err"
proof -
  obtain e t where b: "beginLogin env (new_session d) = (e, t)"
    by (cases "beginLogin env (new_session d)")
  have live: "session_live t"
    using beginLogin_keeps [of "new_session d" env] b new_session_live same_end_live by fastforce
  show ?thesis
  proof (cases e)
    case None
    then show ?thesis
      using assms b live beginLogin_stops [of env d t]
      by (auto simp: newSession_def session_awaits_def auth_required_def split: if_splits)
  next
    case (Some x)
    then show ?thesis
      using assms b close_session_ended [OF live]
      by (auto simp: newSession_def split: if_splits)
  qed
qed

text \<open>The ticket the control plane gives in a login: the one in its answer to the password, when the login gets there.\<close>

definition issued_ticket :: "login_env \<Rightarrow> string" where
  "issued_ticket env =
     (case fetch_authConfig (le_config env) of
        Inl _ \<Rightarrow> []
      | Inr cfg \<Rightarrow>
          if cfg_IsLogin cfg then []
          else (case pickPasswordMethod (cfg_Methods cfg) (le_domain env) of
            Inl _ \<Rightarrow> []
          | Inr method \<Rightarrow>
              (case passwordLogin (le_key env) (le_password env (am_LoginDomain method) (cfg_AntiReplayRand cfg)) of
                 Inl _ \<Rightarrow> []
               | Inr res \<Rightarrow> pr_Ticket res)))"

lemma beginLogin_ticket: "ss_ticket (snd (beginLogin env (new_session d))) = issued_ticket env"
  using continueAuth_keeps
  by (simp add: beginLogin_def issued_ticket_def Let_def new_session_def split: sum.split option.split)

lemma close_session_ticket [simp]: "ss_ticket (snd (close_session h s)) = ss_ticket s"
  by (simp add: close_session_def Let_def)

lemma newSession_ticket:
  assumes "newSession env d = (Some s, err)"
  shows "ss_ticket s = issued_ticket env"
  using assms beginLogin_ticket [of env d]
  by (auto simp: newSession_def split: if_splits prod.splits option.splits)

lemma Connect_ticket:
  assumes "Connect env = (Some s, err)"
  shows "ss_ticket s = issued_ticket env"
proof (cases "newSession env False")
  case (Pair so e)
  then obtain s0 where s0: "so = Some s0" using assms by (cases so) (auto simp: Connect_def)
  with newSession_ticket [of env False s0 e] prepare_keeps [of s0 env] Pair assms show ?thesis
    by (cases e; cases "prepare env s0") (auto simp: Connect_def split: option.splits)
qed

lemma Connect_cases:
  "case Connect env of
     (None, err) \<Rightarrow> (\<exists>e. err = Some e)
   | (Some s, err) \<Rightarrow> session_ready s err \<or> session_awaits env s err \<or> session_ended s err"
proof (cases "newSession env False")
  case (Pair so err)
  show ?thesis
  proof (cases so)
    case None
    have "err = Some (ProtocolError W_no_device_id) \<or> err \<noteq> None"
      using Pair None by (auto simp: newSession_def split: if_splits prod.splits option.splits)
    then show ?thesis
      using Pair None by (auto simp: Connect_def)
  next
    case (Some s)
    note cases = newSession_cases [OF Pair [unfolded Some]]
    show ?thesis
    proof (cases err)
      case None
      then have live: "session_live s" and step: "as_Service (ss_step s) = []"
        using cases by (auto simp: session_awaits_def session_ended_def)
      obtain e t where p: "prepare env s = (e, t)"
        by (cases "prepare env s")
      then have t: "session_live t" "ss_step t = ss_step s"
        using prepare_keeps [of s env] live same_end_live by fastforce+
      then show ?thesis
        using Pair Some None p step prepare_table [of env s t] close_session_ended [of t]
        by (cases e) (auto simp: Connect_def session_ready_def)
    next
      case (Some e)
      then show ?thesis
        using Pair \<open>so = Some s\<close> cases by (auto simp: Connect_def)
    qed
  qed
qed

lemma Connect_None: "Connect env = (None, err) \<Longrightarrow> le_deviceID env = [] \<or> le_control env \<noteq> None"
  by (cases "le_control env") (auto simp: Connect_def newSession_def split: if_splits prod.splits option.splits)

text \<open>C32: A login leaves nothing behind. \<open>Connect\<close> either never speaks to the control plane, makes no session and
  reports why; or gives a session with its resource table that awaits nothing; or gives an open session at the SMS
  step, with the request for the code; or reports an error, and then the session was closed, and logged out
  exactly once if the control plane issued a ticket in this login and not at all otherwise. In every
  case a session keeps the ticket that was issued, so that its end can give it back.\<close>
theorem connect_outcomes:
  "case Connect env of
     (None, err) \<Rightarrow> err \<noteq> None \<and> \<not> (le_deviceID env \<noteq> [] \<and> le_control env = None)
   | (Some s, err) \<Rightarrow> ss_ticket s = issued_ticket env \<and>
       (session_ready s err \<or> session_awaits env s err \<or>
        session_ended s err \<and> ss_logouts s = (if issued_ticket env = [] then 0 else 1))"
proof (cases "Connect env")
  case (Pair so err)
  show ?thesis
  proof (cases so)
    case None
    then show ?thesis using Pair Connect_cases [of env] Connect_None [of env err] by auto
  next
    case (Some s)
    then show ?thesis using Pair Connect_cases [of env] Connect_ticket [of env s err]
      by (auto simp: session_ended_def)
  qed
qed

section \<open>The life of a session\<close>

datatype session_op =
    Op_code login_env string
  | Op_start l3_env int
  | Op_run int "link_loss list"
  | Op_stop
  | Op_invalidate error
  | Op_close http_outcome

fun session_do :: "session_op \<Rightarrow> Session \<Rightarrow> Session" where
  "session_do (Op_code env given) s = snd (submit_code env given s)"
| "session_do (Op_start env mtu) s = snd (session_startL3 env mtu s)"
| "session_do (Op_run base ls) s = snd (snd (run_session base ls s))"
| "session_do Op_stop s = session_stopL3 s"
| "session_do (Op_invalidate e) s = invalidate_session e s"
| "session_do (Op_close h) s = snd (close_session h s)"

text \<open>The logout a session owes, and a closed session holds no tunnel.\<close>

definition session_inv :: "Session \<Rightarrow> bool" where
  "session_inv s \<longleftrightarrow>
     ss_closed s = ss_closeDone s \<and> ss_logouts s = (if ss_closeDone s \<and> ss_ticket s \<noteq> [] then 1 else 0) \<and>
     (ss_closed s \<longrightarrow> ss_active s = None)"

definition same_login :: "Session \<Rightarrow> Session \<Rightarrow> bool" where
  "same_login s t \<longleftrightarrow>
     ss_closeDone t = ss_closeDone s \<and> ss_closed t = ss_closed s \<and> ss_logouts t = ss_logouts s \<and> ss_ticket t = ss_ticket s"

lemma same_login_trans: "same_login s t \<Longrightarrow> same_login t u \<Longrightarrow> same_login s u"
  by (simp add: same_login_def)

lemma invalidate_login [simp]: "same_login s (invalidate_session g s)"
  by (simp add: invalidate_session_def same_login_def)

lemma lose_link_login: "same_login s (snd (snd (lose_link l attempt backoff failures s)))"
proof -
  have "same_login s (invalidate_session g (s\<lparr>ss_dropped := d\<rparr>))" for g d
    by (simp add: invalidate_session_def same_login_def)
  then show ?thesis
    by (simp add: lose_link_def Let_def split: option.split reconnect_end.split prod.split) (simp add: same_login_def)
qed

lemma run_loop_login: "same_login s (snd (snd (run_loop base ls attempt backoff failures s)))"
proof (induction base ls attempt backoff failures s rule: run_loop.induct)
  case (2 base l ls attempt backoff failures s)
  then show ?case
    using lose_link_login [of s l attempt backoff failures]
    by (fastforce split: prod.split option.split intro: same_login_trans)
qed (simp add: same_login_def)

lemma session_inv_login:
  assumes "session_inv s" and "same_login s t" and "ss_closed s \<Longrightarrow> ss_active t = None"
  shows "session_inv t"
  using assms by (simp add: session_inv_def same_login_def)

lemma submit_code_login: "same_login s (snd (submit_code env given s)) \<and> ss_active (snd (submit_code env given s)) = ss_active s"
proof (cases "chain_response (le_submit env (ss_withAuthID s) (as_AuthID (ss_step s)) given)")
  case (Inl e)
  then show ?thesis by (simp add: submit_code_def same_login_def)
next
  case (Inr st)
  obtain e t where c: "continueAuth (le_check env) auth_chain_limit (s\<lparr>ss_step := st\<rparr>) = (e, t)"
    by fastforce
  have t: "same_end s t" "ss_ticket t = ss_ticket s"
    using continueAuth_keeps [of "s\<lparr>ss_step := st\<rparr>" "le_check env" auth_chain_limit] c by (simp_all add: same_end_def)
  show ?thesis
    using Inr c t prepare_keeps [of t env]
    by (simp add: submit_code_def same_end_def same_login_def split: option.split)
qed

lemma startL3_login: "same_login s (snd (session_startL3 env mtu s)) \<and> (ss_closed s \<longrightarrow> snd (session_startL3 env mtu s) = s)"
  by (simp add: session_startL3_def Let_def split: option.split sum.split prod.split)
    (simp add: same_login_def invalidate_session_def)

lemma session_do_inv: "session_inv s \<Longrightarrow> session_inv (session_do op s)"
proof (cases op)
  case (Op_code env given)
  assume "session_inv s"
  then show ?thesis
    using submit_code_login [of s env given] Op_code by (simp add: session_inv_def same_login_def)
next
  case (Op_start env mtu)
  assume inv: "session_inv s"
  then show ?thesis
    using startL3_login [of s env mtu] Op_start by (cases "ss_closed s") (simp_all add: session_inv_def same_login_def)
next
  case (Op_run base ls)
  assume inv: "session_inv s"
  have "same_login s (snd (snd (run_loop base ls 0 base 0 (s\<lparr>ss_running := True\<rparr>))))"
    using run_loop_login [of "s\<lparr>ss_running := True\<rparr>" base ls 0 base 0] by (simp add: same_login_def)
  then show ?thesis
    using inv Op_run by (cases "ss_closed s \<or> ss_running s") (auto simp: run_session_def session_inv_def same_login_def)
next
  case (Op_close h)
  assume "session_inv s"
  then show ?thesis
    using Op_close by (auto simp: session_inv_def close_session_def Let_def)
qed (simp_all add: session_inv_def session_stopL3_def invalidate_session_def)

lemma session_run_inv: "session_inv s \<Longrightarrow> session_inv (fold session_do ops s)"
  by (induction ops arbitrary: s) (simp_all add: session_do_inv)

lemma session_closed_stays: "ss_closed s \<Longrightarrow> ss_closed (fold session_do ops s)"
proof (induction ops arbitrary: s)
  case (Cons op ops)
  have "ss_closed (session_do op s)"
  proof (cases op)
    case (Op_run base ls)
    then show ?thesis using Cons.prems by (simp add: run_session_def)
  qed (use Cons.prems submit_code_login startL3_login in
      \<open>auto simp: same_login_def session_stopL3_def invalidate_session_def close_session_def Let_def\<close>)
  then show ?case using Cons.IH by simp
qed simp


lemma live_inv: "session_live s \<Longrightarrow> session_inv s"
  by (simp add: session_live_def session_inv_def)

lemma ended_inv: "session_ended s err \<Longrightarrow> session_inv s"
  by (simp add: session_ended_def session_inv_def)

lemma login_inv: "session_ready s err \<or> session_awaits env s err \<or> session_ended s err \<Longrightarrow> session_inv s"
  by (auto simp: session_ready_def session_awaits_def intro: live_inv ended_inv)

lemma newSession_inv: "newSession env d = (Some s, err) \<Longrightarrow> session_inv s"
  by (drule newSession_cases) (auto simp: session_awaits_def intro: live_inv ended_inv)

lemma Connect_inv: "Connect env = (Some s, err) \<Longrightarrow> session_inv s"
proof -
  assume c: "Connect env = (Some s, err)"
  then obtain s0 e0 where n: "newSession env False = (Some s0, e0)"
    by (auto simp: Connect_def split: prod.splits option.splits)
  have inv: "session_inv s0"
    by (rule newSession_inv [OF n])
  show ?thesis
  proof (cases e0)
    case None
    obtain e t where p: "prepare env s0 = (e, t)" by fastforce
    have "session_inv t"
      using inv prepare_keeps [of s0 env] p by (simp add: session_inv_def same_end_def)
    then show ?thesis
      using c n None p session_do_inv [of t "Op_close (le_logout env)"] by (auto simp: Connect_def split: option.splits)
  qed (use c n inv in \<open>auto simp: Connect_def\<close>)
qed

text \<open>Closed, without a tunnel, and logged out exactly once if there is a ticket.\<close>

definition settled :: "Session \<Rightarrow> bool" where
  "settled s \<longleftrightarrow> ss_closed s \<and> ss_active s = None \<and> ss_logouts s = (if ss_ticket s = [] then 0 else 1)"

lemma close_settles:
  assumes "session_inv s"
  shows "settled (fold session_do (before @ Op_close h # later) s)"
proof -
  let ?t = "fold session_do before s"
  have "ss_closed (session_do (Op_close h) ?t)"
    using session_run_inv [OF assms, of before] by (auto simp: close_session_def session_inv_def Let_def)
  then have "ss_closed (fold session_do later (session_do (Op_close h) ?t))"
    by (rule session_closed_stays)
  moreover have "session_inv (fold session_do later (session_do (Op_close h) ?t))"
    using assms by (intro session_run_inv session_do_inv)
  ultimately show ?thesis
    by (simp add: settled_def session_inv_def)
qed

text \<open>C33: A session given out by \<open>Connect\<close>, or by \<open>OpenDevices\<close> for the operations on trusted devices, whatever its
  state, is settled by one \<open>Close\<close>: whatever codes, starts, link losses, stops, invalidations and other closings come
  before and after it, the session is closed for good, has no tunnel, and was logged out exactly once if the
  server issued a ticket.\<close>
theorem one_logout:
  "(case Connect env of (None, err) \<Rightarrow> True | (Some s, err) \<Rightarrow> settled (fold session_do (before @ Op_close h # later) s)) \<and>
   (case dv_sess (fst (OpenDevices env)) of None \<Rightarrow> True | Some s \<Rightarrow> settled (fold session_do (before @ Op_close h # later) s))"
  by (auto simp: OpenDevices_def simp del: fold.simps fold_append split: prod.split option.split
      intro!: close_settles intro: Connect_inv newSession_inv)

section \<open>Reconnecting\<close>

text \<open>What a log of link events may hold: a loss is reported as attempt 1 and followed by at most three tries of a
  known node, each after a wait between the base and four times the base, before the link is restored or the log ends.\<close>

fun link_report :: "int \<Rightarrow> string set \<Rightarrow> nat \<Rightarrow> link_event list \<Rightarrow> bool" where
  "link_report base nodes k [] = True"
| "link_report base nodes k (Dropped a e # r) = (a = 1 \<and> link_report base nodes maxReconnectFailures r)"
| "link_report base nodes k (Tried w n # r) = (0 < k \<and> base \<le> w \<and> w \<le> 4 * base \<and> n \<in> nodes \<and> link_report base nodes (k - 1) r)"
| "link_report base nodes k (Restored # r) = link_report base nodes 0 r"

lemma link_report_tries:
  "length ts \<le> k \<Longrightarrow> list_all (\<lambda>(w, n). base \<le> w \<and> w \<le> 4 * base \<and> n \<in> nodes) ts \<Longrightarrow>
   link_report base nodes k (tries_events ts @ rest) = link_report base nodes (k - length ts) rest"
  by (induction ts arbitrary: k) (auto simp: tries_events_def)

lemma reconnect_tries:
  assumes "reconnect l nodes next backoff failures = (ts, e)" and "failures < maxReconnectFailures" and "nodes \<noteq> []"
    and "base \<le> backoff" and "backoff \<le> base * 2 ^ failures" and "0 < base"
  shows "length ts + failures \<le> maxReconnectFailures \<and>
         list_all (\<lambda>(w, n). base \<le> w \<and> w \<le> 4 * base \<and> n \<in> set nodes) ts \<and>
         (case e of Reconnected new node \<Rightarrow> node \<in> set nodes | _ \<Rightarrow> True)"
  using assms
proof (induction l nodes "next" backoff failures arbitrary: ts e rule: reconnect.induct)
  case (1 l nodes "next" backoff failures)
  have node: "nodes ! (next mod length nodes) \<in> set nodes"
    using 1(4) by simp
  have "failures \<le> 2" using 1(3) by simp
  then have "(2::int) ^ failures \<le> 2 ^ 2" by (intro power_increasing) auto
  then have "base * 2 ^ failures \<le> base * 4" using 1(7) by (intro mult_left_mono) auto
  then have wait: "backoff \<le> 4 * base" using 1(6) by linarith
  show ?case
  proof (cases "ll_wait l next = None \<and> (\<exists>err. ll_dial l next = Inl err \<and> ll_dialCtx l next = None \<and> err_as is_gone err = None) \<and>
                failures + 1 < maxReconnectFailures")
    case False
    then show ?thesis
      using 1(2,3,5) node wait
      by (subst (asm) reconnect.simps)
        (auto simp: Let_def not_less not_le split: option.splits sum.splits if_splits prod.splits)
  next
    case True
    then obtain err where c: "ll_wait l next = None" "ll_dial l next = Inl err" "ll_dialCtx l next = None"
        "err_as is_gone err = None" "failures + 1 < maxReconnectFailures"
      by blast
    define b where "b = (if backoff < maxReconnectBackoff then backoff * 2 else backoff)"
    obtain ts' e' where r: "reconnect l nodes (next + 1) b (failures + 1) = (ts', e')"
      by fastforce
    have e: "e = e'" and ts: "ts = (backoff, nodes ! (next mod length nodes)) # ts'"
      using 1(2) c r by (subst (asm) reconnect.simps, simp add: Let_def b_def split: if_splits)+
    have b: "base \<le> b" "b \<le> base * 2 ^ (failures + 1)"
      using 1(5,6,7) by (auto simp: b_def)
    show ?thesis
      using 1(1) [OF c(1) refl refl c(2,3,4) _ r [unfolded b_def]] c(5) 1(4,5,7) b wait node
      by (simp add: b_def e ts)
  qed
qed

lemma reconnectNodes_known:
  "set (reconnectNodes s) = insert (ss_node s) (case ss_table s of None \<Rightarrow> {} | Some t \<Rightarrow> set (candidateNodes t (majorGroup t)))"
proof -
  have "set (foldl (\<lambda>out a. if a \<in> set out then out else out @ [a]) out xs) = set out \<union> set xs" for out xs :: "string list"
    by (induction xs arbitrary: out) auto
  then show ?thesis
    by (simp add: reconnectNodes_def split: option.split)
qed

lemma lose_link_report:
  assumes "lose_link l 0 base 0 s = (ev, r, t)" and "0 < base" and "set (reconnectNodes s) \<subseteq> N"
    and "link_report base N 0 rest" and "r \<noteq> None \<Longrightarrow> rest = []"
  shows "link_report base N 0 (ev @ rest) \<and> (r = None \<longrightarrow> set (reconnectNodes t) \<subseteq> N)"
proof (cases "ss_active s")
  case None
  then show ?thesis using assms by (auto simp: lose_link_def)
next
  case (Some conn)
  define u where "u = s\<lparr>ss_dropped := conn # ss_dropped s\<rparr>"
  obtain ts e where rc: "reconnect l (reconnectNodes u) 0 base 0 = (ts, e)"
    by fastforce
  have nodes: "reconnectNodes u = reconnectNodes s"
    by (simp add: u_def reconnectNodes_def split: option.split)
  have "reconnectNodes s \<noteq> []"
    using reconnectNodes_known [of s] by auto
  then have t: "length ts \<le> maxReconnectFailures" "list_all (\<lambda>(w, n). base \<le> w \<and> w \<le> 4 * base \<and> n \<in> N) ts"
      "case e of Reconnected new node \<Rightarrow> node \<in> N | _ \<Rightarrow> True"
    using reconnect_tries [OF rc, of base] assms(2,3)
    by (auto simp: nodes list_all_iff split: reconnect_end.split)
  have report: "link_report base N 0 (Dropped 1 err # tries_events ts @ tail)"
    if "link_report base N (maxReconnectFailures - length ts) tail" for err tail
    using link_report_tries [OF t(1,2), of tail] that by simp
  show ?thesis
    using assms(1,3,4,5) Some t(3) rc report [of "[]"] report [of "Restored # rest"]
    by (auto simp: lose_link_def Let_def u_def [symmetric] reconnectNodes_known split: option.splits reconnect_end.splits if_splits)
      (auto simp: u_def)
qed

lemma run_loop_report:
  "0 < base \<Longrightarrow> set (reconnectNodes s) \<subseteq> N \<Longrightarrow> link_report base N 0 (fst (run_loop base ls 0 base 0 s))"
proof (induction ls arbitrary: s)
  case (Cons l ls)
  obtain ev r t where l: "lose_link l 0 base 0 s = (ev, r, t)"
    by (cases "lose_link l 0 base 0 s")
  show ?case
  proof (cases r)
    case None
    have "set (reconnectNodes t) \<subseteq> N"
      using lose_link_report [OF l, of N "[]"] Cons.prems None by simp
    then have "link_report base N 0 (fst (run_loop base ls 0 base 0 t))"
      by (rule Cons.IH [OF Cons.prems(1)])
    then show ?thesis
      using lose_link_report [OF l Cons.prems] l None by (auto split: prod.split)
  next
    case (Some x)
    then show ?thesis
      using lose_link_report [OF l Cons.prems, of "[]"] l by simp
  qed
qed simp

text \<open>C34: The maintenance of the tunnel makes a bounded effort: between the loss of the link and its restoration or
  the end of the run there are at most three tries, each of them of the current node or a candidate of the resource
  table, after a wait of at least the configured backoff and at most four times it; and every loss is
  reported as attempt number 1.\<close>
theorem reconnect_effort:
  assumes "0 < base"
  shows "link_report base (insert (ss_node s) (case ss_table s of None \<Rightarrow> {} | Some t \<Rightarrow> set (candidateNodes t (majorGroup t))))
           0 (fst (run_session base ls s))"
proof -
  have "reconnectNodes (s\<lparr>ss_running := True\<rparr>) = reconnectNodes s"
    by (simp add: reconnectNodes_def split: option.split)
  then show ?thesis
    using run_loop_report [OF assms, of "s\<lparr>ss_running := True\<rparr>" "set (reconnectNodes s)" ls]
    by (simp add: run_session_def reconnectNodes_known [symmetric])
qed

definition lost_for_good :: link_loss where
  "lost_for_good =
     \<lparr>ll_ctx = None, ll_reason = Some ErrHeartbeatLost, ll_after = None, ll_wait = (\<lambda>_. None),
      ll_dial = (\<lambda>_. Inl ErrConnRefused), ll_dialCtx = (\<lambda>_. None), ll_stopped = False\<rparr>"

definition linked_session :: Session where
  "linked_session = (new_session False)\<lparr>ss_active := Some 7, ss_node := ''10.0.0.1:441''\<rparr>"

theorem reconnect_effort_witness:
  "fst (run_session 5 [lost_for_good] linked_session) =
     [Dropped 1 (Some ErrHeartbeatLost), Tried 5 ''10.0.0.1:441'', Tried 10 ''10.0.0.1:441'', Tried 20 ''10.0.0.1:441''] \<and>
   link_report 5 {''10.0.0.1:441''} 0 (fst (run_session 5 [lost_for_good] linked_session))"
proof
  have "ss_table linked_session = None" "ss_node linked_session = ''10.0.0.1:441''"
    by (simp_all add: linked_session_def new_session_def)
  then show "link_report 5 {''10.0.0.1:441''} 0 (fst (run_session 5 [lost_for_good] linked_session))"
    using reconnect_effort [of 5 linked_session "[lost_for_good]"] by simp
qed code_simp

section \<open>Trusted devices\<close>

text \<open>Releasing trusted devices succeeds only on the word of the server: the status that is returned is one the server
  gave, this device is not trusted in it, and after a release of all of them it lists none.\<close>
theorem untrust_confirmed:
  "case untrust_device d all env of
     Inl e \<Rightarrow> True
   | Inr st \<Rightarrow> \<not> ds_Trusted st \<and> (if all then \<not> hasTrustedDevices st else True) \<and>
       (queryDevice (dv_query env 0) = Inr st \<or> queryDevice (dv_query env 1) = Inr st)"
  by (auto simp: untrust_device_def untrust_ids_def device_status_def hasTrustedDevices_def split: sum.split option.split)

text \<open>\<open>Trust\<close> and \<open>EnsureTrusted\<close> do not ask for such a confirmation: they succeed although the server still reports the
  device as not trusted.\<close>

definition untrusted_reply :: http_outcome where
  "untrusted_reply = Http_reply 200 (Inr ''{\"code\":0,\"data\":{\"selfId\":\"a\",\"deviceTrusted\":false}}'')"

lemma trust_unconfirmed:
  "EnsureTrusted (new_session False) untrusted_reply \<lparr>dv_query = \<lambda>_. untrusted_reply, dv_post = \<lambda>_. untrusted_reply\<rparr> = None \<and>
   map_sum (\<lambda>_. ()) ds_Trusted (queryDevice untrusted_reply) = Inr False"
  by code_simp

end
