(* ===== verification/Config.thy ===== *)
theory Config
  imports Socks Ipc
begin

text \<open>
  \<open>internal/config/config.go\<close>: the configuration of the service, its defaults and its validation, the addresses
  derived from it, and \<open>newSOCKS\<close> of \<open>internal/service/endpoints.go\<close>, which opens the SOCKS5 server it describes.
  The YAML decoder is a parameter (theory \<open>Init_Identity\<close>).
\<close>

section \<open>Data\<close>

record WireGuard =
  wg_Enabled :: bool
  wg_MTU :: int
  wg_ListenPort :: int
  wg_ListenHost :: string
  wg_PrivateKey :: string
  wg_PeerPublicKey :: string
  wg_PeerAddress :: string

record SOCKS5 =
  sk_Enabled :: bool
  sk_ListenHost :: string
  sk_ListenPort :: int
  sk_Username :: string
  sk_Password :: string
  sk_MaxConnections :: int
  sk_MaxDials :: int

text \<open>What \<open>restrictPermissions\<close> reports: nothing, or the permission bits, tightened or not.\<close>

datatype perm_note = No_note | Tightened int | Not_tightened int error

record Config =
  cf_sourcePath :: string
  cf_permNote :: perm_note
  cf_Server :: string
  cf_ServerIP :: string
  cf_Port :: int
  cf_Username :: string
  cf_Password :: string
  cf_LoginDomain :: string
  cf_DeviceID :: string
  cf_Proxy :: string
  cf_WireGuard :: WireGuard
  cf_SOCKS5 :: SOCKS5
  cf_Pins :: "string list"
  cf_LogLevel :: string

datatype config_error =
    Pin_count | Pin_format nat | Pin_duplicate nat
  | No_server | Server_port | Server_chars | Server_brackets | Bad_server_ip | Bad_port int | No_username
  | Bad_log_level | Bad_mtu | Bad_wg_port | Bad_wg_host | Bad_peer_address
  | Bad_socks_host | Bad_socks_port | Bad_socks_auth | Socks_needs_auth | Bad_socks_budget
  \<comment> \<open>identity.go\<close>
  | Config_read error | Config_large | Yaml_syntax | Yaml_many | Yaml_bounds | Yaml_not_map | Yaml_fields
  | Generate_failed error | Empty_device | Empty_key | Wg_not_map | Yaml_encode | Written_large | Identity_write error

abbreviation MinMTU :: int where "MinMTU \<equiv> 576"
abbreviation MaxUint16 :: int where "MaxUint16 \<equiv> 65535"
abbreviation maxNodePins :: nat where "maxNodePins \<equiv> 16"
abbreviation maxConfigBytes :: int where "maxConfigBytes \<equiv> 256 * 1024"

section \<open>Fingerprints\<close>

text \<open>The strict decoder refuses some texts that \<open>base64_quads\<close> takes; those do not encode back to themselves.\<close>

definition decode_pin :: "string \<Rightarrow> bytes option" where
  "decode_pin raw =
     (case DecodeSecret raw of
        Inl _ \<Rightarrow> None
      | Inr s \<Rightarrow> if length s \<noteq> 32 \<or> EncodeSecret s \<noteq> raw then None else Some (str_bytes s))"

fun pins_loop :: "nat \<Rightarrow> string list \<Rightarrow> bytes list \<Rightarrow> config_error + bytes list" where
  "pins_loop i [] out = Inr out"
| "pins_loop i (raw # r) out =
     (case decode_pin raw of
        None \<Rightarrow> Inl (Pin_format (i + 1))
      | Some digest \<Rightarrow>
          if digest \<in> set out then Inl (Pin_duplicate (i + 1)) else pins_loop (i + 1) r (out @ [digest]))"

definition NodeSPKIPins :: "Config \<Rightarrow> config_error + bytes list" where
  "NodeSPKIPins c =
     (let list = cf_Pins c in
      if list = [] \<or> length list > maxNodePins then Inl Pin_count else pins_loop 0 list [])"

section \<open>Paths and permissions\<close>

definition defaultPath :: "string \<Rightarrow> (string \<Rightarrow> string) \<Rightarrow> string \<Rightarrow> string" where
  "defaultPath goos getenv home =
     (let bs = [CHR 0x5C] in
      if goos = ''windows'' then
        (if getenv ''LOCALAPPDATA'' \<noteq> [] then getenv ''LOCALAPPDATA'' @ bs @ ''njuvpn'' @ bs @ ''config.yaml''
         else if home \<noteq> [] then home @ bs @ ''AppData'' @ bs @ ''Local'' @ bs @ ''njuvpn'' @ bs @ ''config.yaml''
         else ''njuvpn'' @ bs @ ''config.yaml'')
      else if getenv ''XDG_CONFIG_HOME'' \<noteq> [] then getenv ''XDG_CONFIG_HOME'' @ ''/njuvpn/config.yaml''
      else if home \<noteq> [] then home @ ''/.config/njuvpn/config.yaml''
      else ''/etc/njuvpn/config.yaml'')"

text \<open>\<open>stat\<close> is the permission of the file, \<open>chmod\<close> the error of tightening it.\<close>

definition restrictPermissions :: "string \<Rightarrow> string \<Rightarrow> int option \<Rightarrow> error option \<Rightarrow> perm_note" where
  "restrictPermissions goos path stat chmod =
     (if goos = ''windows'' \<or> path = [] then No_note
      else case stat of
        None \<Rightarrow> No_note
      | Some perm \<Rightarrow>
          if perm AND 0x3F = 0 then No_note
          else (case chmod of Some e \<Rightarrow> Not_tightened perm e | None \<Rightarrow> Tightened perm))"

section \<open>Defaults\<close>

definition or_else :: "'a \<Rightarrow> 'a \<Rightarrow> 'a \<Rightarrow> 'a" where
  "or_else zero d x = (if x = zero then d else x)"

definition wg_defaults :: "WireGuard \<Rightarrow> WireGuard" where
  "wg_defaults w =
     (if wg_Enabled w
      then w\<lparr>wg_MTU := or_else 0 1400 (wg_MTU w), wg_ListenPort := or_else 0 51820 (wg_ListenPort w),
             wg_PeerAddress := or_else [] ''10.66.66.2'' (wg_PeerAddress w),
             wg_ListenHost := or_else [] ''loopback'' (wg_ListenHost w)\<rparr>
      else w)"

definition socks_defaults :: "SOCKS5 \<Rightarrow> SOCKS5" where
  "socks_defaults s =
     (if sk_Enabled s
      then s\<lparr>sk_ListenHost := or_else [] ''loopback'' (sk_ListenHost s), sk_ListenPort := or_else 0 1080 (sk_ListenPort s),
             sk_MaxConnections := or_else 0 128 (sk_MaxConnections s), sk_MaxDials := or_else 0 32 (sk_MaxDials s)\<rparr>
      else s)"

definition applyDefaults :: "Config \<Rightarrow> Config" where
  "applyDefaults c =
     c\<lparr>cf_Port := or_else 0 443 (cf_Port c), cf_WireGuard := wg_defaults (cf_WireGuard c),
       cf_LogLevel := or_else [] ''info'' (cf_LogLevel c), cf_SOCKS5 := socks_defaults (cf_SOCKS5 c)\<rparr>"

section \<open>Validation\<close>

text \<open>A loop over runes that looks for ASCII characters finds them among the bytes.\<close>

definition validateHost :: "string \<Rightarrow> config_error option" where
  "validateHost host =
     (if ParseIP host \<noteq> None then None
      else if SplitHostPort host \<noteq> None then Some Server_port
      else if list_ex (\<lambda>r. code r \<le> 0x20 \<or> r = CHR ''/'' \<or> r = CHR 0x5C) host then Some Server_chars
      else if list_ex (\<lambda>r. r \<in> set ''[]%@'') host then Some Server_brackets
      else None)"

definition validateListenHost :: "config_error \<Rightarrow> string \<Rightarrow> config_error option" where
  "validateListenHost err value = (if value = ''loopback'' \<or> value = ''all'' then None else Some err)"

definition validate_wg :: "WireGuard \<Rightarrow> config_error option" where
  "validate_wg w =
     (if wg_MTU w < MinMTU \<or> wg_MTU w > MaxUint16 then Some Bad_mtu
      else if wg_ListenPort w < 1 \<or> wg_ListenPort w > 65535 then Some Bad_wg_port
      else if validateListenHost Bad_wg_host (wg_ListenHost w) \<noteq> None then validateListenHost Bad_wg_host (wg_ListenHost w)
      else case ParseIP (wg_PeerAddress w) of
        None \<Rightarrow> Some Bad_peer_address
      | Some ip \<Rightarrow> if To4 ip = None then Some Bad_peer_address else None)"

definition validate_socks :: "SOCKS5 \<Rightarrow> config_error option" where
  "validate_socks s =
     (if validateListenHost Bad_socks_host (sk_ListenHost s) \<noteq> None then validateListenHost Bad_socks_host (sk_ListenHost s)
      else if sk_ListenPort s < 1 \<or> sk_ListenPort s > 65535 then Some Bad_socks_port
      else if (sk_Username s = []) \<noteq> (sk_Password s = []) \<or> length (sk_Username s) > 255 \<or> length (sk_Password s) > 255
      then Some Bad_socks_auth
      else if sk_ListenHost s = ''all'' \<and> sk_Username s = [] then Some Socks_needs_auth
      else if sk_MaxConnections s < 1 \<or> sk_MaxConnections s > 4096 \<or> sk_MaxDials s < 1 \<or> sk_MaxDials s > 128 \<or>
              sk_MaxDials s > sk_MaxConnections s then Some Bad_socks_budget
      else None)"

definition validate :: "Config \<Rightarrow> config_error option" where
  "validate c =
     (if cf_Server c = [] then Some No_server
      else if validateHost (cf_Server c) \<noteq> None then validateHost (cf_Server c)
      else if cf_ServerIP c \<noteq> [] \<and> ParseIP (cf_ServerIP c) = None then Some Bad_server_ip
      else if cf_Port c < 1 \<or> cf_Port c > 65535 then Some (Bad_port (cf_Port c))
      else if cf_Username c = [] then Some No_username
      else if cf_LogLevel c \<noteq> ''info'' \<and> cf_LogLevel c \<noteq> ''debug'' then Some Bad_log_level
      else case NodeSPKIPins c of
        Inl e \<Rightarrow> Some e
      | Inr _ \<Rightarrow>
          if wg_Enabled (cf_WireGuard c) \<and> validate_wg (cf_WireGuard c) \<noteq> None then validate_wg (cf_WireGuard c)
          else if sk_Enabled (cf_SOCKS5 c) then validate_socks (cf_SOCKS5 c)
          else None)"

section \<open>What is derived from a configuration\<close>

datatype warning = Warn_perm perm_note | Warn_no_peer | Warn_login_domain | Warn_device_id | Warn_password

definition Warnings :: "Config \<Rightarrow> warning list" where
  "Warnings c =
     (if cf_permNote c \<noteq> No_note then [Warn_perm (cf_permNote c)] else []) @
     (if wg_Enabled (cf_WireGuard c) \<and> wg_PeerPublicKey (cf_WireGuard c) = [] then [Warn_no_peer] else []) @
     (if cf_LoginDomain c = [] then [Warn_login_domain] else []) @
     (if cf_DeviceID c = [] then [Warn_device_id] else []) @
     (if cf_Password c = [] then [Warn_password] else [])"

definition ServerAddr :: "Config \<Rightarrow> string" where
  "ServerAddr c = JoinHostPort (cf_Server c) (int_str (cf_Port c))"

definition DialAddr :: "Config \<Rightarrow> string" where
  "DialAddr c = (if cf_ServerIP c \<noteq> [] then JoinHostPort (cf_ServerIP c) (int_str (cf_Port c)) else [])"

definition ConnectAddr :: "Config \<Rightarrow> string" where
  "ConnectAddr c = (if DialAddr c \<noteq> [] then DialAddr c else ServerAddr c)"

definition socks_address :: "SOCKS5 \<Rightarrow> string" where
  "socks_address s =
     JoinHostPort (if sk_ListenHost s = ''all'' then ''0.0.0.0'' else ''127.0.0.1'') (int_str (sk_ListenPort s))"

definition socks_options :: "SOCKS5 \<Rightarrow> Options" where
  "socks_options s =
     \<lparr>op_Username = sk_Username s, op_Password = sk_Password s, op_MaxConnections = sk_MaxConnections s,
      op_MaxDials = sk_MaxDials s, op_HandshakeTimeout = 0\<rparr>"

definition newSOCKS :: "(string \<Rightarrow> error + int) \<Rightarrow> Config \<Rightarrow> error + Server" where
  "newSOCKS listen c = New listen (socks_address (cf_SOCKS5 c)) (socks_options (cf_SOCKS5 c))"

end
