(* ===== verification/Init_Identity.thy ===== *)
theory Init_Identity
  imports Config
begin

text \<open>
  \<open>internal/config/identity.go\<close> and \<open>file_unix.go\<close>: loading a configuration, and the identity that the first start
  generates and writes back. The YAML library is a parameter: its parser gives the tree of the first document and
  whether the input ends there, its decoder a configuration, its encoder a text. The file system maps paths to
  contents; comments and styles of YAML nodes are not modelled.
\<close>

section \<open>YAML trees\<close>

datatype ykind = DocumentNode | MappingNode | SequenceNode | ScalarNode | AliasNode

datatype ynode = YNode (y_kind: ykind) (y_tag: string) (y_value: string) (y_content: "ynode list")

record yaml_lib =
  yl_parse :: "string \<Rightarrow> (ynode \<times> bool) option"
  yl_decode :: "string \<Rightarrow> Config option"
  yl_encode :: "ynode \<Rightarrow> string option"

fun visit :: "ynode \<Rightarrow> nat \<Rightarrow> nat \<Rightarrow> bool \<times> nat"
  and visit_all :: "ynode list \<Rightarrow> nat \<Rightarrow> nat \<Rightarrow> bool \<times> nat" where
  "visit (YNode kind tag value content) depth count =
     (if depth > 32 \<or> count + 1 > 8192 \<or> kind = AliasNode then (False, count + 1)
      else visit_all content (depth + 1) (count + 1))"
| "visit_all [] depth count = (True, count)"
| "visit_all (n # ns) depth count =
     (case visit n depth count of (ok, c) \<Rightarrow> if ok then visit_all ns depth c else (False, c))"

definition configDocument :: "yaml_lib \<Rightarrow> string \<Rightarrow> config_error + ynode" where
  "configDocument lib data =
     (case yl_parse lib data of
        None \<Rightarrow> Inl Yaml_syntax
      | Some (doc, ends) \<Rightarrow>
          if \<not> ends then Inl Yaml_many
          else if \<not> fst (visit doc 0 0) then Inl Yaml_bounds
          else if length (y_content doc) \<noteq> 1 \<or> y_kind (hd (y_content doc)) \<noteq> MappingNode then Inl Yaml_not_map
          else Inr doc)"

definition yscalar :: "string \<Rightarrow> ynode" where
  "yscalar value = YNode ScalarNode ''!!str'' value []"

fun find_value :: "string \<Rightarrow> ynode list \<Rightarrow> ynode option" where
  "find_value field (k # v # r) = (if y_value k = field then Some v else find_value field r)"
| "find_value field r = None"

definition mappingValue :: "ynode \<Rightarrow> string \<Rightarrow> ynode option" where
  "mappingValue n field = find_value field (y_content n)"

text \<open>Assignment to the node \<open>mappingValue\<close> finds, or appending of a new pair.\<close>

fun put_value :: "string \<Rightarrow> ynode \<Rightarrow> ynode list \<Rightarrow> ynode list" where
  "put_value field new (k # v # r) = (if y_value k = field then k # new # r else k # v # put_value field new r)"
| "put_value field new r = r @ [yscalar field, new]"

definition put_mapping :: "ynode \<Rightarrow> string \<Rightarrow> ynode \<Rightarrow> ynode" where
  "put_mapping n field new = YNode (y_kind n) (y_tag n) (y_value n) (put_value field new (y_content n))"

definition setScalar :: "ynode \<Rightarrow> string \<Rightarrow> string \<Rightarrow> ynode" where
  "setScalar n field value = put_mapping n field (yscalar value)"

definition empty_map :: ynode where
  "empty_map = YNode MappingNode ''!!map'' [] []"

section \<open>Files\<close>

type_synonym file_system = "string \<Rightarrow> string option"

text \<open>How the calls on files end: opening with the status (regular, size) and the contents read, the owner and the
  permission of the directory, the temporary file with its steps.\<close>

record file_env =
  fe_open :: "error + (bool \<times> int) \<times> (error + string)"
  fe_uid :: int
  fe_directory :: "error + int \<times> int"
  fe_temp :: "error + string"
  fe_write :: "error option"
  fe_sync :: "error option"
  fe_close :: "error option"
  fe_rename :: "error option"

definition readConfig :: "file_env \<Rightarrow> config_error + string" where
  "readConfig env =
     (case fe_open env of
        Inl e \<Rightarrow> Inl (Config_read e)
      | Inr ((regular, bytes), contents) \<Rightarrow>
          if \<not> regular \<or> bytes > maxConfigBytes then Inl Config_large
          else case contents of
            Inl e \<Rightarrow> Inl (Config_read e)
          | Inr data \<Rightarrow> if len data > maxConfigBytes then Inl Config_large else Inr data)"

abbreviation errIdentityDirectory :: error where "errIdentityDirectory \<equiv> OtherError 90"

definition checkIdentityDirectory :: "file_env \<Rightarrow> error option" where
  "checkIdentityDirectory env =
     (case fe_directory env of
        Inl e \<Rightarrow> Some e
      | Inr (uid, perm) \<Rightarrow> if uid \<noteq> fe_uid env \<or> perm AND 0x12 \<noteq> 0 then Some errIdentityDirectory else None)"

definition rename :: "string \<Rightarrow> string \<Rightarrow> file_system \<Rightarrow> file_system" where
  "rename old new fs = (fs(new := fs old))(old := None)"

text \<open>The deferred \<open>os.Remove\<close> of the temporary file.\<close>

definition remove_file :: "string \<Rightarrow> file_system \<Rightarrow> file_system" where
  "remove_file name fs = fs(name := None)"

definition replacePrivateFile :: "file_env \<Rightarrow> string \<Rightarrow> string \<Rightarrow> file_system \<Rightarrow> error option \<times> file_system" where
  "replacePrivateFile env path data fs =
     (case checkIdentityDirectory env of
        Some e \<Rightarrow> (Some e, fs)
      | None \<Rightarrow>
          (case fe_temp env of
             Inl e \<Rightarrow> (Some e, fs)
           | Inr tmp \<Rightarrow>
               let fs = fs(tmp \<mapsto> []) in
               (case fe_write env of
                  Some e \<Rightarrow> (Some e, remove_file tmp fs)
                | None \<Rightarrow>
                    let fs = fs(tmp \<mapsto> data) in
                    (case fe_sync env of
                       Some e \<Rightarrow> (Some e, remove_file tmp fs)
                     | None \<Rightarrow>
                         (case fe_close env of
                            Some e \<Rightarrow> (Some e, remove_file tmp fs)
                          | None \<Rightarrow>
                              (case fe_rename env of
                                 Some e \<Rightarrow> (Some e, remove_file tmp fs)
                               | None \<Rightarrow> (None, remove_file tmp (rename tmp path fs))))))))"

section \<open>Loading\<close>

definition parseConfig :: "yaml_lib \<Rightarrow> string \<Rightarrow> string \<Rightarrow> config_error + Config" where
  "parseConfig lib data path =
     (case configDocument lib data of
        Inl e \<Rightarrow> Inl e
      | Inr _ \<Rightarrow>
          (case yl_decode lib data of
             None \<Rightarrow> Inl Yaml_fields
           | Some c \<Rightarrow>
               let c = applyDefaults (c\<lparr>cf_sourcePath := path, cf_permNote := No_note\<rparr>) in
               (case validate c of Some e \<Rightarrow> Inl e | None \<Rightarrow> Inr c)))"

text \<open>\<open>path\<close> is the canonical path, as \<open>CanonicalPath\<close> gives it.\<close>

definition load_config :: "yaml_lib \<Rightarrow> file_env \<Rightarrow> string \<Rightarrow> config_error + Config" where
  "load_config lib env path =
     (case readConfig env of Inl e \<Rightarrow> Inl e | Inr data \<Rightarrow> parseConfig lib data path)"

definition Load :: "yaml_lib \<Rightarrow> file_env \<Rightarrow> string \<Rightarrow> int option \<Rightarrow> error option \<Rightarrow> string \<Rightarrow> config_error + Config" where
  "Load lib env goos stat chmod path =
     (case load_config lib env path of
        Inl e \<Rightarrow> Inl e
      | Inr c \<Rightarrow> Inr (c\<lparr>cf_permNote := restrictPermissions goos (cf_sourcePath c) stat chmod\<rparr>))"

section \<open>The identity\<close>

text \<open>A value that is already there is kept, a missing one is generated and must not be empty.\<close>

definition generated :: "bool \<Rightarrow> string \<Rightarrow> error + string \<Rightarrow> config_error \<Rightarrow> config_error + string" where
  "generated needed value gen vacant =
     (if needed \<and> value = []
      then (case gen of Inl e \<Rightarrow> Inl (Generate_failed e) | Inr v \<Rightarrow> if v = [] then Inl vacant else Inr v)
      else Inr value)"

definition set_key :: "ynode \<Rightarrow> string \<Rightarrow> config_error + ynode" where
  "set_key root secret =
     (let wg = (case mappingValue root ''wireguard'' of None \<Rightarrow> empty_map | Some w \<Rightarrow> if y_tag w = ''!!null'' then empty_map else w)
      in if y_kind wg \<noteq> MappingNode then Inl Wg_not_map
         else Inr (put_mapping root ''wireguard'' (setScalar wg ''private_key'' secret)))"

definition identity_root :: "Config \<Rightarrow> string \<Rightarrow> string \<Rightarrow> ynode \<Rightarrow> config_error + ynode" where
  "identity_root c device secret root =
     (let root = (if cf_DeviceID c = [] then setScalar root ''device_id'' device else root) in
      if wg_Enabled (cf_WireGuard c) \<and> wg_PrivateKey (cf_WireGuard c) = [] then set_key root secret else Inr root)"

definition has_identity :: "Config \<Rightarrow> bool" where
  "has_identity c \<longleftrightarrow> cf_DeviceID c \<noteq> [] \<and> (\<not> wg_Enabled (cf_WireGuard c) \<or> wg_PrivateKey (cf_WireGuard c) \<noteq> [])"

definition write_identity :: "yaml_lib \<Rightarrow> file_env \<Rightarrow> ynode \<Rightarrow> Config \<Rightarrow> file_system \<Rightarrow> (config_error + Config) \<times> file_system" where
  "write_identity lib env doc c fs =
     (case yl_encode lib doc of
        None \<Rightarrow> (Inl Yaml_encode, fs)
      | Some out \<Rightarrow>
          if len out > maxConfigBytes then (Inl Written_large, fs)
          else case replacePrivateFile env (cf_sourcePath c) out fs of
            (Some e, fs) \<Rightarrow> (Inl (Identity_write e), fs)
          | (None, fs) \<Rightarrow> (Inr c, fs))"

definition InitializeIdentity ::
  "yaml_lib \<Rightarrow> file_env \<Rightarrow> error + string \<Rightarrow> error + string \<Rightarrow> string \<Rightarrow> file_system \<Rightarrow> (config_error + Config) \<times> file_system" where
  "InitializeIdentity lib env genDevice genKey path fs =
     (case readConfig env of
        Inl e \<Rightarrow> (Inl e, fs)
      | Inr data \<Rightarrow>
          (case parseConfig lib data path of
             Inl e \<Rightarrow> (Inl e, fs)
           | Inr c \<Rightarrow>
               if has_identity c then (Inr c, fs)
               else
                 (case generated True (cf_DeviceID c) genDevice Empty_device of
                    Inl e \<Rightarrow> (Inl e, fs)
                  | Inr device \<Rightarrow>
                      (case generated (wg_Enabled (cf_WireGuard c)) (wg_PrivateKey (cf_WireGuard c)) genKey Empty_key of
                         Inl e \<Rightarrow> (Inl e, fs)
                       | Inr secret \<Rightarrow>
                           (case configDocument lib data of
                              Inl e \<Rightarrow> (Inl e, fs)
                            | Inr doc \<Rightarrow>
                                (case identity_root c device secret (hd (y_content doc)) of
                                   Inl e \<Rightarrow> (Inl e, fs)
                                 | Inr root \<Rightarrow>
                                     write_identity lib env (YNode (y_kind doc) (y_tag doc) (y_value doc) [root])
                                       (c\<lparr>cf_DeviceID := device, cf_WireGuard := (cf_WireGuard c)\<lparr>wg_PrivateKey := secret\<rparr>\<rparr>) fs))))))"

end
