(* ===== verification/Bearer.thy ===== *)
theory Bearer
  imports Init_Identity Relay
begin

text \<open>
  \<open>internal/wireguard/keys.go\<close> and \<open>device.go\<close>, and \<open>internal/service/bearer.go\<close>: the keys, the WireGuard device over its
  relay, and the bearer that a campus session is attached to. The wireguard-go device is a library: \<open>dev_ipc\<close> lists the
  configuration texts it was given, and how each call of it ends is a parameter.
\<close>

section \<open>Keys\<close>

abbreviation KeyLen :: nat where "KeyLen \<equiv> 32"

type_synonym Key = bytes

datatype wg_error =
    Key_empty | Key_base64 | Key_length nat
  | Dev_no_key | Dev_port int | Dev_mtu int | Dev_failed error
  | Peer_not_ipv4 | Peer_empty | No_listen_port | Uapi_failed error
  | Br_private_key wg_error | Br_peer_key wg_error | Br_zero_peer | Br_peer_address | Br_device wg_error
  | Br_no_vip | Br_mapper map_error | Br_peer wg_error

definition IsZero :: "Key \<Rightarrow> bool" where
  "IsZero k \<longleftrightarrow> k = replicate KeyLen 0"

definition key_text :: "Key \<Rightarrow> string" where
  "key_text k = EncodeSecret (bytes_str k)"

definition ParseKey :: "string \<Rightarrow> wg_error + Key" where
  "ParseKey s =
     (if s = [] then Inl Key_empty
      else case DecodeSecret s of
        Inl _ \<Rightarrow> Inl Key_base64
      | Inr raw \<Rightarrow> if length raw \<noteq> KeyLen then Inl (Key_length (length raw)) else Inr (str_bytes raw))"

definition clampScalar :: "Key \<Rightarrow> Key" where
  "clampScalar b =
     (let b = b[0 := b ! 0 AND 248];
          b = b[31 := b ! 31 AND 127]
      in b[31 := b ! 31 OR 64])"

text \<open>\<open>GenerateKey\<close> from what the random source gives.\<close>

definition GenerateKey :: "error + bytes \<Rightarrow> error + Key" where
  "GenerateKey random = (case random of Inl e \<Rightarrow> Inl e | Inr b \<Rightarrow> Inr (clampScalar b))"

section \<open>Configuration texts\<close>

definition byte_hex :: "byte \<Rightarrow> string" where
  "byte_hex b = [hex_digit (uint b div 16), hex_digit (uint b mod 16)]"

definition key_hex :: "Key \<Rightarrow> string" where
  "key_hex k = concat (map byte_hex k)"

definition uapiConfig :: "Key \<Rightarrow> int \<Rightarrow> string" where
  "uapiConfig privateKey listenPort =
     ''private_key='' @ key_hex privateKey @ [CHR 0x0A] @ ''listen_port='' @ int_str listenPort @ [CHR 0x0A]"

definition peerConfig :: "Key \<Rightarrow> bytes \<Rightarrow> wg_error + string" where
  "peerConfig pub addr =
     (case To4 addr of
        None \<Rightarrow> Inl Peer_not_ipv4
      | Some a \<Rightarrow>
          Inr (''replace_peers=true'' @ [CHR 0x0A] @ ''public_key='' @ key_hex pub @ [CHR 0x0A] @
               ''allowed_ip='' @ ip4_str a @ ''/32'' @ [CHR 0x0A]))"

definition no_peers :: string where
  "no_peers = ''replace_peers=true'' @ [CHR 0x0A]"

record deviceConfig =
  dc_listenPort :: int
  dc_lastHandshakeSec :: int

text \<open>\<open>strconv.Atoi\<close> and \<open>ParseInt\<close> with the error ignored: the value comes with it.\<close>

definition atoi_value :: "string \<Rightarrow> int" where
  "atoi_value s =
     (let neg = (take 1 s = ''-''); d = (if neg \<or> take 1 s = ''+'' then drop 1 s else s) in
      case Atoi s of
        Some n \<Rightarrow> n
      | None \<Rightarrow> if \<not> all_digits d then 0 else if neg then - (2 ^ 63) else 2 ^ 63 - 1)"

fun lines_of :: "string \<Rightarrow> string \<Rightarrow> string list" where
  "lines_of cur [] = [rev cur]"
| "lines_of cur (c # r) = (if c = CHR 0x0A then rev cur # lines_of [] r else lines_of (c # cur) r)"

definition parse_line :: "deviceConfig \<Rightarrow> string \<Rightarrow> deviceConfig" where
  "parse_line cfg line =
     (let key = takeWhile (\<lambda>c. c \<noteq> CHR ''='') line; value = drop (length key + 1) line in
      if CHR ''='' \<notin> set line then cfg
      else if key = ''listen_port'' then cfg\<lparr>dc_listenPort := atoi_value (TrimSpace value)\<rparr>
      else if key = ''last_handshake_time_sec'' then cfg\<lparr>dc_lastHandshakeSec := atoi_value (TrimSpace value)\<rparr>
      else cfg)"

definition parseUAPI :: "string \<Rightarrow> deviceConfig" where
  "parseUAPI out = foldl parse_line \<lparr>dc_listenPort = 0, dc_lastHandshakeSec = 0\<rparr> (lines_of [] out)"

section \<open>The device\<close>

datatype ListenHost = ListenLoopback | ListenAll

definition ParseListenHost :: "string \<Rightarrow> ListenHost option" where
  "ParseListenHost s =
     (if s = [] \<or> s = ''loopback'' then Some ListenLoopback else if s = ''all'' then Some ListenAll else None)"

record DeviceOptions =
  do_MTU :: int
  do_PrivateKey :: Key
  do_ListenPort :: int
  do_ListenHost :: ListenHost
  do_Verbose :: bool

record 'u Device =
  dev_relay :: "'u Relay"
  dev_ipc :: "string list"
  dev_listenPort :: int
  dev_listenHost :: ListenHost

text \<open>\<open>content\<close> is \<open>device.MaxContentSize\<close> and \<open>transport\<close> is \<open>device.MessageTransportSize\<close>; \<open>ipc\<close> and \<open>up\<close> are the errors of the library's
  first calls.\<close>

definition max_mtu :: "int \<Rightarrow> int \<Rightarrow> int" where
  "max_mtu content transport = min content (65535 - 20 - 8 - transport)"

definition NewDevice ::
  "int \<Rightarrow> int \<Rightarrow> error option \<Rightarrow> error option \<Rightarrow> (nat \<Rightarrow> ('u, nat) Endpoint) \<Rightarrow> DeviceOptions \<Rightarrow> wg_error + 'u Device" where
  "NewDevice content transport ipc up eps opts =
     (if IsZero (do_PrivateKey opts) then Inl Dev_no_key
      else if do_ListenPort opts < 0 \<or> do_ListenPort opts > 65535 then Inl (Dev_port (do_ListenPort opts))
      else if do_MTU opts \<le> 0 \<or> do_MTU opts > max_mtu content transport then Inl (Dev_mtu (max_mtu content transport))
      else case ipc of
        Some e \<Rightarrow> Inl (Dev_failed e)
      | None \<Rightarrow>
          (case up of
             Some e \<Rightarrow> Inl (Dev_failed e)
           | None \<Rightarrow> Inr \<lparr>dev_relay = NewRelay (do_MTU opts) eps,
                          dev_ipc = [uapiConfig (do_PrivateKey opts) (do_ListenPort opts)],
                          dev_listenPort = do_ListenPort opts, dev_listenHost = do_ListenHost opts\<rparr>))"

definition SetSession :: "nat \<Rightarrow> Mapper \<Rightarrow> int \<Rightarrow> 'u Device \<Rightarrow> 'u Device" where
  "SetSession ep mapper now d = d\<lparr>dev_relay := InstallSession ep (Some mapper) now (dev_relay d)\<rparr>"

definition clear_device_session :: "int \<Rightarrow> 'u Device \<Rightarrow> 'u Device" where
  "clear_device_session now d = d\<lparr>dev_relay := ClearSession now (dev_relay d)\<rparr>"

definition SetPeer :: "error option \<Rightarrow> Key \<Rightarrow> bytes \<Rightarrow> 'u Device \<Rightarrow> wg_error option \<times> 'u Device" where
  "SetPeer ipc pub addr d =
     (if IsZero pub then (Some Peer_empty, d)
      else case peerConfig pub addr of
        Inl e \<Rightarrow> (Some e, d)
      | Inr conf \<Rightarrow>
          (case ipc of
             Some e \<Rightarrow> (Some (Uapi_failed e), d)
           | None \<Rightarrow> (None, d\<lparr>dev_ipc := dev_ipc d @ [conf], dev_relay := HoldDownlink True (dev_relay d)\<rparr>)))"

definition ClearPeer :: "error option \<Rightarrow> 'u Device \<Rightarrow> wg_error option \<times> 'u Device" where
  "ClearPeer ipc d =
     (case ipc of
        Some e \<Rightarrow> (Some (Uapi_failed e), d)
      | None \<Rightarrow> (None, d\<lparr>dev_ipc := dev_ipc d @ [no_peers], dev_relay := HoldDownlink False (dev_relay d)\<rparr>))"

text \<open>\<open>get\<close> is what the library answers to \<open>IpcGet\<close>.\<close>

definition device_config :: "error + string \<Rightarrow> wg_error + deviceConfig" where
  "device_config get = (case get of Inl e \<Rightarrow> Inl (Uapi_failed e) | Inr out \<Rightarrow> Inr (parseUAPI out))"

definition ListenPort :: "error + string \<Rightarrow> wg_error + int" where
  "ListenPort get =
     (case device_config get of
        Inl e \<Rightarrow> Inl e
      | Inr cfg \<Rightarrow> if dc_listenPort cfg = 0 then Inl No_listen_port else Inr (dc_listenPort cfg))"

definition ListenPortOrDefault :: "error + string \<Rightarrow> 'u Device \<Rightarrow> int" where
  "ListenPortOrDefault get d =
     (case ListenPort get of Inr actual \<Rightarrow> if actual > 0 then actual else dev_listenPort d | Inl _ \<Rightarrow> dev_listenPort d)"

section \<open>Watching for the handshake\<close>

abbreviation handshakeSettleInterval :: time where "handshakeSettleInterval \<equiv> 200000000"
abbreviation handshakeSettleMax :: time where "handshakeSettleMax \<equiv> 5 * second"

definition probeInterval :: "bool \<Rightarrow> bool \<Rightarrow> time \<Rightarrow> time" where
  "probeInterval hold seen interval =
     (if \<not> hold \<or> seen then handshakeSettleMax else min (interval * 2) handshakeSettleMax)"

text \<open>A step of the loop of \<open>watchPeerHandshake\<close>, woken or at the end of its interval, with the configuration it reads; the
  state is the interval and the relay.\<close>

datatype watch_event = Woken | Timer_fired "wg_error + deviceConfig"

fun watch_step :: "watch_event \<Rightarrow> time \<times> 'u Relay \<Rightarrow> time \<times> 'u Relay" where
  "watch_step Woken (interval, r) = (handshakeSettleInterval, r\<lparr>rl_holdWake := False\<rparr>)"
| "watch_step (Timer_fired get) (interval, r) =
     (case rl_gate r of
        None \<Rightarrow> (probeInterval False False interval, r)
      | Some g \<Rightarrow>
          if rl_seen r g then (probeInterval True True interval, r)
          else case get of
            Inr cfg \<Rightarrow>
              if dc_lastHandshakeSec cfg > 0 then (probeInterval True True interval, r\<lparr>rl_seen := (rl_seen r)(g := True)\<rparr>)
              else (probeInterval True False interval, r)
          | Inl _ \<Rightarrow> (probeInterval True False interval, r))"

section \<open>The bearer\<close>

record 'u bearer =
  br_dev :: "'u Device"
  br_peerKey :: Key
  br_peerAddr :: bytes

definition listenHost :: "string \<Rightarrow> ListenHost" where
  "listenHost s = (case ParseListenHost s of Some h \<Rightarrow> h | None \<Rightarrow> ListenLoopback)"

definition bearer_peer :: "string \<Rightarrow> wg_error + Key" where
  "bearer_peer text =
     (if text = [] then Inr (replicate KeyLen 0)
      else case ParseKey text of
        Inl e \<Rightarrow> Inl (Br_peer_key e)
      | Inr k \<Rightarrow> if IsZero k then Inl Br_zero_peer else Inr k)"

definition newBearer ::
  "int \<Rightarrow> int \<Rightarrow> error option \<Rightarrow> error option \<Rightarrow> (nat \<Rightarrow> ('u, nat) Endpoint) \<Rightarrow> Config \<Rightarrow> wg_error + 'u bearer" where
  "newBearer content transport ipc up eps cfg =
     (let w = cf_WireGuard cfg in
      case ParseKey (wg_PrivateKey w) of
        Inl e \<Rightarrow> Inl (Br_private_key e)
      | Inr privateKey \<Rightarrow>
          (case bearer_peer (wg_PeerPublicKey w) of
             Inl e \<Rightarrow> Inl e
           | Inr peerKey \<Rightarrow>
               (case ParseIP (wg_PeerAddress w) of
                  None \<Rightarrow> Inl Br_peer_address
                | Some addr \<Rightarrow>
                    if To4 addr = None then Inl Br_peer_address
                    else case NewDevice content transport ipc up eps
                           \<lparr>do_MTU = wg_MTU w, do_PrivateKey = privateKey, do_ListenPort = wg_ListenPort w,
                            do_ListenHost = listenHost (wg_ListenHost w), do_Verbose = (cf_LogLevel cfg = ''debug'')\<rparr> of
                      Inl e \<Rightarrow> Inl (Br_device e)
                    | Inr dev \<Rightarrow> Inr \<lparr>br_dev = dev, br_peerKey = peerKey, br_peerAddr = addr\<rparr>)))"

definition applyPeer :: "error option \<Rightarrow> 'u bearer \<Rightarrow> wg_error option \<times> 'u bearer" where
  "applyPeer ipc b =
     (if IsZero (br_peerKey b) then (None, b)
      else case SetPeer ipc (br_peerKey b) (br_peerAddr b) (br_dev b) of
        (Some e, dev) \<Rightarrow> (Some (Br_peer e), b\<lparr>br_dev := dev\<rparr>)
      | (None, dev) \<Rightarrow> (None, b\<lparr>br_dev := dev\<rparr>))"

text \<open>\<open>vip\<close> is the address of the session's connection, \<open>ep\<close> its endpoint.\<close>

definition attach :: "error option \<Rightarrow> int \<Rightarrow> bytes option \<Rightarrow> nat \<Rightarrow> 'u bearer \<Rightarrow> wg_error option \<times> 'u bearer" where
  "attach ipc now vip ep b =
     (if vip = None then (Some Br_no_vip, b)
      else case NewDynamicMapper (br_peerAddr b) (LocalAddr4 (rl_eps (dev_relay (br_dev b)) ep)) of
        Inl e \<Rightarrow> (Some (Br_mapper e), b)
      | Inr mapper \<Rightarrow> applyPeer ipc (b\<lparr>br_dev := SetSession ep mapper now (br_dev b)\<rparr>))"

text \<open>The error of removing the peer is only logged.\<close>

definition detach :: "error option \<Rightarrow> int \<Rightarrow> 'u bearer \<Rightarrow> 'u bearer" where
  "detach ipc now b = b\<lparr>br_dev := snd (ClearPeer ipc (clear_device_session now (br_dev b)))\<rparr>"

end
