(* ===== verification/Config_Props.thy ===== *)
theory Config_Props
  imports Init_Identity Ipc_Props
begin

text \<open>
  Properties of the configuration: the fingerprints it yields, the SOCKS5 server it opens, and the identity that is
  generated and written back.
\<close>

section \<open>Fingerprints\<close>

lemma decode_pin_encodes: "decode_pin raw = Some d \<Longrightarrow> EncodeSecret (bytes_str d) = raw \<and> length d = 32"
  by (auto simp: decode_pin_def str_bytes_def split: sum.splits if_splits)
    (simp flip: str_bytes_def)

lemma pins_loop_encodes:
  assumes "pins_loop i raws out = Inr pins" and "distinct out"
  shows "\<exists>new. pins = out @ new \<and> map (\<lambda>p. EncodeSecret (bytes_str p)) new = raws \<and> list_all (\<lambda>p. length p = 32) new \<and> distinct pins"
  using assms
proof (induction i raws out rule: pins_loop.induct)
  case (2 i raw r out)
  then obtain d where d: "decode_pin raw = Some d" "d \<notin> set out" "pins_loop (i + 1) r (out @ [d]) = Inr pins"
    by (auto split: option.splits if_splits)
  then obtain new where "pins = (out @ [d]) @ new" "map (\<lambda>p. EncodeSecret (bytes_str p)) new = r"
      "list_all (\<lambda>p. length p = 32) new" "distinct pins"
    using 2(1) [OF d(1,2,3)] 2(3) by auto
  then show ?case
    using decode_pin_encodes [OF d(1)] by (intro exI [of _ "d # new"]) simp
qed simp

text \<open>The fingerprints of a configuration are its list, read without loss: when they are accepted there are one to
  sixteen of them, distinct and of 32 bytes, and encoding them gives the configured texts, in order.\<close>
theorem pins_encode_back:
  "case NodeSPKIPins c of
     Inl e \<Rightarrow> True
   | Inr pins \<Rightarrow> map (\<lambda>p. EncodeSecret (bytes_str p)) pins = cf_Pins c \<and> distinct pins \<and>
       list_all (\<lambda>p. length p = 32) pins \<and> 1 \<le> length pins \<and> length pins \<le> maxNodePins"
proof (cases "NodeSPKIPins c")
  case (Inr pins)
  then have "pins_loop 0 (cf_Pins c) [] = Inr pins" and len: "cf_Pins c \<noteq> []" "length (cf_Pins c) \<le> maxNodePins"
    by (auto simp: NodeSPKIPins_def Let_def split: if_splits)
  from pins_loop_encodes [OF this(1)] have
    p: "map (\<lambda>p. EncodeSecret (bytes_str p)) pins = cf_Pins c" "list_all (\<lambda>p. length p = 32) pins" "distinct pins"
    by auto
  have "length pins = length (cf_Pins c)"
    using arg_cong [OF p(1), of length] by simp
  then show ?thesis
    using Inr p len by (cases pins) auto
qed simp

section \<open>The SOCKS5 server of a configuration\<close>

lemma int_str_chars: "c \<in> set (int_str n) \<Longrightarrow> c = CHR ''-'' \<or> is_digit c"
  using nat_str_digits [of "nat n"] nat_str_digits [of "nat (- n)"] by (auto simp: int_str_def list_all_iff split: if_splits)

lemma int_str_plain: "CHR '':'' \<notin> set (int_str n)" "CHR ''['' \<notin> set (int_str n)" "CHR '']'' \<notin> set (int_str n)"
  using int_str_chars by (fastforce simp: is_digit_def code_in_def)+

lemma split_join:
  assumes "CHR '':'' \<notin> set host" and "CHR ''['' \<notin> set host" and "CHR '']'' \<notin> set host" and "host \<noteq> []"
  shows "SplitHostPort (JoinHostPort host (int_str n)) = Some (host, int_str n)"
proof -
  have port: "takeWhile (\<lambda>c. c \<noteq> CHR '':'') (rev (host @ '':'' @ int_str n)) = rev (int_str n)"
    using int_str_plain(1) by (simp add: takeWhile_tail) (metis int_str_plain(1) set_rev takeWhile_eq_all_conv)
  have "hd (host @ '':'' @ int_str n) \<noteq> CHR ''[''"
    using assms by (cases host) auto
  then show ?thesis
    using assms int_str_plain by (simp add: SplitHostPort_def JoinHostPort_def Let_def port [simplified])
qed

lemma validated_socks:
  assumes "parseConfig lib data path = Inr c" and "sk_Enabled (cf_SOCKS5 c)"
  shows "validate_socks (cf_SOCKS5 c) = None"
  using assms by (auto simp: parseConfig_def validate_def Let_def split: sum.splits option.splits if_splits)

text \<open>C36: A configuration that loads describes a SOCKS5 server that opens: if SOCKS5 is enabled and the system lets
  the configured address (all networks or the loopback, with the configured port) be listened on, \<open>newSOCKS\<close>
  never fails on an option of the configuration; the server has the budgets of connections and of dials the loaded
  configuration names, which are within the limits, the default time for a handshake, and the digests of the
  configured user and password; it asks for a password exactly when one is configured, and always does when it
  listens on all networks.\<close>
theorem loaded_socks_opens:
  assumes "parseConfig lib data path = Inr c" and "sk_Enabled (cf_SOCKS5 c)"
    and "listen (JoinHostPort (if sk_ListenHost (cf_SOCKS5 c) = ''all'' then ''0.0.0.0'' else ''127.0.0.1'')
      (int_str (sk_ListenPort (cf_SOCKS5 c)))) = Inr port"
  shows "case newSOCKS listen c of
      Inl e \<Rightarrow> False
    | Inr s \<Rightarrow> sv_auth s = (sk_Username (cf_SOCKS5 c) \<noteq> []) \<and>
        (sk_ListenHost (cf_SOCKS5 c) = ''loopback'' \<or> sk_ListenHost (cf_SOCKS5 c) = ''all'' \<and> sv_auth s) \<and>
        sv_username s = sha256 (str_bytes (sk_Username (cf_SOCKS5 c))) \<and>
        sv_password s = sha256 (str_bytes (sk_Password (cf_SOCKS5 c))) \<and>
        sv_maxConnections s = sk_MaxConnections (cf_SOCKS5 c) \<and> sv_maxDials s = sk_MaxDials (cf_SOCKS5 c) \<and>
        1 \<le> sv_maxDials s \<and> sv_maxDials s \<le> 128 \<and> sv_maxDials s \<le> sv_maxConnections s \<and>
        sv_maxConnections s \<le> 4096 \<and> sv_handshakeTimeout s = 10 * socks_second \<and> sv_port s = port"
proof -
  let ?s = "cf_SOCKS5 c"
  have v: "validate_socks ?s = None" by (rule validated_socks [OF assms(1,2)])
  have h: "sk_ListenHost ?s = ''loopback'' \<or> sk_ListenHost ?s = ''all''"
    using v by (auto simp: validate_socks_def validateListenHost_def split: if_splits)
  have split: "SplitHostPort (JoinHostPort ''127.0.0.1'' (int_str p)) = Some (''127.0.0.1'', int_str p)"
    "SplitHostPort (JoinHostPort ''0.0.0.0'' (int_str p)) = Some (''0.0.0.0'', int_str p)" for p
    by (rule split_join; simp)+
  have addr: "ParseAddr ''127.0.0.1'' = Some (Addr4 (127, 0, 0, 1))" "ParseAddr ''0.0.0.0'' = Some (Addr4 (0, 0, 0, 0))"
    by code_simp+
  show ?thesis
    using v h assms(3)
    by (auto simp: newSOCKS_def New_def socks_address_def socks_options_def split addr loopback4_def new_server_def
        validate_socks_def validateListenHost_def split: if_splits)
qed

definition sample_config :: Config where
  "sample_config =
     \<lparr>cf_sourcePath = [], cf_permNote = No_note, cf_Server = ''vpn.example.edu'', cf_ServerIP = [], cf_Port = 0,
      cf_Username = ''alice'', cf_Password = [], cf_LoginDomain = [], cf_DeviceID = [], cf_Proxy = [],
      cf_WireGuard = \<lparr>wg_Enabled = False, wg_MTU = 0, wg_ListenPort = 0, wg_ListenHost = [], wg_PrivateKey = [],
                       wg_PeerPublicKey = [], wg_PeerAddress = []\<rparr>,
      cf_SOCKS5 = \<lparr>sk_Enabled = True, sk_ListenHost = ''all'', sk_ListenPort = 0, sk_Username = ''u'', sk_Password = ''p'',
                    sk_MaxConnections = 0, sk_MaxDials = 0\<rparr>,
      cf_Pins = [replicate 43 (CHR ''A'') @ ''=''], cf_LogLevel = []\<rparr>"

definition sample_lib :: "Config \<Rightarrow> yaml_lib" where
  "sample_lib c =
     \<lparr>yl_parse = (\<lambda>_. Some (YNode DocumentNode [] [] [YNode MappingNode ''!!map'' [] [yscalar ''server'', yscalar ''vpn.example.edu'']], True)),
      yl_decode = (\<lambda>_. Some c), yl_encode = (\<lambda>_. Some ''server: vpn.example.edu'')\<rparr>"

definition sample_loaded :: Config where
  "sample_loaded = applyDefaults (sample_config\<lparr>cf_sourcePath := ''/c.yaml''\<rparr>)"

lemma sample_loads: "parseConfig (sample_lib sample_config) ''server: vpn.example.edu'' ''/c.yaml'' = Inr sample_loaded"
  by code_simp

theorem loaded_socks_opens_witness:
  "sk_Enabled (cf_SOCKS5 sample_loaded) \<and>
   (case newSOCKS (\<lambda>_. Inr 1080) sample_loaded of Inl e \<Rightarrow> False
    | Inr s \<Rightarrow> sv_auth s \<and> sv_maxConnections s = 128 \<and> sv_maxDials s = 32)"
proof -
  have e: "sk_Enabled (cf_SOCKS5 sample_loaded)" and u: "sk_Username (cf_SOCKS5 sample_loaded) = ''u''"
    "sk_MaxConnections (cf_SOCKS5 sample_loaded) = 128" "sk_MaxDials (cf_SOCKS5 sample_loaded) = 32"
    by (simp_all add: sample_loaded_def sample_config_def applyDefaults_def socks_defaults_def or_else_def)
  show ?thesis
    using loaded_socks_opens [OF sample_loads e, of "\<lambda>_. Inr 1080" 1080] e u by (auto split: sum.splits)
qed

text \<open>The default of 32 dials is refused for a server with fewer connections.\<close>

lemma default_dials_refused:
  "sk_Enabled s \<Longrightarrow> sk_MaxDials s = 0 \<Longrightarrow> 0 < sk_MaxConnections s \<Longrightarrow> sk_MaxConnections s < 32 \<Longrightarrow>
   \<exists>e. validate_socks (socks_defaults s) = Some e"
  by (simp add: socks_defaults_def or_else_def validate_socks_def validateListenHost_def)

section \<open>The identity\<close>

lemma find_put_same: "even (length xs) \<Longrightarrow> find_value f (put_value f new xs) = Some new"
  by (induction f new xs rule: put_value.induct) (auto simp: yscalar_def)

lemma find_put_other: "even (length xs) \<Longrightarrow> f \<noteq> g \<Longrightarrow> find_value g (put_value f new xs) = find_value g xs"
  by (induction f new xs rule: put_value.induct) (auto simp: yscalar_def)

text \<open>A mapping holds its keys and values in pairs.\<close>

fun yaml_pairs :: "ynode \<Rightarrow> bool" where
  "yaml_pairs (YNode kind tag value content) \<longleftrightarrow> (kind = MappingNode \<longrightarrow> even (length content)) \<and> list_all yaml_pairs content"

lemma find_value_pairs: "list_all yaml_pairs xs \<Longrightarrow> find_value f xs = Some v \<Longrightarrow> yaml_pairs v"
  by (induction f xs rule: find_value.induct) (auto split: if_splits)

lemma yaml_pairs_content: "yaml_pairs n \<Longrightarrow> y_kind n = MappingNode \<Longrightarrow> even (length (y_content n)) \<and> list_all yaml_pairs (y_content n)"
  by (cases n) auto

lemma mapping_put:
  "y_kind n = MappingNode \<Longrightarrow> yaml_pairs n \<Longrightarrow>
   mappingValue (put_mapping n f new) g = (if g = f then Some new else mappingValue n g)"
  using find_put_same [of "y_content n" f new] find_put_other [of "y_content n" f g new] yaml_pairs_content [of n]
  by (auto simp: mappingValue_def put_mapping_def)

lemma put_value_pairs:
  "even (length xs) \<Longrightarrow> list_all yaml_pairs xs \<Longrightarrow> yaml_pairs new \<Longrightarrow>
   even (length (put_value f new xs)) \<and> list_all yaml_pairs (put_value f new xs)"
  by (induction f new xs rule: put_value.induct) (auto simp: yscalar_def)

lemma setScalar_pairs:
  assumes "y_kind n = MappingNode" and "yaml_pairs n"
  shows "yaml_pairs (setScalar n f x)" and "y_kind (setScalar n f x) = MappingNode"
  using put_value_pairs [of "y_content n" "yscalar x" f] yaml_pairs_content [OF assms(2,1)] assms
  by (simp_all add: setScalar_def put_mapping_def yscalar_def)

text \<open>What the \<open>wireguard\<close> section of a document says, an absent or empty one nothing.\<close>

definition wg_value :: "ynode \<Rightarrow> string \<Rightarrow> ynode option" where
  "wg_value root f =
     (case mappingValue root ''wireguard'' of
        None \<Rightarrow> None
      | Some w \<Rightarrow> if y_tag w = ''!!null'' then None else mappingValue w f)"

definition wants_key :: "Config \<Rightarrow> bool" where
  "wants_key c \<longleftrightarrow> wg_Enabled (cf_WireGuard c) \<and> wg_PrivateKey (cf_WireGuard c) = []"

text \<open>C37: Writing the identity changes nothing else: in the document that is written, \<open>device_id\<close> and the private key of
  the \<open>wireguard\<close> section are the generated values where they were missing and the old ones otherwise, every other
  key of the document and of that section keeps its node, and a section that is missing or empty is created.\<close>
theorem identity_changes_only_identity:
  assumes "identity_root c device secret root = Inr root'" and "y_kind root = MappingNode" and "yaml_pairs root"
  shows "mappingValue root' ''device_id'' = (if cf_DeviceID c = [] then Some (yscalar device) else mappingValue root ''device_id'') \<and>
         (if f \<in> {''device_id'', ''wireguard''} then True else mappingValue root' f = mappingValue root f) \<and>
         wg_value root' g = (if g = ''private_key'' \<and> wants_key c then Some (yscalar secret) else wg_value root g)"
proof -
  define r where "r = (if cf_DeviceID c = [] then setScalar root ''device_id'' device else root)"
  have r: "y_kind r = MappingNode" "yaml_pairs r"
    using assms(2,3) setScalar_pairs by (simp_all add: r_def)
  have r_value: "mappingValue r h = (if h = ''device_id'' \<and> cf_DeviceID c = [] then Some (yscalar device) else mappingValue root h)" for h
    using mapping_put [OF assms(2,3)] by (simp add: r_def setScalar_def)
  have wg: "wg_value r g = wg_value root g"
    by (simp add: wg_value_def r_value)
  show ?thesis
  proof (cases "wants_key c")
    case False
    then have "root' = r"
      using assms(1) by (simp add: identity_root_def r_def wants_key_def Let_def split: if_splits)
    then show ?thesis
      using False wg by (simp add: r_value)
  next
    case True
    define w where "w = (case mappingValue r ''wireguard'' of None \<Rightarrow> empty_map | Some w \<Rightarrow> if y_tag w = ''!!null'' then empty_map else w)"
    have root': "root' = put_mapping r ''wireguard'' (setScalar w ''private_key'' secret)" and kind: "y_kind w = MappingNode"
      using assms(1) True by (auto simp: identity_root_def r_def [symmetric] wants_key_def set_key_def w_def [symmetric] Let_def split: if_splits)
    have w: "yaml_pairs w"
      using find_value_pairs [of "y_content r" "''wireguard''"] yaml_pairs_content [OF r(2,1)]
      by (auto simp: w_def mappingValue_def empty_map_def split: option.splits)
    have tag: "y_tag w \<noteq> ''!!null''" "mappingValue w g = wg_value r g"
      by (auto simp: w_def wg_value_def empty_map_def mappingValue_def split: option.splits)
    show ?thesis
      using mapping_put [OF r] mapping_put [OF kind w] tag True wg
      by (simp add: root' r_value wg_value_def setScalar_def) (simp add: put_mapping_def)
  qed
qed

definition keyed_config :: Config where
  "keyed_config = sample_config\<lparr>cf_WireGuard := (cf_WireGuard sample_config)\<lparr>wg_Enabled := True\<rparr>\<rparr>"

definition old_root :: ynode where
  "old_root = YNode MappingNode ''!!map'' [] [yscalar ''wireguard'', YNode MappingNode ''!!map'' [] [yscalar ''enabled'', yscalar ''true'']]"

theorem identity_changes_only_identity_witness:
  "case identity_root keyed_config ''dev'' ''secret'' old_root of
     Inl e \<Rightarrow> False
   | Inr root \<Rightarrow> mappingValue root ''device_id'' = Some (yscalar ''dev'') \<and> wg_value root ''enabled'' = Some (yscalar ''true'')"
proof -
  obtain root where r: "identity_root keyed_config ''dev'' ''secret'' old_root = Inr root"
    by (cases "identity_root keyed_config ''dev'' ''secret'' old_root") (simp_all add: identity_root_def set_key_def keyed_config_def
      sample_config_def old_root_def setScalar_def put_mapping_def mappingValue_def yscalar_def Let_def)
  have "yaml_pairs old_root" "y_kind old_root = MappingNode" "wg_value old_root ''enabled'' = Some (yscalar ''true'')"
       "cf_DeviceID keyed_config = []"
    by (simp_all add: old_root_def yscalar_def wg_value_def mappingValue_def keyed_config_def sample_config_def)
  then show ?thesis
    using identity_changes_only_identity [OF r, of "''x''" "''enabled''"] r by simp
qed

lemma replace_atomic:
  assumes "\<And>tmp. fe_temp env = Inr tmp \<Longrightarrow> fs tmp = None \<and> tmp \<noteq> path"
  shows "replacePrivateFile env path out fs = (None, fs(path \<mapsto> out)) \<or> (\<exists>e. replacePrivateFile env path out fs = (Some e, fs))"
  using assms
  by (auto simp: replacePrivateFile_def Let_def remove_file_def rename_def fun_eq_iff split: option.split sum.split)

text \<open>An outcome of the initialisation: an error and the files as they were, or a success as \<open>P\<close> describes it.\<close>

definition whole_or_not ::
  "(Config \<Rightarrow> file_system \<Rightarrow> bool) \<Rightarrow> file_system \<Rightarrow> (config_error + Config) \<times> file_system \<Rightarrow> bool" where
  "whole_or_not P fs res = (case res of (Inl e, fs') \<Rightarrow> fs' = fs | (Inr c, fs') \<Rightarrow> P c fs')"

lemma whole_step:
  assumes "\<And>e. x = Inl e \<Longrightarrow> whole_or_not P fs (f e)" and "\<And>v. x = Inr v \<Longrightarrow> whole_or_not P fs (g v)"
  shows "whole_or_not P fs (case x of Inl e \<Rightarrow> f e | Inr v \<Rightarrow> g v)"
  using assms by (cases x) simp_all

lemma if_whole:
  assumes "b \<Longrightarrow> whole_or_not P fs x" and "\<not> b \<Longrightarrow> whole_or_not P fs y"
  shows "whole_or_not P fs (if b then x else y)"
  using assms by simp

lemma write_whole:
  assumes "\<And>tmp. fe_temp env = Inr tmp \<Longrightarrow> fs tmp = None \<and> tmp \<noteq> path" and "cf_sourcePath c = path"
    and "\<And>out. yl_encode lib doc = Some out \<Longrightarrow> len out \<le> maxConfigBytes \<Longrightarrow> P c (fs(path \<mapsto> out))"
  shows "whole_or_not P fs (write_identity lib env doc c fs)"
proof (cases "yl_encode lib doc")
  case (Some out)
  then show ?thesis
    using replace_atomic [of env fs path out, OF assms(1)] assms(2,3) Some
    by (auto simp: write_identity_def whole_or_not_def)
qed (simp add: write_identity_def whole_or_not_def)

lemma generated_value:
  "generated needed x g e = Inr v \<Longrightarrow> (if needed \<and> x = [] then g = Inr v \<and> v \<noteq> [] else v = x)"
  by (auto simp: generated_def split: sum.splits if_splits)

text \<open>What a successful initialisation of the configuration \<open>c0\<close> read from \<open>data\<close> leaves: \<open>c0\<close> and no change when it
  had its identity; else \<open>c0\<close> with the generated values, and the file holds the encoding of the document that was
  read with the identity put in.\<close>

definition identity_written ::
  "yaml_lib \<Rightarrow> error + string \<Rightarrow> error + string \<Rightarrow> string \<Rightarrow> file_system \<Rightarrow> string \<Rightarrow> Config \<Rightarrow> Config \<Rightarrow> file_system \<Rightarrow> bool" where
  "identity_written lib genDevice genKey path fs data c0 c fs' \<longleftrightarrow>
     (if has_identity c0 then c = c0 \<and> fs' = fs
      else \<exists>device secret doc root out.
        (if cf_DeviceID c0 = [] then genDevice = Inr device \<and> device \<noteq> [] else device = cf_DeviceID c0) \<and>
        (if wants_key c0 then genKey = Inr secret \<and> secret \<noteq> [] else secret = wg_PrivateKey (cf_WireGuard c0)) \<and>
        c = c0\<lparr>cf_DeviceID := device, cf_WireGuard := (cf_WireGuard c0)\<lparr>wg_PrivateKey := secret\<rparr>\<rparr> \<and>
        configDocument lib data = Inr doc \<and> identity_root c0 device secret (hd (y_content doc)) = Inr root \<and>
        yl_encode lib (YNode (y_kind doc) (y_tag doc) (y_value doc) [root]) = Some out \<and>
        len out \<le> maxConfigBytes \<and> fs' = fs(path \<mapsto> out))"

text \<open>C38: The configuration file is replaced whole or not at all: whatever step of the initialisation fails, the error is
  reported and the file system is as it was, without a temporary file. When it succeeds the configuration is the
  one the file held; if that one had its identity no file is touched, and otherwise what was missing has been
  generated, the file holds the encoding of the old document with the identity put in, at most 256 KiB, and no other
  file has changed. In both cases the configuration has its identity.\<close>
theorem identity_atomic:
  assumes "\<And>tmp. fe_temp env = Inr tmp \<Longrightarrow> fs tmp = None \<and> tmp \<noteq> path"
  shows "case InitializeIdentity lib env genDevice genKey path fs of
      (Inl e, fs') \<Rightarrow> fs' = fs
    | (Inr c, fs') \<Rightarrow> has_identity c \<and> cf_sourcePath c = path \<and>
        (\<exists>data c0. readConfig env = Inr data \<and> parseConfig lib data path = Inr c0 \<and>
           identity_written lib genDevice genKey path fs data c0 c fs')"
proof -
  let ?P = "\<lambda>c fs'. has_identity c \<and> cf_sourcePath c = path \<and>
        (\<exists>data c0. readConfig env = Inr data \<and> parseConfig lib data path = Inr c0 \<and>
           identity_written lib genDevice genKey path fs data c0 c fs')"
  have path: "cf_sourcePath c = path" if "parseConfig lib data path = Inr c" for c data
    using that by (auto simp: parseConfig_def Let_def applyDefaults_def split: sum.splits option.splits)
  have fail: "whole_or_not ?P fs (Inl e, fs)" for e
    by (simp add: whole_or_not_def)
  have "whole_or_not ?P fs (InitializeIdentity lib env genDevice genKey path fs)"
    unfolding InitializeIdentity_def
  proof (intro whole_step if_whole fail)
    fix data c device secret doc root
    assume r: "readConfig env = Inr data" and c: "parseConfig lib data path = Inr c"
    show "has_identity c \<Longrightarrow> whole_or_not ?P fs (Inr c, fs)"
      using r c path [OF c] by (auto simp: whole_or_not_def identity_written_def)
    assume n: "\<not> has_identity c"
    assume "generated True (cf_DeviceID c) genDevice Empty_device = Inr device"
      "generated (wg_Enabled (cf_WireGuard c)) (wg_PrivateKey (cf_WireGuard c)) genKey Empty_key = Inr secret"
    then have g: "if cf_DeviceID c = [] then genDevice = Inr device \<and> device \<noteq> [] else device = cf_DeviceID c"
      "if wants_key c then genKey = Inr secret \<and> secret \<noteq> [] else secret = wg_PrivateKey (cf_WireGuard c)"
      using generated_value by (fastforce simp: wants_key_def)+
    assume d: "configDocument lib data = Inr doc" "identity_root c device secret (hd (y_content doc)) = Inr root"
    let ?c = "c\<lparr>cf_DeviceID := device, cf_WireGuard := (cf_WireGuard c)\<lparr>wg_PrivateKey := secret\<rparr>\<rparr>"
    have h: "has_identity ?c" using g by (auto simp: has_identity_def wants_key_def split: if_splits)
    show "whole_or_not ?P fs (write_identity lib env (YNode (y_kind doc) (y_tag doc) (y_value doc) [root]) ?c fs)"
    proof (rule write_whole [OF assms])
      fix out
      assume "yl_encode lib (YNode (y_kind doc) (y_tag doc) (y_value doc) [root]) = Some out" "len out \<le> maxConfigBytes"
      with g d n have "identity_written lib genDevice genKey path fs data c ?c (fs(path \<mapsto> out))"
        unfolding identity_written_def by (simp only: if_False) blast
      with h r c path [OF c] show "?P ?c (fs(path \<mapsto> out))" by auto
    qed (simp_all add: path [OF c])
  qed
  then show ?thesis
    unfolding whole_or_not_def .
qed

definition sample_files :: file_env where
  "sample_files =
     \<lparr>fe_open = Inr ((True, 23), Inr ''server: vpn.example.edu''), fe_uid = 1000, fe_directory = Inr (1000, 493),
      fe_temp = Inr ''/.njuvpn-identity-1'', fe_write = None, fe_sync = None, fe_close = None, fe_rename = None\<rparr>"

theorem identity_atomic_witness:
  "case InitializeIdentity (sample_lib sample_config) sample_files (Inr ''dev'') (Inl ErrNetClosed) ''/c.yaml'' (\<lambda>_. None) of
     (Inl e, fs) \<Rightarrow> False
   | (Inr c, fs) \<Rightarrow> cf_DeviceID c = ''dev'' \<and> fs ''/c.yaml'' = Some ''server: vpn.example.edu''"
proof -
  let ?i = "InitializeIdentity (sample_lib sample_config) sample_files (Inr ''dev'') (Inl ErrNetClosed) ''/c.yaml'' (\<lambda>_. None)"
  have "fe_temp sample_files = Inr tmp \<Longrightarrow> tmp \<noteq> ''/c.yaml''" for tmp
    by (auto simp: sample_files_def)
  then have post: "case ?i of (Inl e, fs') \<Rightarrow> fs' = (\<lambda>_. None)
    | (Inr c, fs') \<Rightarrow> has_identity c \<and> cf_sourcePath c = ''/c.yaml'' \<and>
        (\<exists>data c0. readConfig sample_files = Inr data \<and> parseConfig (sample_lib sample_config) data ''/c.yaml'' = Inr c0 \<and>
           identity_written (sample_lib sample_config) (Inr ''dev'') (Inl ErrNetClosed) ''/c.yaml'' (\<lambda>_. None) data c0 c fs')"
    by (intro identity_atomic) simp
  have r: "readConfig sample_files = Inr ''server: vpn.example.edu''" by code_simp
  have "\<not> has_identity sample_loaded" "cf_DeviceID sample_loaded = []" by code_simp+
  moreover have "\<exists>c fs. ?i = (Inr c, fs)"
  proof -
    have "isl (fst ?i) = False" by code_simp
    then show ?thesis by (cases ?i; cases "fst ?i") auto
  qed
  moreover have "yl_encode (sample_lib sample_config) doc = Some ''server: vpn.example.edu''" for doc
    by (simp add: sample_lib_def)
  ultimately show ?thesis using post r sample_loads
    by (auto simp: identity_written_def split: if_splits)
qed

end
