(* ===== verification/Bearer_Props.thy ===== *)
theory Bearer_Props
  imports Bearer Config_Props Relay_Props
begin

text \<open>
  Properties of the WireGuard bearer: its texts, the device a loaded configuration gives, attaching and detaching a
  session, and the watch for the handshake of the peer.
\<close>

section \<open>Texts\<close>

lemma Atoi_int_str: "0 \<le> n \<Longrightarrow> n < 2 ^ 63 \<Longrightarrow> Atoi (int_str n) = Some n"
proof -
  assume n: "0 \<le> n" "n < 2 ^ 63"
  have i: "int_str n = nat_str (nat n)" using n by (simp add: int_str_def)
  have d: "list_all is_digit (nat_str (nat n))" by (rule nat_str_digits)
  obtain c r where cr: "nat_str (nat n) = c # r"
    by (cases "nat_str (nat n)") (subst (asm) nat_str.simps, simp split: if_splits)
  have "c \<noteq> CHR ''-''" "c \<noteq> CHR ''+''" using d cr by (auto simp: is_digit_def code_in_def)
  then show "Atoi (int_str n) = Some n"
    using d cr digits_val_nat_str [of "nat n"] n by (simp add: Atoi_def i all_digits_def Let_def)
qed

lemma TrimSpace_solid:
  assumes "list_all (code_in 0x21 0x7E) s"
  shows "TrimSpace s = s"
proof (cases s rule: rev_cases)
  case (snoc t d)
  then have "s \<noteq> []" by simp
  then obtain c r where cr: "s = c # r" by (cases s) auto
  have "code_in 0x21 0x7E c" using assms cr by simp
  moreover have "code_in 0x21 0x7E d" using assms snoc by simp
  moreover have rs: "rev s = d # rev t" using snoc by simp
  ultimately have "trim_by (length s) space_runes s = s" "trim_by (length s) (map rev space_runes) (rev s) = rev s"
    unfolding rs unfolding cr by (simp_all only: trim_solid)
  then show ?thesis
    by (simp add: TrimSpace_def)
qed (simp add: TrimSpace_def)

lemma int_str_solid: "list_all (code_in 0x21 0x7E) (int_str n)"
  using int_str_chars [of _ n] by (fastforce simp: list_all_iff is_digit_def code_in_def)

lemma lines_of_line: "CHR 0x0A \<notin> set s \<Longrightarrow> lines_of cur (s @ CHR 0x0A # r) = (rev cur @ s) # lines_of [] r"
  by (induction s arbitrary: cur) auto

lemma byte_hex_line: "CHR 0x0A \<notin> set (byte_hex b)"
proof -
  have "list_all (\<lambda>d. hex_digit d \<noteq> CHR 0x0A) [0..15]" by code_simp
  then have all: "\<forall>d\<in>{0..15}. hex_digit d \<noteq> CHR 0x0A" unfolding list_all_iff set_upto .
  have h: "CHR 0x0A \<noteq> hex_digit d" if "0 \<le> d" "d \<le> 15" for d
    by (rule not_sym, rule bspec [OF all]) (simp add: that)
  have "int (unat b) < 256" using unat_byte_less [of b] by linarith
  then have "uint b < 256" by (simp only: uint_nat)
  moreover have "0 \<le> uint b" by simp
  ultimately have "0 \<le> uint b div 16" "uint b div 16 \<le> 15" by linarith+
  then show ?thesis
    using h [of "uint b div 16"] h [of "uint b mod 16"] by (simp add: byte_hex_def)
qed

lemma key_hex_line: "CHR 0x0A \<notin> set (key_hex k)"
  using byte_hex_line by (auto simp: key_hex_def)

lemma parse_line_field:
  assumes "CHR ''='' \<notin> set f"
  shows "parse_line cfg (f @ ''='' @ v) =
    (if f = ''listen_port'' then cfg\<lparr>dc_listenPort := atoi_value (TrimSpace v)\<rparr>
     else if f = ''last_handshake_time_sec'' then cfg\<lparr>dc_lastHandshakeSec := atoi_value (TrimSpace v)\<rparr> else cfg)"
proof -
  have "takeWhile (\<lambda>c. c \<noteq> CHR ''='') (f @ ''='' @ v) = f"
    using assms by (simp add: takeWhile_append2 takeWhile_tail) (metis takeWhile_eq_all_conv)
  then show ?thesis
    by (simp add: parse_line_def Let_def)
qed

lemma key_roundtrip:
  assumes "length k = KeyLen"
  shows "ParseKey (key_text k) = Inr k"
proof -
  have "EncodeSecret (bytes_str k) \<noteq> []"
    using secret_roundtrip [of "bytes_str k"] assms by (auto simp: DecodeSecret_def bytes_str_def)
  then show ?thesis
    using secret_roundtrip [of "bytes_str k"] assms by (simp add: ParseKey_def key_text_def)
qed

text \<open>What the bearer writes it can read: a key of 32 bytes is recovered from the text of its configuration form, and
  the device configuration that is given to WireGuard is read back with its listening port and without a handshake.\<close>
theorem bearer_texts_roundtrip:
  assumes "length k = KeyLen" and "0 \<le> port" and "port < 2 ^ 63"
  shows "ParseKey (key_text k) = Inr k \<and> parseUAPI (uapiConfig k port) = \<lparr>dc_listenPort = port, dc_lastHandshakeSec = 0\<rparr>"
proof
  show "ParseKey (key_text k) = Inr k"
    by (rule key_roundtrip [OF assms(1)])
  have "CHR 0x0A \<notin> set (''private_key='' @ key_hex k)" "CHR 0x0A \<notin> set (''listen_port='' @ int_str port)"
    using key_hex_line int_str_solid [of port] by (auto simp: list_all_iff code_in_def)
  from lines_of_line [OF this(1)] lines_of_line [OF this(2)]
  have lines: "lines_of [] (uapiConfig k port) = [''private_key'' @ ''='' @ key_hex k, ''listen_port'' @ ''='' @ int_str port, []]"
    by (simp add: uapiConfig_def)
  have number: "atoi_value (TrimSpace (int_str port)) = port"
    using Atoi_int_str [OF assms(2,3)] TrimSpace_solid [OF int_str_solid] by (simp add: atoi_value_def Let_def)
  show "parseUAPI (uapiConfig k port) = \<lparr>dc_listenPort = port, dc_lastHandshakeSec = 0\<rparr>"
    unfolding parseUAPI_def lines
    by (simp del: append.simps add: parse_line_field number) (simp add: parse_line_def)
qed

theorem bearer_texts_roundtrip_witness:
  "ParseKey (key_text (replicate 32 7)) = Inr (replicate 32 7) \<and>
   parseUAPI (uapiConfig (replicate 32 7) 51820) = \<lparr>dc_listenPort = 51820, dc_lastHandshakeSec = 0\<rparr>"
  using bearer_texts_roundtrip [of "replicate 32 7" 51820] by simp

section \<open>The device of a configuration\<close>

text \<open>The causes for which the device itself is refused, first to last.\<close>

definition device_refused ::
  "int \<Rightarrow> int \<Rightarrow> error option \<Rightarrow> error option \<Rightarrow> Key \<Rightarrow> int \<Rightarrow> wg_error \<Rightarrow> bool" where
  "device_refused content transport ipc up k mtu e \<longleftrightarrow>
     (if IsZero k then e = Br_device Dev_no_key
      else if mtu > max_mtu content transport then e = Br_device (Dev_mtu (max_mtu content transport))
      else if ipc \<noteq> None then e = Br_device (Dev_failed (the ipc))
      else up \<noteq> None \<and> e = Br_device (Dev_failed (the up)))"

lemma IsZero_replicate: "IsZero (replicate KeyLen 0)"
  by (simp add: IsZero_def)

lemma ParseKey_Nil: "ParseKey [] = Inl Key_empty"
  by (simp add: ParseKey_def)

text \<open>C39: What becomes of a configuration that loads and enables WireGuard: \<open>newBearer\<close> gives a device exactly when
  its private key parses and is not zero, its peer key is missing or parses and is not zero, its MTU fits a
  datagram, and the library takes the device; then the device has the configured MTU, port, host, keys and peer
  address and was given the private key and the port. Otherwise it fails with the error that names the
  first of these causes. Nothing else the validation admits stops it; the MTU is the one number it admits that can.\<close>
theorem loaded_bearer_opens:
  assumes "parseConfig lib data path = Inr c" and "wg_Enabled (cf_WireGuard c)"
  shows "let w = cf_WireGuard c in
    case newBearer content transport ipc up eps c of
      Inr b \<Rightarrow> (\<exists>k. ParseKey (wg_PrivateKey w) = Inr k \<and> \<not> IsZero k \<and>
          dev_ipc (br_dev b) = [uapiConfig k (wg_ListenPort w)]) \<and>
        (if wg_PeerPublicKey w = [] then IsZero (br_peerKey b)
         else ParseKey (wg_PeerPublicKey w) = Inr (br_peerKey b) \<and> \<not> IsZero (br_peerKey b)) \<and>
        wg_MTU w \<le> max_mtu content transport \<and> ipc = None \<and> up = None \<and>
        ParseIP (wg_PeerAddress w) = Some (br_peerAddr b) \<and> To4 (br_peerAddr b) \<noteq> None \<and>
        rl_mtu (dev_relay (br_dev b)) = wg_MTU w \<and> dev_listenPort (br_dev b) = wg_ListenPort w \<and>
        dev_listenHost (br_dev b) = (if wg_ListenHost w = ''all'' then ListenAll else ListenLoopback)
    | Inl e \<Rightarrow>
        (case ParseKey (wg_PrivateKey w) of
           Inl x \<Rightarrow> e = Br_private_key x
         | Inr k \<Rightarrow>
             (case ParseKey (wg_PeerPublicKey w) of
                Inl x \<Rightarrow> if wg_PeerPublicKey w \<noteq> [] then e = Br_peer_key x
                  else device_refused content transport ipc up k (wg_MTU w) e
              | Inr z \<Rightarrow> if IsZero z then e = Br_zero_peer
                  else device_refused content transport ipc up k (wg_MTU w) e))"
proof -
  let ?w = "cf_WireGuard c"
  have v: "validate_wg ?w = None"
    using assms(1,2) by (auto simp: parseConfig_def validate_def Let_def split: sum.splits option.splits if_splits)
  obtain addr where addr: "ParseIP (wg_PeerAddress ?w) = Some addr" "To4 addr \<noteq> None"
    using v by (auto simp: validate_wg_def split: option.splits if_splits)
  have mtu: "576 \<le> wg_MTU ?w" and port: "1 \<le> wg_ListenPort ?w" "wg_ListenPort ?w \<le> 65535"
    and host: "wg_ListenHost ?w = ''loopback'' \<or> wg_ListenHost ?w = ''all''"
    using v by (auto simp: validate_wg_def validateListenHost_def split: if_splits)
  have device: "case NewDevice content transport ipc up eps \<lparr>do_MTU = wg_MTU ?w, do_PrivateKey = k,
        do_ListenPort = wg_ListenPort ?w, do_ListenHost = listenHost (wg_ListenHost ?w), do_Verbose = verbose\<rparr> of
      Inl x \<Rightarrow> device_refused content transport ipc up k (wg_MTU ?w) (Br_device x)
    | Inr d \<Rightarrow> \<not> IsZero k \<and> wg_MTU ?w \<le> max_mtu content transport \<and> ipc = None \<and> up = None \<and>
        d = \<lparr>dev_relay = NewRelay (wg_MTU ?w) eps, dev_ipc = [uapiConfig k (wg_ListenPort ?w)],
             dev_listenPort = wg_ListenPort ?w,
             dev_listenHost = (if wg_ListenHost ?w = ''all'' then ListenAll else ListenLoopback)\<rparr>" for k verbose
    using mtu port host
    by (auto simp: NewDevice_def device_refused_def listenHost_def ParseListenHost_def split: option.splits)
  show ?thesis
  proof (cases "ParseKey (wg_PrivateKey ?w)")
    case (Inr k)
    show ?thesis
      using device [of k "cf_LogLevel c = ''debug''"] Inr addr
      by (cases "ParseKey (wg_PeerPublicKey ?w)")
        (auto simp: newBearer_def bearer_peer_def Let_def ParseKey_Nil IsZero_replicate NewRelay_def split: sum.splits)
  qed (simp add: newBearer_def Let_def)
qed

definition wg_config :: Config where
  "wg_config =
     sample_config\<lparr>cf_WireGuard := \<lparr>wg_Enabled = True, wg_MTU = 65500, wg_ListenPort = 0, wg_ListenHost = [],
       wg_PrivateKey = key_text (replicate 32 1), wg_PeerPublicKey = [], wg_PeerAddress = []\<rparr>\<rparr>"

definition wg_loaded :: Config where
  "wg_loaded = applyDefaults (wg_config\<lparr>cf_sourcePath := ''/c.yaml''\<rparr>)"

lemma wg_loads: "parseConfig (sample_lib wg_config) [] ''/c.yaml'' = Inr wg_loaded"
  by code_simp

theorem loaded_bearer_opens_witness:
  "newBearer 65503 32 None None (\<lambda>_. Endpoint.New :: (nat, nat) Endpoint) wg_loaded = Inl (Br_device (Dev_mtu 65475))"
proof -
  have w: "cf_WireGuard wg_loaded = wg_defaults (cf_WireGuard wg_config)"
    by (simp add: wg_loaded_def applyDefaults_def)
  have f: "wg_Enabled (cf_WireGuard wg_loaded)" "wg_PrivateKey (cf_WireGuard wg_loaded) = key_text (replicate 32 1)"
    "wg_PeerPublicKey (cf_WireGuard wg_loaded) = []" "wg_MTU (cf_WireGuard wg_loaded) = 65500"
    by (simp_all add: w wg_config_def wg_defaults_def or_else_def)
  have k: "ParseKey (wg_PrivateKey (cf_WireGuard wg_loaded)) = Inr (replicate 32 1)" "\<not> IsZero (replicate 32 1)"
    "ParseKey (wg_PeerPublicKey (cf_WireGuard wg_loaded)) = Inl Key_empty"
    using key_roundtrip [of "replicate 32 1"] f by (simp_all add: IsZero_def ParseKey_Nil)
  show ?thesis
    using loaded_bearer_opens [OF wg_loads f(1), of 65503 32 None None "\<lambda>_. Endpoint.New :: (nat, nat) Endpoint"] f k
    by (simp add: max_mtu_def device_refused_def Let_def split: sum.splits)
qed

section \<open>Attaching and detaching\<close>

lemma InstallSession_session:
  assumes "\<not> rl_closed r"
  shows "case rl_session (InstallSession ep m now r) of
      None \<Rightarrow> False | Some (_, s) \<Rightarrow> rs_ep s = ep \<and> rs_mapper s = m"
  using assms by (simp add: InstallSession_def Let_def split: prod.split)

text \<open>What configuration texts say, after the protocol of WireGuard's cross-platform interface: a text is a sequence of
  lines \<open>field=value\<close>; \<open>replace_peers=true\<close> drops all peers, \<open>public_key\<close> selects or adds the peer of a key in
  hexadecimal, \<open>allowed_ip\<close> gives the selected peer one more prefix. Peers are kept in the order they were added;
  \<open>None\<close> is a text that is refused.\<close>

type_synonym uapi_peers = "(Key \<times> prefix4 list) list"

fun hex_bytes :: "string \<Rightarrow> bytes option" where
  "hex_bytes [] = Some []"
| "hex_bytes [_] = None"
| "hex_bytes (a # b # r) =
     (case (hex_val a, hex_val b, hex_bytes r) of
        (Some x, Some y, Some bs) \<Rightarrow> Some (word_of_int (16 * x + y) # bs)
      | _ \<Rightarrow> None)"

definition add_peer :: "Key \<Rightarrow> uapi_peers \<Rightarrow> uapi_peers" where
  "add_peer k ps = (if k \<in> fst ` set ps then ps else ps @ [(k, [])])"

definition uapi_line :: "string \<Rightarrow> Key option \<times> uapi_peers \<Rightarrow> (Key option \<times> uapi_peers) option" where
  "uapi_line line st =
     (let field = takeWhile (\<lambda>c. c \<noteq> CHR ''='') line; val = drop (length field + 1) line in
      if line = [] then Some st
      else if field = ''private_key'' \<or> field = ''listen_port'' then (if fst st = None then Some st else None)
      else if field = ''replace_peers'' then (if val = ''true'' then Some (None, []) else None)
      else if field = ''public_key'' then
        (case hex_bytes val of
           Some k \<Rightarrow> if length k = KeyLen then Some (Some k, add_peer k (snd st)) else None
         | None \<Rightarrow> None)
      else if field = ''allowed_ip'' then
        (case (fst st, ParsePrefix4 val) of
           (Some k, Some p) \<Rightarrow> Some (Some k, map (\<lambda>(k', ps). (k', if k' = k then ps @ [p] else ps)) (snd st))
         | _ \<Rightarrow> None)
      else None)"

definition uapi_text :: "string \<Rightarrow> uapi_peers \<Rightarrow> uapi_peers option" where
  "uapi_text text ps =
     map_option snd (foldl (\<lambda>st line. Option.bind st (uapi_line line)) (Some (None, ps)) (lines_of [] text))"

text \<open>The peers of a device that was given these texts, one after the other.\<close>

definition device_peers :: "string list \<Rightarrow> uapi_peers option" where
  "device_peers texts = foldl (\<lambda>ps text. Option.bind ps (uapi_text text)) (Some []) texts"

lemma uapi_line_field:
  assumes "CHR ''='' \<notin> set f"
  shows "uapi_line (f @ ''='' @ v) st =
     (if f = ''private_key'' \<or> f = ''listen_port'' then (if fst st = None then Some st else None)
      else if f = ''replace_peers'' then (if v = ''true'' then Some (None, []) else None)
      else if f = ''public_key'' then
        (case hex_bytes v of
           Some k \<Rightarrow> if length k = KeyLen then Some (Some k, add_peer k (snd st)) else None
         | None \<Rightarrow> None)
      else if f = ''allowed_ip'' then
        (case (fst st, ParsePrefix4 v) of
           (Some k, Some p) \<Rightarrow> Some (Some k, map (\<lambda>(k', ps). (k', if k' = k then ps @ [p] else ps)) (snd st))
         | _ \<Rightarrow> None)
      else None)"
proof -
  have "takeWhile (\<lambda>c. c \<noteq> CHR ''='') (f @ ''='' @ v) = f"
    using assms by (simp add: takeWhile_append2 takeWhile_tail) (metis takeWhile_eq_all_conv)
  then show ?thesis
    unfolding uapi_line_def Let_def by simp
qed

lemma hex_bytes_byte: "hex_bytes (byte_hex b @ r) = map_option (\<lambda>bs. b # bs) (hex_bytes r)"
proof -
  have "int (unat b) < 256" using unat_byte_less [of b] by linarith
  then have u: "0 \<le> uint b" "uint b < 256" by (simp_all only: uint_nat)
  then have "hex_val (hex_digit (uint b div 16)) = Some (uint b div 16)"
    "hex_val (hex_digit (uint b mod 16)) = Some (uint b mod 16)"
    by (intro hex_val_digit; linarith)+
  moreover have "16 * (uint b div 16) + uint b mod 16 = uint b" by simp
  ultimately show ?thesis by (simp add: byte_hex_def split: option.split)
qed

lemma hex_bytes_key: "hex_bytes (key_hex k) = Some k"
  by (induction k) (simp_all add: key_hex_def hex_bytes_byte)

lemma ParsePrefix4_host: "ParsePrefix4 (ip4_str a @ ''/32'') = Some \<lparr>pf_addr = a, pf_bits = 32\<rparr>"
proof -
  have "is_digit (CHR ''3'')" "is_digit (CHR ''2'')" "digits_val ''32'' = 32" by code_simp+
  then show ?thesis
    by (simp add: ParsePrefix4_def Let_def ParseAddr_ip4_str all_digits_def)
qed

lemma ip4_str_line: "CHR 0x0A \<notin> set (ip4_str a)"
proof -
  have "CHR 0x0A \<notin> set (nat_str n)" for n
    using nat_str_digits [of n] by (auto simp: list_all_iff is_digit_def code_in_def)
  then show ?thesis by (cases a) (simp add: ip4_str_def byte_str_def)
qed

text \<open>The three texts of the program, read back.\<close>

lemma uapiConfig_peers: "uapi_text (uapiConfig k port) ps = Some ps"
proof -
  have "CHR 0x0A \<notin> set (''private_key='' @ key_hex k)" "CHR 0x0A \<notin> set (''listen_port='' @ int_str port)"
    using key_hex_line int_str_solid [of port] by (auto simp: list_all_iff code_in_def)
  from lines_of_line [OF this(1)] lines_of_line [OF this(2)]
  have lines: "lines_of [] (uapiConfig k port) = [''private_key'' @ ''='' @ key_hex k, ''listen_port'' @ ''='' @ int_str port, []]"
    by (simp add: uapiConfig_def)
  show ?thesis
    unfolding uapi_text_def lines
    by (simp del: append.simps add: uapi_line_field) (simp add: uapi_line_def)
qed

lemma peerConfig_peers:
  assumes "To4 addr = Some a" "length k = KeyLen" "peerConfig k addr = Inr text"
  shows "uapi_text text ps = Some [(k, [\<lparr>pf_addr = a, pf_bits = 32\<rparr>])]"
proof -
  have "CHR 0x0A \<notin> set ''replace_peers=true''" "CHR 0x0A \<notin> set (''public_key='' @ key_hex k)"
    "CHR 0x0A \<notin> set (''allowed_ip='' @ ip4_str a @ ''/32'')"
    using key_hex_line ip4_str_line by auto
  from lines_of_line [OF this(1)] lines_of_line [OF this(2)] lines_of_line [OF this(3)]
  have lines: "lines_of [] text = [''replace_peers'' @ ''='' @ ''true'', ''public_key'' @ ''='' @ key_hex k,
      ''allowed_ip'' @ ''='' @ ip4_str a @ ''/32'', []]"
    using assms(1,3) by (auto simp: peerConfig_def)
  show ?thesis
    unfolding uapi_text_def lines
    by (simp del: append.simps add: uapi_line_field hex_bytes_key assms(2) ParsePrefix4_host add_peer_def)
      (simp add: uapi_line_def)
qed

lemma no_peers_peers: "uapi_text no_peers ps = Some []"
proof -
  have "lines_of [] no_peers = [''replace_peers'' @ ''='' @ ''true'', []]" by (simp add: no_peers_def)
  then show ?thesis
    unfolding uapi_text_def
    by (simp del: append.simps add: uapi_line_field) (simp add: uapi_line_def)
qed

lemma device_peers_snoc: "device_peers (texts @ [text]) = Option.bind (device_peers texts) (uapi_text text)"
  by (simp add: device_peers_def)

lemma new_device_peers: "device_peers [uapiConfig k port] = Some []"
  by (simp add: device_peers_def uapiConfig_peers)

text \<open>C40: Attaching a session opens the bearer for one peer and one session only, and detaching closes it: when the
  session has an address, the relay hands its packets to the new session through a mapper for the configured peer
  address; if a peer key is configured, then by the texts WireGuard was given its peers are this one alone,
  with the configured key and just the configured address as a single allowed address, whatever peers it had, and
  the downlink is held until the handshake; without a key the peers are left alone. After detaching no session is
  installed, nothing is queued, the downlink is not held, and WireGuard has no peer.\<close>
theorem bearer_cycle:
  assumes "\<not> rl_closed (dev_relay (br_dev b))" and "To4 (br_peerAddr b) = Some peer" and "length (br_peerKey b) = KeyLen"
    and "LocalAddr4 (rl_eps (dev_relay (br_dev b)) ep) = (vip4, True)" and "vip4 \<noteq> (0, 0, 0, 0)"
    and "device_peers (dev_ipc (br_dev b)) = Some ps"
  shows "case attach None now (Some vip) ep b of (err, b1) \<Rightarrow>
      err = None \<and>
      (case rl_session (dev_relay (br_dev b1)) of
         None \<Rightarrow> False
       | Some (_, s) \<Rightarrow> rs_ep s = ep \<and> map_option peerIP (rs_mapper s) = Some peer) \<and>
      (if IsZero (br_peerKey b) then device_peers (dev_ipc (br_dev b1)) = Some ps
       else peer_hidden (dev_relay (br_dev b1)) \<and>
         device_peers (dev_ipc (br_dev b1)) = Some [(br_peerKey b, [\<lparr>pf_addr = peer, pf_bits = 32\<rparr>])]) \<and>
      (let r = dev_relay (br_dev (detach None later b1)) in
         rl_session r = None \<and> rl_gate r = None \<and> rl_queue r = []) \<and>
      device_peers (dev_ipc (br_dev (detach None later b1))) = Some []"
proof -
  let ?m = "\<lparr>peerIP = peer, unsupportedLogged = False\<rparr>"
  have m: "NewDynamicMapper (br_peerAddr b) (LocalAddr4 (rl_eps (dev_relay (br_dev b)) ep)) = Inr ?m"
    using assms(2,4,5) by (auto simp: NewDynamicMapper_def to4_def To4_def split: if_splits)
  note i = InstallSession_session [OF assms(1), of ep "Some ?m" now]
  obtain conf where conf: "peerConfig (br_peerKey b) (br_peerAddr b) = Inr conf"
    using assms(2) by (simp add: peerConfig_def)
  show ?thesis
    using m i assms(6) conf peerConfig_peers [OF assms(2,3) conf]
    by (auto simp: attach_def applyPeer_def SetPeer_def SetSession_def detach_def ClearPeer_def device_peers_snoc
        no_peers_peers clear_device_session_def HoldDownlink_def peer_hidden_def Let_def
        split: option.splits prod.splits)
qed

definition sample_bearer :: "nat bearer" where
  "sample_bearer =
     \<lparr>br_dev = \<lparr>dev_relay = NewRelay 1400 (\<lambda>_. SetLocalAddr [10, 0, 0, 9] Endpoint.New), dev_ipc = [uapiConfig (replicate 32 1) 51820],
               dev_listenPort = 51820, dev_listenHost = ListenLoopback\<rparr>,
      br_peerKey = replicate 32 7, br_peerAddr = [10, 66, 66, 2]\<rparr>"

theorem bearer_cycle_witness:
  "case attach None 0 (Some [10, 0, 0, 9]) 1 sample_bearer of (err, b) \<Rightarrow> err = None \<and> peer_hidden (dev_relay (br_dev b)) \<and>
     device_peers (dev_ipc (br_dev b)) = Some [(replicate 32 7, [\<lparr>pf_addr = (10, 66, 66, 2), pf_bits = 32\<rparr>])]"
proof -
  have c: "\<not> rl_closed (dev_relay (br_dev sample_bearer))" "To4 (br_peerAddr sample_bearer) = Some (10, 66, 66, 2)"
    "length (br_peerKey sample_bearer) = KeyLen"
    "LocalAddr4 (rl_eps (dev_relay (br_dev sample_bearer)) 1) = ((10, 0, 0, 9), True)"
    "br_peerKey sample_bearer = replicate 32 7" "\<not> IsZero (br_peerKey sample_bearer)"
    by (simp_all add: sample_bearer_def NewRelay_def SetLocalAddr_def LocalAddr4_def Endpoint.New_def To4_def get4_def IsZero_def)
  have p: "device_peers (dev_ipc (br_dev sample_bearer)) = Some []"
    by (simp add: sample_bearer_def new_device_peers)
  show ?thesis
    using bearer_cycle [OF c(1,2,3,4) _ p, where vip = "[10, 0, 0, 9]" and now = 0 and later = 0] c(5,6)
    by (simp split: prod.splits)
qed

section \<open>The handshake watch\<close>

definition handshaken :: "watch_event \<Rightarrow> bool" where
  "handshaken ev = (case ev of Timer_fired (Inr cfg) \<Rightarrow> 0 < dc_lastHandshakeSec cfg | _ \<Rightarrow> False)"

lemma watch_step_gate:
  assumes "rl_gate r = Some g" and "watch_step ev (i, r) = (i', r')"
  shows "rl_gate r' = Some g \<and> rl_seen r' g = (rl_seen r g \<or> handshaken ev) \<and> rl_session r' = rl_session r \<and> rl_queue r' = rl_queue r"
  using assms by (cases ev) (auto simp: handshaken_def split: if_splits sum.splits)

lemma watch_step_interval:
  assumes "watch_step ev (i, r) = (i', r')" and "handshakeSettleInterval \<le> i" and "i \<le> handshakeSettleMax"
  shows "handshakeSettleInterval \<le> i' \<and> i' \<le> handshakeSettleMax"
  using assms by (cases ev) (auto simp: probeInterval_def split: if_splits sum.splits option.splits)

text \<open>The watch opens the downlink exactly on the word of the device: while a peer is held, however often the watch is
  woken or its timer fires, the gate is open afterwards exactly if it was before or one of the configurations that were read reported
  a handshake; the session and the queue are untouched, and the next look is never more than five seconds away.\<close>
theorem watch_opens_on_handshake:
  assumes "rl_gate r = Some g" and "handshakeSettleInterval \<le> i" and "i \<le> handshakeSettleMax"
  shows "case fold watch_step evs (i, r) of (i', r') \<Rightarrow>
      rl_gate r' = Some g \<and> rl_seen r' g = (rl_seen r g \<or> list_ex handshaken evs) \<and>
      rl_session r' = rl_session r \<and> rl_queue r' = rl_queue r \<and>
      handshakeSettleInterval \<le> i' \<and> i' \<le> handshakeSettleMax"
  using assms
proof (induction evs arbitrary: i r)
  case (Cons ev evs)
  obtain i' r' where s: "watch_step ev (i, r) = (i', r')"
    by fastforce
  show ?case
    using Cons.IH [of r' i'] watch_step_gate [OF Cons.prems(1) s] watch_step_interval [OF s Cons.prems(2,3)] s
    by (auto split: prod.splits)
qed simp

theorem watch_opens_on_handshake_witness:
  "\<not> peer_hidden (snd (fold watch_step [Woken, Timer_fired (Inr \<lparr>dc_listenPort = 51820, dc_lastHandshakeSec = 9\<rparr>)]
       (handshakeSettleMax, HoldDownlink True (NewRelay 1400 (\<lambda>_. Endpoint.New :: (nat, nat) Endpoint)))))"
proof -
  let ?r = "HoldDownlink True (NewRelay 1400 (\<lambda>_. Endpoint.New :: (nat, nat) Endpoint))"
  have "rl_gate ?r = Some 0"
    by (simp add: HoldDownlink_def NewRelay_def)
  from watch_opens_on_handshake [OF this, of handshakeSettleMax "[Woken, Timer_fired (Inr \<lparr>dc_listenPort = 51820, dc_lastHandshakeSec = 9\<rparr>)]"]
  show ?thesis
    by (simp add: handshaken_def peer_hidden_def split: prod.splits)
qed

end
