(* ===== verification/Spec2Isabelle.thy ===== *)
theory Spec2Isabelle
  imports Conntrack_Fragments Mapping_Props Ipc_Resources Wire_Props Tunnel_Traffic Relay_Props Status Socks_Props Socks_Budget
    Server_Props Probe_Props Session_Props Bearer_Props
begin

text \<open>
  Verification of the NJU VPN client.

  \<^bold>\<open>The program.\<close> \<open>njuvpn\<close> is a client for a campus zero-trust network. A service process logs in at
  the control plane, keeps one campus session, and offers it locally through two endpoints: a WireGuard
  device that carries IP packets (layer 3), and a SOCKS5 server that carries TCP connections (layer 4).
  A command line talks to the process over a local socket. The packages are under \<open>src/internal\<close>:
  \<open>ztna\<close> (session, tunnel, flows, resources, TCP connections), \<open>l3\<close> (the seam between tunnel and
  device), \<open>wireguard\<close> (relay and address mapper), \<open>socks5\<close>, \<open>ipc\<close>, \<open>service\<close> (the actor that owns
  everything), \<open>packetlog\<close>, \<open>domain\<close>, \<open>dial\<close>, \<open>config\<close>; \<open>ztnatest\<close> is the test server, the independent
  second implementation of the wire format.

  An uplink packet goes from the relay (\<open>Relay.Write\<close>) through the mapper (\<open>Uplink\<close>) and the endpoint to the
  tunnel (\<open>Tunnel.Send\<close>), which parses it (\<open>parsePacket\<close>), asks the resource table (\<open>matchIP\<close>) and the
  flow table (\<open>queuePacket\<close>) and writes a data frame (\<open>encodeDataFrame\<close>). A downlink frame is cut into packets
  (\<open>splitPackets\<close>), mapped back (\<open>Downlink\<close>) and queued for WireGuard (\<open>deliver_enqueue\<close>, \<open>Relay.Read\<close>).

  \<^bold>\<open>Which theory models what.\<close> Definitions keep the names of the source; the records have its fields with a
  prefix; errors are values of \<open>Errors\<close>, sums or options; a Go panic is \<open>None\<close>.

  \<^item> \<open>Prelude\<close>, \<open>NetAddr\<close>, \<open>Go_Strings\<close>, \<open>Hashes\<close>, \<open>Json\<close>, \<open>Json_Props\<close>: what the sources use of the language
    and its library: bytes and words, connections, Go maps (locale \<open>go_map\<close>), IP addresses, strings, SHA-256,
    HMAC and MD5, \<open>encoding/json\<close>. \<open>Json_Props\<close> shows that reading inverts writing.
  \<^item> \<open>Errors\<close>: \<open>ztna/errors.go\<close>, \<open>dial/errors.go\<close>, \<open>errors.Is\<close>, \<open>errors.As\<close>, \<open>errors.Join\<close>.
  \<^item> \<open>Packet\<close>: \<open>ztna/packet.go\<close>, the parser of uplink packets, with the exact conditions under which a packet passes.
  \<^item> \<open>Conntrack\<close>: \<open>ztna/conntrack.go\<close>, the flow table with its flows in an explicit store, since the
    Go code shares and compares pointers. \<open>Conntrack_Inv\<close> and \<open>Conntrack_Ops\<close> hold the invariant and its
    preservation per method, \<open>Conntrack_Props\<close> the runs: bounds of the caches, of the authentication
    requests and of the waiting time at a sweep. \<open>Conntrack_Fragments\<close> keeps the history of the accepted fragments beside
    a run: a tail fragment continues a chain from a first fragment, on its flow, within five seconds.
  \<^item> \<open>Checksum\<close>, \<open>Mapping\<close>, \<open>Mapping_Props\<close>: \<open>wireguard/mapping.go\<close>, the address mapper; incremental checksum
    updates agree with recomputation, for IP, TCP, UDP, ICMP and the packets quoted in ICMP errors.
  \<^item> \<open>Domain_Name\<close>, \<open>Resource\<close>, \<open>Resource_Parse\<close>, \<open>Resource_Props\<close>, \<open>Resource_Table\<close>: \<open>domain/name.go\<close>,
    \<open>ztna/resource*.go\<close>: targets, matching, wildcards, the parser of the decoded document; the matcher
    decides the glob relation, the first match is the longest prefix (locale \<open>comparator\<close> for the three sorts).
  \<^item> \<open>Wire\<close>, \<open>Wire_Props\<close>: \<open>ztna/wire.go\<close> and the frame reader of \<open>ztnatest/fake.go\<close>: each side reads what the
    other writes; cutting the stream is independent of the framing (locale \<open>stream_splitter\<close>).
  \<^item> \<open>Endpoint\<close>: \<open>l3/endpoint.go\<close>, with the compare-and-swap loop refined to one atomic change.
  \<^item> \<open>Auth_Request\<close>, \<open>Tunnel\<close>, \<open>Tunnel_Props\<close>, \<open>Tunnel_Traffic\<close>: \<open>ztna/tunnel.go\<close>, \<open>ztna/diagnostics.go\<close>: one tunnel
    connection from its handshake to its close: what may leave through it, what is counted, that nothing leaves after
    the close, when a silent peer is given up.
  \<^item> \<open>Relay\<close>, \<open>Relay_Props\<close>: \<open>wireguard/relay.go\<close>, \<open>wireguard/diagnostics.go\<close>.
  \<^item> \<open>Tcp\<close>, \<open>Tcp_Props\<close>: \<open>ztna/tcp.go\<close>, dialing through the campus nodes, with the reader of \<open>ztnatest/tcp.go\<close>.
  \<^item> \<open>Socks\<close>, \<open>Socks_Props\<close>, \<open>Socks_Budget\<close>: \<open>socks5/*.go\<close>: handlers over a client connection, and the server
    as a step relation over its connections for the budgets.
  \<^item> \<open>Packetlog\<close>: \<open>packetlog/packet.go\<close>.
  \<^item> \<open>Ipc\<close>, \<open>Ipc_Props\<close>, \<open>Ipc_Resources\<close>: \<open>ipc/protocol.go\<close>, \<open>ipc/client.go\<close>, \<open>ipc/resources.go\<close>.
  \<^item> \<open>Status\<close>: \<open>service/status.go\<close>; \<open>Service\<close>, \<open>Service_Props\<close>: \<open>service/service.go\<close>, \<open>service/endpoints.go\<close>: the
    actor. Its handlers are state transformers that may panic; a calculus of weakest preconditions carries the
    invariant, from which the accounting of logins and the priority of a stop request follow.
  \<^item> \<open>Server\<close>, \<open>Server_Props\<close>: \<open>service/server.go\<close>: the requests of the local socket answered by the actor (\<open>svc_call\<close>; a
    caller may give up while the actor has run, runs or will run its command), the slot of the resource listing, and the
    connections of the server as a step relation. A call of the client of \<open>Ipc\<close> gets the answer of the service to its
    request as answers are sent: on one line, and replaced by an error when the line would be too long.
  \<^item> \<open>Control\<close>: \<open>ztna/control.go\<close>, \<open>ztna/trust.go\<close>: from the outcome of an HTTP exchange to the values and errors of the
    program. \<open>Probe\<close>, \<open>Probe_Props\<close>: \<open>ztna/node.go\<close>, the choice of a node with its goroutines and channels: a schedule of moves
    is an interleaving, and under each one the probe ends with every connection closed but the one it returns.
    \<open>Session\<close>, \<open>Session_Props\<close>: \<open>ztna/session.go\<close>, \<open>ztna/device.go\<close>: login, layer 3, reconnection, trusted devices and the
    end of a session; how a login ends, the one logout it owes, the effort of the reconnection.
  \<^item> \<open>Config\<close>, \<open>Init_Identity\<close>, \<open>Config_Props\<close>: \<open>config/config.go\<close>, \<open>config/identity.go\<close>, \<open>config/file_unix.go\<close>: defaults, validation,
    and the identity written back into the YAML tree and the file. A configuration that loads opens the servers it describes.
  \<^item> \<open>Bearer\<close>, \<open>Bearer_Props\<close>: \<open>wireguard/keys.go\<close>, \<open>wireguard/device.go\<close>, \<open>service/bearer.go\<close>: keys, configuration texts, the
    device over its relay, attaching and detaching a session, the watch for the handshake. \<open>Bearer_Props\<close> reads the texts
    given to WireGuard with an interpreter of their commands (\<open>device_peers\<close>), so that it speaks of the peers themselves.

  \<^bold>\<open>Parameters.\<close> What a call to the network, the clock, a library device or another goroutine answers is an
  argument: the outcomes of writes (\<open>net\<close>), the bytes a connection delivers, the environment records of \<open>Tcp\<close>,
  \<open>Ipc\<close>, \<open>Service\<close>, \<open>Session\<close> and \<open>Init_Identity\<close> (with the YAML library), the order in which Go visits a map. Properties hold for all of them.

  \<^bold>\<open>Bounds and fuel.\<close> The JSON reader has fuel \<open>2 * n + 2\<close> on a text of length \<open>n\<close>, which every second
  recursive call consumes. The authentication chain has the eight rounds of the source, the
  reconnection a measure on the failures left, the run of a session the list of link losses still to come. The compare-and-swap loop of the endpoint takes the
  number of interfering changes. A schedule of a probe is a finite list; one that stops before the probe has returned is continued by
  the timeout the code sets (\<open>probe_timeout\<close>), which always ends it.
  Numbers of flows stay below \<open>2^64 - 1\<close>, and the clock never reads Go's zero time; both are hypotheses where used.

  \<^bold>\<open>Not modelled.\<close> The HTTP client, TLS and the pinning of nodes (\<open>ztna/pins.go\<close>), the encryption of the password, sockets
  and the remaining file access (\<open>ipc/listen_*.go\<close>, \<open>config/file_windows.go\<close>, the proxies of \<open>dial\<close>), the loopback socket of
  \<open>wireguard/bind.go\<close> and the wireguard-go library, the decoding of the resource document into its fields, the process
  entry points (\<open>cmd/njuvpn\<close>) and the release scripts: they are calls of libraries and of the operating
  system around the parts above. Display texts are parameters or ASCII keys.
\<close>

end
